(* ===== verification/Prelude.thy ===== *)
theory Prelude
  imports Main "HOL-Library.AList" "HOL-Library.Multiset"
begin

text \<open>
  What every component theory shares: the collections of simplification rules, the fragment of
  Python's \<open>str\<close> and \<open>dict\<close> the sources use, and two interfaces.

  Strings are character lists, a Python \<open>dict\<close> whose iteration order matters is an association
  list with Python's update discipline (a known key keeps its place, a new key goes last), which
  is what \<open>AList.update\<close> computes. Times are integers in microseconds, the resolution of
  \<open>datetime\<close>.

  The locale \<open>machine\<close> is the contract of a component whose operations all keep an
  invariant; the locale \<open>keyed_store\<close> is the contract of the dictionaries the components keep.
\<close>

section \<open>Collections\<close>

named_theorems pystr \<open>equations and facts of the string helpers\<close>

named_theorems pydict \<open>facts about insertion-ordered dictionaries\<close>

type_synonym time_us = int

type_synonym ('k, 'v) dict = "('k \<times> 'v) list"

section \<open>Python values\<close>

text \<open>
  The JSON-like values that cross the runtime's boundaries. A float is its mantissa and binary
  exponent; a dictionary keeps its insertion order.
\<close>

datatype pyval =
    PNone
  | PBool bool
  | PInt int
  | PFloat int int
  | PStr string
  | PList "pyval list"
  | PDict "(string \<times> pyval) list"

definition py_truthy :: "pyval \<Rightarrow> bool" where
  "py_truthy v =
     (case v of
        PNone \<Rightarrow> False
      | PBool b \<Rightarrow> b
      | PInt i \<Rightarrow> i \<noteq> 0
      | PFloat m e \<Rightarrow> m \<noteq> 0
      | PStr s \<Rightarrow> s \<noteq> []
      | PList xs \<Rightarrow> xs \<noteq> []
      | PDict d \<Rightarrow> d \<noteq> [])"

text \<open>\<open>d.get(k)\<close> of a dictionary, and \<open>None\<close> of anything else.\<close>

definition dict_get :: "string \<Rightarrow> pyval \<Rightarrow> pyval" where
  "dict_get k v = (case v of PDict d \<Rightarrow> (case map_of d k of Some x \<Rightarrow> x | None \<Rightarrow> PNone) | _ \<Rightarrow> PNone)"

definition is_dict :: "pyval \<Rightarrow> bool" where
  "is_dict v = (case v of PDict _ \<Rightarrow> True | _ \<Rightarrow> False)"

text \<open>
  How a call of a foreign function ends: a value, an \<open>Exception\<close> with its text, or a
  \<open>BaseException\<close> that no \<open>except Exception\<close> clause sees (a cancelled coroutine).
\<close>

datatype 'a outcome = Returns 'a | Raises string | Interrupts

section \<open>Database sessions\<close>

text \<open>
  A session works on its own view of the committed data. \<open>flush\<close> changes the view only; \<open>commit\<close>
  makes it the committed data; closing without a commit drops it.
\<close>

record 'd db_session =
  committed :: 'd
  working :: 'd

definition open_session :: "'d \<Rightarrow> 'd db_session" where
  "open_session d = \<lparr>committed = d, working = d\<rparr>"

definition flush_with :: "('d \<Rightarrow> 'd) \<Rightarrow> 'd db_session \<Rightarrow> 'd db_session" where
  "flush_with f s = s\<lparr>working := f (working s)\<rparr>"

definition commit_session :: "'d db_session \<Rightarrow> 'd db_session" where
  "commit_session s = s\<lparr>committed := working s\<rparr>"

definition rollback_session :: "'d db_session \<Rightarrow> 'd db_session" where
  "rollback_session s = s\<lparr>working := committed s\<rparr>"

definition close_session :: "'d db_session \<Rightarrow> 'd" where
  "close_session s = committed s"

section \<open>Python strings\<close>

definition startswith :: "string \<Rightarrow> string \<Rightarrow> bool" where
  "startswith s p = (take (length p) s = p)"

fun find_char :: "char \<Rightarrow> string \<Rightarrow> nat option" where
  "find_char c [] = None"
| "find_char c (x # xs) = (if x = c then Some 0 else map_option Suc (find_char c xs))"

fun split_on :: "char \<Rightarrow> string \<Rightarrow> string list" where
  "split_on c [] = [[]]"
| "split_on c (x # xs) =
     (if x = c then [] # split_on c xs
      else (case split_on c xs of [] \<Rightarrow> [[x]] | w # ws \<Rightarrow> (x # w) # ws))"

fun join_with :: "string \<Rightarrow> string list \<Rightarrow> string" where
  "join_with sep [] = []"
| "join_with sep [w] = w"
| "join_with sep (w # v # ws) = w @ sep @ join_with sep (v # ws)"

fun contains_sub :: "string \<Rightarrow> string \<Rightarrow> bool" where
  "contains_sub p [] = (p = [])"
| "contains_sub p (x # xs) = (startswith (x # xs) p \<or> contains_sub p xs)"

definition lower_char :: "char \<Rightarrow> char" where
  "lower_char c =
     (if 65 \<le> (of_char c :: nat) \<and> (of_char c :: nat) \<le> 90 then char_of ((of_char c :: nat) + 32)
      else c)"

definition py_lower :: "string \<Rightarrow> string" where
  "py_lower s = map lower_char s"

definition is_space :: "char \<Rightarrow> bool" where
  "is_space c = ((of_char c :: nat) \<in> {9, 10, 11, 12, 13, 28, 29, 30, 31, 32})"

definition py_strip :: "string \<Rightarrow> string" where
  "py_strip s = rev (dropWhile is_space (rev (dropWhile is_space s)))"

text \<open>\<open>x or d\<close> on an optional string: \<open>None\<close> and the empty string are both false.\<close>

definition or_str :: "string option \<Rightarrow> string \<Rightarrow> string" where
  "or_str x d = (case x of None \<Rightarrow> d | Some s \<Rightarrow> if s = [] then d else s)"

definition truthy_str :: "string option \<Rightarrow> bool" where
  "truthy_str x = (case x of None \<Rightarrow> False | Some s \<Rightarrow> s \<noteq> [])"

section \<open>Interfaces\<close>

text \<open>
  A component with state \<open>'s\<close> and operations \<open>'e\<close>: every operation keeps the invariant, so every
  history of operations does.
\<close>

locale machine =
  fixes inv :: "'s \<Rightarrow> bool" and step :: "'s \<Rightarrow> 'e \<Rightarrow> 's"
  assumes step_inv: "inv s \<Longrightarrow> inv (step s e)"
begin

lemma run_inv: "inv s \<Longrightarrow> inv (foldl step s es)"
  by (induction es arbitrary: s) (simp_all add: step_inv)

lemma prefix_inv: "inv s \<Longrightarrow> inv (foldl step s (take n es))"
  by (rule run_inv)

end

text \<open>A dictionary as its clients use it: lookup after store, after delete, and the key order.\<close>

locale keyed_store =
  fixes get :: "'d \<Rightarrow> 'k \<Rightarrow> 'v option"
    and put :: "'k \<Rightarrow> 'v \<Rightarrow> 'd \<Rightarrow> 'd"
    and del :: "'k \<Rightarrow> 'd \<Rightarrow> 'd"
    and keys :: "'d \<Rightarrow> 'k list"
  assumes get_put: "get (put k v d) j = (if j = k then Some v else get d j)"
    and get_del: "get (del k d) j = (if j = k then None else get d j)"
    and in_keys: "k \<in> set (keys d) \<longleftrightarrow> get d k \<noteq> None"
    and put_distinct: "distinct (keys d) \<Longrightarrow> distinct (keys (put k v d))"
    and del_distinct: "distinct (keys d) \<Longrightarrow> distinct (keys (del k d))"
begin

lemma del_put_other: "j \<noteq> k \<Longrightarrow> get (del k (put k v d)) j = get d j"
  by (simp add: get_put get_del)

lemma keys_put: "set (keys (put k v d)) = insert k (set (keys d))"
  by (auto simp: in_keys get_put split: if_splits)

lemma keys_del: "set (keys (del k d)) = set (keys d) - {k}"
  by (auto simp: in_keys get_del split: if_splits)

lemma get_del_all: "get (fold del ks d) j = (if j \<in> set ks then None else get d j)"
  by (induction ks arbitrary: d) (auto simp: get_del)

lemma distinct_del_all: "distinct (keys d) \<Longrightarrow> distinct (keys (fold del ks d))"
  by (induction ks arbitrary: d) (auto simp: del_distinct)

end

definition dict_keys :: "('k, 'v) dict \<Rightarrow> 'k list" where
  "dict_keys d = map fst d"

interpretation pd: keyed_store map_of AList.update AList.delete dict_keys
proof unfold_locales
  fix d :: "('k, 'v) dict" and k j :: 'k and v :: 'v
  show "map_of (AList.update k v d) j = (if j = k then Some v else map_of d j)"
    by (simp add: update_conv')
  show "map_of (AList.delete k d) j = (if j = k then None else map_of d j)"
    by (simp add: delete_conv')
  show "k \<in> set (dict_keys d) \<longleftrightarrow> map_of d k \<noteq> None"
    by (simp add: dict_keys_def map_of_eq_None_iff)
  show "distinct (dict_keys d) \<Longrightarrow> distinct (dict_keys (AList.update k v d))"
    by (simp add: dict_keys_def distinct_update)
  show "distinct (dict_keys d) \<Longrightarrow> distinct (dict_keys (AList.delete k d))"
    by (simp add: dict_keys_def distinct_delete)
qed

lemmas dict_laws [pydict] =
  pd.get_put pd.get_del pd.keys_put pd.keys_del pd.put_distinct pd.del_distinct

section \<open>Facts about dictionaries\<close>

lemma delete_all_filter: "fold AList.delete ks d = filter (\<lambda>(k, v). k \<notin> set ks) d"
proof (induction ks arbitrary: d)
  case (Cons k ks)
  have "AList.delete k d = filter (\<lambda>(j, v). j \<noteq> k) d"
    by (auto simp: AList.delete_eq split_def intro: filter_cong)
  with Cons show ?case by (simp add: split_def conj_commute)
qed simp

lemma update_new: "k \<notin> fst ` set d \<Longrightarrow> AList.update k v d = d @ [(k, v)]"
  by (induction d) auto

lemma drop_matching:
  assumes "distinct (map fst d)"
  shows "fold AList.delete (map fst (filter P d)) d = filter (\<lambda>e. \<not> P e) d"
proof -
  have "k \<notin> fst ` set (filter P d) \<longleftrightarrow> \<not> P (k, v)" if "(k, v) \<in> set d" for k v
    using that eq_key_imp_eq_value [OF assms] by (force simp: image_iff)
  then show ?thesis unfolding delete_all_filter by (auto simp del: set_filter intro!: filter_cong)
qed

lemma mset_parts: "mset xs = mset (filter (\<lambda>x. \<not> P x) xs) + mset (filter P xs)"
  by (induction xs) auto

lemma distinct_le: "distinct xs \<longleftrightarrow> (\<forall>a. count (mset xs) a \<le> 1)"
proof -
  have "count (mset xs) a = (if a \<in> set xs then 1 else 0) \<longleftrightarrow> count (mset xs) a \<le> 1" for a
  proof (cases "a \<in> set xs")
    case True
    then have "1 \<le> count (mset xs) a" by (simp add: Suc_le_eq count_mset_gt_0)
    then show ?thesis using True by (auto intro: le_antisym)
  next
    case False
    then have none: "count (mset xs) a = 0" by (simp add: count_eq_zero_iff)
    show ?thesis unfolding none using False by simp
  qed
  then show ?thesis unfolding distinct_count_atmost_1 by (simp only:)
qed

section \<open>Facts about strings\<close>

lemma truthy_str_None [simp]: "\<not> truthy_str None"
  by (simp add: truthy_str_def)

lemma startswith_append [pystr, simp]: "startswith (p @ s) p"
  by (simp add: startswith_def)

lemma startswith_iff [pystr]: "startswith s p \<longleftrightarrow> (\<exists>r. s = p @ r)"
  by (metis append_eq_conv_conj append_take_drop_id startswith_def)

lemma find_char_None [pystr]: "find_char c s = None \<longleftrightarrow> c \<notin> set s"
  by (induction s) auto

lemma find_char_append [pystr]: "c \<notin> set a \<Longrightarrow> find_char c (a @ c # b) = Some (length a)"
  by (induction a) auto

lemma find_char_Some [pystr]:
  "find_char c s = Some i \<Longrightarrow> i < length s \<and> s ! i = c \<and> c \<notin> set (take i s)"
  by (induction s arbitrary: i) (auto split: if_splits)

lemma split_on_ne [simp]: "split_on c s \<noteq> []"
  by (induction s) (auto split: list.splits)

lemma split_on_id: "c \<notin> set s \<Longrightarrow> split_on c s = [s]"
  by (induction s) auto

lemma split_on_append: "c \<notin> set a \<Longrightarrow> split_on c (a @ c # b) = a # split_on c b"
  by (induction a) (auto split: list.splits)

lemma join_split: "join_with [c] (split_on c s) = s"
proof (induction s)
  case Nil
  then show ?case by simp
next
  case (Cons x s)
  obtain w ws where ws: "split_on c s = w # ws"
    using split_on_ne by (meson list.exhaust)
  with Cons show ?case by (cases ws) auto
qed

lemma split_join:
  assumes "ws \<noteq> []" and "\<forall>w\<in>set ws. c \<notin> set w"
  shows "split_on c (join_with [c] ws) = ws"
  using assms
proof (induction ws rule: induct_list012)
  case (3 w v ws)
  then show ?case by (simp add: split_on_append)
qed (auto simp: split_on_id)

lemma contains_sub_iff [pystr]: "contains_sub p s \<longleftrightarrow> (\<exists>a b. s = a @ p @ b)"
proof (induction s)
  case (Cons x s)
  have "(\<exists>a b. x # s = a @ p @ b) \<longleftrightarrow> (\<exists>b. x # s = p @ b) \<or> (\<exists>a b. s = a @ p @ b)"
    by (metis append_Cons append_Nil list.exhaust list.inject)
  with Cons show ?case by (auto simp: startswith_iff)
qed simp

end
