(* ===== verification/Circuit_Breaker.thy ===== *)
theory Circuit_Breaker
  imports Prelude
begin

text \<open>
  \<^verbatim>\<open>AINDY/kernel/circuit_breaker.py\<close>: the breaker that guards the calls to the model providers.

  \<open>circuit_breaker\<close> is the object's state, one definition per method. The lock makes each of
  \<open>enter_call\<close>, \<open>record_success\<close>, \<open>record_failure\<close> and \<open>cb_reset\<close> atomic; the guarded function
  runs outside the lock, so calls of several threads interleave. \<open>cb_call\<close> is one call on its own;
  \<open>cb_step\<close> is the interleaving of any number of calls, with the phases of the calls in flight
  as part of the state. A guarded function may return, raise an \<open>Exception\<close>, or leave by an
  exception outside \<open>Exception\<close> (\<open>CancelledError\<close>, \<open>KeyboardInterrupt\<close>), which the handler of
  \<open>call\<close> does not catch. The gauge update and the log lines of \<open>_transition_to\<close> are left out.
\<close>

datatype CircuitState = CLOSED | OPEN | HALF_OPEN

datatype circuit_error = CircuitOpenError string

datatype cb_phase = Closed_phase | Half_open_phase

record circuit_breaker =
  cb_name :: string
  failure_threshold :: int
  recovery_timeout_secs :: int
  cb_state :: CircuitState
  failure_count :: int
  opened_at :: "time_us option"
  half_open_in_flight :: bool

definition new_circuit_breaker :: "string \<Rightarrow> int \<Rightarrow> int \<Rightarrow> circuit_breaker" where
  "new_circuit_breaker name thr rec =
     \<lparr>cb_name = name, failure_threshold = thr, recovery_timeout_secs = rec, cb_state = CLOSED,
      failure_count = 0, opened_at = None, half_open_in_flight = False\<rparr>"

definition openai_circuit_breaker :: circuit_breaker where
  "openai_circuit_breaker = new_circuit_breaker ''openai'' 3 60"

definition deepseek_circuit_breaker :: circuit_breaker where
  "deepseek_circuit_breaker = new_circuit_breaker ''deepseek'' 3 60"

definition transition_to :: "CircuitState \<Rightarrow> time_us \<Rightarrow> circuit_breaker \<Rightarrow> circuit_breaker" where
  "transition_to new_state now b =
     (case new_state of
        CLOSED \<Rightarrow> b\<lparr>cb_state := CLOSED, failure_count := 0, opened_at := None,
                    half_open_in_flight := False\<rparr>
      | OPEN \<Rightarrow> b\<lparr>cb_state := OPEN, opened_at := Some now, half_open_in_flight := False\<rparr>
      | HALF_OPEN \<Rightarrow> b\<lparr>cb_state := HALF_OPEN\<rparr>)"

definition open_message :: "circuit_breaker \<Rightarrow> string" where
  "open_message b =
     ''Circuit '' @ [CHR 0x27] @ cb_name b @ [CHR 0x27] @ '' is open; rejecting call''"

definition probe_message :: "circuit_breaker \<Rightarrow> string" where
  "probe_message b =
     ''Circuit '' @ [CHR 0x27] @ cb_name b @ [CHR 0x27] @ '' is half-open; probe already in flight''"

definition recovery_elapsed :: "time_us \<Rightarrow> circuit_breaker \<Rightarrow> bool" where
  "recovery_elapsed now b =
     (case opened_at b of
        None \<Rightarrow> False
      | Some t \<Rightarrow> recovery_timeout_secs b * 1000000 \<le> now - t)"

definition enter_call ::
    "time_us \<Rightarrow> circuit_breaker \<Rightarrow> (circuit_error + cb_phase) \<times> circuit_breaker" where
  "enter_call now b =
     (case cb_state b of
        CLOSED \<Rightarrow> (Inr Closed_phase, b)
      | OPEN \<Rightarrow>
          (if recovery_elapsed now b
           then (Inr Half_open_phase, (transition_to HALF_OPEN now b)\<lparr>half_open_in_flight := True\<rparr>)
           else (Inl (CircuitOpenError (open_message b)), b))
      | HALF_OPEN \<Rightarrow>
          (if half_open_in_flight b then (Inl (CircuitOpenError (probe_message b)), b)
           else (Inr Half_open_phase, b\<lparr>half_open_in_flight := True\<rparr>)))"

definition record_success :: "cb_phase \<Rightarrow> time_us \<Rightarrow> circuit_breaker \<Rightarrow> circuit_breaker" where
  "record_success ph now b =
     (if ph = Half_open_phase \<or> cb_state b \<noteq> CLOSED then transition_to CLOSED now b
      else b\<lparr>failure_count := 0\<rparr>)"

definition record_failure :: "cb_phase \<Rightarrow> time_us \<Rightarrow> circuit_breaker \<Rightarrow> circuit_breaker" where
  "record_failure ph now b =
     (if ph = Half_open_phase \<or> cb_state b = HALF_OPEN
      then transition_to OPEN now (b\<lparr>failure_count := failure_threshold b\<rparr>)
      else
        let b' = b\<lparr>failure_count := failure_count b + 1\<rparr> in
        if failure_threshold b' \<le> failure_count b' then transition_to OPEN now b' else b')"

definition cb_reset :: "time_us \<Rightarrow> circuit_breaker \<Rightarrow> circuit_breaker" where
  "cb_reset now b = transition_to CLOSED now b"

datatype 'a call_result = Result 'a | Rejected circuit_error | Reraised string | Aborted

definition cb_call ::
    "time_us \<Rightarrow> time_us \<Rightarrow> 'a outcome \<Rightarrow> circuit_breaker \<Rightarrow> 'a call_result \<times> circuit_breaker" where
  "cb_call t0 t1 func b =
     (case enter_call t0 b of
        (Inl e, b') \<Rightarrow> (Rejected e, b')
      | (Inr ph, b') \<Rightarrow>
          (case func of
             Returns v \<Rightarrow> (Result v, record_success ph t1 b')
           | Raises m \<Rightarrow> (Reraised m, record_failure ph t1 b')
           | Interrupts \<Rightarrow> (Aborted, b')))"

definition async_call ::
    "time_us \<Rightarrow> time_us \<Rightarrow> 'a outcome \<Rightarrow> circuit_breaker \<Rightarrow> 'a call_result \<times> circuit_breaker" where
  "async_call t0 t1 coro b =
     (case enter_call t0 b of
        (Inl e, b') \<Rightarrow> (Rejected e, b')
      | (Inr ph, b') \<Rightarrow>
          (case coro of
             Returns v \<Rightarrow> (Result v, record_success ph t1 b')
           | Raises m \<Rightarrow> (Reraised m, record_failure ph t1 b')
           | Interrupts \<Rightarrow> (Aborted, b')))"

text \<open>A sequence of calls, each with its start time, its end time and what the function does.\<close>

fun run_calls ::
    "(time_us \<times> time_us \<times> 'a outcome) list \<Rightarrow> circuit_breaker \<Rightarrow> 'a call_result list \<times> circuit_breaker"
  where
  "run_calls [] b = ([], b)"
| "run_calls ((t0, t1, f) # cs) b =
     (let (r, b') = cb_call t0 t1 f b; (rs, b'') = run_calls cs b' in (r # rs, b''))"

text \<open>The interleaving: the breaker and the phases of the calls that have entered and not left.\<close>

record cb_sys =
  breaker :: circuit_breaker
  in_flight :: "cb_phase list"

datatype cb_event =
    Enter time_us
  | Succeed cb_phase time_us
  | Fail cb_phase time_us
  | Abort cb_phase
  | Reset time_us

inductive cb_step :: "cb_sys \<Rightarrow> cb_event \<Rightarrow> cb_sys \<Rightarrow> bool" where
  admitted: "enter_call now (breaker s) = (Inr ph, b') \<Longrightarrow>
     cb_step s (Enter now) (s\<lparr>breaker := b', in_flight := ph # in_flight s\<rparr>)"
| rejected: "enter_call now (breaker s) = (Inl e, b') \<Longrightarrow>
     cb_step s (Enter now) (s\<lparr>breaker := b'\<rparr>)"
| succeeded: "ph \<in> set (in_flight s) \<Longrightarrow>
     cb_step s (Succeed ph now)
       (s\<lparr>breaker := record_success ph now (breaker s), in_flight := remove1 ph (in_flight s)\<rparr>)"
| failed: "ph \<in> set (in_flight s) \<Longrightarrow>
     cb_step s (Fail ph now)
       (s\<lparr>breaker := record_failure ph now (breaker s), in_flight := remove1 ph (in_flight s)\<rparr>)"
| aborted: "ph \<in> set (in_flight s) \<Longrightarrow>
     cb_step s (Abort ph) (s\<lparr>in_flight := remove1 ph (in_flight s)\<rparr>)"
| was_reset: "cb_step s (Reset now) (s\<lparr>breaker := cb_reset now (breaker s)\<rparr>)"

inductive cb_reachable :: "circuit_breaker \<Rightarrow> cb_sys \<Rightarrow> bool" for b0 where
  cb_start: "cb_reachable b0 \<lparr>breaker = b0, in_flight = []\<rparr>"
| cb_next: "cb_reachable b0 s \<Longrightarrow> cb_step s e t \<Longrightarrow> cb_reachable b0 t"

inductive_cases cb_stepE: "cb_step s e t"

section \<open>The invariant\<close>

text \<open>
  What the fields say of each other. A closed circuit is below its threshold and carries no open
  time; an open one carries its open time and a count at or above the threshold; a half-open one
  always has its probe marked in flight, so the last branch of \<open>_enter_call\<close> is never taken.
\<close>

definition cb_inv :: "circuit_breaker \<Rightarrow> bool" where
  "cb_inv b \<longleftrightarrow> 0 < failure_threshold b \<and>
     (case cb_state b of
        CLOSED \<Rightarrow> 0 \<le> failure_count b \<and> failure_count b < failure_threshold b \<and>
                  opened_at b = None \<and> \<not> half_open_in_flight b
      | OPEN \<Rightarrow> failure_threshold b \<le> failure_count b \<and> opened_at b \<noteq> None \<and>
                \<not> half_open_in_flight b
      | HALF_OPEN \<Rightarrow> failure_threshold b \<le> failure_count b \<and> opened_at b \<noteq> None \<and>
                half_open_in_flight b)"

lemmas cb_defs = enter_call_def transition_to_def record_success_def record_failure_def
  cb_reset_def Let_def

lemma cb_inv_new: "0 < thr \<Longrightarrow> cb_inv (new_circuit_breaker n thr r)"
  by (simp add: cb_inv_def new_circuit_breaker_def)

lemma cb_inv_enter: "cb_inv b \<Longrightarrow> cb_inv (snd (enter_call now b))"
  by (auto simp: cb_inv_def cb_defs split: CircuitState.splits)

lemma cb_inv_success: "cb_inv b \<Longrightarrow> cb_inv (record_success ph now b)"
  by (auto simp: cb_inv_def cb_defs split: CircuitState.splits)

lemma cb_inv_failure: "cb_inv b \<Longrightarrow> cb_inv (record_failure ph now b)"
  by (auto simp: cb_inv_def cb_defs split: CircuitState.splits)

lemma cb_inv_reset: "cb_inv b \<Longrightarrow> cb_inv (cb_reset now b)"
  by (auto simp: cb_inv_def cb_defs)

lemmas cb_inv_ops = cb_inv_enter cb_inv_success cb_inv_failure cb_inv_reset

lemma cb_inv_entered: "enter_call now b = (r, b') \<Longrightarrow> cb_inv b \<Longrightarrow> cb_inv b'"
  using cb_inv_enter [of b now] by simp

lemma cb_step_inv: "cb_step s e t \<Longrightarrow> cb_inv (breaker s) \<Longrightarrow> cb_inv (breaker t)"
  by (induction rule: cb_step.induct) (auto intro: cb_inv_ops cb_inv_entered)

lemma cb_call_inv: "cb_inv b \<Longrightarrow> cb_inv (snd (cb_call t0 t1 f b))"
  using cb_inv_enter [of b t0]
  by (auto simp: cb_call_def cb_inv_success cb_inv_failure split: prod.splits sum.splits outcome.splits)

interpretation cbm: machine cb_inv "\<lambda>b (t0, t1, f). snd (cb_call t0 t1 f b)"
  by unfold_locales (auto intro: cb_call_inv)

lemma enter_keeps_config [simp]:
  "failure_threshold (snd (enter_call now b)) = failure_threshold b"
  "recovery_timeout_secs (snd (enter_call now b)) = recovery_timeout_secs b"
  by (auto simp: cb_defs split: CircuitState.splits)

lemma enter_half_open:
  "cb_inv b \<Longrightarrow> cb_state b = HALF_OPEN \<Longrightarrow>
   enter_call now b = (Inl (CircuitOpenError (probe_message b)), b)"
  by (simp add: cb_inv_def enter_call_def)

lemma enter_closed: "cb_state b = CLOSED \<Longrightarrow> enter_call now b = (Inr Closed_phase, b)"
  by (simp add: enter_call_def)

lemma enter_open_early:
  "cb_state b = OPEN \<Longrightarrow> \<not> recovery_elapsed now b \<Longrightarrow>
   enter_call now b = (Inl (CircuitOpenError (open_message b)), b)"
  by (simp add: enter_call_def)

lemma enter_open_late:
  "cb_state b = OPEN \<Longrightarrow> recovery_elapsed now b \<Longrightarrow>
   enter_call now b = (Inr Half_open_phase, b\<lparr>cb_state := HALF_OPEN, half_open_in_flight := True\<rparr>)"
  by (simp add: enter_call_def transition_to_def)

lemma cb_reachable_inv:
  "cb_reachable b0 s \<Longrightarrow> cb_inv b0 \<Longrightarrow> cb_inv (breaker s)"
  by (induction rule: cb_reachable.induct) (auto dest: cb_step_inv)

lemma run_calls_append:
  "run_calls (cs @ ds) b =
     (let (rs, b') = run_calls cs b; (ss, b'') = run_calls ds b' in (rs @ ss, b''))"
  by (induction cs arbitrary: b) (auto simp: Let_def split: prod.splits)

lemma run_calls_Cons:
  "snd (run_calls ((t0, t1, f) # cs) b) = snd (run_calls cs (snd (cb_call t0 t1 f b)))"
  by (simp add: Let_def split: prod.splits)

lemma run_calls_snoc:
  "snd (run_calls (cs @ [(t0, t1, f)]) b) = snd (cb_call t0 t1 f (snd (run_calls cs b)))"
  by (simp add: run_calls_append Let_def split: prod.splits)

lemma failing_calls_count:
  fixes cs :: "(time_us \<times> time_us \<times> 'a outcome) list"
  assumes "cb_state b = CLOSED"
    and "failure_count b + int (length cs) < failure_threshold b"
    and "\<forall>c\<in>set cs. \<exists>m. snd (snd c) = Raises m"
  shows "snd (run_calls cs b) = b\<lparr>failure_count := failure_count b + int (length cs)\<rparr>"
  using assms
proof (induction cs arbitrary: b)
  case Nil
  then show ?case by simp
next
  case (Cons c cs)
  obtain t0 t1 m where c: "c = (t0, t1, Raises m)"
    using Cons.prems(3) by (metis list.set_intros(1) prod.exhaust_sel)
  let ?b = "b\<lparr>failure_count := failure_count b + 1\<rparr>"
  have "cb_call t0 t1 (Raises m :: 'a outcome) b = (Reraised m, ?b)"
    using Cons.prems(1,2) by (simp add: cb_call_def enter_closed record_failure_def Let_def)
  moreover have "snd (run_calls cs ?b) = ?b\<lparr>failure_count := failure_count ?b + int (length cs)\<rparr>"
    using Cons.prems by (intro Cons.IH) auto
  ultimately show ?case by (simp add: c run_calls_Cons algebra_simps del: run_calls.simps)
qed

lemma stuck_half_open:
  assumes "cb_inv b" and "cb_state b = HALF_OPEN"
  shows "run_calls cs b = (replicate (length cs) (Rejected (CircuitOpenError (probe_message b))), b)"
  by (induction cs) (auto simp: cb_call_def enter_half_open [OF assms])

section \<open>Properties\<close>



text \<open>
  A fresh breaker stays closed through fewer than \<open>failure_threshold\<close> consecutive failing
  calls, opens at the one that reaches the threshold, stamped with that call's end, and then
  rejects without running the function until \<open>recovery_timeout_secs\<close> have passed.
\<close>

theorem consecutive_failures_trip:
  fixes cs :: "(time_us \<times> time_us \<times> 'a outcome) list"
  assumes thr: "0 < thr" and len: "length cs = nat thr"
    and fails: "\<forall>c\<in>set cs. \<exists>m. snd (snd c) = Raises m"
  shows "(\<forall>k < length cs. cb_state (snd (run_calls (take k cs) (new_circuit_breaker n thr r))) = CLOSED) \<and>
    (let b = snd (run_calls cs (new_circuit_breaker n thr r)); t = fst (snd (last cs)) in
       cb_state b = OPEN \<and> opened_at b = Some t \<and>
       (\<forall>t0 t1 (f :: 'a outcome). t0 - t < r * 1000000 \<longrightarrow>
          cb_call t0 t1 f b = (Rejected (CircuitOpenError (open_message b)), b)))"
proof -
  let ?b0 = "new_circuit_breaker n thr r"
  have prefix: "snd (run_calls (take k cs) ?b0) = ?b0\<lparr>failure_count := int k\<rparr>" if "k < length cs" for k
  proof -
    have "\<forall>c\<in>set (take k cs). \<exists>m. snd (snd c) = Raises m"
      using fails by (meson in_set_takeD)
    then show ?thesis
      using that len failing_calls_count [of ?b0 "take k cs"] by (simp add: new_circuit_breaker_def)
  qed
  have ne: "cs \<noteq> []" using thr len by auto
  obtain t0 t1 m where c: "last cs = (t0, t1, Raises m)"
    using fails ne by (metis last_in_set prod.exhaust_sel)
  have "snd (run_calls cs ?b0) = snd (cb_call t0 t1 (Raises m :: 'a outcome) (?b0\<lparr>failure_count := thr - 1\<rparr>))"
  proof -
    have "snd (run_calls (take (length cs - 1) cs) ?b0) = ?b0\<lparr>failure_count := thr - 1\<rparr>"
      using prefix [of "length cs - 1"] ne thr len by (simp add: of_nat_diff)
    moreover have "cs = take (length cs - 1) cs @ [(t0, t1, Raises m)]"
      using ne c by (metis append_butlast_last_id butlast_conv_take)
    ultimately show ?thesis by (metis run_calls_snoc)
  qed
  moreover have "snd (cb_call t0 t1 (Raises m :: 'a outcome) (?b0\<lparr>failure_count := thr - 1\<rparr>)) =
      ?b0\<lparr>failure_count := thr, cb_state := OPEN, opened_at := Some t1\<rparr>"
    by (simp add: cb_call_def new_circuit_breaker_def cb_defs)
  ultimately show ?thesis
    using prefix c
    by (simp add: Let_def new_circuit_breaker_def cb_call_def enter_open_early recovery_elapsed_def)
qed

theorem consecutive_failures_trip_witness:
  "cb_state (snd (run_calls [(0, 1, Raises ''a''), (2, 3, Raises ''b''), (4, 5, Raises ''c'' :: nat outcome)]
     (new_circuit_breaker ''openai'' 3 60))) = OPEN"
  using consecutive_failures_trip
    [of 3 "[(0, 1, Raises ''a''), (2, 3, Raises ''b''), (4, 5, Raises ''c'' :: nat outcome)]" "''openai''" 60]
  by (simp add: Let_def del: run_calls.simps)

text \<open>
  One call on a breaker in any state the code can reach does what its documentation lists:
  closed, it runs the function and a success clears the count; open before the timeout, it is
  rejected; open after it, it probes, and the probe closes the circuit or reopens it with a new
  open time and the count at the threshold.
\<close>

theorem call_contract:
  fixes v :: 'a and f :: "'a outcome"
  assumes "cb_inv b"
  shows "(cb_state b = CLOSED \<longrightarrow>
            cb_call t0 t1 (Returns v) b = (Result v, b\<lparr>failure_count := 0\<rparr>)) \<and>
    (cb_state b = OPEN \<and> \<not> recovery_elapsed t0 b \<longrightarrow>
            cb_call t0 t1 f b = (Rejected (CircuitOpenError (open_message b)), b)) \<and>
    (cb_state b = OPEN \<and> recovery_elapsed t0 b \<longrightarrow>
            cb_call t0 t1 (Returns v) b =
              (Result v, b\<lparr>cb_state := CLOSED, failure_count := 0, opened_at := None\<rparr>) \<and>
            cb_call t0 t1 (Raises m :: 'a outcome) b =
              (Reraised m, b\<lparr>failure_count := failure_threshold b, opened_at := Some t1\<rparr>)) \<and>
    (cb_state b = HALF_OPEN \<longrightarrow>
            cb_call t0 t1 f b = (Rejected (CircuitOpenError (probe_message b)), b))"
proof -
  have open_idle: "cb_state b = OPEN \<Longrightarrow> \<not> half_open_in_flight b"
    using assms by (simp add: cb_inv_def)
  show ?thesis
    using enter_half_open [OF assms] open_idle
    by (auto simp: cb_call_def enter_closed enter_open_early enter_open_late record_success_def
        record_failure_def transition_to_def)
qed

theorem call_contract_witness:
  "cb_call 61000000 61500000 (Returns (7::nat))
     \<lparr>cb_name = ''openai'', failure_threshold = 3, recovery_timeout_secs = 60, cb_state = OPEN,
      failure_count = 3, opened_at = Some 1000000, half_open_in_flight = False\<rparr> =
   (Result 7, new_circuit_breaker ''openai'' 3 60)"
  using call_contract
    [of "\<lparr>cb_name = ''openai'', failure_threshold = 3, recovery_timeout_secs = 60, cb_state = OPEN,
          failure_count = 3, opened_at = Some 1000000, half_open_in_flight = False\<rparr>"
        61000000 61500000 "7::nat" "Interrupts" "''e''"]
  by (simp add: cb_inv_def recovery_elapsed_def new_circuit_breaker_def)

text \<open>
  A probe that leaves by an exception outside \<open>Exception\<close> (a cancelled coroutine) is never
  recorded: the circuit stays half-open with its probe marked in flight, and every later call,
  however late, is rejected without running.
\<close>

theorem cancelled_probe_blocks:
  assumes "cb_inv b" and "cb_state b = OPEN" and "recovery_elapsed t0 b"
  shows "\<exists>b'. async_call t0 t1 (Interrupts :: 'a outcome) b = (Aborted, b') \<and>
    cb_state b' = HALF_OPEN \<and>
    run_calls (cs :: (time_us \<times> time_us \<times> 'a outcome) list) b' =
      (replicate (length cs) (Rejected (CircuitOpenError (probe_message b'))), b')"
proof -
  let ?b = "b\<lparr>cb_state := HALF_OPEN, half_open_in_flight := True\<rparr>"
  have "async_call t0 t1 (Interrupts :: 'a outcome) b = (Aborted, ?b)"
    using assms(2,3) by (simp add: async_call_def enter_open_late)
  moreover have "cb_inv ?b"
    using assms(1,2) by (simp add: cb_inv_def)
  ultimately show ?thesis using stuck_half_open [of ?b cs] by auto
qed

theorem cancelled_probe_blocks_witness:
  "\<exists>b'. async_call 70000000 70000001 (Interrupts :: nat outcome)
      \<lparr>cb_name = ''openai'', failure_threshold = 3, recovery_timeout_secs = 60, cb_state = OPEN,
       failure_count = 3, opened_at = Some 0, half_open_in_flight = False\<rparr> = (Aborted, b') \<and>
    fst (run_calls [(10 ^ 15, 10 ^ 15, Returns (1::nat))] b') =
      [Rejected (CircuitOpenError (probe_message b'))]"
  using cancelled_probe_blocks
    [of "\<lparr>cb_name = ''openai'', failure_threshold = 3, recovery_timeout_secs = 60, cb_state = OPEN,
          failure_count = 3, opened_at = Some 0, half_open_in_flight = False\<rparr>"
        70000000 70000001 "[(10 ^ 15, 10 ^ 15, Returns (1::nat))]"]
  by (force simp: cb_inv_def recovery_elapsed_def)

end
