(* ===== verification/Tenant_Context.thy ===== *)
theory Tenant_Context
  imports Prelude
begin

text \<open>
  \<^verbatim>\<open>AINDY/kernel/tenant_context.py\<close>: the tenant boundary. \<open>tenant_context\<close> is the frozen dataclass;
  the \<open>assert_\<close> methods return \<open>Inl\<close> of the \<open>PermissionError\<close> they raise, as a value that carries
  what the message reports.
\<close>

record tenant_context =
  tenant_id :: string
  tc_user_id :: string
  namespace :: string
  capability_scope :: "string list"

datatype tenant_error =
    Outside_namespace string string
  | Cross_tenant string string
  | Capability_missing string string

definition memory_prefix :: "tenant_context \<Rightarrow> string" where
  "memory_prefix c = ''/memory/'' @ tenant_id c @ ''/''"

definition validate_memory_path :: "tenant_context \<Rightarrow> string \<Rightarrow> bool" where
  "validate_memory_path c path = startswith path (memory_prefix c)"

definition assert_memory_path :: "tenant_context \<Rightarrow> string \<Rightarrow> tenant_error + unit" where
  "assert_memory_path c path =
     (if \<not> validate_memory_path c path then Inl (Outside_namespace path (memory_prefix c))
      else Inr ())"

definition assert_same_tenant :: "tenant_context \<Rightarrow> string \<Rightarrow> tenant_error + unit" where
  "assert_same_tenant c other =
     (if other \<noteq> tenant_id c then Inl (Cross_tenant (tenant_id c) other) else Inr ())"

definition has_capability :: "tenant_context \<Rightarrow> string \<Rightarrow> bool" where
  "has_capability c cap = (cap \<in> set (capability_scope c))"

definition assert_capability :: "tenant_context \<Rightarrow> string \<Rightarrow> tenant_error + unit" where
  "assert_capability c cap =
     (if \<not> has_capability c cap then Inl (Capability_missing (tenant_id c) cap) else Inr ())"

definition build_tenant_context ::
    "string option \<Rightarrow> string list option \<Rightarrow> string option \<Rightarrow> tenant_context" where
  "build_tenant_context user scope tenant =
     (let resolved = or_str tenant (or_str user []) in
      \<lparr>tenant_id = resolved, tc_user_id = or_str user [],
       namespace = ''tenant:'' @ resolved,
       capability_scope = (case scope of None \<Rightarrow> [] | Some cs \<Rightarrow> cs)\<rparr>)"

section \<open>Lemmas\<close>

lemma tenant_defaults_to_user:
  "tenant_id (build_tenant_context (Some u) scope None) = u"
  by (auto simp: build_tenant_context_def Let_def or_str_def)

lemma namespace_prefix_unique:
  assumes "startswith p (''/memory/'' @ a @ ''/'')" and "startswith p (''/memory/'' @ b @ ''/'')"
    and "CHR ''/'' \<notin> set a" and "CHR ''/'' \<notin> set b"
  shows "a = b"
proof -
  obtain r1 r2 where "a @ CHR ''/'' # r1 = b @ CHR ''/'' # r2"
    using assms(1,2) by (auto simp: startswith_iff)
  then have "find_char CHR ''/'' (a @ CHR ''/'' # r1) = find_char CHR ''/'' (b @ CHR ''/'' # r2)"
    by simp
  then have "length a = length b" using assms(3,4) by (simp add: find_char_append)
  with \<open>a @ CHR ''/'' # r1 = b @ CHR ''/'' # r2\<close> show ?thesis by simp
qed

section \<open>Properties\<close>

text \<open>
  Tenant isolation of memory paths: tenants whose identifiers hold no slash have disjoint
  namespaces, so a path one tenant may use is refused with a permission error for every other.
\<close>

theorem tenant_namespaces_disjoint:
  assumes "CHR ''/'' \<notin> set (tenant_id c)" and "CHR ''/'' \<notin> set (tenant_id d)"
    and "tenant_id c \<noteq> tenant_id d" and "assert_memory_path c path = Inr ()"
  shows "assert_memory_path d path = Inl (Outside_namespace path (memory_prefix d)) \<and>
    assert_same_tenant c (tenant_id d) = Inl (Cross_tenant (tenant_id c) (tenant_id d))"
proof -
  have "validate_memory_path c path"
    using assms(4) by (auto simp: assert_memory_path_def split: if_splits)
  then have "\<not> validate_memory_path d path"
    using namespace_prefix_unique [of path "tenant_id c" "tenant_id d"] assms(1-3)
    by (auto simp: validate_memory_path_def memory_prefix_def)
  then show ?thesis using assms(3) by (simp add: assert_memory_path_def assert_same_tenant_def)
qed

theorem tenant_namespaces_disjoint_witness:
  "assert_memory_path (build_tenant_context (Some ''u2'') None None) ''/memory/u1/node'' =
   Inl (Outside_namespace ''/memory/u1/node''
          (memory_prefix (build_tenant_context (Some ''u2'') None None)))"
  using tenant_namespaces_disjoint
    [of "build_tenant_context (Some ''u1'') None None" "build_tenant_context (Some ''u2'') None None"
        "''/memory/u1/node''"]
  by (simp add: build_tenant_context_def Let_def or_str_def assert_memory_path_def validate_memory_path_def
      memory_prefix_def startswith_def)

end
