(* ===== verification/Syscall_Versioning.thy ===== *)
theory Syscall_Versioning
  imports Prelude "HOL-Library.List_Lexorder" "HOL-Library.Char_ord"
begin

text \<open>
  \<^verbatim>\<open>AINDY/kernel/syscall_versioning.py\<close>: names, schemas and versions of the syscall interface.

  A schema dictionary is read through its keys \<open>required\<close> and \<open>properties\<close> only, so it is a
  record of those two, each present or not; a property specification is its \<open>type\<close> entry. Error
  texts are values that carry what the text reports.
\<close>

definition ABI_VERSIONS :: "string list" where
  "ABI_VERSIONS = [''v1'']"

definition LATEST_STABLE_VERSION :: string where
  "LATEST_STABLE_VERSION = ''v1''"

definition SYSCALL_VERSION_FALLBACK :: bool where
  "SYSCALL_VERSION_FALLBACK = False"

definition SYSCALL_PREFIX :: string where
  "SYSCALL_PREFIX = ''sys.''"

record schema =
  required :: "string list option"
  properties :: "(string, string option) dict option"

definition empty_schema :: schema where
  "empty_schema = \<lparr>required = None, properties = None\<rparr>"

record SyscallSpec =
  ss_name :: string
  ss_version :: string
  ss_capability :: string
  ss_description :: string
  ss_input_schema :: schema
  ss_output_schema :: schema
  ss_stable :: bool
  ss_deprecated :: bool
  ss_deprecated_since :: "string option"
  ss_replacement :: "string option"

definition full_name :: "SyscallSpec \<Rightarrow> string" where
  "full_name s = ''sys.'' @ ss_version s @ ''.'' @ ss_name s"

text \<open>
  The message the specification and the dispatcher build for a deprecated syscall; the dash of the
  source's text is written as a hyphen.
\<close>

definition deprecation_text :: "string \<Rightarrow> string option \<Rightarrow> string option \<Rightarrow> string" where
  "deprecation_text name since repl =
     join_with '' ''
       ([''Syscall '' @ [CHR 0x27] @ name @ [CHR 0x27] @ '' is deprecated''] @
        (if truthy_str since then [''since '' @ the since] else []) @
        (if truthy_str repl
         then [''- use '' @ [CHR 0x27] @ the repl @ [CHR 0x27] @ '' instead''] else [])) @ ''.''"

definition deprecation_message :: "SyscallSpec \<Rightarrow> string option" where
  "deprecation_message s =
     (if \<not> ss_deprecated s then None
      else Some (deprecation_text (full_name s) (ss_deprecated_since s) (ss_replacement s)))"

datatype name_error =
    Bad_prefix string
  | Missing_version string
  | Empty_version string
  | Empty_action string

definition parse_syscall_name :: "string \<Rightarrow> name_error + (string \<times> string)" where
  "parse_syscall_name name =
     (if \<not> startswith name SYSCALL_PREFIX then Inl (Bad_prefix name)
      else
        let rest = drop (length SYSCALL_PREFIX) name in
        case find_char CHR ''.'' rest of
          None \<Rightarrow> Inl (Missing_version name)
        | Some dot_idx \<Rightarrow>
            let version = take dot_idx rest; action = drop (dot_idx + 1) rest in
            if version = [] then Inl (Empty_version name)
            else if action = [] then Inl (Empty_action name)
            else Inr (version, action))"

datatype pytype = Tstr | Tint | Tfloat | Tbool | Tlist | Tdict

definition SCHEMA_TYPE_MAP :: "string \<Rightarrow> pytype option" where
  "SCHEMA_TYPE_MAP = map_of
     [(''string'', Tstr), (''str'', Tstr), (''int'', Tint), (''integer'', Tint),
      (''float'', Tfloat), (''number'', Tfloat), (''bool'', Tbool), (''boolean'', Tbool),
      (''list'', Tlist), (''array'', Tlist), (''dict'', Tdict), (''object'', Tdict)]"

text \<open>Python's \<open>isinstance\<close>; \<open>bool\<close> is a subclass of \<open>int\<close>, and \<open>int\<close> is not one of \<open>float\<close>.\<close>

fun isinstance :: "pyval \<Rightarrow> pytype \<Rightarrow> bool" where
  "isinstance (PStr _) t = (t = Tstr)"
| "isinstance (PInt _) t = (t = Tint)"
| "isinstance (PBool _) t = (t = Tbool \<or> t = Tint)"
| "isinstance (PFloat _ _) t = (t = Tfloat)"
| "isinstance (PList _) t = (t = Tlist)"
| "isinstance (PDict _) t = (t = Tdict)"
| "isinstance PNone t = False"

fun type_name :: "pyval \<Rightarrow> string" where
  "type_name (PStr _) = ''str''"
| "type_name (PInt _) = ''int''"
| "type_name (PBool _) = ''bool''"
| "type_name (PFloat _ _) = ''float''"
| "type_name (PList _) = ''list''"
| "type_name (PDict _) = ''dict''"
| "type_name PNone = ''NoneType''"

datatype schema_error =
    Missing_required string
  | Wrong_type string string string

type_synonym payload = "(string, pyval) dict"

definition required_errors :: "string list \<Rightarrow> payload \<Rightarrow> schema_error list" where
  "required_errors req payload =
     concat (map (\<lambda>fname.
       if map_of payload fname = None \<or> map_of payload fname = Some PNone
       then [Missing_required fname] else []) req)"

definition type_error :: "payload \<Rightarrow> string \<times> string option \<Rightarrow> schema_error list" where
  "type_error payload p =
     (case map_of payload (fst p) of
        None \<Rightarrow> []
      | Some actual \<Rightarrow>
          (if \<not> truthy_str (snd p) then []
           else case SCHEMA_TYPE_MAP (the (snd p)) of
                  None \<Rightarrow> []
                | Some py_type \<Rightarrow>
                    if \<not> isinstance actual py_type
                    then [Wrong_type (fst p) (the (snd p)) (type_name actual)] else []))"

definition type_errors :: "(string, string option) dict \<Rightarrow> payload \<Rightarrow> schema_error list" where
  "type_errors props payload = concat (map (type_error payload) props)"

definition validate_payload :: "schema \<Rightarrow> payload \<Rightarrow> schema_error list" where
  "validate_payload sch payload =
     (if sch = empty_schema then []
      else
        let req = (case required sch of None \<Rightarrow> [] | Some r \<Rightarrow> r);
            props = (case properties sch of None \<Rightarrow> [] | Some p \<Rightarrow> p)
        in required_errors req payload @ type_errors props payload)"

definition validate_input :: "schema \<Rightarrow> payload \<Rightarrow> schema_error list" where
  "validate_input sch payload = validate_payload sch payload"

definition validate_output :: "schema \<Rightarrow> payload \<Rightarrow> schema_error list" where
  "validate_output sch data = validate_payload sch data"

definition resolve_version :: "string \<Rightarrow> string list \<Rightarrow> bool \<Rightarrow> string option" where
  "resolve_version requested available fallback =
     (if requested \<in> set available then Some requested
      else if fallback then
        let stable_candidates = rev (sort (filter (\<lambda>v. v \<in> set available) ABI_VERSIONS)) in
        if stable_candidates \<noteq> [] then Some (hd stable_candidates) else None
      else None)"

section \<open>Lemmas\<close>

definition req_of :: "schema \<Rightarrow> string list" where
  "req_of sch = (case required sch of None \<Rightarrow> [] | Some r \<Rightarrow> r)"

definition props_of :: "schema \<Rightarrow> (string, string option) dict" where
  "props_of sch = (case properties sch of None \<Rightarrow> [] | Some p \<Rightarrow> p)"

text \<open>The documented contract: each required field present and not \<open>None\<close>, each typed field of its type.\<close>

definition field_ok :: "payload \<Rightarrow> string \<times> string option \<Rightarrow> bool" where
  "field_ok payload p =
     (case map_of payload (fst p) of
        None \<Rightarrow> True
      | Some v \<Rightarrow> \<not> truthy_str (snd p) \<or>
          (case SCHEMA_TYPE_MAP (the (snd p)) of None \<Rightarrow> True | Some t \<Rightarrow> isinstance v t))"

definition payload_ok :: "schema \<Rightarrow> payload \<Rightarrow> bool" where
  "payload_ok sch payload \<longleftrightarrow>
     list_all (\<lambda>f. map_of payload f \<notin> {None, Some PNone}) (req_of sch) \<and>
     list_all (field_ok payload) (props_of sch)"

lemma required_errors_Nil:
  "required_errors req payload = [] \<longleftrightarrow> list_all (\<lambda>f. map_of payload f \<notin> {None, Some PNone}) req"
  by (induction req) (auto simp: required_errors_def)

lemma type_error_Nil: "type_error payload p = [] \<longleftrightarrow> field_ok payload p"
  by (simp add: type_error_def field_ok_def split: option.splits)

lemma type_errors_Nil: "type_errors props payload = [] \<longleftrightarrow> list_all (field_ok payload) props"
  by (simp add: type_errors_def list_all_iff type_error_Nil)

lemma validate_payload_eq:
  "validate_payload sch payload =
     required_errors (req_of sch) payload @ type_errors (props_of sch) payload"
  by (auto simp: validate_payload_def empty_schema_def req_of_def props_of_def required_errors_def
      type_errors_def Let_def)

lemma validate_ok_iff: "validate_payload sch payload = [] \<longleftrightarrow> payload_ok sch payload"
  by (simp add: validate_payload_eq required_errors_Nil type_errors_Nil payload_ok_def)

lemma field_ok_absent: "map_of payload (fst p) = None \<Longrightarrow> field_ok payload p"
  by (simp add: field_ok_def)

lemma parse_full:
  assumes "v \<noteq> []" and "a \<noteq> []" and "CHR ''.'' \<notin> set v"
  shows "parse_syscall_name (''sys.'' @ v @ ''.'' @ a) = Inr (v, a)"
  using assms
  by (simp add: parse_syscall_name_def SYSCALL_PREFIX_def startswith_def find_char_append Let_def)

lemma parse_sound:
  assumes "parse_syscall_name n = Inr (v, a)"
  shows "n = ''sys.'' @ v @ ''.'' @ a \<and> v \<noteq> [] \<and> a \<noteq> [] \<and> CHR ''.'' \<notin> set v"
proof -
  obtain rest where n: "n = ''sys.'' @ rest"
    using assms by (auto simp: parse_syscall_name_def SYSCALL_PREFIX_def startswith_iff split: if_splits)
  obtain i where i: "find_char CHR ''.'' rest = Some i" "v = take i rest" "a = drop (i + 1) rest"
      "v \<noteq> []" "a \<noteq> []"
    using assms n
    by (auto simp: parse_syscall_name_def SYSCALL_PREFIX_def startswith_def Let_def
        split: option.splits if_splits)
  have dot: "i < length rest" "rest ! i = CHR ''.''" "CHR ''.'' \<notin> set (take i rest)"
    using find_char_Some [OF i(1)] by auto
  have "rest = v @ CHR ''.'' # a"
    using id_take_nth_drop [OF dot(1)] dot(2) i(2,3) by (metis Suc_eq_plus1)
  moreover have "CHR ''.'' \<notin> set v" using dot(3) i(2) by simp
  ultimately show ?thesis using n i(4,5) by simp
qed

section \<open>Properties\<close>

text \<open>
  Parsing inverts naming: a name parses to a version and an action exactly when it is the
  prefix, the version, a dot and the action, with neither part empty and no dot in the version.
\<close>

theorem parse_name_iff:
  "parse_syscall_name n = Inr (v, a) \<longleftrightarrow>
     n = ''sys.'' @ v @ ''.'' @ a \<and> v \<noteq> [] \<and> a \<noteq> [] \<and> CHR ''.'' \<notin> set v"
  using parse_full parse_sound by blast

text \<open>
  Schema validation is sound and complete for the documented contract: no error exactly when
  every required field is present and not \<open>None\<close> and every typed field present has its type. A new
  schema that requires no more and adds only properties the payload does not carry accepts what
  the old one did (rules 1 and 2 of the interface's stability).
\<close>

theorem validate_payload_contract:
  assumes "set (req_of new) \<subseteq> set (req_of old)"
    and "\<forall>p\<in>set (props_of new). p \<in> set (props_of old) \<or> map_of payload (fst p) = None"
  shows "(validate_input old payload = [] \<longleftrightarrow> payload_ok old payload) \<and>
    (validate_input old payload = [] \<longrightarrow> validate_input new payload = [])"
proof -
  have "payload_ok new payload" if "payload_ok old payload"
    using that assms field_ok_absent unfolding payload_ok_def list_all_iff by blast
  then show ?thesis by (simp add: validate_input_def validate_ok_iff)
qed

theorem validate_payload_contract_witness:
  "validate_input \<lparr>required = Some [''q''], properties = Some [(''q'', Some ''string'')]\<rparr>
     [(''q'', PStr ''x'')] = [] \<and>
   validate_input \<lparr>required = Some [''q''], properties = Some [(''q'', Some ''string''), (''n'', Some ''int'')]\<rparr>
     [(''q'', PStr ''x'')] = []"
  using validate_payload_contract
    [of "\<lparr>required = Some [''q''], properties = Some [(''q'', Some ''string''), (''n'', Some ''int'')]\<rparr>"
        "\<lparr>required = Some [''q''], properties = Some [(''q'', Some ''string'')]\<rparr>"
        "[(''q'', PStr ''x'')]"]
  by (simp add: req_of_def props_of_def payload_ok_def field_ok_def SCHEMA_TYPE_MAP_def truthy_str_def)

end
