(* ===== verification/Syscall_Registry.thy ===== *)
theory Syscall_Registry
  imports Syscall_Versioning Tenant_Context
begin

text \<open>
  \<^verbatim>\<open>AINDY/kernel/syscall_registry.py\<close>: the context passed to a syscall, a registered entry, and
  \<open>VersionedSyscallRegistry\<close>, which keeps a flat table by full name and a table by version in
  step. Handlers are a type parameter; the registry never looks inside one. The warning on a second
  registration with another handler is a log line only and is left out.
\<close>

record SyscallContext =
  execution_unit_id :: string
  user_id :: string
  capabilities :: "string list"
  trace_id :: string
  memory_context :: "pyval list"
  metadata :: "(string, pyval) dict"

text \<open>The last function of \<^verbatim>\<open>AINDY/kernel/tenant_context.py\<close>: the tenant of a syscall is its user.\<close>

definition tenant_context_from_syscall_context :: "SyscallContext \<Rightarrow> tenant_context" where
  "tenant_context_from_syscall_context ctx =
     build_tenant_context (Some (user_id ctx)) (Some (capabilities ctx)) None"

definition DEFAULT_NODUS_CAPABILITIES :: "string list" where
  "DEFAULT_NODUS_CAPABILITIES = [''memory.read'', ''memory.write'', ''memory.search'', ''event.emit'']"

record 'h SyscallEntry =
  handler :: 'h
  capability :: string
  description :: string
  input_schema :: schema
  output_schema :: schema
  stable :: bool
  deprecated :: bool
  deprecated_since :: "string option"
  replacement :: "string option"

definition new_entry ::
    "'h \<Rightarrow> string \<Rightarrow> string \<Rightarrow> schema option \<Rightarrow> schema option \<Rightarrow> bool \<Rightarrow> bool \<Rightarrow> string option \<Rightarrow>
     string option \<Rightarrow> 'h SyscallEntry" where
  "new_entry h cap descr ins outs st dep since repl =
     \<lparr>handler = h, capability = cap, description = descr,
      input_schema = (case ins of None \<Rightarrow> empty_schema | Some s \<Rightarrow> s),
      output_schema = (case outs of None \<Rightarrow> empty_schema | Some s \<Rightarrow> s),
      stable = st, deprecated = dep, deprecated_since = since, replacement = repl\<rparr>"

record 'h registry =
  flat :: "(string, 'h SyscallEntry) dict"
  versioned :: "(string, (string, 'h SyscallEntry) dict) dict"

datatype registry_error = KeyError string | ValueError string

definition new_registry :: "'h registry" where
  "new_registry = \<lparr>flat = [], versioned = []\<rparr>"

definition split_key :: "string \<Rightarrow> (string \<times> string) option" where
  "split_key key =
     (if \<not> startswith key ''sys.'' then None
      else
        let rest = drop 4 key in
        case find_char CHR ''.'' rest of
          None \<Rightarrow> None
        | Some dot \<Rightarrow> Some (take dot rest, drop (dot + 1) rest))"

definition reg_get :: "'h registry \<Rightarrow> string \<Rightarrow> 'h SyscallEntry option" where
  "reg_get r key = map_of (flat r) key"

definition reg_getitem :: "'h registry \<Rightarrow> string \<Rightarrow> registry_error + 'h SyscallEntry" where
  "reg_getitem r key = (case map_of (flat r) key of None \<Rightarrow> Inl (KeyError key) | Some e \<Rightarrow> Inr e)"

definition reg_contains :: "'h registry \<Rightarrow> string \<Rightarrow> bool" where
  "reg_contains r key = (map_of (flat r) key \<noteq> None)"

definition versioned_put ::
    "string \<Rightarrow> string \<Rightarrow> 'h SyscallEntry \<Rightarrow> (string, (string, 'h SyscallEntry) dict) dict \<Rightarrow>
     (string, (string, 'h SyscallEntry) dict) dict" where
  "versioned_put version action value vs =
     (let vs' = (if map_of vs version = None then AList.update version [] vs else vs) in
      AList.update version (AList.update action value (the (map_of vs' version))) vs')"

definition versioned_drop ::
    "string \<Rightarrow> string \<Rightarrow> (string, (string, 'h SyscallEntry) dict) dict \<Rightarrow>
     (string, (string, 'h SyscallEntry) dict) dict" where
  "versioned_drop version action vs =
     (case map_of vs version of
        None \<Rightarrow> vs
      | Some actions \<Rightarrow>
          let actions' = AList.delete action actions in
          if actions' = [] then AList.delete version vs else AList.update version actions' vs)"

definition reg_set :: "string \<Rightarrow> 'h SyscallEntry \<Rightarrow> 'h registry \<Rightarrow> 'h registry" where
  "reg_set key value r =
     (let r' = r\<lparr>flat := AList.update key value (flat r)\<rparr> in
      case split_key key of
        None \<Rightarrow> r'
      | Some (version, action) \<Rightarrow>
          if version \<noteq> [] \<and> action \<noteq> []
          then r'\<lparr>versioned := versioned_put version action value (versioned r)\<rparr> else r')"

definition versioned_forget :: "string \<Rightarrow> 'h registry \<Rightarrow> 'h registry" where
  "versioned_forget key r =
     (case split_key key of
        None \<Rightarrow> r
      | Some (version, action) \<Rightarrow>
          if version \<noteq> [] \<and> action \<noteq> []
          then r\<lparr>versioned := versioned_drop version action (versioned r)\<rparr> else r)"

definition reg_del :: "string \<Rightarrow> 'h registry \<Rightarrow> registry_error + 'h registry" where
  "reg_del key r =
     (if map_of (flat r) key = None then Inl (KeyError key)
      else Inr (versioned_forget key (r\<lparr>flat := AList.delete key (flat r)\<rparr>)))"

definition reg_pop ::
    "string \<Rightarrow> 'h SyscallEntry option \<Rightarrow> 'h registry \<Rightarrow> registry_error + ('h SyscallEntry \<times> 'h registry)"
  where
  "reg_pop key dflt r =
     (case map_of (flat r) key of
        Some val \<Rightarrow> Inr (val, versioned_forget key (r\<lparr>flat := AList.delete key (flat r)\<rparr>))
      | None \<Rightarrow>
          (case dflt of
             None \<Rightarrow> Inl (KeyError key)
           | Some d \<Rightarrow> Inr (d, versioned_forget key r)))"

definition get_version :: "'h registry \<Rightarrow> string \<Rightarrow> (string, 'h SyscallEntry) dict" where
  "get_version r version =
     (case map_of (versioned r) version of None \<Rightarrow> [] | Some actions \<Rightarrow> actions)"

definition versions :: "'h registry \<Rightarrow> string list" where
  "versions r = sort (dict_keys (versioned r))"

definition register_syscall ::
    "string \<Rightarrow> 'h SyscallEntry \<Rightarrow> 'h registry \<Rightarrow> registry_error + 'h registry" where
  "register_syscall name entry r =
     (if \<not> startswith name ''sys.'' then Inl (ValueError name) else Inr (reg_set name entry r))"

definition get_registered_syscalls :: "'h registry \<Rightarrow> string list" where
  "get_registered_syscalls r = sort (dict_keys (flat r))"

datatype 'h reg_op = Reg_set string "'h SyscallEntry" | Reg_del string
  | Reg_pop string "'h SyscallEntry option"

text \<open>One write operation; a raised \<open>KeyError\<close> leaves the registry as it was.\<close>

fun reg_step :: "'h registry \<Rightarrow> 'h reg_op \<Rightarrow> 'h registry" where
  "reg_step r (Reg_set k e) = reg_set k e r"
| "reg_step r (Reg_del k) = (case reg_del k r of Inl _ \<Rightarrow> r | Inr r' \<Rightarrow> r')"
| "reg_step r (Reg_pop k d) = (case reg_pop k d r of Inl _ \<Rightarrow> r | Inr (_, r') \<Rightarrow> r')"

section \<open>The two tables in step\<close>

text \<open>Lookup in the table by version, and the full name of a well-formed pair.\<close>

definition vget :: "(string, (string, 'h SyscallEntry) dict) dict \<Rightarrow> string \<Rightarrow> string \<Rightarrow> 'h SyscallEntry option"
  where "vget vs v a = Option.bind (map_of vs v) (\<lambda>d. map_of d a)"

definition name_pair :: "string \<Rightarrow> string \<Rightarrow> bool" where
  "name_pair v a \<longleftrightarrow> v \<noteq> [] \<and> a \<noteq> [] \<and> CHR ''.'' \<notin> set v"

definition reg_key :: "string \<Rightarrow> string \<Rightarrow> string" where
  "reg_key v a = ''sys.'' @ v @ ''.'' @ a"

definition reg_inv :: "'h registry \<Rightarrow> bool" where
  "reg_inv r \<longleftrightarrow>
     (\<forall>v a. vget (versioned r) v a = (if name_pair v a then map_of (flat r) (reg_key v a) else None)) \<and>
     (\<forall>v. map_of (versioned r) v \<noteq> Some []) \<and>
     distinct (dict_keys (flat r)) \<and> distinct (dict_keys (versioned r))"

lemma split_key_reg_key: "CHR ''.'' \<notin> set v \<Longrightarrow> split_key (reg_key v a) = Some (v, a)"
  by (simp add: split_key_def reg_key_def startswith_def find_char_append)

lemma split_key_Some: "split_key key = Some (v, a) \<Longrightarrow> key = reg_key v a \<and> CHR ''.'' \<notin> set v"
proof -
  assume "split_key key = Some (v, a)"
  then obtain rest i where rest: "key = ''sys.'' @ rest" "find_char CHR ''.'' rest = Some i"
      and va: "v = take i rest" "a = drop (Suc i) rest"
    by (auto simp: split_key_def startswith_iff split: if_splits option.splits)
  have dot: "i < length rest" "rest ! i = CHR ''.''" "CHR ''.'' \<notin> set (take i rest)"
    using find_char_Some [OF rest(2)] by auto
  have "rest = v @ CHR ''.'' # a"
    using id_take_nth_drop [OF dot(1)] dot(2) va by metis
  moreover have "CHR ''.'' \<notin> set v" using dot(3) va(1) by simp
  ultimately show ?thesis using rest(1) by (simp add: reg_key_def)
qed

text \<open>A key that lands in the table by version is the full name of a well-formed pair, and conversely.\<close>

lemma split_key_cases:
  obtains (indexed) v a where "split_key key = Some (v, a)" "v \<noteq> []" "a \<noteq> []" "key = reg_key v a"
      "name_pair v a"
    | (loose) "\<And>v a. name_pair v a \<Longrightarrow> reg_key v a \<noteq> key"
      "\<And>v a. split_key key = Some (v, a) \<Longrightarrow> \<not> (v \<noteq> [] \<and> a \<noteq> [])"
proof (cases "\<exists>v a. split_key key = Some (v, a) \<and> v \<noteq> [] \<and> a \<noteq> []")
  case True
  then obtain v a where "split_key key = Some (v, a)" "v \<noteq> []" "a \<noteq> []" by blast
  with split_key_Some [OF this(1)] show ?thesis by (intro indexed) (auto simp: name_pair_def)
next
  case False
  then show ?thesis
    by (intro loose) (auto simp: name_pair_def split_key_reg_key)
qed

lemma reg_key_inj: "name_pair v a \<Longrightarrow> name_pair v' a' \<Longrightarrow> reg_key v a = reg_key v' a' \<Longrightarrow> v = v' \<and> a = a'"
  by (metis name_pair_def option.inject prod.inject split_key_reg_key)

lemma update_ne_Nil [simp]: "AList.update k v d \<noteq> []"
  by (cases d) auto

lemma vget_put: "vget (versioned_put v a e vs) v' a' = (if v' = v \<and> a' = a then Some e else vget vs v' a')"
  by (auto simp: vget_def versioned_put_def Let_def pd.get_put split: option.splits)

lemma vget_drop: "vget (versioned_drop v a vs) v' a' = (if v' = v \<and> a' = a then None else vget vs v' a')"
proof (cases "map_of vs v")
  case None
  then show ?thesis by (auto simp: vget_def versioned_drop_def)
next
  case (Some d)
  have empty: "AList.delete a d = [] \<Longrightarrow> map_of d b = (if b = a then map_of d a else None)" for b
    using pd.get_del [of a d b] by (auto split: if_splits)
  show ?thesis
    by (auto simp: vget_def versioned_drop_def Some Let_def pd.get_put pd.get_del empty)
qed

lemma put_no_empty:
  "map_of vs w \<noteq> Some [] \<Longrightarrow> map_of (versioned_put v a e vs) w \<noteq> Some []"
  by (auto simp: versioned_put_def Let_def pd.get_put)

lemma drop_no_empty:
  "map_of vs w \<noteq> Some [] \<Longrightarrow> map_of (versioned_drop v a vs) w \<noteq> Some []"
  by (auto simp: versioned_drop_def Let_def pd.get_put pd.get_del split: option.splits)

lemma put_distinct_keys:
  "distinct (dict_keys vs) \<Longrightarrow> distinct (dict_keys (versioned_put v a e vs))"
  by (simp add: versioned_put_def Let_def pd.put_distinct)

lemma drop_distinct_keys:
  "distinct (dict_keys vs) \<Longrightarrow> distinct (dict_keys (versioned_drop v a vs))"
  by (simp add: versioned_drop_def Let_def pd.put_distinct pd.del_distinct split: option.splits)

lemmas reg_table_facts = vget_put vget_drop put_no_empty drop_no_empty put_distinct_keys
  drop_distinct_keys pd.put_distinct pd.del_distinct

lemma reg_inv_new: "reg_inv new_registry"
  by (simp add: reg_inv_def new_registry_def vget_def dict_keys_def)

lemma reg_inv_set: "reg_inv r \<Longrightarrow> reg_inv (reg_set key e r)"
proof (cases key rule: split_key_cases)
  case (indexed v a)
  assume "reg_inv r"
  moreover have "reg_set key e r = r\<lparr>flat := AList.update key e (flat r),
      versioned := versioned_put v a e (versioned r)\<rparr>"
    using indexed by (simp add: reg_set_def Let_def)
  ultimately show ?thesis
    using indexed by (auto simp: reg_inv_def reg_table_facts pd.get_put dest: reg_key_inj)
next
  case loose
  assume "reg_inv r"
  moreover have "reg_set key e r = r\<lparr>flat := AList.update key e (flat r)\<rparr>"
    using loose(2) by (auto simp: reg_set_def Let_def split: option.splits)
  ultimately show ?thesis
    using loose(1) by (auto simp: reg_inv_def pd.get_put pd.put_distinct)
qed

lemma reg_inv_forget: "reg_inv r \<Longrightarrow> reg_inv (versioned_forget key (r\<lparr>flat := AList.delete key (flat r)\<rparr>))"
proof (cases key rule: split_key_cases)
  case (indexed v a)
  assume "reg_inv r"
  with indexed show ?thesis
    by (auto simp: versioned_forget_def reg_inv_def reg_table_facts pd.get_del dest: reg_key_inj)
next
  case loose
  assume "reg_inv r"
  moreover have "versioned_forget key (r\<lparr>flat := AList.delete key (flat r)\<rparr>) =
      r\<lparr>flat := AList.delete key (flat r)\<rparr>"
    using loose(2) by (auto simp: versioned_forget_def split: option.splits)
  ultimately show ?thesis
    using loose(1) by (auto simp: reg_inv_def pd.get_del pd.del_distinct)
qed

lemma reg_inv_forget_absent:
  "reg_inv r \<Longrightarrow> map_of (flat r) key = None \<Longrightarrow> reg_inv (versioned_forget key r)"
  using reg_inv_forget [of r key] by (simp add: map_of_eq_None_iff)

lemma reg_inv_step: "reg_inv r \<Longrightarrow> reg_inv (reg_step r op)"
  by (cases op)
    (auto simp: reg_inv_set reg_inv_forget reg_inv_forget_absent reg_del_def reg_pop_def
      split: option.splits)

interpretation regm: machine reg_inv reg_step
  by unfold_locales (rule reg_inv_step)

section \<open>Properties\<close>

text \<open>
  C19. Every history of registrations, deletions and pops keeps both tables in step: a version's
  table holds exactly the entries registered under that version's full names, and
  \<open>versions()\<close> is the sorted, duplicate-free list of the versions that have at least one.
\<close>

theorem registry_views_agree:
  "let r = foldl reg_step new_registry ops in
     (name_pair v a \<longrightarrow> map_of (get_version r v) a = reg_get r (reg_key v a)) \<and>
     sorted (versions r) \<and> distinct (versions r) \<and>
     (v \<in> set (versions r) \<longleftrightarrow> (\<exists>a. name_pair v a \<and> reg_contains r (reg_key v a)))"
proof -
  let ?r = "foldl reg_step new_registry ops"
  have inv: "reg_inv ?r" using reg_inv_new by (rule regm.run_inv)
  have look: "map_of (get_version ?r v) a = vget (versioned ?r) v a" for a
    by (simp add: get_version_def vget_def split: option.splits)
  have "v \<in> set (versions ?r) \<longleftrightarrow> (\<exists>d. map_of (versioned ?r) v = Some d)"
    by (simp add: versions_def pd.in_keys)
  also have "\<dots> \<longleftrightarrow> (\<exists>a. vget (versioned ?r) v a \<noteq> None)"
  proof
    assume "\<exists>d. map_of (versioned ?r) v = Some d"
    then obtain d where d: "map_of (versioned ?r) v = Some d" by blast
    with inv have "d \<noteq> []" by (auto simp: reg_inv_def)
    then obtain a e d' where "d = (a, e) # d'" by (metis list.exhaust prod.exhaust)
    with d show "\<exists>a. vget (versioned ?r) v a \<noteq> None" by (auto simp: vget_def)
  qed (auto simp: vget_def bind_eq_Some_conv)
  finally show ?thesis
    using inv by (auto simp: Let_def look reg_inv_def reg_get_def reg_contains_def versions_def)
qed

theorem registry_views_agree_witness:
  "let r = foldl reg_step new_registry
       [Reg_set ''sys.v1.memory.read'' (new_entry (0::nat) ''memory.read'' [] None None True False None None)] in
   map_of (get_version r ''v1'') ''memory.read'' = reg_get r (reg_key ''v1'' ''memory.read'')"
  using registry_views_agree
    [of "[Reg_set ''sys.v1.memory.read'' (new_entry (0::nat) ''memory.read'' [] None None True False None None)]"
        "''v1''" "''memory.read''"]
  by (simp add: Let_def name_pair_def del: foldl.simps)

end
