(* ===== verification/Resource_Manager.thy ===== *)
theory Resource_Manager
  imports Prelude "HOL-Library.Multiset"
begin

text \<open>
  \<^verbatim>\<open>AINDY/kernel/resource_manager.py\<close>: per-tenant admission and per-execution quotas.

  \<open>resource_manager\<close> is the object: the process-local counters and usage snapshots, the state of
  its connection to the shared concurrency counters, those counters, and the optional usage
  backend. What the surroundings contribute to one call is the record \<open>rm_env\<close>: the monotonic
  clock, whether a Redis address is configured, whether a ping and whether the commands of this
  call succeed, whether the backend's commands succeed, and the testing switch. Limits read from
  the environment are the fields \<open>max_cpu_time_ms\<close>, \<open>max_syscalls\<close> and \<open>max_concurrent\<close>. Each
  method runs under the object's lock, so one method is one atomic step here. Key expiry, the
  gauges and the log lines are left out; the published event is a result.
\<close>

record usage_snapshot =
  us_eu_id :: string
  us_tenant_id :: string
  cpu_time_ms :: int
  memory_bytes :: int
  syscall_count :: int

definition new_snapshot :: "string \<Rightarrow> string \<Rightarrow> usage_snapshot" where
  "new_snapshot eid tid =
     \<lparr>us_eu_id = eid, us_tenant_id = tid, cpu_time_ms = 0, memory_bytes = 0, syscall_count = 0\<rparr>"

section \<open>The usage backend\<close>

record resource_backend =
  be_active :: "(string, int) dict"
  be_cpu :: "(string, int) dict"
  be_syscalls :: "(string, int) dict"
  be_memory :: "(string, int) dict"

definition counter :: "(string, int) dict \<Rightarrow> string \<Rightarrow> int" where
  "counter d k = (case map_of d k of None \<Rightarrow> 0 | Some n \<Rightarrow> n)"

definition increment_tenant_active :: "string \<Rightarrow> resource_backend \<Rightarrow> int \<times> resource_backend" where
  "increment_tenant_active tid be =
     (let value = counter (be_active be) tid + 1 in
      (value, be\<lparr>be_active := AList.update tid value (be_active be)\<rparr>))"

definition decrement_tenant_active :: "string \<Rightarrow> resource_backend \<Rightarrow> int \<times> resource_backend" where
  "decrement_tenant_active tid be =
     (let value = counter (be_active be) tid - 1;
          value' = (if value < 0 then 0 else value) in
      (value', be\<lparr>be_active := AList.update tid value' (be_active be)\<rparr>))"

definition backend_get_tenant_active :: "string \<Rightarrow> resource_backend \<Rightarrow> int" where
  "backend_get_tenant_active tid be = counter (be_active be) tid"

definition add_cpu_ms :: "string \<Rightarrow> int \<Rightarrow> resource_backend \<Rightarrow> int \<times> resource_backend" where
  "add_cpu_ms eid ms be =
     (let value = counter (be_cpu be) eid + ms in
      (value, be\<lparr>be_cpu := AList.update eid value (be_cpu be)\<rparr>))"

definition get_cpu_ms :: "string \<Rightarrow> resource_backend \<Rightarrow> int" where
  "get_cpu_ms eid be = counter (be_cpu be) eid"

definition increment_syscalls :: "string \<Rightarrow> resource_backend \<Rightarrow> int \<times> resource_backend" where
  "increment_syscalls eid be =
     (let value = counter (be_syscalls be) eid + 1 in
      (value, be\<lparr>be_syscalls := AList.update eid value (be_syscalls be)\<rparr>))"

definition get_syscalls :: "string \<Rightarrow> resource_backend \<Rightarrow> int" where
  "get_syscalls eid be = counter (be_syscalls be) eid"

definition set_memory_if_greater :: "string \<Rightarrow> int \<Rightarrow> resource_backend \<Rightarrow> resource_backend" where
  "set_memory_if_greater eid bytes be =
     (case map_of (be_memory be) eid of
        None \<Rightarrow> be\<lparr>be_memory := AList.update eid bytes (be_memory be)\<rparr>
      | Some current \<Rightarrow>
          if current < bytes then be\<lparr>be_memory := AList.update eid bytes (be_memory be)\<rparr> else be)"

definition delete_eu :: "string \<Rightarrow> resource_backend \<Rightarrow> resource_backend" where
  "delete_eu eid be =
     be\<lparr>be_cpu := AList.delete eid (be_cpu be), be_syscalls := AList.delete eid (be_syscalls be),
        be_memory := AList.delete eid (be_memory be)\<rparr>"

section \<open>The manager\<close>

record resource_manager =
  max_concurrent :: int
  max_cpu_time_ms :: int
  max_syscalls :: int
  redis_client :: bool
  redis_last_check :: time_us
  redis_counts :: "(string, int) dict"
  backend :: "resource_backend option"
  usage :: "(string, usage_snapshot) dict"
  active_counts :: "(string, int) dict"
  eu_tenant :: "(string, string) dict"
  pending_purge :: "string list"

record rm_env =
  now_mono :: time_us
  redis_url :: bool
  ping_ok :: bool
  call_ok :: bool
  backend_ok :: bool
  is_testing :: bool

datatype quota_reason =
    Concurrent_limit string int int
  | Cpu_limit string int int
  | Syscall_limit string int int

definition new_resource_manager :: "resource_backend option \<Rightarrow> resource_manager" where
  "new_resource_manager be =
     \<lparr>max_concurrent = 5, max_cpu_time_ms = 30000, max_syscalls = 100, redis_client = False,
      redis_last_check = 0, redis_counts = [], backend = be, usage = [], active_counts = [],
      eu_tenant = [], pending_purge = []\<rparr>"

definition REDIS_CHECK_INTERVAL :: time_us where
  "REDIS_CHECK_INTERVAL = 30000000"

definition get_redis :: "rm_env \<Rightarrow> resource_manager \<Rightarrow> bool \<times> resource_manager" where
  "get_redis env rm =
     (if now_mono env - redis_last_check rm \<le> REDIS_CHECK_INTERVAL then (redis_client rm, rm)
      else
        let rm1 = rm\<lparr>redis_last_check := now_mono env\<rparr> in
        if \<not> redis_url env then (False, rm1\<lparr>redis_client := False\<rparr>)
        else (ping_ok env, rm1\<lparr>redis_client := ping_ok env\<rparr>))"

definition drop_redis_client :: "rm_env \<Rightarrow> resource_manager \<Rightarrow> resource_manager" where
  "drop_redis_client env rm = rm\<lparr>redis_client := False, redis_last_check := now_mono env\<rparr>"

definition is_redis_mode :: "rm_env \<Rightarrow> resource_manager \<Rightarrow> bool \<times> resource_manager" where
  "is_redis_mode env rm = get_redis env rm"

definition local_active :: "resource_manager \<Rightarrow> string \<Rightarrow> int" where
  "local_active rm tid = counter (active_counts rm) tid"

text \<open>The tenant's count: the shared counter, or the local one without a client or after a failed read.\<close>

definition get_tenant_active :: "rm_env \<Rightarrow> string \<Rightarrow> resource_manager \<Rightarrow> int \<times> resource_manager" where
  "get_tenant_active env tid rm =
     (case get_redis env rm of
        (True, rm1) \<Rightarrow>
          if call_ok env then (counter (redis_counts rm1) tid, rm1)
          else let rm2 = drop_redis_client env rm1 in (local_active rm2 tid, rm2)
      | (False, rm1) \<Rightarrow> (local_active rm1 tid, rm1))"

definition backend_read :: "rm_env \<Rightarrow> (resource_backend \<Rightarrow> int) \<Rightarrow> resource_manager \<Rightarrow> int option" where
  "backend_read env f rm =
     (case backend rm of None \<Rightarrow> None | Some be \<Rightarrow> if backend_ok env then Some (f be) else None)"

definition backend_write ::
    "rm_env \<Rightarrow> (resource_backend \<Rightarrow> resource_backend) \<Rightarrow> resource_manager \<Rightarrow> resource_manager" where
  "backend_write env f rm =
     (case backend rm of
        None \<Rightarrow> rm
      | Some be \<Rightarrow> if backend_ok env then rm\<lparr>backend := Some (f be)\<rparr> else rm)"

definition purge_pending :: "resource_manager \<Rightarrow> resource_manager" where
  "purge_pending rm =
     (if pending_purge rm \<noteq> [] then
        rm\<lparr>usage := fold AList.delete (pending_purge rm) (usage rm),
           eu_tenant := fold AList.delete (pending_purge rm) (eu_tenant rm),
           pending_purge := []\<rparr>
      else rm)"

definition can_execute ::
    "rm_env \<Rightarrow> string \<Rightarrow> resource_manager \<Rightarrow> quota_reason option \<times> resource_manager" where
  "can_execute env tid rm =
     (let rm0 = purge_pending rm in
      if is_testing env then (None, rm0)
      else
        let (active, rm1) = get_tenant_active env tid rm0 in
        if max_concurrent rm1 \<le> active
        then (Some (Concurrent_limit tid active (max_concurrent rm1)), rm1)
        else (None, rm1))"

definition check_quota ::
    "rm_env \<Rightarrow> string \<Rightarrow> resource_manager \<Rightarrow> quota_reason option \<times> resource_manager" where
  "check_quota env eid rm =
     (if is_testing env then (None, rm)
      else
        case map_of (usage rm) eid of
          None \<Rightarrow> (None, rm)
        | Some snap \<Rightarrow>
            (case can_execute env (us_tenant_id snap) rm of
               (Some reason, rm1) \<Rightarrow> (Some reason, rm1)
             | (None, rm1) \<Rightarrow>
                 (case map_of (usage rm1) eid of
                    None \<Rightarrow> (None, rm1)
                  | Some snap1 \<Rightarrow>
                      let cpu = (case backend_read env (get_cpu_ms eid) rm1 of
                                   None \<Rightarrow> cpu_time_ms snap1 | Some n \<Rightarrow> n);
                          calls = (case backend_read env (get_syscalls eid) rm1 of
                                     None \<Rightarrow> syscall_count snap1 | Some n \<Rightarrow> n)
                      in if max_cpu_time_ms rm1 < cpu
                         then (Some (Cpu_limit eid cpu (max_cpu_time_ms rm1)), rm1)
                         else if max_syscalls rm1 < calls
                         then (Some (Syscall_limit eid calls (max_syscalls rm1)), rm1)
                         else (None, rm1))))"

definition local_increment :: "string \<Rightarrow> resource_manager \<Rightarrow> resource_manager" where
  "local_increment tid rm =
     rm\<lparr>active_counts := AList.update tid (local_active rm tid + 1) (active_counts rm)\<rparr>"

definition count_start :: "rm_env \<Rightarrow> string \<Rightarrow> resource_manager \<Rightarrow> resource_manager" where
  "count_start env tid rm =
     (case get_redis env rm of
        (True, rm1) \<Rightarrow>
          if call_ok env
          then rm1\<lparr>redis_counts := AList.update tid (counter (redis_counts rm1) tid + 1) (redis_counts rm1)\<rparr>
          else local_increment tid (drop_redis_client env rm1)
      | (False, rm1) \<Rightarrow> local_increment tid rm1)"

definition mark_started :: "rm_env \<Rightarrow> string \<Rightarrow> string option \<Rightarrow> resource_manager \<Rightarrow> resource_manager" where
  "mark_started env tid eu rm =
     (let rm1 = count_start env tid rm in
      if truthy_str eu then
        let eid = the eu;
            rm2 = (if map_of (usage rm1) eid = None
                   then rm1\<lparr>usage := AList.update eid (new_snapshot eid tid) (usage rm1)\<rparr> else rm1)
        in rm2\<lparr>eu_tenant := AList.update eid tid (eu_tenant rm2)\<rparr>
      else rm1)"

definition reset_tenant_quota :: "rm_env \<Rightarrow> string \<Rightarrow> resource_manager \<Rightarrow> resource_manager" where
  "reset_tenant_quota env tid rm =
     (case get_redis env rm of
        (True, rm1) \<Rightarrow>
          if call_ok env then rm1\<lparr>redis_counts := AList.update tid 0 (redis_counts rm1)\<rparr>
          else let rm2 = drop_redis_client env rm1 in
               rm2\<lparr>active_counts := AList.update tid 0 (active_counts rm2)\<rparr>
      | (False, rm1) \<Rightarrow> rm1\<lparr>active_counts := AList.update tid 0 (active_counts rm1)\<rparr>)"

definition local_decrement :: "string \<Rightarrow> resource_manager \<Rightarrow> int \<times> int \<times> resource_manager" where
  "local_decrement tid rm =
     (let cnt = local_active rm tid;
          rm' = (if 0 < cnt then rm\<lparr>active_counts := AList.update tid (cnt - 1) (active_counts rm)\<rparr>
                 else rm)
      in (cnt, local_active rm' tid, rm'))"

definition count_completion :: "rm_env \<Rightarrow> string \<Rightarrow> resource_manager \<Rightarrow> int \<times> int \<times> resource_manager" where
  "count_completion env tid rm =
     (case get_redis env rm of
        (True, rm1) \<Rightarrow>
          if call_ok env then
            let current = counter (redis_counts rm1) tid;
                new_active = current - 1;
                rm2 = rm1\<lparr>redis_counts := AList.update tid new_active (redis_counts rm1)\<rparr>
            in if new_active < 0 then (current, 0, reset_tenant_quota env tid rm2)
               else (current, new_active, rm2)
          else local_decrement tid (drop_redis_client env rm1)
      | (False, rm1) \<Rightarrow> local_decrement tid rm1)"

text \<open>The first result says whether \<open>resource_available\<close> was published.\<close>

definition mark_completed :: "rm_env \<Rightarrow> string \<Rightarrow> string option \<Rightarrow> resource_manager \<Rightarrow> bool \<times> resource_manager"
  where
  "mark_completed env tid eu rm =
     (let (current, new_active, rm1) = count_completion env tid rm;
          rm2 = (if truthy_str eu then rm1\<lparr>pending_purge := List.insert (the eu) (pending_purge rm1)\<rparr>
                 else rm1)
      in (max_concurrent rm2 \<le> current \<and> new_active < max_concurrent rm2, rm2))"

definition with_snapshot ::
    "string \<Rightarrow> (usage_snapshot \<Rightarrow> usage_snapshot) \<Rightarrow> resource_manager \<Rightarrow> resource_manager" where
  "with_snapshot eid f rm =
     (let snap = (case map_of (usage rm) eid of None \<Rightarrow> new_snapshot eid [] | Some s \<Rightarrow> s) in
      rm\<lparr>usage := AList.update eid (f snap) (usage rm)\<rparr>)"

definition record_cpu :: "rm_env \<Rightarrow> string \<Rightarrow> int \<Rightarrow> resource_manager \<Rightarrow> resource_manager" where
  "record_cpu env eid ms rm =
     backend_write env (snd \<circ> add_cpu_ms eid ms)
       (with_snapshot eid (\<lambda>s. s\<lparr>cpu_time_ms := cpu_time_ms s + ms\<rparr>) rm)"

definition record_memory :: "rm_env \<Rightarrow> string \<Rightarrow> int \<Rightarrow> resource_manager \<Rightarrow> resource_manager" where
  "record_memory env eid bytes rm =
     backend_write env (set_memory_if_greater eid bytes)
       (with_snapshot eid (\<lambda>s. s\<lparr>memory_bytes := max (memory_bytes s) bytes\<rparr>) rm)"

definition record_syscall :: "rm_env \<Rightarrow> string \<Rightarrow> int \<Rightarrow> resource_manager \<Rightarrow> resource_manager" where
  "record_syscall env eid cnt rm =
     (let steps = max 0 cnt in
      if steps = 0 then rm
      else
        (backend_write env (snd \<circ> increment_syscalls eid) ^^ nat steps)
          (with_snapshot eid (\<lambda>s. s\<lparr>syscall_count := syscall_count s + steps\<rparr>) rm))"

text \<open>A usage report: the three keys, each possibly missing, which counts as 0.\<close>

record usage_report =
  ur_cpu :: "int option"
  ur_memory :: "int option"
  ur_syscalls :: "int option"

definition or_zero :: "int option \<Rightarrow> int" where
  "or_zero x = (case x of None \<Rightarrow> 0 | Some n \<Rightarrow> n)"

definition record_usage :: "rm_env \<Rightarrow> string \<Rightarrow> usage_report \<Rightarrow> resource_manager \<Rightarrow> resource_manager" where
  "record_usage env eid u rm =
     record_syscall env eid (or_zero (ur_syscalls u))
       (record_memory env eid (or_zero (ur_memory u))
         (record_cpu env eid (or_zero (ur_cpu u)) rm))"

definition get_usage :: "string \<Rightarrow> resource_manager \<Rightarrow> usage_snapshot" where
  "get_usage eid rm =
     (case map_of (usage rm) eid of None \<Rightarrow> new_snapshot eid [] | Some s \<Rightarrow> s)"

record tenant_summary =
  active_executions :: int
  execution_count :: nat
  total_cpu_time_ms :: int
  peak_memory_bytes :: int
  total_syscalls :: int

definition get_tenant_summary ::
    "rm_env \<Rightarrow> string \<Rightarrow> resource_manager \<Rightarrow> tenant_summary \<times> resource_manager" where
  "get_tenant_summary env tid rm =
     (let (active, rm1) = get_tenant_active env tid rm;
          snaps = filter (\<lambda>s. us_tenant_id s = tid) (map snd (usage rm1)) in
      (\<lparr>active_executions = active, execution_count = length snaps,
        total_cpu_time_ms = sum_list (map cpu_time_ms snaps),
        peak_memory_bytes =
          (case map memory_bytes snaps of [] \<Rightarrow> 0 | m # ms \<Rightarrow> fold max ms m),
        total_syscalls = sum_list (map syscall_count snaps)\<rparr>, rm1))"

definition purge_eu :: "rm_env \<Rightarrow> string \<Rightarrow> resource_manager \<Rightarrow> resource_manager" where
  "purge_eu env eid rm =
     backend_write env (delete_eu eid)
       (rm\<lparr>usage := AList.delete eid (usage rm), eu_tenant := AList.delete eid (eu_tenant rm)\<rparr>)"

definition rm_reset :: "resource_manager \<Rightarrow> resource_manager" where
  "rm_reset rm = rm\<lparr>usage := [], active_counts := [], eu_tenant := [], pending_purge := []\<rparr>"

text \<open>
  One admission the way the execution pipeline performs it: ask, then start if allowed.
\<close>

definition admit :: "rm_env \<Rightarrow> string \<Rightarrow> string option \<Rightarrow> resource_manager \<Rightarrow> resource_manager" where
  "admit env tid eu rm =
     (case can_execute env tid rm of
        (None, rm1) \<Rightarrow> mark_started env tid eu rm1
      | (Some _, rm1) \<Rightarrow> rm1)"

section \<open>The counter contract\<close>

text \<open>
  What the clients of the concurrency count rely on, whichever store holds it: a start adds one to
  its tenant, a completion takes one off with floor zero, an admission is a start below the limit
  and nothing at it. \<open>env\<close> ranges over the environments in which that store is the one in use.
\<close>

datatype ('x, 't) count_op = Start 'x 't | Complete 'x 't | Admit 'x 't

fun op_env :: "('x, 't) count_op \<Rightarrow> 'x" where
  "op_env (Start x t) = x"
| "op_env (Complete x t) = x"
| "op_env (Admit x t) = x"

fun count_apply ::
    "('x \<Rightarrow> 't \<Rightarrow> 's \<Rightarrow> 's) \<Rightarrow> ('x \<Rightarrow> 't \<Rightarrow> 's \<Rightarrow> 's) \<Rightarrow> ('x \<Rightarrow> 't \<Rightarrow> 's \<Rightarrow> 's) \<Rightarrow> 's \<Rightarrow> ('x, 't) count_op \<Rightarrow> 's"
  where
  "count_apply start complete guarded s (Start x t) = start x t s"
| "count_apply start complete guarded s (Complete x t) = complete x t s"
| "count_apply start complete guarded s (Admit x t) = guarded x t s"

text \<open>The specification: the multiset of the tenants of the executions that are running.\<close>

fun running_step :: "int \<Rightarrow> 't multiset \<Rightarrow> ('x, 't) count_op \<Rightarrow> 't multiset" where
  "running_step l m (Start x t) = add_mset t m"
| "running_step l m (Complete x t) = m - {#t#}"
| "running_step l m (Admit x t) = (if int (count m t) < l then add_mset t m else m)"

locale tenant_counter =
  fixes cnt :: "'s \<Rightarrow> 't \<Rightarrow> int" and limit :: "'s \<Rightarrow> int"
    and start complete guarded :: "'x \<Rightarrow> 't \<Rightarrow> 's \<Rightarrow> 's"
    and env :: "'x \<Rightarrow> bool" and ok :: "'s \<Rightarrow> bool"
  assumes ok_start: "env x \<Longrightarrow> ok s \<Longrightarrow> ok (start x t s)"
    and ok_complete: "env x \<Longrightarrow> ok s \<Longrightarrow> ok (complete x t s)"
    and ok_guarded: "env x \<Longrightarrow> ok s \<Longrightarrow> ok (guarded x t s)"
    and limit_ops: "limit (start x t s) = limit s" "limit (complete x t s) = limit s"
      "limit (guarded x t s) = limit s"
    and count_start: "env x \<Longrightarrow> ok s \<Longrightarrow> cnt (start x t s) u = cnt s u + of_bool (u = t)"
    and count_complete: "env x \<Longrightarrow> ok s \<Longrightarrow> 0 \<le> cnt s t \<Longrightarrow>
      cnt (complete x t s) u = (if u = t then max 0 (cnt s t - 1) else cnt s u)"
    and count_guarded: "env x \<Longrightarrow> ok s \<Longrightarrow>
      cnt (guarded x t s) u = cnt s u + of_bool (u = t \<and> cnt s t < limit s)"
begin

lemma refines_step:
  assumes "env (op_env e)" and "ok s" and "\<And>u. cnt s u = int (count m u)"
  shows "ok ((count_apply start complete guarded) s e) \<and> limit ((count_apply start complete guarded) s e) = limit s \<and>
    cnt ((count_apply start complete guarded) s e) u = int (count (running_step (limit s) m e) u)"
  using assms
  by (cases e)
    (auto simp: ok_start ok_complete ok_guarded limit_ops count_start count_complete count_guarded)

lemma refines_run:
  assumes "\<forall>e\<in>set es. env (op_env e)" and "ok s" and "\<And>u. cnt s u = int (count m u)"
  shows "cnt (foldl (count_apply start complete guarded) s es) u = int (count (foldl (running_step (limit s)) m es) u)"
  using assms
proof (induction es arbitrary: s m)
  case (Cons e es)
  have "\<And>u. cnt ((count_apply start complete guarded) s e) u = int (count (running_step (limit s) m e) u)"
    and "ok ((count_apply start complete guarded) s e)" and "limit ((count_apply start complete guarded) s e) = limit s"
    using refines_step [OF _ Cons.prems(2,3)] Cons.prems(1) by simp_all
  with Cons.IH [of "(count_apply start complete guarded) s e" "running_step (limit s) m e"] Cons.prems(1) show ?case by simp
qed simp

lemma bounded_run:
  assumes "\<forall>e\<in>set es. env (op_env e) \<and> (\<nexists>x t. e = Start x t)"
    and "ok s" and "0 \<le> limit s" and "\<And>u. 0 \<le> cnt s u \<and> cnt s u \<le> limit s"
  shows "0 \<le> cnt (foldl (count_apply start complete guarded) s es) u \<and> cnt (foldl (count_apply start complete guarded) s es) u \<le> limit s"
  using assms
proof (induction es arbitrary: s)
  case (Cons e es)
  have below: "cnt s u - 1 \<le> limit s" for u
    using Cons.prems(4) [of u] by linarith
  have "ok ((count_apply start complete guarded) s e) \<and> limit ((count_apply start complete guarded) s e) = limit s \<and>
      (\<forall>u. 0 \<le> cnt ((count_apply start complete guarded) s e) u \<and> cnt ((count_apply start complete guarded) s e) u \<le> limit s)"
    using Cons.prems
    by (cases e) (auto simp: ok_complete ok_guarded limit_ops count_complete count_guarded below)
  with Cons.IH [of "(count_apply start complete guarded) s e"] Cons.prems show ?case by simp
qed simp

end


section \<open>The manager keeps the contract\<close>

text \<open>
  Without a Redis address the local counter is the store in use; with a held client whose
  commands succeed, the shared counter is.
\<close>

type_synonym rm_call = "rm_env \<times> string option"

definition rm_start :: "rm_call \<Rightarrow> string \<Rightarrow> resource_manager \<Rightarrow> resource_manager" where
  "rm_start x t rm = mark_started (fst x) t (snd x) rm"

definition rm_complete :: "rm_call \<Rightarrow> string \<Rightarrow> resource_manager \<Rightarrow> resource_manager" where
  "rm_complete x t rm = snd (mark_completed (fst x) t (snd x) rm)"

definition rm_admit :: "rm_call \<Rightarrow> string \<Rightarrow> resource_manager \<Rightarrow> resource_manager" where
  "rm_admit x t rm = admit (fst x) t (snd x) rm"

definition rm_apply :: "resource_manager \<Rightarrow> (rm_call, string) count_op \<Rightarrow> resource_manager" where
  "rm_apply = count_apply rm_start rm_complete rm_admit"

definition local_env :: "rm_call \<Rightarrow> bool" where
  "local_env x \<longleftrightarrow> \<not> redis_url (fst x) \<and> \<not> is_testing (fst x)"

definition shared_env :: "rm_call \<Rightarrow> bool" where
  "shared_env x \<longleftrightarrow> redis_url (fst x) \<and> ping_ok (fst x) \<and> call_ok (fst x) \<and> \<not> is_testing (fst x)"

definition shared_active :: "resource_manager \<Rightarrow> string \<Rightarrow> int" where
  "shared_active rm tid = counter (redis_counts rm) tid"

lemma counter_update [simp]: "counter (AList.update k v d) j = (if j = k then v else counter d j)"
  by (simp add: counter_def pd.get_put)

definition check_time :: "rm_env \<Rightarrow> resource_manager \<Rightarrow> time_us" where
  "check_time env rm =
     (if now_mono env - redis_last_check rm \<le> REDIS_CHECK_INTERVAL then redis_last_check rm
      else now_mono env)"

lemma get_redis_local:
  "\<not> redis_url env \<Longrightarrow> \<not> redis_client rm \<Longrightarrow>
   get_redis env rm = (False, rm\<lparr>redis_last_check := check_time env rm\<rparr>)"
  by (cases rm) (simp add: get_redis_def check_time_def Let_def)

lemma get_redis_shared:
  "redis_url env \<Longrightarrow> ping_ok env \<Longrightarrow> redis_client rm \<Longrightarrow>
   get_redis env rm = (True, rm\<lparr>redis_last_check := check_time env rm\<rparr>)"
  by (cases rm) (simp add: get_redis_def check_time_def Let_def)

lemma purge_pending_keeps [simp]:
  "redis_client (purge_pending rm) = redis_client rm"
  "active_counts (purge_pending rm) = active_counts rm"
  "redis_counts (purge_pending rm) = redis_counts rm"
  "max_concurrent (purge_pending rm) = max_concurrent rm"
  by (simp_all add: purge_pending_def)

lemmas rm_count_defs = mark_started_def count_start_def local_increment_def mark_completed_def
  count_completion_def local_decrement_def local_active_def shared_active_def Let_def

lemma can_execute_local:
  assumes "local_env x" and "\<not> redis_client rm"
  shows "can_execute (fst x) t rm =
    (let rm1 = (purge_pending rm)\<lparr>redis_last_check := check_time (fst x) (purge_pending rm)\<rparr> in
     (if max_concurrent rm \<le> local_active rm t
      then Some (Concurrent_limit t (local_active rm t) (max_concurrent rm)) else None, rm1))"
  using assms
  by (simp add: can_execute_def local_env_def get_tenant_active_def get_redis_local local_active_def Let_def)

lemma can_execute_shared:
  assumes "shared_env x" and "redis_client rm"
  shows "can_execute (fst x) t rm =
    (let rm1 = (purge_pending rm)\<lparr>redis_last_check := check_time (fst x) (purge_pending rm)\<rparr> in
     (if max_concurrent rm \<le> shared_active rm t
      then Some (Concurrent_limit t (shared_active rm t) (max_concurrent rm)) else None, rm1))"
  using assms
  by (simp add: can_execute_def shared_env_def get_tenant_active_def get_redis_shared shared_active_def Let_def)

lemma get_redis_limit: "get_redis env rm = (b, rm1) \<Longrightarrow> max_concurrent rm1 = max_concurrent rm"
  by (auto simp: get_redis_def Let_def split: if_splits)

lemma drop_redis_client_limit [simp]: "max_concurrent (drop_redis_client env rm) = max_concurrent rm"
  by (simp add: drop_redis_client_def)

lemma can_execute_limit: "max_concurrent (snd (can_execute env t rm)) = max_concurrent rm"
  by (auto simp: can_execute_def get_tenant_active_def Let_def dest!: get_redis_limit
      split: prod.splits bool.splits)

lemma reset_tenant_quota_limit [simp]: "max_concurrent (reset_tenant_quota env t rm) = max_concurrent rm"
  by (auto simp: reset_tenant_quota_def Let_def dest!: get_redis_limit split: prod.splits bool.splits)

lemma local_counters_limit [simp]:
  "max_concurrent (local_increment t rm) = max_concurrent rm"
  "max_concurrent (snd (snd (local_decrement t rm))) = max_concurrent rm"
  by (simp_all add: local_increment_def local_decrement_def Let_def)

lemma count_start_limit [simp]: "max_concurrent (count_start env t rm) = max_concurrent rm"
  by (auto simp: count_start_def dest!: get_redis_limit split: prod.splits bool.splits)

lemma count_completion_limit: "max_concurrent (snd (snd (count_completion env t rm))) = max_concurrent rm"
  by (auto simp: count_completion_def Let_def dest!: get_redis_limit split: prod.splits bool.splits)

lemma mark_started_limit: "max_concurrent (mark_started env t eu rm) = max_concurrent rm"
  by (simp add: mark_started_def Let_def)

lemma mark_completed_limit: "max_concurrent (snd (mark_completed env t eu rm)) = max_concurrent rm"
  using count_completion_limit [of env t rm]
  by (auto simp: mark_completed_def Let_def split: prod.splits)

lemma rm_limits:
  "max_concurrent (rm_start x t rm) = max_concurrent rm"
  "max_concurrent (rm_complete x t rm) = max_concurrent rm"
  "max_concurrent (rm_admit x t rm) = max_concurrent rm"
  using can_execute_limit [of "fst x" t rm]
  by (auto simp: rm_start_def rm_complete_def rm_admit_def admit_def mark_started_limit
      mark_completed_limit split: prod.splits option.splits)

lemma mark_started_counts [simp]:
  "redis_client (mark_started env t eu rm) = redis_client (count_start env t rm)"
  "active_counts (mark_started env t eu rm) = active_counts (count_start env t rm)"
  "redis_counts (mark_started env t eu rm) = redis_counts (count_start env t rm)"
  by (simp_all add: mark_started_def Let_def)

lemma mark_completed_counts [simp]:
  "redis_client (snd (mark_completed env t eu rm)) = redis_client (snd (snd (count_completion env t rm)))"
  "active_counts (snd (mark_completed env t eu rm)) = active_counts (snd (snd (count_completion env t rm)))"
  "redis_counts (snd (mark_completed env t eu rm)) = redis_counts (snd (snd (count_completion env t rm)))"
  by (simp_all add: mark_completed_def Let_def split: prod.splits)

lemma count_start_local:
  "\<not> redis_url env \<Longrightarrow> \<not> redis_client rm \<Longrightarrow>
   count_start env t rm = local_increment t (rm\<lparr>redis_last_check := check_time env rm\<rparr>)"
  by (simp add: count_start_def get_redis_local)

lemma count_completion_local:
  "\<not> redis_url env \<Longrightarrow> \<not> redis_client rm \<Longrightarrow>
   count_completion env t rm = local_decrement t (rm\<lparr>redis_last_check := check_time env rm\<rparr>)"
  by (simp add: count_completion_def get_redis_local)

lemma local_counter_effects:
  "redis_client (local_increment t rm) = redis_client rm"
  "local_active (local_increment t rm) u = local_active rm u + of_bool (u = t)"
  "redis_client (snd (snd (local_decrement t rm))) = redis_client rm"
  "0 \<le> local_active rm t \<Longrightarrow> local_active (snd (snd (local_decrement t rm))) u =
     (if u = t then max 0 (local_active rm t - 1) else local_active rm u)"
  by (auto simp: local_increment_def local_decrement_def local_active_def Let_def)

lemma local_active_cong: "active_counts rm = active_counts rm' \<Longrightarrow> local_active rm t = local_active rm' t"
  by (simp add: local_active_def)

lemma admit_local:
  assumes "local_env x" and "\<not> redis_client rm"
  shows "\<not> redis_client (rm_admit x t rm) \<and>
    local_active (rm_admit x t rm) u =
      local_active rm u + of_bool (u = t \<and> local_active rm t < max_concurrent rm)"
  using assms
  by (auto simp: rm_admit_def admit_def can_execute_local Let_def local_env_def count_start_local
      local_increment_def local_active_def)

interpretation lc: tenant_counter local_active max_concurrent rm_start rm_complete rm_admit local_env
    "\<lambda>rm. \<not> redis_client rm"
proof (unfold_locales, goal_cases)
  case (1 x s t)
  then show ?case by (simp add: rm_start_def local_env_def count_start_local local_counter_effects)
next
  case (2 x s t)
  then show ?case by (simp add: rm_complete_def local_env_def count_completion_local local_counter_effects)
next
  case (7 x s t u)
  then have "active_counts (rm_start x t s) =
      active_counts (local_increment t (s\<lparr>redis_last_check := check_time (fst x) s\<rparr>))"
    by (simp add: rm_start_def local_env_def count_start_local)
  then show ?case by (simp add: local_active_cong local_active_def local_increment_def)
next
  case (8 x s t u)
  then have "active_counts (rm_complete x t s) =
      active_counts (snd (snd (local_decrement t (s\<lparr>redis_last_check := check_time (fst x) s\<rparr>))))"
    by (simp add: rm_complete_def local_env_def count_completion_local)
  then have "local_active (rm_complete x t s) u =
      local_active (snd (snd (local_decrement t (s\<lparr>redis_last_check := check_time (fst x) s\<rparr>)))) u"
    by (rule local_active_cong)
  then show ?case using 8(3) by (auto simp: local_decrement_def local_active_def Let_def)
qed (auto simp: rm_limits admit_local)

lemma count_start_shared:
  "shared_env x \<Longrightarrow> redis_client rm \<Longrightarrow>
   redis_client (count_start (fst x) t rm) \<and>
   shared_active (count_start (fst x) t rm) u = shared_active rm u + of_bool (u = t)"
  by (simp add: shared_env_def count_start_def get_redis_shared shared_active_def)

lemma count_completion_shared:
  "shared_env x \<Longrightarrow> redis_client rm \<Longrightarrow>
   redis_client (snd (snd (count_completion (fst x) t rm))) \<and>
   (0 \<le> shared_active rm t \<longrightarrow> shared_active (snd (snd (count_completion (fst x) t rm))) u =
      (if u = t then max 0 (shared_active rm t - 1) else shared_active rm u))"
  by (auto simp: shared_env_def count_completion_def get_redis_shared reset_tenant_quota_def
      shared_active_def Let_def)

lemma shared_active_cong: "redis_counts rm = redis_counts rm' \<Longrightarrow> shared_active rm t = shared_active rm' t"
  by (simp add: shared_active_def)

lemma admit_shared:
  assumes "shared_env x" and "redis_client rm"
  shows "redis_client (rm_admit x t rm) \<and>
    shared_active (rm_admit x t rm) u =
      shared_active rm u + of_bool (u = t \<and> shared_active rm t < max_concurrent rm)"
  using assms
  by (auto simp: rm_admit_def admit_def can_execute_shared Let_def shared_env_def count_start_def
      get_redis_shared shared_active_def)

interpretation sc: tenant_counter shared_active max_concurrent rm_start rm_complete rm_admit shared_env
    redis_client
proof (unfold_locales, goal_cases)
  case (7 x s t u)
  then show ?case
    using count_start_shared [of x s t u] shared_active_cong [of "rm_start x t s" "count_start (fst x) t s" u]
    by (simp add: rm_start_def)
next
  case (8 x s t u)
  then show ?case
    using count_completion_shared [of x s t u]
      shared_active_cong [of "rm_complete x t s" "snd (snd (count_completion (fst x) t s))" u]
    by (simp add: rm_complete_def)
qed (auto simp: rm_limits admit_shared count_start_shared count_completion_shared rm_start_def
    rm_complete_def mark_started_limit mark_completed_limit)


section \<open>Usage\<close>

lemma backend_write_usage [simp]: "usage (backend_write env f rm) = usage rm"
  by (simp add: backend_write_def split: option.splits)

lemma backend_writes_usage [simp]: "usage ((backend_write env f ^^ n) rm) = usage rm"
  by (induction n) simp_all

lemma get_usage_with_snapshot:
  "get_usage e (with_snapshot eid f rm) = (if e = eid then f (get_usage eid rm) else get_usage e rm)"
  by (simp add: with_snapshot_def get_usage_def Let_def pd.get_put split: option.splits)

lemma get_usage_cong: "usage rm = usage rm' \<Longrightarrow> get_usage e rm = get_usage e rm'"
  by (simp add: get_usage_def)

lemma get_usage_cpu:
  "get_usage e (record_cpu env eid ms rm) =
     (if e = eid then (get_usage eid rm)\<lparr>cpu_time_ms := cpu_time_ms (get_usage eid rm) + ms\<rparr>
      else get_usage e rm)"
  using get_usage_cong [of "record_cpu env eid ms rm" "with_snapshot eid (\<lambda>s. s\<lparr>cpu_time_ms := cpu_time_ms s + ms\<rparr>) rm" e]
  by (simp add: record_cpu_def get_usage_with_snapshot)

lemma get_usage_memory:
  "get_usage e (record_memory env eid b rm) =
     (if e = eid then (get_usage eid rm)\<lparr>memory_bytes := max (memory_bytes (get_usage eid rm)) b\<rparr>
      else get_usage e rm)"
  using get_usage_cong [of "record_memory env eid b rm" "with_snapshot eid (\<lambda>s. s\<lparr>memory_bytes := max (memory_bytes s) b\<rparr>) rm" e]
  by (simp add: record_memory_def get_usage_with_snapshot)

lemma get_usage_syscall:
  "get_usage e (record_syscall env eid n rm) =
     (if e = eid then (get_usage eid rm)\<lparr>syscall_count := syscall_count (get_usage eid rm) + max 0 n\<rparr>
      else get_usage e rm)"
proof (cases "0 < n")
  case True
  then have "usage (record_syscall env eid n rm) =
      usage (with_snapshot eid (\<lambda>s. s\<lparr>syscall_count := syscall_count s + n\<rparr>) rm)"
    by (simp add: record_syscall_def Let_def max_def)
  then have "get_usage e (record_syscall env eid n rm) =
      get_usage e (with_snapshot eid (\<lambda>s. s\<lparr>syscall_count := syscall_count s + n\<rparr>) rm)"
    by (rule get_usage_cong)
  with True show ?thesis by (simp add: get_usage_with_snapshot max_def)
next
  case False
  then show ?thesis by (simp add: record_syscall_def Let_def max_def)
qed

lemma get_usage_record:
  "get_usage e (record_usage env eid u rm) =
     (if e = eid
      then (get_usage eid rm)
        \<lparr>cpu_time_ms := cpu_time_ms (get_usage eid rm) + or_zero (ur_cpu u),
         memory_bytes := max (memory_bytes (get_usage eid rm)) (or_zero (ur_memory u)),
         syscall_count := syscall_count (get_usage eid rm) + max 0 (or_zero (ur_syscalls u))\<rparr>
      else get_usage e rm)"
  by (simp add: record_usage_def get_usage_syscall get_usage_memory get_usage_cpu)

lemma get_redis_counts: "get_redis env rm = (b, rm1) \<Longrightarrow> redis_counts rm1 = redis_counts rm"
  by (auto simp: get_redis_def Let_def split: if_splits)

lemma local_decrement_shared [simp]:
  "redis_counts (snd (snd (local_decrement t rm))) = redis_counts rm"
  "redis_counts (drop_redis_client env rm) = redis_counts rm"
  by (simp_all add: local_decrement_def drop_redis_client_def Let_def)

lemma count_completion_down:
  "\<not> call_ok env \<Longrightarrow> redis_counts (snd (snd (count_completion env t rm))) = redis_counts rm"
  by (auto simp: count_completion_def dest!: get_redis_counts split: prod.splits bool.splits)

lemma completions_down:
  "\<forall>x\<in>set xs. \<not> call_ok (fst x) \<Longrightarrow>
   redis_counts (foldl (\<lambda>r x. rm_complete x t r) rm xs) = redis_counts rm \<and>
   max_concurrent (foldl (\<lambda>r x. rm_complete x t r) rm xs) = max_concurrent rm"
  by (induction xs arbitrary: rm) (auto simp: rm_complete_def count_completion_down mark_completed_limit)

lemma check_quota_refused:
  "\<not> is_testing env \<Longrightarrow> map_of (usage rm) eid = Some snap \<Longrightarrow>
   can_execute env (us_tenant_id snap) rm = (Some reason, rm1) \<Longrightarrow>
   check_quota env eid rm = (Some reason, rm1)"
  by (simp add: check_quota_def)

lemma check_quota_local:
  assumes "local_env x" and "\<not> redis_client rm" and "backend rm = None" and "pending_purge rm = []"
    and "map_of (usage rm) eid = Some snap" and "local_active rm (us_tenant_id snap) < max_concurrent rm"
  shows "check_quota (fst x) eid rm =
    (if max_cpu_time_ms rm < cpu_time_ms snap
     then Some (Cpu_limit eid (cpu_time_ms snap) (max_cpu_time_ms rm))
     else if max_syscalls rm < syscall_count snap
     then Some (Syscall_limit eid (syscall_count snap) (max_syscalls rm))
     else None, rm\<lparr>redis_last_check := check_time (fst x) rm\<rparr>)"
  using assms can_execute_local [OF assms(1,2), of "us_tenant_id snap"]
  by (simp add: check_quota_def local_env_def purge_pending_def backend_read_def Let_def)

text \<open>What a usage report leaves alone when there is no usage backend.\<close>

lemma backend_write_None [simp]: "backend rm = None \<Longrightarrow> backend_write env f rm = rm"
  by (simp add: backend_write_def)

lemma backend_writes_None [simp]: "backend rm = None \<Longrightarrow> (backend_write env f ^^ n) rm = rm"
  by (induction n) simp_all

lemma record_usage_frame:
  assumes "backend rm = None"
  shows "\<exists>d. record_usage env eid u rm = rm\<lparr>usage := d\<rparr> \<and> map_of d eid \<noteq> None"
  using assms
  by (cases rm) (simp add: record_usage_def record_syscall_def record_memory_def record_cpu_def
      with_snapshot_def Let_def pd.get_put)

section \<open>Properties\<close>

text \<open>
  C6. Without a shared store, after any history of starts, completions and admissions each tenant's
  counter is the number of its executions running in the specification: starts add one, completions
  never go below zero, admissions add one only below the limit.
\<close>

theorem tenant_count_refines:
  assumes "\<forall>e\<in>set ops. local_env (op_env e)"
  shows "local_active (foldl rm_apply (new_resource_manager be) ops) t =
    int (count (foldl (running_step 5) {#} ops) t)"
  using lc.refines_run [of ops "new_resource_manager be" "{#}" t] assms
  by (simp add: rm_apply_def new_resource_manager_def local_active_def counter_def)

theorem tenant_count_refines_witness:
  "let env = \<lparr>now_mono = 5, redis_url = False, ping_ok = False, call_ok = False, backend_ok = False,
              is_testing = False\<rparr>;
       ops = [Start (env, Some ''eu1'') ''t'', Start (env, None) ''t'', Complete (env, Some ''eu1'') ''t'']
   in local_active (foldl rm_apply (new_resource_manager None) ops) ''t'' = 1"
  using tenant_count_refines
    [of "[Start (\<lparr>now_mono = 5, redis_url = False, ping_ok = False, call_ok = False, backend_ok = False,
                   is_testing = False\<rparr>, Some ''eu1'') ''t'',
          Start (\<lparr>now_mono = 5, redis_url = False, ping_ok = False, call_ok = False, backend_ok = False,
                   is_testing = False\<rparr>, None) ''t'',
          Complete (\<lparr>now_mono = 5, redis_url = False, ping_ok = False, call_ok = False, backend_ok = False,
                   is_testing = False\<rparr>, Some ''eu1'') ''t'']" None "''t''"]
  by (simp add: local_env_def Let_def)

text \<open>
  With a reachable shared store, when every start goes through admission and admissions are not
  interleaved, no tenant ever runs more than \<open>MAX_CONCURRENT_PER_TENANT\<close> executions and no counter
  is ever negative.
\<close>

theorem admission_bounded:
  assumes "\<forall>e\<in>set ops. shared_env (op_env e) \<and> (\<nexists>x t. e = Start x t)"
    and "redis_client rm" and "redis_counts rm = []" and "0 \<le> max_concurrent rm"
  shows "0 \<le> shared_active (foldl rm_apply rm ops) t \<and>
    shared_active (foldl rm_apply rm ops) t \<le> max_concurrent rm"
  using sc.bounded_run [of ops rm t] assms
  by (simp add: rm_apply_def shared_active_def counter_def)

theorem admission_bounded_witness:
  "let env = \<lparr>now_mono = 5, redis_url = True, ping_ok = True, call_ok = True, backend_ok = False,
              is_testing = False\<rparr>;
       rm = (new_resource_manager None)\<lparr>redis_client := True\<rparr>
   in shared_active (foldl rm_apply rm (replicate 9 (Admit (env, Some ''eu'') ''t''))) ''t'' \<le> 5"
  using admission_bounded
    [of "replicate 9 (Admit (\<lparr>now_mono = 5, redis_url = True, ping_ok = True, call_ok = True,
           backend_ok = False, is_testing = False\<rparr>, Some ''eu'') ''t'')"
        "(new_resource_manager None)\<lparr>redis_client := True\<rparr>" "''t''"]
  by (simp add: shared_env_def new_resource_manager_def Let_def del: foldl.simps replicate.simps)

text \<open>
  A completion publishes \<open>resource_available\<close> exactly when it takes the tenant from its limit to
  below it: not below the limit, and not when a tenant above its limit only returns to it.
\<close>

theorem capacity_event_iff:
  assumes "local_env x" and "\<not> redis_client rm" and "0 < max_concurrent rm"
  shows "fst (mark_completed (fst x) t eu rm) \<longleftrightarrow> local_active rm t = max_concurrent rm"
  using assms
  by (auto simp: mark_completed_def local_env_def count_completion_local local_decrement_def
      local_active_def Let_def)

theorem capacity_event_iff_witness:
  "fst (mark_completed \<lparr>now_mono = 5, redis_url = False, ping_ok = False, call_ok = False,
      backend_ok = False, is_testing = False\<rparr> ''t'' None
      ((new_resource_manager None)\<lparr>active_counts := [(''t'', 5)]\<rparr>))"
  using capacity_event_iff
    [of "(\<lparr>now_mono = 5, redis_url = False, ping_ok = False, call_ok = False, backend_ok = False,
           is_testing = False\<rparr>, None)"
        "(new_resource_manager None)\<lparr>active_counts := [(''t'', 5)]\<rparr>" "''t''" None]
  by (simp add: local_env_def new_resource_manager_def local_active_def counter_def)

text \<open>
  \<open>check_quota\<close> begins with the admission test, so an execution that was admitted as its tenant's
  last is refused for concurrency while it runs, whatever it has used: at the limit every quota
  check of the tenant's own executions fails.
\<close>

theorem saturated_tenant_fails_quota:
  assumes "local_env x" and "\<not> redis_client rm" and "map_of (usage rm) eid = Some snap"
    and "local_active rm (us_tenant_id snap) = max_concurrent rm"
  shows "fst (check_quota (fst x) eid rm) =
    Some (Concurrent_limit (us_tenant_id snap) (max_concurrent rm) (max_concurrent rm))"
proof -
  have "\<exists>rm1. can_execute (fst x) (us_tenant_id snap) rm =
      (Some (Concurrent_limit (us_tenant_id snap) (max_concurrent rm) (max_concurrent rm)), rm1)"
    using can_execute_local [OF assms(1,2)] assms(4) by (simp add: Let_def)
  then show ?thesis
    using check_quota_refused [OF _ assms(3)] assms(1) by (auto simp: local_env_def)
qed

theorem saturated_tenant_fails_quota_witness:
  "let env = \<lparr>now_mono = 5, redis_url = False, ping_ok = False, call_ok = False, backend_ok = False,
              is_testing = False\<rparr>;
       rm = (new_resource_manager None)\<lparr>usage := [(''a'', new_snapshot ''a'' ''t'')],
              active_counts := [(''t'', 5)]\<rparr>
   in fst (check_quota env ''a'' rm) = Some (Concurrent_limit ''t'' 5 5)"
  using saturated_tenant_fails_quota
    [of "(\<lparr>now_mono = 5, redis_url = False, ping_ok = False, call_ok = False, backend_ok = False,
           is_testing = False\<rparr>, None)"
        "(new_resource_manager None)\<lparr>usage := [(''a'', new_snapshot ''a'' ''t'')],
              active_counts := [(''t'', 5)]\<rparr>"
        "''a''" "new_snapshot ''a'' ''t''"]
  by (simp add: Let_def local_env_def new_resource_manager_def new_snapshot_def local_active_def counter_def)

text \<open>
  Completions during an outage of the shared store are counted locally only: the shared counter
  keeps its slots, so when the store is back a tenant whose executions have all completed is still
  refused.
\<close>

theorem outage_leaks_slots:
  assumes "max_concurrent rm \<le> shared_active rm t"
    and "\<forall>x\<in>set xs. \<not> call_ok (fst x)"
    and "rm' = foldl (\<lambda>r x. rm_complete x t r) rm xs"
    and "shared_env y" and "REDIS_CHECK_INTERVAL < now_mono (fst y) - redis_last_check rm'"
  shows "fst (can_execute (fst y) t rm') =
    Some (Concurrent_limit t (shared_active rm t) (max_concurrent rm))"
proof -
  have "redis_counts rm' = redis_counts rm" and "max_concurrent rm' = max_concurrent rm"
    using completions_down [OF assms(2)] assms(3) by simp_all
  moreover have "redis_last_check (purge_pending rm') = redis_last_check rm'"
    by (simp add: purge_pending_def)
  ultimately show ?thesis
    using assms(1,4,5)
    by (simp add: can_execute_def shared_env_def get_tenant_active_def get_redis_def shared_active_def Let_def)
qed

theorem outage_leaks_slots_witness:
  "let down = \<lparr>now_mono = 100, redis_url = True, ping_ok = False, call_ok = False, backend_ok = False,
               is_testing = False\<rparr>;
       up = \<lparr>now_mono = 40000000, redis_url = True, ping_ok = True, call_ok = True, backend_ok = False,
             is_testing = False\<rparr>;
       rm = (new_resource_manager None)\<lparr>max_concurrent := 1, redis_client := True, redis_counts := [(''t'', 1)]\<rparr>
   in fst (can_execute up ''t'' (rm_complete (down, None) ''t'' rm)) = Some (Concurrent_limit ''t'' 1 1)"
proof -
  let ?down = "\<lparr>now_mono = 100, redis_url = True, ping_ok = False, call_ok = False, backend_ok = False,
               is_testing = False\<rparr>"
  let ?up = "\<lparr>now_mono = 40000000, redis_url = True, ping_ok = True, call_ok = True, backend_ok = False,
             is_testing = False\<rparr>"
  let ?rm = "(new_resource_manager None)\<lparr>max_concurrent := 1, redis_client := True, redis_counts := [(''t'', 1)]\<rparr>"
  have last: "redis_last_check (rm_complete (?down, None) ''t'' ?rm) = 100"
    by (simp add: rm_complete_def mark_completed_def count_completion_def get_redis_def
        drop_redis_client_def local_decrement_def local_active_def counter_def new_resource_manager_def
        truthy_str_def REDIS_CHECK_INTERVAL_def Let_def)
  have "fst (can_execute (fst (?up, None :: string option)) ''t'' (rm_complete (?down, None) ''t'' ?rm)) =
      Some (Concurrent_limit ''t'' (shared_active ?rm ''t'') (max_concurrent ?rm))"
  proof (rule outage_leaks_slots [of ?rm "''t''" "[(?down, None)]"])
    show "REDIS_CHECK_INTERVAL < now_mono (fst (?up, None :: string option)) -
        redis_last_check (rm_complete (?down, None) ''t'' ?rm)"
      by (simp add: last REDIS_CHECK_INTERVAL_def)
  qed (simp_all add: shared_env_def new_resource_manager_def shared_active_def counter_def)
  then show ?thesis by (simp add: Let_def new_resource_manager_def shared_active_def counter_def)
qed

text \<open>
  Recording a list of usage reports adds up CPU time and syscalls (negative syscall counts count
  as zero), keeps the largest memory figure, and touches no other execution's snapshot.
\<close>

theorem usage_accumulates:
  "let r = foldl (\<lambda>rm u. record_usage env eid u rm) rm us in
     cpu_time_ms (get_usage eid r) = cpu_time_ms (get_usage eid rm) + (\<Sum>u\<leftarrow>us. or_zero (ur_cpu u)) \<and>
     memory_bytes (get_usage eid r) = fold (\<lambda>u m. max m (or_zero (ur_memory u))) us (memory_bytes (get_usage eid rm)) \<and>
     syscall_count (get_usage eid r) =
       syscall_count (get_usage eid rm) + (\<Sum>u\<leftarrow>us. max 0 (or_zero (ur_syscalls u))) \<and>
     get_usage e r = (if e = eid then get_usage eid r else get_usage e rm)"
  by (induction us arbitrary: rm) (auto simp: Let_def get_usage_record)

end
