(* ===== verification/Syscall_Dispatcher.thy ===== *)
theory Syscall_Dispatcher
  imports Syscall_Registry Resource_Manager
begin

text \<open>
  \<^verbatim>\<open>AINDY/kernel/syscall_dispatcher.py\<close>: the single entry point of the syscalls.

  A handler is a function of its payload, its context and the world, which it may change (it may
  dispatch again); it returns a value, raises, or raises \<open>CircuitOpenError\<close>. The world holds what
  the dispatcher itself reads and writes: the two context variables, the resource manager and the
  list of emitted \<open>SYSCALL_EXECUTED\<close> events. \<open>disp_env\<close> is what the surroundings contribute to one
  dispatch: the manager's environment, whether the manager and the event bus raise, two fresh
  identifiers and the elapsed times. Error texts are values that carry what the text reports.
  Tracing spans and log lines are left out.
\<close>

record disp_world =
  trace_ctx :: string
  eu_ctx :: string
  rm_state :: resource_manager
  emitted :: "(string \<times> string) list"

record disp_env =
  de_rm :: rm_env
  quota_raises :: bool
  record_raises :: bool
  event_raises :: bool
  uuid_trace :: string
  uuid_eu :: string
  ms_used :: int
  ms_total :: int

datatype hresult = Hok pyval | Hraise string | Hcircuit_open string

type_synonym handler = "payload \<Rightarrow> SyscallContext \<Rightarrow> disp_world \<Rightarrow> hresult \<times> disp_world"

datatype syscall_error =
    Unknown_version string "string list"
  | Unknown_syscall string
  | Permission_denied string string "string list"
  | Tenant_violation
  | Quota_exceeded quota_reason
  | Input_invalid string "schema_error list"
  | Handler_failed string
  | Http_503 string

datatype call_status = Success | Error

record envelope =
  env_status :: call_status
  env_data :: pyval
  env_trace_id :: string
  env_eu_id :: string
  env_syscall :: string
  env_version :: string
  env_duration :: int
  env_error :: "syscall_error option"
  env_warning :: "string option"

definition error_envelope ::
    "disp_env \<Rightarrow> string \<Rightarrow> SyscallContext \<Rightarrow> syscall_error \<Rightarrow> string \<Rightarrow> envelope" where
  "error_envelope env name ctx message version =
     \<lparr>env_status = Error, env_data = PDict [], env_trace_id = trace_id ctx,
      env_eu_id = execution_unit_id ctx, env_syscall = name, env_version = version,
      env_duration = ms_total env, env_error = Some message, env_warning = None\<rparr>"

definition emit_syscall_event :: "disp_env \<Rightarrow> string \<Rightarrow> string \<Rightarrow> disp_world \<Rightarrow> disp_world" where
  "emit_syscall_event env name status w =
     (if event_raises env then w else w\<lparr>emitted := emitted w @ [(name, status)]\<rparr>)"

definition resolve_trace_context ::
    "disp_env \<Rightarrow> SyscallContext \<Rightarrow> disp_world \<Rightarrow> SyscallContext \<times> (string \<times> string) option \<times> disp_world" where
  "resolve_trace_context env ctx w =
     (if trace_ctx w \<noteq> [] then
        (if trace_id ctx \<noteq> trace_ctx w \<or> execution_unit_id ctx \<noteq> eu_ctx w
         then ctx\<lparr>execution_unit_id := (if eu_ctx w \<noteq> [] then eu_ctx w else execution_unit_id ctx),
                  trace_id := trace_ctx w\<rparr>
         else ctx, None, w)
      else
        let tid = (if trace_id ctx \<noteq> [] then trace_id ctx else uuid_trace env);
            eid = (if execution_unit_id ctx \<noteq> [] then execution_unit_id ctx else uuid_eu env);
            ctx' = (if trace_id ctx = [] \<or> execution_unit_id ctx = []
                    then ctx\<lparr>execution_unit_id := eid, trace_id := tid\<rparr> else ctx)
        in (ctx', Some (trace_ctx w, eu_ctx w),
            w\<lparr>trace_ctx := trace_id ctx', eu_ctx := execution_unit_id ctx'\<rparr>))"

text \<open>Step 1: the version of the name, and the name to look up after the version fallback.\<close>

definition resolve_name :: "handler registry \<Rightarrow> string \<Rightarrow> (syscall_error \<times> string) + (string \<times> string)" where
  "resolve_name reg name =
     (case parse_syscall_name name of
        Inl _ \<Rightarrow> Inr (name, ''unknown'')
      | Inr (parsed_version, action) \<Rightarrow>
          if parsed_version = ''unknown'' then Inr (name, parsed_version)
          else
            let available = versions reg;
                resolved = resolve_version parsed_version available SYSCALL_VERSION_FALLBACK
            in if resolved = None \<and> parsed_version \<notin> set available
               then Inl (Unknown_version parsed_version available, parsed_version)
               else
                 case resolved of
                   None \<Rightarrow> Inr (name, parsed_version)
                 | Some v \<Rightarrow>
                     if v \<noteq> [] \<and> v \<noteq> parsed_version then Inr (''sys.'' @ v @ ''.'' @ action, v)
                     else Inr (name, parsed_version))"

text \<open>Step 2c: a raising manager is skipped; only a clean refusal blocks.\<close>

definition quota_step :: "disp_env \<Rightarrow> SyscallContext \<Rightarrow> disp_world \<Rightarrow> quota_reason option \<times> disp_world" where
  "quota_step env ctx w =
     (if quota_raises env then (None, w)
      else
        let (reason, rm) = check_quota (de_rm env) (execution_unit_id ctx) (rm_state w)
        in (reason, w\<lparr>rm_state := rm\<rparr>))"

text \<open>Step 4: one syscall and the elapsed time, recorded after a successful handler only.\<close>

definition record_step :: "disp_env \<Rightarrow> SyscallContext \<Rightarrow> disp_world \<Rightarrow> disp_world" where
  "record_step env ctx w =
     (if record_raises env then w
      else w\<lparr>rm_state := record_usage (de_rm env) (execution_unit_id ctx)
                 \<lparr>ur_cpu = Some (ms_used env), ur_memory = None, ur_syscalls = Some 1\<rparr> (rm_state w)\<rparr>)"

text \<open>Steps 2e to 6: the handler and what follows it.\<close>

definition run_entry ::
    "disp_env \<Rightarrow> string \<Rightarrow> string \<Rightarrow> handler SyscallEntry \<Rightarrow> payload \<Rightarrow> SyscallContext \<Rightarrow> disp_world \<Rightarrow>
     envelope \<times> disp_world" where
  "run_entry env name version entry payload ctx w =
     (let warning = (if deprecated entry
                     then Some (deprecation_text name (deprecated_since entry) (replacement entry))
                     else None)
      in case handler entry payload ctx w of
           (Hraise m, w1) \<Rightarrow>
             (error_envelope env name ctx (Handler_failed m) version,
              emit_syscall_event env name ''error'' w1)
         | (Hcircuit_open m, w1) \<Rightarrow>
             (error_envelope env name ctx (Http_503 m) version,
              emit_syscall_event env name ''error'' w1)
         | (Hok data, w1) \<Rightarrow>
             (\<lparr>env_status = Success, env_data = data, env_trace_id = trace_id ctx,
               env_eu_id = execution_unit_id ctx, env_syscall = name, env_version = version,
               env_duration = ms_total env, env_error = None, env_warning = warning\<rparr>,
              emit_syscall_event env name ''success'' (record_step env ctx w1)))"

definition dispatch_inner ::
    "handler registry \<Rightarrow> disp_env \<Rightarrow> string \<Rightarrow> payload \<Rightarrow> SyscallContext \<Rightarrow> disp_world \<Rightarrow> envelope \<times> disp_world"
  where
  "dispatch_inner reg env name0 payload ctx w =
     (case resolve_name reg name0 of
        Inl (e, version) \<Rightarrow> (error_envelope env name0 ctx e version, w)
      | Inr (name, version) \<Rightarrow>
          (case reg_get reg name of
             None \<Rightarrow> (error_envelope env name ctx (Unknown_syscall name) version, w)
           | Some entry \<Rightarrow>
               if capability entry \<notin> set (capabilities ctx)
               then (error_envelope env name ctx
                       (Permission_denied name (capability entry) (capabilities ctx)) version, w)
               else if user_id ctx = []
               then (error_envelope env name ctx Tenant_violation version, w)
               else
                 (case quota_step env ctx w of
                    (Some reason, w1) \<Rightarrow>
                      (error_envelope env name ctx (Quota_exceeded reason) version, w1)
                  | (None, w1) \<Rightarrow>
                      let errors = validate_input (input_schema entry) payload in
                      if errors \<noteq> []
                      then (error_envelope env name ctx (Input_invalid name errors) version, w1)
                      else run_entry env name version entry payload ctx w1)))"

definition dispatch ::
    "handler registry \<Rightarrow> disp_env \<Rightarrow> string \<Rightarrow> payload \<Rightarrow> SyscallContext \<Rightarrow> disp_world \<Rightarrow> envelope \<times> disp_world"
  where
  "dispatch reg env name payload ctx w =
     (let (ctx1, tok, w1) = resolve_trace_context env ctx w;
          (result, w2) = dispatch_inner reg env name payload ctx1 w1
      in (result,
          case tok of
            None \<Rightarrow> w2
          | Some (t, e) \<Rightarrow> w2\<lparr>trace_ctx := t, eu_ctx := e\<rparr>))"

definition infer_dispatch_capability :: "string \<Rightarrow> string" where
  "infer_dispatch_capability name =
     (case parse_syscall_name name of
        Inl _ \<Rightarrow> ''event.emit''
      | Inr (_, action) \<Rightarrow>
          let parts = split_on CHR ''.'' action;
              domain = hd parts;
              verb = last parts;
              reads = [''get'', ''list'', ''count'', ''read'', ''query'', ''fetch''];
              writes = [''create'', ''update'', ''delete'', ''ensure'', ''init'', ''write'', ''store'',
                        ''observe'']
          in if verb \<in> set reads \<or> list_ex (\<lambda>p. startswith verb (p @ ''_'')) reads
             then domain @ ''.read''
             else if verb \<in> set writes \<or> list_ex (\<lambda>p. startswith verb (p @ ''_'')) writes
             then domain @ ''.write''
             else action)"

definition make_syscall_ctx_from_tool ::
    "disp_env \<Rightarrow> string option \<Rightarrow> string \<Rightarrow> string list option \<Rightarrow> SyscallContext" where
  "make_syscall_ctx_from_tool env user run caps =
     (let eid = (if run \<noteq> [] then run else uuid_eu env) in
      \<lparr>execution_unit_id = eid, user_id = or_str user [],
       capabilities = (case caps of None \<Rightarrow> DEFAULT_NODUS_CAPABILITIES | Some cs \<Rightarrow> cs),
       trace_id = eid, memory_context = [], metadata = []\<rparr>)"

definition make_syscall_ctx_from_flow ::
    "(string, string) dict \<Rightarrow> string list option \<Rightarrow> SyscallContext" where
  "make_syscall_ctx_from_flow context caps =
     (let field = (\<lambda>k. or_str (map_of context k) []);
          opt = (\<lambda>k. case map_of context k of None \<Rightarrow> PNone | Some s \<Rightarrow> PStr s) in
      \<lparr>execution_unit_id = field ''run_id'', user_id = field ''user_id'',
       capabilities = (case caps of None \<Rightarrow> DEFAULT_NODUS_CAPABILITIES | Some cs \<Rightarrow> cs),
       trace_id = or_str (map_of context ''trace_id'') (field ''run_id''),
       memory_context = [],
       metadata = [(''workflow_type'', opt ''workflow_type''), (''flow_name'', opt ''flow_name''),
                   (''node_name'', opt ''node_name'')]\<rparr>)"

definition child_context ::
    "SyscallContext \<Rightarrow> string list option \<Rightarrow> (string, pyval) dict option \<Rightarrow> SyscallContext" where
  "child_context parent caps meta =
     \<lparr>execution_unit_id = execution_unit_id parent, user_id = user_id parent,
      capabilities = (case caps of None \<Rightarrow> capabilities parent | Some cs \<Rightarrow> cs),
      trace_id = trace_id parent, memory_context = memory_context parent,
      metadata = (case meta of None \<Rightarrow> metadata parent | Some m \<Rightarrow> m)\<rparr>"

definition dispatch_syscall ::
    "handler registry \<Rightarrow> disp_env \<Rightarrow> string \<Rightarrow> payload \<Rightarrow> pyval option \<Rightarrow> string option \<Rightarrow> string option \<Rightarrow>
     disp_world \<Rightarrow> envelope \<times> disp_world" where
  "dispatch_syscall reg env name payload db user cap w =
     (let ctx = make_syscall_ctx_from_tool env user []
                  (Some [or_str cap (infer_dispatch_capability name)]);
          ctx' = (case db of
                    None \<Rightarrow> ctx
                  | Some d \<Rightarrow> ctx\<lparr>metadata := AList.update ''_db'' d (metadata ctx)\<rparr>)
      in dispatch reg env name payload ctx' w)"

section \<open>Lemmas\<close>

lemma no_fallback: "resolve_name reg name = Inr (n, v) \<Longrightarrow> n = name"
  by (auto simp: resolve_name_def resolve_version_def SYSCALL_VERSION_FALLBACK_def Let_def
      split: sum.splits if_splits prod.splits)

lemma error_envelope_status [simp]: "env_status (error_envelope env n c m v) = Error"
  by (simp add: error_envelope_def)

lemma run_entry_success:
  "env_status (fst (run_entry env n v entry p ctx w)) = Success \<longleftrightarrow>
     (\<exists>data w'. handler entry p ctx w = (Hok data, w'))"
  by (auto simp: run_entry_def Let_def split: prod.splits hresult.splits)

lemma inner_trace: "env_trace_id (fst (dispatch_inner reg env name p ctx w)) = trace_id ctx"
  by (auto simp: dispatch_inner_def run_entry_def error_envelope_def Let_def
      split: sum.splits prod.splits option.splits hresult.splits)

text \<open>Every guard of the dispatcher, as one predicate on the entry, the context and the world.\<close>

definition guards_pass ::
    "disp_env \<Rightarrow> handler SyscallEntry \<Rightarrow> payload \<Rightarrow> SyscallContext \<Rightarrow> disp_world \<Rightarrow> bool" where
  "guards_pass env entry payload ctx w \<longleftrightarrow>
     capability entry \<in> set (capabilities ctx) \<and> user_id ctx \<noteq> [] \<and>
     fst (quota_step env ctx w) = None \<and> validate_input (input_schema entry) payload = []"

lemma inner_guarded:
  "dispatch_inner reg env name p ctx w =
     (case resolve_name reg name of
        Inl (e, version) \<Rightarrow> (error_envelope env name ctx e version, w)
      | Inr (n, version) \<Rightarrow>
          (case reg_get reg name of
             None \<Rightarrow> (error_envelope env name ctx (Unknown_syscall name) version, w)
           | Some entry \<Rightarrow>
               if guards_pass env entry p ctx w
               then run_entry env name version entry p ctx (snd (quota_step env ctx w))
               else dispatch_inner reg env name p ctx w))"
  by (auto simp: dispatch_inner_def guards_pass_def Let_def dest!: no_fallback
      split: sum.splits prod.splits option.splits)

lemma inner_blocked:
  assumes "reg_get reg name = Some entry" and "\<not> guards_pass env entry p ctx w"
  shows "env_status (fst (dispatch_inner reg env name p ctx w)) = Error \<and>
    snd (dispatch_inner reg env name p ctx w) \<in> {w, snd (quota_step env ctx w)}"
  using assms
  by (auto simp: dispatch_inner_def guards_pass_def Let_def dest!: no_fallback
      split: sum.splits prod.splits option.splits)


lemma resolve_root:
  "trace_ctx w = [] \<Longrightarrow> resolve_trace_context env ctx w = (ctx1, tok, w1) \<Longrightarrow>
   tok = Some (trace_ctx w, eu_ctx w) \<and> w1\<lparr>trace_ctx := trace_ctx w, eu_ctx := eu_ctx w\<rparr> = w \<and>
   capabilities ctx1 = capabilities ctx \<and> user_id ctx1 = user_id ctx"
  by (cases w) (auto simp: resolve_trace_context_def Let_def)

lemma resolve_nested:
  "trace_ctx w \<noteq> [] \<Longrightarrow> resolve_trace_context env ctx w = (ctx1, tok, w1) \<Longrightarrow>
   tok = None \<and> w1 = w \<and> trace_id ctx1 = trace_ctx w \<and>
   capabilities ctx1 = capabilities ctx \<and> user_id ctx1 = user_id ctx"
  by (auto simp: resolve_trace_context_def split: if_splits)

lemma resolve_caps:
  "resolve_trace_context env ctx w = (ctx1, tok, w1) \<Longrightarrow>
   capabilities ctx1 = capabilities ctx \<and> user_id ctx1 = user_id ctx"
  using resolve_root resolve_nested by (cases "trace_ctx w = []") blast+

lemma quota_step_ctx [simp]:
  "trace_ctx (snd (quota_step env ctx w)) = trace_ctx w" "eu_ctx (snd (quota_step env ctx w)) = eu_ctx w"
  "emitted (snd (quota_step env ctx w)) = emitted w"
  by (auto simp: quota_step_def Let_def split: prod.splits)

lemma after_handler_ctx [simp]:
  "trace_ctx (record_step env ctx w) = trace_ctx w" "eu_ctx (record_step env ctx w) = eu_ctx w"
  "trace_ctx (emit_syscall_event env n st w) = trace_ctx w"
  "eu_ctx (emit_syscall_event env n st w) = eu_ctx w"
  by (auto simp: record_step_def emit_syscall_event_def)

text \<open>A handler that leaves the context variables as it found them: one that only dispatches.\<close>

definition keeps_ctx :: "handler \<Rightarrow> bool" where
  "keeps_ctx h \<longleftrightarrow>
     (\<forall>p c w. trace_ctx (snd (h p c w)) = trace_ctx w \<and> eu_ctx (snd (h p c w)) = eu_ctx w)"

lemma run_entry_ctx:
  assumes "keeps_ctx (handler entry)"
  shows "trace_ctx (snd (run_entry env n v entry p ctx w)) = trace_ctx w \<and>
    eu_ctx (snd (run_entry env n v entry p ctx w)) = eu_ctx w"
proof -
  obtain r w1 where h: "handler entry p ctx w = (r, w1)" by fastforce
  then have "trace_ctx w1 = trace_ctx w \<and> eu_ctx w1 = eu_ctx w"
    using assms unfolding keeps_ctx_def by (metis snd_conv)
  with h show ?thesis by (simp add: run_entry_def Let_def split: hresult.splits)
qed

lemma inner_ctx:
  assumes "\<And>e. reg_get reg name = Some e \<Longrightarrow> keeps_ctx (handler e)"
  shows "trace_ctx (snd (dispatch_inner reg env name p ctx w)) = trace_ctx w \<and>
    eu_ctx (snd (dispatch_inner reg env name p ctx w)) = eu_ctx w"
proof (cases "reg_get reg name")
  case None
  then show ?thesis
    by (subst (1 2) inner_guarded) (auto split: sum.splits)
next
  case (Some entry)
  show ?thesis
  proof (cases "guards_pass env entry p ctx w")
    case True
    then show ?thesis
      using Some run_entry_ctx [OF assms [OF Some]]
      by (subst (1 2) inner_guarded) (auto split: sum.splits)
  next
    case False
    then show ?thesis using inner_blocked [OF Some False] by auto
  qed
qed

section \<open>The syscall budget\<close>

text \<open>
  \<open>ready\<close> collects what lets a root dispatch through every guard but the two quotas, with the
  execution's syscall count \<open>c\<close>; one dispatch either adds one to it or is refused.
\<close>

definition ready ::
    "handler registry \<Rightarrow> disp_env \<Rightarrow> string \<Rightarrow> payload \<Rightarrow> SyscallContext \<Rightarrow> disp_world \<Rightarrow> int \<Rightarrow> bool" where
  "ready reg env name p ctx w c \<longleftrightarrow>
     trace_ctx w = [] \<and> trace_id ctx \<noteq> [] \<and> execution_unit_id ctx \<noteq> [] \<and> user_id ctx \<noteq> [] \<and>
     resolve_name reg name \<in> range (\<lambda>v. Inr (name, v)) \<and>
     (\<exists>entry data. reg_get reg name = Some entry \<and> capability entry \<in> set (capabilities ctx) \<and>
        validate_input (input_schema entry) p = [] \<and> (\<forall>w. handler entry p ctx w = (Hok data, w))) \<and>
     local_env (de_rm env, None) \<and> \<not> quota_raises env \<and> \<not> record_raises env \<and> ms_used env = 0 \<and>
     \<not> redis_client (rm_state w) \<and> backend (rm_state w) = None \<and> pending_purge (rm_state w) = [] \<and>
     (\<exists>snap. map_of (usage (rm_state w)) (execution_unit_id ctx) = Some snap \<and> syscall_count snap = c \<and>
        cpu_time_ms snap \<le> max_cpu_time_ms (rm_state w) \<and>
        local_active (rm_state w) (us_tenant_id snap) < max_concurrent (rm_state w))"

fun dispatch_times ::
    "nat \<Rightarrow> handler registry \<Rightarrow> disp_env \<Rightarrow> string \<Rightarrow> payload \<Rightarrow> SyscallContext \<Rightarrow> disp_world \<Rightarrow> envelope list \<times> disp_world"
  where
  "dispatch_times 0 reg env name p ctx w = ([], w)"
| "dispatch_times (Suc n) reg env name p ctx w =
     (let (r, w1) = dispatch reg env name p ctx w;
          (rs, w2) = dispatch_times n reg env name p ctx w1 in (r # rs, w2))"

lemma ready_root:
  "ready reg env name p ctx w c \<Longrightarrow>
   resolve_trace_context env ctx w =
     (ctx, Some (trace_ctx w, eu_ctx w), w\<lparr>trace_ctx := trace_id ctx, eu_ctx := execution_unit_id ctx\<rparr>)"
  by (simp add: ready_def resolve_trace_context_def)

lemma ready_quota:
  assumes "ready reg env name p ctx w c" and "rm_state w' = rm_state w"
  shows "quota_step env ctx w' =
    (if max_syscalls (rm_state w) < c
     then Some (Syscall_limit (execution_unit_id ctx) c (max_syscalls (rm_state w))) else None,
     w'\<lparr>rm_state := (rm_state w)\<lparr>redis_last_check := check_time (de_rm env) (rm_state w)\<rparr>\<rparr>)"
proof -
  from assms obtain snap where s: "map_of (usage (rm_state w)) (execution_unit_id ctx) = Some snap"
      "syscall_count snap = c" "cpu_time_ms snap \<le> max_cpu_time_ms (rm_state w)"
      "local_active (rm_state w) (us_tenant_id snap) < max_concurrent (rm_state w)"
    by (auto simp: ready_def)
  have "\<not> quota_raises env" using assms by (simp add: ready_def)
  moreover have "check_quota (de_rm env) (execution_unit_id ctx) (rm_state w) =
    (if max_syscalls (rm_state w) < c
     then Some (Syscall_limit (execution_unit_id ctx) c (max_syscalls (rm_state w))) else None,
     (rm_state w)\<lparr>redis_last_check := check_time (de_rm env) (rm_state w)\<rparr>)"
    using check_quota_local [of "(de_rm env, None)" "rm_state w" "execution_unit_id ctx" snap] s assms
    by (simp add: ready_def)
  ultimately show ?thesis by (simp add: quota_step_def assms(2))
qed

lemma ready_refused:
  assumes r: "ready reg env name p ctx w c" and over: "max_syscalls (rm_state w) < c"
  shows "env_status (fst (dispatch reg env name p ctx w)) = Error \<and>
    ready reg env name p ctx (snd (dispatch reg env name p ctx w)) c \<and>
    max_syscalls (rm_state (snd (dispatch reg env name p ctx w))) = max_syscalls (rm_state w)"
proof -
  let ?w1 = "w\<lparr>trace_ctx := trace_id ctx, eu_ctx := execution_unit_id ctx\<rparr>"
  obtain v where v: "resolve_name reg name = Inr (name, v)" using r by (auto simp: ready_def)
  have q: "quota_step env ctx ?w1 =
      (Some (Syscall_limit (execution_unit_id ctx) c (max_syscalls (rm_state w))),
       ?w1\<lparr>rm_state := (rm_state w)\<lparr>redis_last_check := check_time (de_rm env) (rm_state w)\<rparr>\<rparr>)"
    using ready_quota [OF r, of ?w1] over by simp
  have d: "\<exists>res. dispatch_inner reg env name p ctx ?w1 = (res, snd (quota_step env ctx ?w1)) \<and>
      env_status res = Error"
    using r v by (auto simp: dispatch_inner_def q ready_def)
  then show ?thesis
    using r q by (auto simp: dispatch_def ready_root [OF r] ready_def local_active_def)
qed

lemma ready_served:
  assumes r: "ready reg env name p ctx w c" and within: "c \<le> max_syscalls (rm_state w)"
  shows "env_status (fst (dispatch reg env name p ctx w)) = Success \<and>
    ready reg env name p ctx (snd (dispatch reg env name p ctx w)) (c + 1) \<and>
    max_syscalls (rm_state (snd (dispatch reg env name p ctx w))) = max_syscalls (rm_state w)"
proof -
  let ?w1 = "w\<lparr>trace_ctx := trace_id ctx, eu_ctx := execution_unit_id ctx\<rparr>"
  let ?rm = "(rm_state w)\<lparr>redis_last_check := check_time (de_rm env) (rm_state w)\<rparr>"
  let ?u = "\<lparr>ur_cpu = Some 0, ur_memory = None, ur_syscalls = Some 1\<rparr>"
  let ?eid = "execution_unit_id ctx"
  obtain v where v: "resolve_name reg name = Inr (name, v)" using r by (auto simp: ready_def)
  obtain snap where s: "map_of (usage (rm_state w)) ?eid = Some snap" "syscall_count snap = c"
      "cpu_time_ms snap \<le> max_cpu_time_ms (rm_state w)"
      "local_active (rm_state w) (us_tenant_id snap) < max_concurrent (rm_state w)"
    using r by (auto simp: ready_def)
  obtain dd where rec: "record_usage (de_rm env) ?eid ?u ?rm = ?rm\<lparr>usage := dd\<rparr>" and "map_of dd ?eid \<noteq> None"
    using record_usage_frame [of ?rm "de_rm env" ?eid ?u] r by (auto simp: ready_def)
  moreover have "get_usage ?eid (record_usage (de_rm env) ?eid ?u ?rm) =
      snap\<lparr>memory_bytes := max (memory_bytes snap) 0, syscall_count := c + 1\<rparr>"
    using r s by (subst get_usage_record) (simp add: get_usage_def or_zero_def ready_def)
  ultimately have dd: "map_of dd ?eid =
      Some (snap\<lparr>memory_bytes := max (memory_bytes snap) 0, syscall_count := c + 1\<rparr>)"
    by (auto simp: get_usage_def)
  have q: "quota_step env ctx ?w1 = (None, ?w1\<lparr>rm_state := ?rm\<rparr>)"
    using ready_quota [OF r, of ?w1] within by simp
  have "\<exists>res w2. dispatch_inner reg env name p ctx ?w1 = (res, w2) \<and> env_status res = Success \<and>
      rm_state w2 = ?rm\<lparr>usage := dd\<rparr>"
    using r v by (auto simp: dispatch_inner_def q ready_def run_entry_def record_step_def rec
        emit_syscall_event_def)
  then show ?thesis
    using r dd s by (auto simp: dispatch_def ready_root [OF r] ready_def local_active_def)
qed

lemma budget_run:
  assumes "ready reg env name p ctx w c" and "c \<le> max_syscalls (rm_state w) + 1"
  shows "int (length (filter (\<lambda>r. env_status r = Success) (fst (dispatch_times n reg env name p ctx w)))) =
    min (int n) (max_syscalls (rm_state w) + 1 - c)"
  using assms
proof (induction n arbitrary: w c)
  case (Suc n)
  show ?case
  proof (cases "c \<le> max_syscalls (rm_state w)")
    case True
    then show ?thesis
      using ready_served [OF Suc.prems(1) True] Suc.IH [of "snd (dispatch reg env name p ctx w)" "c + 1"]
      by (auto simp: Let_def split: prod.splits)
  next
    case False
    then show ?thesis
      using ready_refused [OF Suc.prems(1)] Suc.prems(2) Suc.IH [of "snd (dispatch reg env name p ctx w)" c]
      by (auto simp: Let_def split: prod.splits)
  qed
qed simp

text \<open>A concrete system: one syscall that returns \<open>None\<close>, and one running execution.\<close>

definition ping_entry :: "handler SyscallEntry" where
  "ping_entry = new_entry (\<lambda>p c w. (Hok PNone, w)) ''memory.read'' [] None None True False None None"

definition ping_registry :: "handler registry" where
  "ping_registry = reg_set ''sys.v1.ping'' ping_entry new_registry"

definition ping_env :: disp_env where
  "ping_env =
     \<lparr>de_rm = \<lparr>now_mono = 5, redis_url = False, ping_ok = False, call_ok = False, backend_ok = False,
               is_testing = False\<rparr>,
      quota_raises = False, record_raises = False, event_raises = False, uuid_trace = ''t1'',
      uuid_eu = ''e1'', ms_used = 0, ms_total = 0\<rparr>"

definition ping_ctx :: SyscallContext where
  "ping_ctx = make_syscall_ctx_from_tool ping_env (Some ''alice'') ''run1'' None"

definition ping_world :: disp_world where
  "ping_world = \<lparr>trace_ctx = [], eu_ctx = [],
     rm_state = mark_started (de_rm ping_env) ''alice'' (Some ''run1'') (new_resource_manager None), emitted = []\<rparr>"

lemma ping_get: "reg_get ping_registry ''sys.v1.ping'' = Some ping_entry"
  by (simp add: ping_registry_def reg_set_def reg_get_def new_registry_def split_key_def Let_def
      startswith_def pd.get_put split: option.splits)

lemma ping_world_rm:
  "rm_state ping_world = (new_resource_manager None)
     \<lparr>usage := [(''run1'', new_snapshot ''run1'' ''alice'')], active_counts := [(''alice'', 1)],
      eu_tenant := [(''run1'', ''alice'')]\<rparr>"
  by (simp add: ping_world_def ping_env_def mark_started_def count_start_def get_redis_def
      REDIS_CHECK_INTERVAL_def new_resource_manager_def local_increment_def local_active_def counter_def
      truthy_str_def Let_def)

lemma ping_resolve: "resolve_name ping_registry ''sys.v1.ping'' = Inr (''sys.v1.ping'', ''v1'')"
  by code_simp

lemma ping_ready: "ready ping_registry ping_env ''sys.v1.ping'' [] ping_ctx ping_world 0"
proof -
  have "validate_input (input_schema ping_entry) [] = []"
    by (simp add: ping_entry_def new_entry_def validate_input_def validate_payload_def empty_schema_def
        required_errors_def type_errors_def)
  then show ?thesis
    by (auto simp: ready_def ping_get ping_resolve ping_world_rm)
       (simp_all add: ping_world_def ping_ctx_def make_syscall_ctx_from_tool_def ping_entry_def new_entry_def
         ping_env_def local_env_def new_resource_manager_def new_snapshot_def local_active_def counter_def
         DEFAULT_NODUS_CAPABILITIES_def or_str_def Let_def)
qed

section \<open>Properties\<close>

text \<open>
  C17. A dispatch reports success exactly when its name resolves to a registered entry, the caller
  holds the entry's capability, the context names a user, the quota check does not refuse, the
  payload satisfies the entry's input schema, and the handler, run on the resolved context,
  returns.
\<close>

theorem dispatch_success_iff:
  "env_status (fst (dispatch reg env name p ctx w)) = Success \<longleftrightarrow>
     (\<exists>ctx1 tok w1 v entry data w2.
        resolve_trace_context env ctx w = (ctx1, tok, w1) \<and> resolve_name reg name = Inr (name, v) \<and>
        reg_get reg name = Some entry \<and> guards_pass env entry p ctx1 w1 \<and>
        handler entry p ctx1 (snd (quota_step env ctx1 w1)) = (Hok data, w2))"
proof -
  obtain ctx1 tok w1 where r: "resolve_trace_context env ctx w = (ctx1, tok, w1)"
    by (metis prod_cases3)
  have inner: "env_status (fst (dispatch_inner reg env name p ctx1 w1)) = Success \<longleftrightarrow>
     (\<exists>v entry data w2. resolve_name reg name = Inr (name, v) \<and> reg_get reg name = Some entry \<and>
        guards_pass env entry p ctx1 w1 \<and>
        handler entry p ctx1 (snd (quota_step env ctx1 w1)) = (Hok data, w2))"
  proof (cases "\<exists>entry. reg_get reg name = Some entry \<and> \<not> guards_pass env entry p ctx1 w1")
    case True
    then show ?thesis using inner_blocked by fastforce
  next
    case False
    then show ?thesis
      by (subst inner_guarded)
        (auto simp: run_entry_success dest: no_fallback split: sum.splits option.splits)
  qed
  show ?thesis
    using inner r by (cases "dispatch_inner reg env name p ctx1 w1") (simp add: dispatch_def)
qed

text \<open>
  C20. A caller without the required capability, or without a user, gets an error envelope and
  changes nothing at all: no handler effect, no recorded usage, no event, no context variable.
\<close>

theorem unauthorised_dispatch_is_inert:
  assumes "reg_get reg name = Some entry"
    and "capability entry \<notin> set (capabilities ctx) \<or> user_id ctx = []"
  shows "env_status (fst (dispatch reg env name p ctx w)) = Error \<and>
    snd (dispatch reg env name p ctx w) = w"
proof -
  obtain ctx1 tok w1 where r: "resolve_trace_context env ctx w = (ctx1, tok, w1)"
    by (metis prod_cases3)
  have "env_status (fst (dispatch_inner reg env name p ctx1 w1)) = Error \<and>
      snd (dispatch_inner reg env name p ctx1 w1) = w1"
    using assms resolve_caps [OF r]
    by (auto simp: dispatch_inner_def dest!: no_fallback split: sum.splits prod.splits option.splits)
  moreover have "(case tok of None \<Rightarrow> w1 | Some (t, e) \<Rightarrow> w1\<lparr>trace_ctx := t, eu_ctx := e\<rparr>) = w"
    using resolve_root [OF _ r] resolve_nested [OF _ r] by (cases "trace_ctx w = []") auto
  ultimately show ?thesis
    by (auto simp: dispatch_def r split: prod.splits)
qed

theorem unauthorised_dispatch_is_inert_witness:
  "snd (dispatch ping_registry ping_env ''sys.v1.ping'' [] (ping_ctx\<lparr>capabilities := []\<rparr>) ping_world) = ping_world"
  using unauthorised_dispatch_is_inert
    [OF ping_get, of "ping_ctx\<lparr>capabilities := []\<rparr>" ping_env "[]" ping_world]
  by simp

text \<open>
  Trace propagation: a dispatch under an active one reports the parent's trace identifier whatever
  context it was given, and every dispatch leaves both context variables as it found them: a root
  dispatch whatever its handler does, a nested one when its handler only dispatches.
\<close>

theorem trace_context_propagates:
  assumes "trace_ctx w = [] \<or> (\<forall>e. reg_get reg name = Some e \<longrightarrow> keeps_ctx (handler e))"
  shows "(trace_ctx w \<noteq> [] \<longrightarrow> env_trace_id (fst (dispatch reg env name p ctx w)) = trace_ctx w) \<and>
    trace_ctx (snd (dispatch reg env name p ctx w)) = trace_ctx w \<and>
    eu_ctx (snd (dispatch reg env name p ctx w)) = eu_ctx w"
proof -
  obtain ctx1 tok w1 where r: "resolve_trace_context env ctx w = (ctx1, tok, w1)"
    by (metis prod_cases3)
  obtain res w2 where d: "dispatch_inner reg env name p ctx1 w1 = (res, w2)" by fastforce
  have res: "env_trace_id res = trace_id ctx1" using inner_trace [of reg env name p ctx1 w1] d by simp
  show ?thesis
  proof (cases "trace_ctx w = []")
    case True
    then show ?thesis using resolve_root [OF True r] by (simp add: dispatch_def r d)
  next
    case False
    then have "trace_ctx w2 = trace_ctx w \<and> eu_ctx w2 = eu_ctx w"
      using inner_ctx [of reg name env p ctx1 w1] assms resolve_nested [OF False r] d by auto
    then show ?thesis using False res resolve_nested [OF False r] d r by (auto simp: dispatch_def)
  qed
qed

theorem trace_context_propagates_witness:
  "env_trace_id (fst (dispatch ping_registry ping_env ''sys.v1.ping'' [] ping_ctx
     (ping_world\<lparr>trace_ctx := ''parent''\<rparr>))) = ''parent''"
  using trace_context_propagates
    [of "ping_world\<lparr>trace_ctx := ''parent''\<rparr>" ping_registry "''sys.v1.ping''" ping_env "[]" ping_ctx]
  by (simp add: ping_get keeps_ctx_def) (simp add: ping_entry_def new_entry_def)

text \<open>
  An execution that has made no syscall, dispatching the same permitted call \<open>n\<close> times within its
  CPU budget, succeeds \<open>min n (MAX_SYSCALLS + 1)\<close> times: the guard compares the count before the call
  with \<open>>\<close>, so the budget admits one call more than its name says and then refuses every one.
\<close>

theorem syscall_budget:
  assumes "ready reg env name p ctx w 0" and "0 \<le> max_syscalls (rm_state w)"
  shows "int (length (filter (\<lambda>r. env_status r = Success) (fst (dispatch_times n reg env name p ctx w)))) =
    min (int n) (max_syscalls (rm_state w) + 1)"
  using budget_run [OF assms(1), of n] assms(2) by simp

theorem syscall_budget_witness:
  "int (length (filter (\<lambda>r. env_status r = Success)
     (fst (dispatch_times 150 ping_registry ping_env ''sys.v1.ping'' [] ping_ctx ping_world)))) = 101"
  using syscall_budget [OF ping_ready, of 150]
  by (simp add: ping_world_rm new_resource_manager_def del: dispatch_times.simps)

end
