(* ===== verification/Retry_Policy.thy ===== *)
theory Retry_Policy
  imports Prelude
begin

text \<open>
  \<^verbatim>\<open>AINDY/core/retry_policy.py\<close>: which policy an execution gets, the delay before a retry, and the two
  retry loops. Delays are milliseconds (the code divides by 1000 for the sleep); the random jitter
  is an argument. An operation is given by how each of its successive calls ends; a loop returns
  the last outcome, the number of calls and the delays it slept.
\<close>

record retry_policy =
  max_attempts :: int
  backoff_ms :: int
  exponential_backoff :: bool
  high_risk_immediate_fail :: bool

definition MAX_BACKOFF_MS :: int where "MAX_BACKOFF_MS = 10000"

definition MAX_JITTER_MS :: int where "MAX_JITTER_MS = 50"

definition FLOW_NODE_DEFAULT :: retry_policy where
  "FLOW_NODE_DEFAULT = \<lparr>max_attempts = 3, backoff_ms = 200, exponential_backoff = True,
     high_risk_immediate_fail = False\<rparr>"

definition AGENT_LOW_MEDIUM :: retry_policy where
  "AGENT_LOW_MEDIUM = \<lparr>max_attempts = 3, backoff_ms = 200, exponential_backoff = True,
     high_risk_immediate_fail = False\<rparr>"

definition AGENT_HIGH_RISK :: retry_policy where
  "AGENT_HIGH_RISK = \<lparr>max_attempts = 1, backoff_ms = 0, exponential_backoff = False,
     high_risk_immediate_fail = True\<rparr>"

definition ASYNC_JOB_DEFAULT :: retry_policy where
  "ASYNC_JOB_DEFAULT = \<lparr>max_attempts = 1, backoff_ms = 500, exponential_backoff = True,
     high_risk_immediate_fail = False\<rparr>"

definition NODUS_SCHEDULED_DEFAULT :: retry_policy where
  "NODUS_SCHEDULED_DEFAULT = \<lparr>max_attempts = 3, backoff_ms = 300, exponential_backoff = True,
     high_risk_immediate_fail = False\<rparr>"

definition NO_RETRY :: retry_policy where
  "NO_RETRY = \<lparr>max_attempts = 1, backoff_ms = 0, exponential_backoff = False,
     high_risk_immediate_fail = False\<rparr>"

definition RISK_TO_AGENT_POLICY :: "(string, retry_policy) dict" where
  "RISK_TO_AGENT_POLICY =
     [(''low'', AGENT_LOW_MEDIUM), (''medium'', AGENT_LOW_MEDIUM), (''high'', AGENT_HIGH_RISK)]"

definition NON_RETRYABLE_SUBSTRINGS :: "string list" where
  "NON_RETRYABLE_SUBSTRINGS =
     [''permission'', ''unauthorized'', ''forbidden'', ''not found'', ''404'', ''401'', ''403'',
      ''invalid'', ''blocked by policy'']"

definition resolve_retry_policy ::
    "string option \<Rightarrow> string option \<Rightarrow> int option \<Rightarrow> int option \<Rightarrow> retry_policy" where
  "resolve_retry_policy execution_type risk_level node_max_retries job_max_retries =
     (let etype = py_strip (py_lower (or_str execution_type [])) in
      if etype = ''flow'' then
        (case node_max_retries of
           Some n \<Rightarrow> \<lparr>max_attempts = max 1 n, backoff_ms = backoff_ms FLOW_NODE_DEFAULT,
                     exponential_backoff = exponential_backoff FLOW_NODE_DEFAULT,
                     high_risk_immediate_fail = False\<rparr>
         | None \<Rightarrow> FLOW_NODE_DEFAULT)
      else if etype = ''agent'' then
        (let risk = py_strip (py_lower (or_str risk_level ''high'')) in
         case map_of RISK_TO_AGENT_POLICY risk of Some p \<Rightarrow> p | None \<Rightarrow> AGENT_HIGH_RISK)
      else if etype = ''job'' then ASYNC_JOB_DEFAULT
      else if etype = ''nodus'' then
        (case job_max_retries of
           Some n \<Rightarrow> \<lparr>max_attempts = max 1 n, backoff_ms = backoff_ms NODUS_SCHEDULED_DEFAULT,
                     exponential_backoff = exponential_backoff NODUS_SCHEDULED_DEFAULT,
                     high_risk_immediate_fail = False\<rparr>
         | None \<Rightarrow> NODUS_SCHEDULED_DEFAULT)
      else NO_RETRY)"

definition retry_delay_ms :: "retry_policy \<Rightarrow> int \<Rightarrow> int \<Rightarrow> int" where
  "retry_delay_ms policy attempt_number jitter =
     (if attempt_number \<le> 0 \<or> backoff_ms policy \<le> 0 then 0
      else
        let multiplier = (if exponential_backoff policy then 2 ^ nat attempt_number else 1);
            delay_ms = backoff_ms policy * multiplier + jitter
        in min delay_ms MAX_BACKOFF_MS)"

text \<open>The sleeps a retry performs: none when the delay is zero.\<close>

definition sleep_before_retry :: "retry_policy \<Rightarrow> int \<Rightarrow> int \<Rightarrow> int list" where
  "sleep_before_retry policy attempt_number jitter =
     (let delay = retry_delay_ms policy attempt_number jitter in if 0 < delay then [delay] else [])"

definition sleep_before_retry_async :: "retry_policy \<Rightarrow> int \<Rightarrow> int \<Rightarrow> int list" where
  "sleep_before_retry_async policy attempt_number jitter =
     (let delay = retry_delay_ms policy attempt_number jitter in if 0 < delay then [delay] else [])"

definition is_retryable_error :: "string option \<Rightarrow> bool" where
  "is_retryable_error error =
     (case error of
        None \<Rightarrow> True
      | Some e \<Rightarrow>
          if e = [] then True
          else \<not> list_ex (\<lambda>substr. contains_sub substr (py_lower e)) NON_RETRYABLE_SUBSTRINGS)"

text \<open>
  The body of the loop over \<open>range(max_attempts)\<close>, with the attempts left as the measure. \<open>ops i\<close> is
  how the \<open>i\<close>-th call ends, \<open>jit i\<close> the jitter drawn after it.
\<close>

fun retry_loop ::
    "(retry_policy \<Rightarrow> int \<Rightarrow> int \<Rightarrow> int list) \<Rightarrow> retry_policy \<Rightarrow> (string option \<Rightarrow> bool) \<Rightarrow>
     (nat \<Rightarrow> 'a outcome) \<Rightarrow> (nat \<Rightarrow> int) \<Rightarrow> nat \<Rightarrow> nat \<Rightarrow> 'a outcome \<times> nat \<times> int list" where
  "retry_loop slp policy checker ops jit attempt_index 0 =
     (Raises ''retry loop exhausted unexpectedly'', attempt_index, [])"
| "retry_loop slp policy checker ops jit attempt_index (Suc left) =
     (case ops attempt_index of
        Returns a \<Rightarrow> (Returns a, Suc attempt_index, [])
      | Interrupts \<Rightarrow> (Interrupts, Suc attempt_index, [])
      | Raises e \<Rightarrow>
          if high_risk_immediate_fail policy \<or> max_attempts policy \<le> int attempt_index + 1
          then (Raises e, Suc attempt_index, [])
          else if \<not> checker (Some e) then (Raises e, Suc attempt_index, [])
          else
            let (r, n, ds) = retry_loop slp policy checker ops jit (Suc attempt_index) left
            in (r, n, slp policy (int attempt_index + 1) (jit attempt_index) @ ds))"

definition execute_with_retry ::
    "(nat \<Rightarrow> 'a outcome) \<Rightarrow> retry_policy \<Rightarrow> (string option \<Rightarrow> bool) \<Rightarrow> (nat \<Rightarrow> int) \<Rightarrow>
     'a outcome \<times> nat \<times> int list" where
  "execute_with_retry ops policy checker jit =
     retry_loop sleep_before_retry policy checker ops jit 0 (nat (max_attempts policy))"

definition execute_with_retry_async ::
    "(nat \<Rightarrow> 'a outcome) \<Rightarrow> retry_policy \<Rightarrow> (string option \<Rightarrow> bool) \<Rightarrow> (nat \<Rightarrow> int) \<Rightarrow>
     'a outcome \<times> nat \<times> int list" where
  "execute_with_retry_async ops policy checker jit =
     retry_loop sleep_before_retry_async policy checker ops jit 0 (nat (max_attempts policy))"

section \<open>Lemmas\<close>

lemmas policy_defs = FLOW_NODE_DEFAULT_def AGENT_LOW_MEDIUM_def AGENT_HIGH_RISK_def
  ASYNC_JOB_DEFAULT_def NODUS_SCHEDULED_DEFAULT_def NO_RETRY_def

lemma resolved_attempts: "1 \<le> max_attempts (resolve_retry_policy t r n j)"
  by (auto simp: resolve_retry_policy_def RISK_TO_AGENT_POLICY_def policy_defs Let_def
      split: option.splits)

lemma delay_nonneg: "0 \<le> j \<Longrightarrow> 0 \<le> retry_delay_ms p k j"
  by (simp add: retry_delay_ms_def MAX_BACKOFF_MS_def Let_def)

lemma delay_capped: "retry_delay_ms p k j \<le> MAX_BACKOFF_MS"
  by (simp add: retry_delay_ms_def MAX_BACKOFF_MS_def Let_def)

lemma sleeps_capped: "\<forall>d\<in>set (sleep_before_retry p k j). 0 < d \<and> d \<le> MAX_BACKOFF_MS"
  using delay_capped [of p k j] by (simp add: sleep_before_retry_def Let_def)

text \<open>A failure the loop retries: not the last attempt, not high risk, and an accepted error.\<close>

definition retried ::
    "retry_policy \<Rightarrow> (string option \<Rightarrow> bool) \<Rightarrow> (nat \<Rightarrow> 'a outcome) \<Rightarrow> nat \<Rightarrow> bool" where
  "retried policy checker ops i \<longleftrightarrow>
     (\<exists>e. ops i = Raises e \<and> checker (Some e)) \<and> \<not> high_risk_immediate_fail policy \<and>
     int i + 1 < max_attempts policy"

lemma retry_loop_spec:
  fixes ops :: "nat \<Rightarrow> 'a outcome"
  assumes "retry_loop sleep_before_retry p chk ops jit i left = (r, n, ds)"
    and "int (i + left) = max_attempts p" and "0 < left"
  shows "i < n \<and> n \<le> i + left \<and> r = ops (n - 1) \<and> \<not> retried p chk ops (n - 1) \<and>
    (\<forall>k. i \<le> k \<and> k < n - 1 \<longrightarrow> retried p chk ops k) \<and>
    ds = concat (map (\<lambda>k. sleep_before_retry p (int k + 1) (jit k)) [i ..< n - 1])"
  using assms
proof (induction left arbitrary: i r n ds)
  case (Suc left)
  show ?case
  proof (cases "retried p chk ops i")
    case True
    then have left: "0 < left" using Suc.prems(2) by (auto simp: retried_def)
    obtain r' n' ds' where rec: "retry_loop sleep_before_retry p chk ops jit (Suc i) left = (r', n', ds')"
      by (metis prod_cases3)
    have eqs: "r = r'" "n = n'" "ds = sleep_before_retry p (int i + 1) (jit i) @ ds'"
      using Suc.prems(1) True rec by (auto simp: retried_def)
    have ih: "Suc i < n' \<and> n' \<le> Suc i + left \<and> r' = ops (n' - 1) \<and> \<not> retried p chk ops (n' - 1) \<and>
        (\<forall>k. Suc i \<le> k \<and> k < n' - 1 \<longrightarrow> retried p chk ops k) \<and>
        ds' = concat (map (\<lambda>k. sleep_before_retry p (int k + 1) (jit k)) [Suc i ..< n' - 1])"
      using Suc.IH [OF rec _ left] Suc.prems(2) by simp
    then have "i < n' - 1" by linarith
    then have "[i ..< n' - 1] = i # [Suc i ..< n' - 1]" by (rule upt_conv_Cons)
    moreover have "retried p chk ops k" if "i \<le> k \<and> k < n' - 1" for k
      using ih True that by (cases "k = i") auto
    ultimately show ?thesis
      using ih unfolding eqs by auto
  next
    case False
    then have "r = ops i \<and> n = Suc i \<and> ds = []"
      using Suc.prems(1,2) by (auto simp: retried_def split: outcome.splits if_splits prod.splits)
    with False show ?thesis by auto
  qed
qed simp

section \<open>Properties\<close>

text \<open>
  C21. The retry loop under a policy with at least one attempt: it calls the operation at least once
  and at most \<open>max_attempts\<close> times, every call but the last failed with a retryable error and was
  followed by the sleep of its attempt number, the last one decides the result and is not to be
  retried, and no sleep exceeds ten seconds. The loop never falls out of its end.
\<close>

theorem retry_loop_contract:
  fixes ops :: "nat \<Rightarrow> 'a outcome"
  assumes "1 \<le> max_attempts p" and "execute_with_retry ops p chk jit = (r, n, ds)"
  shows "1 \<le> n \<and> int n \<le> max_attempts p \<and> r = ops (n - 1) \<and> \<not> retried p chk ops (n - 1) \<and>
    (\<forall>k < n - 1. retried p chk ops k) \<and>
    ds = concat (map (\<lambda>k. sleep_before_retry p (int k + 1) (jit k)) [0 ..< n - 1]) \<and>
    (\<forall>d\<in>set ds. 0 < d \<and> d \<le> MAX_BACKOFF_MS)"
  using retry_loop_spec [of p chk ops jit 0 "nat (max_attempts p)" r n ds] assms sleeps_capped
  by (fastforce simp: execute_with_retry_def)

theorem retry_loop_contract_witness:
  "let ops = (\<lambda>i :: nat. if i = 1 then Returns (7 :: int) else Raises ''timeout'') in
   fst (execute_with_retry ops FLOW_NODE_DEFAULT is_retryable_error (\<lambda>_. 0)) = ops 1"
proof -
  let ?ops = "\<lambda>i :: nat. if i = 1 then Returns (7 :: int) else Raises ''timeout''"
  have r: "execute_with_retry ?ops FLOW_NODE_DEFAULT is_retryable_error (\<lambda>_. 0) = (Returns 7, 2, [400])"
    by code_simp
  show ?thesis
    using retry_loop_contract [OF _ r] r by (simp add: FLOW_NODE_DEFAULT_def Let_def)
qed

text \<open>
  Every resolved policy allows at least one attempt; an agent step is retried only at low or
  medium risk, an unknown risk or execution type is not retried at all; and the delay grows with
  the attempt number up to its cap.
\<close>

theorem resolved_policy_safe:
  "1 \<le> max_attempts (resolve_retry_policy t r n j) \<and>
   (py_strip (py_lower (or_str t [])) = ''agent'' \<and>
      py_strip (py_lower (or_str r ''high'')) \<notin> {''low'', ''medium''} \<longrightarrow>
      resolve_retry_policy t r n j = AGENT_HIGH_RISK) \<and>
   (py_strip (py_lower (or_str t [])) \<notin> {''flow'', ''agent'', ''job'', ''nodus''} \<longrightarrow>
      resolve_retry_policy t r n j = NO_RETRY) \<and>
   (0 \<le> k \<and> k \<le> l \<and> 0 \<le> jitter \<longrightarrow>
      retry_delay_ms p k jitter \<le> retry_delay_ms p l jitter \<and> retry_delay_ms p l jitter \<le> MAX_BACKOFF_MS)"
proof -
  have mono: "retry_delay_ms p k jitter \<le> retry_delay_ms p l jitter"
    if a: "0 \<le> k" "k \<le> l" "0 \<le> jitter"
  proof (cases "k \<le> 0 \<or> backoff_ms p \<le> 0")
    case True
    then show ?thesis using delay_nonneg [OF a(3)] by (simp add: retry_delay_ms_def)
  next
    case False
    have "backoff_ms p * 2 ^ nat k \<le> backoff_ms p * 2 ^ nat l"
      using False a by (intro mult_left_mono) auto
    then have "min (backoff_ms p * 2 ^ nat k + jitter) MAX_BACKOFF_MS
        \<le> min (backoff_ms p * 2 ^ nat l + jitter) MAX_BACKOFF_MS"
      by (intro min.mono add_mono) simp_all
    with False a show ?thesis by (simp add: retry_delay_ms_def Let_def del: min_le_iff_disj)
  qed
  then show ?thesis
    using resolved_attempts delay_capped
    by (auto simp: resolve_retry_policy_def RISK_TO_AGENT_POLICY_def Let_def)
qed

theorem resolved_policy_safe_witness:
  "resolve_retry_policy (Some '' Agent '') (Some ''odd'') None None = AGENT_HIGH_RISK"
proof -
  have "py_strip (py_lower (or_str (Some '' Agent '') [])) = ''agent''"
    and "py_strip (py_lower (or_str (Some ''odd'') ''high'')) = ''odd''"
    by code_simp+
  then show ?thesis using resolved_policy_safe [of "Some '' Agent ''" "Some ''odd''" None None] by simp
qed

end
