(* ===== verification/Wait_Condition.thy ===== *)
theory Wait_Condition
  imports Prelude
begin

text \<open>
  \<^verbatim>\<open>AINDY/core/wait_condition.py\<close>: what a suspended execution waits for, and its stored form.

  A \<open>py_datetime\<close> is an instant in microseconds with or without a time zone; \<open>isoformat\<close> and
  \<open>fromisoformat\<close> are inverse on it, so an ISO text is represented by what \<open>fromisoformat\<close> reads from
  it: \<open>Iso_text (Some d)\<close>, or \<open>Iso_text None\<close> for a text it rejects; a value of another type carries
  what its \<open>str\<close> reads as. In the stored dictionary a missing
  key and \<open>None\<close> are one case, since every reader uses \<open>get\<close>.
\<close>

datatype py_datetime = Naive time_us | Aware time_us

fun as_utc :: "py_datetime \<Rightarrow> py_datetime" where
  "as_utc (Naive t) = Aware t"
| "as_utc (Aware t) = Aware t"

fun instant :: "py_datetime \<Rightarrow> time_us" where
  "instant (Naive t) = t"
| "instant (Aware t) = t"

fun tz_aware :: "py_datetime \<Rightarrow> bool" where
  "tz_aware (Naive t) = False"
| "tz_aware (Aware t) = True"

datatype time_value =
    No_time
  | Iso_text "py_datetime option"
  | Date_time py_datetime
  | Other_value "py_datetime option"

definition WAIT_TYPE_EVENT :: string where "WAIT_TYPE_EVENT = ''event''"

definition WAIT_TYPE_TIME :: string where "WAIT_TYPE_TIME = ''time''"

definition WAIT_TYPE_EXTERNAL :: string where "WAIT_TYPE_EXTERNAL = ''external''"

definition VALID_TYPES :: "string list" where
  "VALID_TYPES = [WAIT_TYPE_EVENT, WAIT_TYPE_TIME, WAIT_TYPE_EXTERNAL]"

record wait_condition =
  wc_type :: string
  wc_trigger_at :: "py_datetime option"
  wc_event_name :: "string option"
  wc_correlation_id :: "string option"

record stored_condition =
  sc_type :: "string option"
  sc_trigger_at :: time_value
  sc_event_name :: "string option"
  sc_correlation_id :: "string option"

definition wait_condition_init ::
    "string \<Rightarrow> py_datetime option \<Rightarrow> string option \<Rightarrow> string option \<Rightarrow> string + wait_condition" where
  "wait_condition_init ty trigger event corr =
     (if ty \<notin> set VALID_TYPES then Inl ty
      else Inr \<lparr>wc_type = ty, wc_trigger_at = trigger, wc_event_name = event, wc_correlation_id = corr\<rparr>)"

definition wc_to_dict :: "wait_condition \<Rightarrow> stored_condition" where
  "wc_to_dict c =
     \<lparr>sc_type = Some (wc_type c),
      sc_trigger_at = (case wc_trigger_at c of None \<Rightarrow> No_time | Some d \<Rightarrow> Iso_text (Some d)),
      sc_event_name = wc_event_name c, sc_correlation_id = wc_correlation_id c\<rparr>"

definition parse_utc_datetime :: "time_value \<Rightarrow> py_datetime option" where
  "parse_utc_datetime value =
     (case value of
        No_time \<Rightarrow> None
      | Date_time d \<Rightarrow> Some (as_utc d)
      | Iso_text parsed \<Rightarrow> map_option as_utc parsed
      | Other_value parsed \<Rightarrow> map_option as_utc parsed)"

text \<open>\<open>x or None\<close> on an optional string.\<close>

definition or_none :: "string option \<Rightarrow> string option" where
  "or_none x = (if truthy_str x then x else None)"

definition wc_from_dict :: "stored_condition option \<Rightarrow> string + wait_condition" where
  "wc_from_dict data =
     (case data of
        None \<Rightarrow> wait_condition_init WAIT_TYPE_EVENT None None None
      | Some d \<Rightarrow>
          wait_condition_init (or_str (sc_type d) WAIT_TYPE_EVENT) (parse_utc_datetime (sc_trigger_at d))
            (or_none (sc_event_name d)) (or_none (sc_correlation_id d)))"

definition for_event :: "string \<Rightarrow> string option \<Rightarrow> string + wait_condition" where
  "for_event event corr = wait_condition_init WAIT_TYPE_EVENT None (Some event) corr"

definition for_time :: "py_datetime \<Rightarrow> string option \<Rightarrow> string + wait_condition" where
  "for_time trigger corr = wait_condition_init WAIT_TYPE_TIME (Some (as_utc trigger)) None corr"

definition for_external :: "string \<Rightarrow> string option \<Rightarrow> string + wait_condition" where
  "for_external event corr = wait_condition_init WAIT_TYPE_EXTERNAL None (Some event) corr"

definition is_time_based :: "wait_condition \<Rightarrow> bool" where
  "is_time_based c = (wc_type c = WAIT_TYPE_TIME)"

definition is_event_based :: "wait_condition \<Rightarrow> bool" where
  "is_event_based c = (wc_type c \<in> {WAIT_TYPE_EVENT, WAIT_TYPE_EXTERNAL})"

definition resume_event :: "wait_condition \<Rightarrow> string option" where
  "resume_event c = (if is_event_based c then wc_event_name c else None)"

section \<open>Lemmas\<close>

lemmas wait_types = WAIT_TYPE_EVENT_def WAIT_TYPE_TIME_def WAIT_TYPE_EXTERNAL_def VALID_TYPES_def

lemma as_utc_idem [simp]: "as_utc (as_utc d) = as_utc d"
  by (cases d) simp_all

lemma as_utc_aware [simp]: "tz_aware (as_utc d)"
  by (cases d) simp_all

lemma as_utc_fixed: "as_utc d = d \<longleftrightarrow> tz_aware d"
  by (cases d) simp_all

lemma or_none_idem [simp]: "or_none (or_none x) = or_none x"
  by (simp add: or_none_def)

text \<open>What a stored condition reads back as: empty texts become \<open>None\<close>, a naive trigger becomes UTC.\<close>

definition normal_condition :: "wait_condition \<Rightarrow> wait_condition" where
  "normal_condition c =
     c\<lparr>wc_trigger_at := map_option as_utc (wc_trigger_at c), wc_event_name := or_none (wc_event_name c),
       wc_correlation_id := or_none (wc_correlation_id c)\<rparr>"

lemma factory_valid:
  "wait_condition_init ty t e c = Inr w \<Longrightarrow> wc_type w \<in> set VALID_TYPES"
  by (auto simp: wait_condition_init_def split: if_splits)

section \<open>Properties\<close>

text \<open>
  Storage round trip: a condition of a valid type reads back from its stored form as itself, up
  to empty texts, which become \<open>None\<close>, and a trigger without a time zone, which becomes UTC; an
  invalid type is refused, and a condition that was read back once reads back unchanged ever after.
\<close>

theorem wait_condition_round_trip:
  "(wc_type c \<in> set VALID_TYPES \<longrightarrow> wc_from_dict (Some (wc_to_dict c)) = Inr (normal_condition c)) \<and>
   (wc_type c \<notin> set VALID_TYPES \<and> wc_type c \<noteq> [] \<longrightarrow> wc_from_dict (Some (wc_to_dict c)) = Inl (wc_type c)) \<and>
   (wc_from_dict d = Inr c \<longrightarrow> wc_from_dict (Some (wc_to_dict c)) = Inr c)"
proof -
  have norm: "wc_from_dict (Some (wc_to_dict c)) = Inr (normal_condition c)" if "wc_type c \<in> set VALID_TYPES"
  proof -
    have "or_str (Some (wc_type c)) WAIT_TYPE_EVENT = wc_type c"
      using that by (auto simp: or_str_def wait_types)
    then show ?thesis
      using that
      by (cases c) (simp add: wc_from_dict_def wc_to_dict_def wait_condition_init_def normal_condition_def
          parse_utc_datetime_def split: option.splits)
  qed
  moreover have "normal_condition c = c \<and> wc_type c \<in> set VALID_TYPES" if "wc_from_dict d = Inr c"
    using that
    by (auto simp: wc_from_dict_def wait_condition_init_def normal_condition_def parse_utc_datetime_def
        or_none_def truthy_str_def option.map_comp comp_def
        split: option.splits if_splits time_value.splits)
  moreover have "wc_from_dict (Some (wc_to_dict c)) = Inl (wc_type c)"
    if "wc_type c \<notin> set VALID_TYPES" "wc_type c \<noteq> []"
    using that by (simp add: wc_from_dict_def wc_to_dict_def wait_condition_init_def or_str_def)
  ultimately show ?thesis by metis
qed

theorem wait_condition_round_trip_witness:
  "wc_from_dict (Some (wc_to_dict \<lparr>wc_type = ''time'', wc_trigger_at = Some (Naive 5),
     wc_event_name = Some [], wc_correlation_id = None\<rparr>)) =
   Inr \<lparr>wc_type = ''time'', wc_trigger_at = Some (Aware 5), wc_event_name = None, wc_correlation_id = None\<rparr>"
  using wait_condition_round_trip [of "\<lparr>wc_type = ''time'', wc_trigger_at = Some (Naive 5),
     wc_event_name = Some [], wc_correlation_id = None\<rparr>" None]
  by (simp add: normal_condition_def wait_types or_none_def truthy_str_def)

end
