(* ===== verification/Execution_Unit.thy ===== *)
theory Execution_Unit
  imports Wait_Condition
begin

text \<open>
  \<^verbatim>\<open>AINDY/core/execution_unit_service.py\<close>: the execution-unit rows and their status machine.

  The table is an insertion-ordered dictionary from identifiers to rows. Each service method takes
  the clock and whether its database work succeeds; a method whose work raises logs, changes nothing
  and returns its failure value. An identifier argument is a \<open>uuid_ref\<close>: missing, a UUID, or a text
  given by the UUID it reads as, if any. Cell values the service only copies are strings.
\<close>

section \<open>Rows\<close>

datatype uuid_ref = No_ref | Uuid string | Uuid_text "string option"

definition coerce_uuid :: "uuid_ref \<Rightarrow> string option" where
  "coerce_uuid r = (case r of No_ref \<Rightarrow> None | Uuid u \<Rightarrow> Some u | Uuid_text parsed \<Rightarrow> parsed)"

record eu_row =
  eu_type :: string
  eu_status :: string
  eu_user_id :: "string option"
  eu_tenant_id :: "string option"
  eu_source_type :: "string option"
  eu_source_id :: "string option"
  eu_parent_id :: "string option"
  eu_flow_run_id :: "string option"
  eu_correlation_id :: "string option"
  eu_memory_context_ids :: "string list"
  eu_output_memory_ids :: "string list"
  eu_priority :: string
  eu_wait_condition :: "stored_condition option"
  eu_extra :: "pyval option"
  eu_created_at :: time_us
  eu_updated_at :: time_us
  eu_completed_at :: "time_us option"

type_synonym eu_table = "(string, eu_row) dict"

definition STATUS_TRANSITIONS :: "(string, string list) dict" where
  "STATUS_TRANSITIONS =
     [(''pending'', [''executing'', ''failed'']),
      (''executing'', [''waiting'', ''resumed'', ''completed'', ''failed'']),
      (''waiting'', [''resumed'', ''executing'', ''failed'']),
      (''resumed'', [''executing'', ''failed'']),
      (''completed'', []),
      (''failed'', [])]"

definition allowed_from :: "string \<Rightarrow> string list" where
  "allowed_from st = (case map_of STATUS_TRANSITIONS st of None \<Rightarrow> [] | Some ss \<Rightarrow> ss)"

definition find_eu :: "uuid_ref \<Rightarrow> eu_table \<Rightarrow> (string \<times> eu_row) option" where
  "find_eu r tbl =
     (case coerce_uuid r of
        None \<Rightarrow> None
      | Some u \<Rightarrow> (case map_of tbl u of None \<Rightarrow> None | Some row \<Rightarrow> Some (u, row)))"

section \<open>The service\<close>

record eu_new =
  new_type :: string
  new_user_id :: uuid_ref
  new_source_type :: "string option"
  new_source_id :: "string option"
  new_parent_id :: uuid_ref
  new_flow_run_id :: "string option"
  new_correlation_id :: "string option"
  new_extra :: "pyval option"
  new_status :: string

definition eu_create :: "bool \<Rightarrow> time_us \<Rightarrow> string \<Rightarrow> eu_new \<Rightarrow> eu_table \<Rightarrow> string option \<times> eu_table" where
  "eu_create ok now fresh a tbl =
     (if \<not> ok then (None, tbl)
      else
        (Some fresh,
         AList.update fresh
           \<lparr>eu_type = new_type a, eu_status = new_status a, eu_user_id = coerce_uuid (new_user_id a),
            eu_tenant_id = None, eu_source_type = new_source_type a, eu_source_id = new_source_id a,
            eu_parent_id = coerce_uuid (new_parent_id a), eu_flow_run_id = new_flow_run_id a,
            eu_correlation_id = new_correlation_id a, eu_memory_context_ids = [],
            eu_output_memory_ids = [], eu_priority = ''normal'', eu_wait_condition = None,
            eu_extra = new_extra a, eu_created_at = now, eu_updated_at = now, eu_completed_at = None\<rparr>
           tbl))"

text \<open>The shape shared by the methods that load one row, change it, stamp it and flush.\<close>

definition edit_row ::
    "bool \<Rightarrow> time_us \<Rightarrow> uuid_ref \<Rightarrow> (eu_row \<Rightarrow> eu_row) \<Rightarrow> eu_table \<Rightarrow> bool \<times> eu_table" where
  "edit_row ok now r f tbl =
     (if \<not> ok then (False, tbl)
      else
        case find_eu r tbl of
          None \<Rightarrow> (False, tbl)
        | Some (u, row) \<Rightarrow> (True, AList.update u ((f row)\<lparr>eu_updated_at := now\<rparr>) tbl))"

definition update_status :: "bool \<Rightarrow> time_us \<Rightarrow> uuid_ref \<Rightarrow> string \<Rightarrow> eu_table \<Rightarrow> bool \<times> eu_table" where
  "update_status ok now r new tbl =
     (if \<not> ok then (False, tbl)
      else
        case find_eu r tbl of
          None \<Rightarrow> (False, tbl)
        | Some (u, row) \<Rightarrow>
            if new \<notin> set (allowed_from (eu_status row)) then (False, tbl)
            else
              (True,
               AList.update u
                 (row\<lparr>eu_status := new, eu_updated_at := now,
                      eu_completed_at :=
                        (if new \<in> {''completed'', ''failed''} then Some now else eu_completed_at row)\<rparr>)
                 tbl))"

definition ALREADY_RESUMED :: "string list" where
  "ALREADY_RESUMED = [''resumed'', ''executing'', ''completed'']"

text \<open>
  \<open>resume_execution_unit\<close> touches the database four times: the idempotency check, the step to
  \<open>resumed\<close>, the clearing of the wait condition, the step to \<open>executing\<close>. Each may fail on its own.
\<close>

record resume_io =
  io_check :: bool
  io_resumed :: bool
  io_clear :: bool
  io_executing :: bool

definition clear_wait :: "bool \<Rightarrow> time_us \<Rightarrow> uuid_ref \<Rightarrow> eu_table \<Rightarrow> eu_table" where
  "clear_wait ok now r tbl =
     (if \<not> ok then tbl
      else
        case find_eu r tbl of
          None \<Rightarrow> tbl
        | Some (u, row) \<Rightarrow>
            if eu_wait_condition row \<noteq> None
            then AList.update u (row\<lparr>eu_wait_condition := None, eu_updated_at := now\<rparr>) tbl else tbl)"

definition resume_execution_unit :: "resume_io \<Rightarrow> time_us \<Rightarrow> uuid_ref \<Rightarrow> eu_table \<Rightarrow> bool \<times> eu_table" where
  "resume_execution_unit io now r tbl =
     (if io_check io \<and> (case find_eu r tbl of None \<Rightarrow> False
                        | Some (_, row) \<Rightarrow> eu_status row \<in> set ALREADY_RESUMED)
      then (True, tbl)
      else
        case update_status (io_resumed io) now r ''resumed'' tbl of
          (False, tbl1) \<Rightarrow> (False, tbl1)
        | (True, tbl1) \<Rightarrow>
            update_status (io_executing io) now r ''executing'' (clear_wait (io_clear io) now r tbl1))"

definition set_wait_condition ::
    "bool \<Rightarrow> time_us \<Rightarrow> uuid_ref \<Rightarrow> stored_condition option \<Rightarrow> eu_table \<Rightarrow> bool \<times> eu_table" where
  "set_wait_condition ok now r c tbl = edit_row ok now r (\<lambda>row. row\<lparr>eu_wait_condition := c\<rparr>) tbl"

definition link_flow_run :: "bool \<Rightarrow> time_us \<Rightarrow> uuid_ref \<Rightarrow> string \<Rightarrow> eu_table \<Rightarrow> bool \<times> eu_table" where
  "link_flow_run ok now r fr tbl = edit_row ok now r (\<lambda>row. row\<lparr>eu_flow_run_id := Some fr\<rparr>) tbl"

definition link_memory_context ::
    "bool \<Rightarrow> time_us \<Rightarrow> uuid_ref \<Rightarrow> string list \<Rightarrow> eu_table \<Rightarrow> bool \<times> eu_table" where
  "link_memory_context ok now r ids tbl =
     edit_row ok now r (\<lambda>row. row\<lparr>eu_memory_context_ids := ids\<rparr>) tbl"

definition append_output_memory ::
    "bool \<Rightarrow> time_us \<Rightarrow> uuid_ref \<Rightarrow> string \<Rightarrow> eu_table \<Rightarrow> bool \<times> eu_table" where
  "append_output_memory ok now r mid tbl =
     edit_row ok now r
       (\<lambda>row. row\<lparr>eu_output_memory_ids :=
                 (if mid \<in> set (eu_output_memory_ids row) then eu_output_memory_ids row
                  else eu_output_memory_ids row @ [mid])\<rparr>) tbl"

text \<open>Queries. A stable sort by creation time models \<open>ORDER BY\<close>; ties keep the table's order.\<close>

definition get_by_source :: "bool \<Rightarrow> string \<Rightarrow> string \<Rightarrow> eu_table \<Rightarrow> (string \<times> eu_row) option" where
  "get_by_source ok st sid tbl =
     (if \<not> ok then None
      else
        case sort_key (\<lambda>(_, row). - eu_created_at row)
               (filter (\<lambda>(_, row). eu_source_type row = Some st \<and> eu_source_id row = Some sid) tbl) of
          [] \<Rightarrow> None
        | r # _ \<Rightarrow> Some r)"

definition get_by_correlation :: "bool \<Rightarrow> string \<Rightarrow> eu_table \<Rightarrow> (string \<times> eu_row) list" where
  "get_by_correlation ok cid tbl =
     (if \<not> ok then []
      else sort_key (\<lambda>(_, row). eu_created_at row)
             (filter (\<lambda>(_, row). eu_correlation_id row = Some cid) tbl))"

definition get_children :: "bool \<Rightarrow> uuid_ref \<Rightarrow> eu_table \<Rightarrow> (string \<times> eu_row) list" where
  "get_children ok parent tbl =
     (if \<not> ok then []
      else sort_key (\<lambda>(_, row). eu_created_at row)
             (filter (\<lambda>(_, row). eu_parent_id row = coerce_uuid parent) tbl))"

definition map_agent_status :: "string \<Rightarrow> string" where
  "map_agent_status st =
     (case map_of [(''pending_approval'', ''pending''), (''approved'', ''pending''),
                   (''executing'', ''executing''), (''completed'', ''completed''),
                   (''failed'', ''failed''), (''rejected'', ''failed'')] st of
        None \<Rightarrow> ''pending'' | Some s \<Rightarrow> s)"

definition map_flow_status :: "string \<Rightarrow> string" where
  "map_flow_status st =
     (case map_of [(''running'', ''executing''), (''waiting'', ''waiting''), (''success'', ''completed''),
                   (''failed'', ''failed'')] st of
        None \<Rightarrow> ''pending'' | Some s \<Rightarrow> s)"

definition map_job_status :: "string \<Rightarrow> string" where
  "map_job_status st =
     (case map_of [(''pending'', ''pending''), (''queued'', ''pending''), (''deferred'', ''pending''),
                   (''ignored'', ''pending''), (''running'', ''executing''), (''success'', ''completed''),
                   (''completed'', ''completed''), (''failed'', ''failed''), (''error'', ''failed'')] st of
        None \<Rightarrow> ''pending'' | Some s \<Rightarrow> s)"

section \<open>Histories\<close>

datatype eu_op =
    Create bool time_us string eu_new
  | Update_status bool time_us uuid_ref string
  | Resume resume_io time_us uuid_ref
  | Set_wait bool time_us uuid_ref "stored_condition option"
  | Link_flow bool time_us uuid_ref string
  | Link_memory bool time_us uuid_ref "string list"
  | Append_memory bool time_us uuid_ref string

fun eu_apply :: "eu_table \<Rightarrow> eu_op \<Rightarrow> eu_table" where
  "eu_apply tbl (Create ok now fresh a) = snd (eu_create ok now fresh a tbl)"
| "eu_apply tbl (Update_status ok now r st) = snd (update_status ok now r st tbl)"
| "eu_apply tbl (Resume io now r) = snd (resume_execution_unit io now r tbl)"
| "eu_apply tbl (Set_wait ok now r c) = snd (set_wait_condition ok now r c tbl)"
| "eu_apply tbl (Link_flow ok now r fr) = snd (link_flow_run ok now r fr tbl)"
| "eu_apply tbl (Link_memory ok now r ids) = snd (link_memory_context ok now r ids tbl)"
| "eu_apply tbl (Append_memory ok now r m) = snd (append_output_memory ok now r m tbl)"

text \<open>The documented machine: the edges, closed under paths, and the terminal states.\<close>

inductive status_path :: "string \<Rightarrow> string \<Rightarrow> bool" where
  path_refl: "status_path s s"
| path_step: "status_path s t \<Longrightarrow> u \<in> set (allowed_from t) \<Longrightarrow> status_path s u"

definition terminal :: "string \<Rightarrow> bool" where
  "terminal st \<longleftrightarrow> st \<in> {''completed'', ''failed''}"

section \<open>Lemmas\<close>

lemma find_eu_Some: "find_eu r tbl = Some (u, row) \<Longrightarrow> map_of tbl u = Some row \<and> coerce_uuid r = Some u"
  by (auto simp: find_eu_def split: option.splits)

lemma find_eu_update: "find_eu r tbl = Some (u, row) \<Longrightarrow> find_eu r (AList.update u row' tbl) = Some (u, row')"
  by (auto simp: find_eu_def pd.get_put split: option.splits)

lemma update_overwrite: "AList.update u b (AList.update u a tbl) = AList.update u b tbl"
  by (induction tbl) auto

lemma resumed_from: "''resumed'' \<in> set (allowed_from st) \<longleftrightarrow> st \<in> {''waiting'', ''executing''}"
  by (simp add: allowed_from_def STATUS_TRANSITIONS_def)

lemma resumed_out: "''executing'' \<in> set (allowed_from ''resumed'')"
  by (simp add: allowed_from_def STATUS_TRANSITIONS_def)

lemma update_same: "map_of tbl u = Some row \<Longrightarrow> AList.update u row tbl = tbl"
  by (induction tbl) auto

lemma update_status_ok:
  "find_eu r tbl = Some (u, row) \<Longrightarrow> st \<in> set (allowed_from (eu_status row)) \<Longrightarrow> \<not> st \<in> {''completed'', ''failed''} \<Longrightarrow>
   update_status True now r st tbl = (True, AList.update u (row\<lparr>eu_status := st, eu_updated_at := now\<rparr>) tbl)"
  by (simp add: update_status_def)

lemma clear_wait_eq:
  assumes "find_eu r tbl = Some (u, row)" and "eu_updated_at row = now"
  shows "clear_wait ok now r tbl =
    AList.update u (row\<lparr>eu_wait_condition := (if ok then None else eu_wait_condition row)\<rparr>) tbl"
proof -
  have "row\<lparr>eu_wait_condition := eu_wait_condition row\<rparr> = row"
    and "row\<lparr>eu_updated_at := now\<rparr> = row"
    using assms(2) by auto
  then show ?thesis
    using assms find_eu_Some [OF assms(1)]
    by (cases row) (auto simp: clear_wait_def update_same)
qed

lemma resume_waiting:
  assumes f: "find_eu r tbl = Some (u, row)" and w: "eu_status row = ''waiting''" and "io_resumed io"
  shows "resume_execution_unit io now r tbl =
    (io_executing io,
     AList.update u
       (row\<lparr>eu_status := (if io_executing io then ''executing'' else ''resumed''), eu_updated_at := now,
            eu_wait_condition := (if io_clear io then None else eu_wait_condition row)\<rparr>) tbl)"
proof -
  let ?row1 = "row\<lparr>eu_status := ''resumed'', eu_updated_at := now\<rparr>"
  let ?wc = "if io_clear io then None else eu_wait_condition row"
  let ?row2 = "row\<lparr>eu_status := ''resumed'', eu_updated_at := now, eu_wait_condition := ?wc\<rparr>"
  let ?row3 = "row\<lparr>eu_status := ''executing'', eu_updated_at := now, eu_wait_condition := ?wc\<rparr>"
  have one: "update_status (io_resumed io) now r ''resumed'' tbl = (True, AList.update u ?row1 tbl)"
    using update_status_ok [OF f, of "''resumed''" now] w assms(3) by (simp add: resumed_from)
  have two: "clear_wait (io_clear io) now r (AList.update u ?row1 tbl) = AList.update u ?row2 tbl"
    using clear_wait_eq [OF find_eu_update [OF f], of ?row1 now "io_clear io"] by (simp add: update_overwrite)
  have eq3: "?row2\<lparr>eu_status := ''executing'', eu_updated_at := now\<rparr> = ?row3"
    by (cases row) simp
  have "update_status True now r ''executing'' (AList.update u ?row2 tbl) =
      (True, AList.update u (?row2\<lparr>eu_status := ''executing'', eu_updated_at := now\<rparr>) (AList.update u ?row2 tbl))"
    by (rule update_status_ok [OF find_eu_update [OF f]]) (simp_all add: resumed_out)
  then have "update_status True now r ''executing'' (AList.update u ?row2 tbl) = (True, AList.update u ?row3 tbl)"
    unfolding eq3 update_overwrite .
  then have three: "update_status (io_executing io) now r ''executing'' (AList.update u ?row2 tbl) =
      (io_executing io, AList.update u (if io_executing io then ?row3 else ?row2) tbl)"
    by (cases "io_executing io") (simp_all add: update_status_def)
  show ?thesis
    unfolding resume_execution_unit_def one prod.case bool.case two three
    using f w by (simp add: ALREADY_RESUMED_def)
qed

lemma status_path_trans: "status_path t u \<Longrightarrow> status_path s t \<Longrightarrow> status_path s u"
  by (induction rule: status_path.induct) (auto intro: path_step)

lemma terminal_stuck: "terminal s \<Longrightarrow> allowed_from s = []"
  by (auto simp: terminal_def allowed_from_def STATUS_TRANSITIONS_def)

lemma status_path_terminal: "status_path s t \<Longrightarrow> terminal s \<Longrightarrow> t = s"
  by (induction rule: status_path.induct) (auto dest: terminal_stuck)

text \<open>
  \<open>row_step\<close>: what one operation may do to one row that it does not create: follow the machine, set
  the completion time exactly when it enters a terminal state, and keep the fixed columns.
\<close>

definition row_step :: "eu_row \<Rightarrow> eu_row \<Rightarrow> bool" where
  "row_step a b \<longleftrightarrow>
     status_path (eu_status a) (eu_status b) \<and>
     ((eu_completed_at a \<noteq> None \<longleftrightarrow> terminal (eu_status a)) \<longrightarrow>
      (eu_completed_at b \<noteq> None \<longleftrightarrow> terminal (eu_status b))) \<and>
     (terminal (eu_status a) \<longrightarrow> eu_completed_at b = eu_completed_at a) \<and>
     eu_type b = eu_type a \<and> eu_parent_id b = eu_parent_id a \<and> eu_created_at b = eu_created_at a"

lemma row_step_refl [simp]: "row_step a a"
  by (simp add: row_step_def path_refl)

lemma row_step_trans: "row_step a b \<Longrightarrow> row_step b c \<Longrightarrow> row_step a c"
  unfolding row_step_def by (auto intro: status_path_trans dest: status_path_terminal)

lemma row_step_edit:
  "eu_status b = eu_status a \<Longrightarrow> eu_completed_at b = eu_completed_at a \<Longrightarrow> eu_type b = eu_type a \<Longrightarrow>
   eu_parent_id b = eu_parent_id a \<Longrightarrow> eu_created_at b = eu_created_at a \<Longrightarrow> row_step a b"
  by (simp add: row_step_def path_refl)

text \<open>Every row of a table survives an operation, one row step further.\<close>

definition table_step :: "eu_table \<Rightarrow> eu_table \<Rightarrow> bool" where
  "table_step t t' \<longleftrightarrow> (\<forall>u row. map_of t u = Some row \<longrightarrow> (\<exists>row'. map_of t' u = Some row' \<and> row_step row row'))"

lemma table_step_refl [simp]: "table_step t t"
  by (simp add: table_step_def)

lemma table_step_trans: "table_step a b \<Longrightarrow> table_step b c \<Longrightarrow> table_step a c"
  unfolding table_step_def by (meson row_step_trans)

lemma table_step_update: "map_of t u = Some row \<Longrightarrow> row_step row row' \<Longrightarrow> table_step t (AList.update u row' t)"
  by (auto simp: table_step_def pd.get_put)

lemma edit_row_step:
  assumes "\<And>row. row_step row ((f row)\<lparr>eu_updated_at := now\<rparr>)"
  shows "table_step tbl (snd (edit_row ok now r f tbl))"
  using assms by (auto simp: edit_row_def dest!: find_eu_Some intro: table_step_update split: option.splits)

lemma update_status_step: "table_step tbl (snd (update_status ok now r st tbl))"
proof -
  have "row_step row (row\<lparr>eu_status := st, eu_updated_at := now,
      eu_completed_at := if st \<in> {''completed'', ''failed''} then Some now else eu_completed_at row\<rparr>)"
    if "st \<in> set (allowed_from (eu_status row))" for row
    using that terminal_stuck [of "eu_status row"]
    by (auto simp: row_step_def terminal_def intro: path_step path_refl)
  then show ?thesis
    by (auto simp: update_status_def dest!: find_eu_Some intro!: table_step_update split: option.splits)
qed

lemma clear_wait_step: "table_step tbl (clear_wait ok now r tbl)"
  by (auto simp: clear_wait_def dest!: find_eu_Some intro!: table_step_update row_step_edit
      split: option.splits)

lemma resume_step: "table_step tbl (snd (resume_execution_unit io now r tbl))"
proof (cases "update_status (io_resumed io) now r ''resumed'' tbl")
  case (Pair b t1)
  then have "table_step tbl t1" using update_status_step [of tbl "io_resumed io" now r "''resumed''"] by simp
  then have "table_step tbl (snd (update_status (io_executing io) now r ''executing''
      (clear_wait (io_clear io) now r t1)))"
    by (meson clear_wait_step table_step_trans update_status_step)
  with Pair \<open>table_step tbl t1\<close> show ?thesis
    by (auto simp: resume_execution_unit_def split: bool.splits)
qed

definition op_creates :: "eu_op \<Rightarrow> string option" where
  "op_creates e = (case e of Create ok now fresh a \<Rightarrow> Some fresh | _ \<Rightarrow> None)"

lemma eu_apply_step:
  assumes "\<And>u. op_creates e = Some u \<Longrightarrow> map_of tbl u = None"
  shows "table_step tbl (eu_apply tbl e)"
proof (cases e)
  case (Create ok now fresh a)
  then show ?thesis
    using assms [of fresh] by (auto simp: eu_create_def op_creates_def table_step_def pd.get_put)
qed (auto simp: update_status_step resume_step set_wait_condition_def link_flow_run_def
    link_memory_context_def append_output_memory_def intro!: edit_row_step row_step_edit)

text \<open>Fresh identifiers: no operation of a history creates a row that exists.\<close>

fun fresh_history :: "eu_table \<Rightarrow> eu_op list \<Rightarrow> bool" where
  "fresh_history tbl [] = True"
| "fresh_history tbl (e # es) =
     ((case op_creates e of None \<Rightarrow> True | Some u \<Rightarrow> map_of tbl u = None) \<and> fresh_history (eu_apply tbl e) es)"

lemma history_step: "fresh_history tbl es \<Longrightarrow> table_step tbl (foldl eu_apply tbl es)"
proof (induction es arbitrary: tbl)
  case (Cons e es)
  then have "table_step tbl (eu_apply tbl e)" by (intro eu_apply_step) auto
  with Cons show ?case by (auto intro: table_step_trans)
qed simp

section \<open>Properties\<close>

text \<open>
  C14. The status machine is respected by every history of service calls, failing ones included: a
  row's status only moves along the documented transitions, a row in \<open>completed\<close> or \<open>failed\<close> keeps its
  status and its completion time for ever, and a row whose completion time was set exactly when
  terminal stays so.
\<close>

theorem status_machine_respected:
  assumes "fresh_history tbl es" and "map_of tbl u = Some row"
  shows "\<exists>row'. map_of (foldl eu_apply tbl es) u = Some row' \<and>
    status_path (eu_status row) (eu_status row') \<and>
    (terminal (eu_status row) \<longrightarrow>
       eu_status row' = eu_status row \<and> eu_completed_at row' = eu_completed_at row) \<and>
    ((eu_completed_at row \<noteq> None \<longleftrightarrow> terminal (eu_status row)) \<longrightarrow>
     (eu_completed_at row' \<noteq> None \<longleftrightarrow> terminal (eu_status row')))"
  using history_step [OF assms(1)] assms(2) status_path_terminal
  unfolding table_step_def row_step_def by blast

text \<open>A row as \<open>create\<close> writes it.\<close>

definition sample_row :: eu_row where
  "sample_row = the (map_of (snd (eu_create True 1 ''u''
     \<lparr>new_type = ''job'', new_user_id = No_ref, new_source_type = None, new_source_id = None,
      new_parent_id = No_ref, new_flow_run_id = None, new_correlation_id = None, new_extra = None,
      new_status = ''pending''\<rparr> [])) ''u'')"

theorem status_machine_respected_witness:
  "\<exists>row'. map_of (foldl eu_apply [(''u'', sample_row\<lparr>eu_status := ''failed'', eu_completed_at := Some 9\<rparr>)]
     [Update_status True 3 (Uuid ''u'') ''executing'', Resume \<lparr>io_check = True, io_resumed = True,
        io_clear = True, io_executing = True\<rparr> 4 (Uuid ''u'')]) ''u'' = Some row' \<and> eu_status row' = ''failed''"
  using status_machine_respected
    [of "[(''u'', sample_row\<lparr>eu_status := ''failed'', eu_completed_at := Some 9\<rparr>)]"
        "[Update_status True 3 (Uuid ''u'') ''executing'', Resume \<lparr>io_check = True, io_resumed = True,
           io_clear = True, io_executing = True\<rparr> 4 (Uuid ''u'')]"
        "''u''" "sample_row\<lparr>eu_status := ''failed'', eu_completed_at := Some 9\<rparr>"]
  by (auto simp: op_creates_def terminal_def simp del: foldl.simps eu_apply.simps)

text \<open>
  Resuming, when the database answers: an unknown unit, a pending one and a terminal failure are
  refused and unchanged; a unit already \<open>resumed\<close>, \<open>executing\<close> or \<open>completed\<close> is a no-op reported as
  success; a waiting unit ends in \<open>executing\<close> with its wait condition cleared and nothing else
  touched; and a second resume changes nothing.
\<close>

theorem resume_contract:
  fixes now :: time_us
  defines "io \<equiv> \<lparr>io_check = True, io_resumed = True, io_clear = True, io_executing = True\<rparr>"
  shows "resume_execution_unit io now r tbl =
      (case find_eu r tbl of
         None \<Rightarrow> (False, tbl)
       | Some (u, row) \<Rightarrow>
           if eu_status row \<in> {''resumed'', ''executing'', ''completed''} then (True, tbl)
           else if eu_status row = ''waiting''
           then (True, AList.update u (row\<lparr>eu_status := ''executing'', eu_updated_at := now, eu_wait_condition := None\<rparr>) tbl)
           else (False, tbl)) \<and>
    (fst (resume_execution_unit io now r tbl) \<longrightarrow>
       resume_execution_unit io now' r (snd (resume_execution_unit io now r tbl)) =
         (True, snd (resume_execution_unit io now r tbl)))"
proof -
  have eq: "resume_execution_unit io now r tbl =
      (case find_eu r tbl of
         None \<Rightarrow> (False, tbl)
       | Some (u, row) \<Rightarrow>
           if eu_status row \<in> {''resumed'', ''executing'', ''completed''} then (True, tbl)
           else if eu_status row = ''waiting''
           then (True, AList.update u (row\<lparr>eu_status := ''executing'', eu_updated_at := now, eu_wait_condition := None\<rparr>) tbl)
           else (False, tbl))" for now
    proof (cases "find_eu r tbl")
      case (Some p)
      then show ?thesis
      proof (cases "eu_status (snd p) = ''waiting''")
        case False
        with Some show ?thesis
          by (auto simp: io_def resume_execution_unit_def update_status_def ALREADY_RESUMED_def resumed_from
              split: prod.splits)
      qed (cases p, simp add: resume_waiting io_def)
    qed (simp add: io_def resume_execution_unit_def update_status_def)
  have again: "find_eu r (AList.update u row' tbl) = Some (u, row')" if "find_eu r tbl = Some (u, row)" for u row row'
    using that by (rule find_eu_update)
  show ?thesis
    unfolding eq by (auto split: option.splits simp: io_def resume_execution_unit_def ALREADY_RESUMED_def again)
qed

theorem resume_contract_witness:
  "fst (resume_execution_unit \<lparr>io_check = True, io_resumed = True, io_clear = True, io_executing = True\<rparr> 7
     (Uuid ''u'') [(''u'', sample_row\<lparr>eu_status := ''waiting''\<rparr>)])"
  using resume_contract [of 7 "Uuid ''u''" "[(''u'', sample_row\<lparr>eu_status := ''waiting''\<rparr>)]"]
  by (simp add: find_eu_def coerce_uuid_def)

text \<open>
  A resume interrupted between its two steps does not recover: when the step to \<open>executing\<close> fails
  the call reports failure and leaves the unit in \<open>resumed\<close>, after which every further resume reports
  success and leaves it there.
\<close>

theorem interrupted_resume_sticks:
  assumes "find_eu r tbl = Some (u, row)" and "eu_status row = ''waiting''"
    and "io_check io" and "io_resumed io" and "\<not> io_executing io"
  shows "fst (resume_execution_unit io now r tbl) = False \<and>
    (\<exists>row'. find_eu r (snd (resume_execution_unit io now r tbl)) = Some (u, row') \<and> eu_status row' = ''resumed'') \<and>
    (io_check io' \<longrightarrow> resume_execution_unit io' now' r (snd (resume_execution_unit io now r tbl)) =
       (True, snd (resume_execution_unit io now r tbl)))"
proof -
  obtain row' where "resume_execution_unit io now r tbl = (False, AList.update u row' tbl)"
      and st: "eu_status row' = ''resumed''"
    using assms
    by (simp add: resume_waiting [OF assms(1,2,4)])
  moreover have "find_eu r (AList.update u row' tbl) = Some (u, row')"
    using assms(1) by (rule find_eu_update)
  ultimately show ?thesis by (simp add: resume_execution_unit_def ALREADY_RESUMED_def st)
qed

theorem interrupted_resume_sticks_witness:
  "fst (resume_execution_unit \<lparr>io_check = True, io_resumed = True, io_clear = True, io_executing = False\<rparr> 7
     (Uuid ''u'') [(''u'', sample_row\<lparr>eu_status := ''waiting''\<rparr>)]) = False"
  using interrupted_resume_sticks [of "Uuid ''u''" "[(''u'', sample_row\<lparr>eu_status := ''waiting''\<rparr>)]" "''u''"
      "sample_row\<lparr>eu_status := ''waiting''\<rparr>"
      "\<lparr>io_check = True, io_resumed = True, io_clear = True, io_executing = False\<rparr>" 7]
  by (simp add: find_eu_def coerce_uuid_def)

end
