(* ===== verification/Scheduler_Queue.thy ===== *)
theory Scheduler_Queue
  imports Wait_Condition "HOL-Library.Multiset"
begin

text \<open>
  \<^verbatim>\<open>AINDY/kernel/scheduler/common.py\<close> and \<^verbatim>\<open>core.py\<close>: the scheduler's state and its three priority
  queues. The record \<open>scheduler\<close> holds the attributes of \<open>SchedulerCoreMixin\<close>; the queues and the
  round-robin cursors are functions of the priority. A callback is a closure, given by what it
  captures; \<open>Closure\<close> stands for one built outside the modules modelled here. Every method holds the
  object's lock, so it is one step.
\<close>

section \<open>Items and state\<close>

datatype priority = High | Normal | Low

definition PRIORITY_ORDER :: "priority list" where
  "PRIORITY_ORDER = [High, Normal, Low]"

definition MAX_PER_SCHEDULE_CYCLE :: nat where
  "MAX_PER_SCHEDULE_CYCLE = 10"

definition MAX_PRE_REHYDRATION_BUFFER :: nat where
  "MAX_PRE_REHYDRATION_BUFFER = 1000"

definition read_priority :: "string \<Rightarrow> priority option" where
  "read_priority s = map_of [(''high'', High), (''normal'', Normal), (''low'', Low)] s"

definition PRIORITY_NORMAL :: string where "PRIORITY_NORMAL = ''normal''"

datatype resume_callback =
    Spec_resume string
  | Eu_rehydrated string "string option"
  | Flow_rehydrated string string "string option" string string
  | Closure string

record scheduled_item =
  si_eu :: string
  si_tenant :: string
  si_priority :: priority
  si_callback :: resume_callback
  si_run_id :: "string option"
  si_eu_type :: string
  si_seq :: int
  si_retry_count :: int
  si_max_retries :: int

text \<open>\<open>ScheduledItem(...)\<close>: \<open>env_retries\<close> is the configured number; \<open>m\<close> the argument, by default 2.\<close>

definition new_item ::
    "int \<Rightarrow> string \<Rightarrow> string \<Rightarrow> string \<Rightarrow> resume_callback \<Rightarrow> string option \<Rightarrow> string \<Rightarrow> int \<Rightarrow> string + scheduled_item"
  where
  "new_item env_retries eu tenant prio cb run ty m =
     (case read_priority prio of
        None \<Rightarrow> Inl prio
      | Some p \<Rightarrow>
          Inr \<lparr>si_eu = eu, si_tenant = tenant, si_priority = p, si_callback = cb, si_run_id = run,
               si_eu_type = ty, si_seq = 0, si_retry_count = 0,
               si_max_retries = (if m = 2 then env_retries else m)\<rparr>)"

record wait_entry =
  we_wait_for :: "string option"
  we_tenant_id :: "string option"
  we_eu_id :: "string option"
  we_callback :: resume_callback
  we_priority :: "string option"
  we_correlation_id :: "string option"
  we_trace_id :: "string option"
  we_eu_type :: string
  we_wait_condition :: "stored_condition option"

record scheduler =
  queues :: "priority \<Rightarrow> scheduled_item list"
  rr_cursor :: "priority \<Rightarrow> string option"
  waiting :: "(string, wait_entry) dict"
  seq :: int
  total_enqueued :: int
  total_dispatched :: int
  total_dropped :: int
  last_stale_wait_check :: time_us
  rehydrated :: bool
  pre_rehydration_buffer :: "(string \<times> string option) list"

definition new_scheduler :: scheduler where
  "new_scheduler =
     \<lparr>queues = (\<lambda>_. []), rr_cursor = (\<lambda>_. None), waiting = [], seq = 0, total_enqueued = 0,
      total_dispatched = 0, total_dropped = 0, last_stale_wait_check = 0, rehydrated = False,
      pre_rehydration_buffer = []\<rparr>"

section \<open>Operations\<close>

definition is_rehydrated :: "scheduler \<Rightarrow> bool" where
  "is_rehydrated s = rehydrated s"

definition enqueue :: "scheduled_item \<Rightarrow> scheduler \<Rightarrow> scheduler" where
  "enqueue item s =
     (let n = seq s + 1;
          item' = item\<lparr>si_seq := n\<rparr> in
      s\<lparr>seq := n, queues := (queues s)(si_priority item := queues s (si_priority item) @ [item']),
        total_enqueued := total_enqueued s + 1\<rparr>)"

text \<open>
  One dequeue of a non-empty queue: when the head belongs to the tenant served last and there is
  another item, the deque is rotated by one before its head is taken.
\<close>

definition rr_pop :: "string option \<Rightarrow> scheduled_item list \<Rightarrow> scheduled_item \<times> scheduled_item list" where
  "rr_pop last_tenant q =
     (let q' = (if 1 < length q \<and> last_tenant = Some (si_tenant (hd q)) then rotate1 q else q)
      in (hd q', tl q'))"

definition dequeue_next :: "scheduler \<Rightarrow> (scheduled_item \<times> scheduler) option" where
  "dequeue_next s =
     (case find (\<lambda>p. queues s p \<noteq> []) PRIORITY_ORDER of
        None \<Rightarrow> None
      | Some p \<Rightarrow>
          let (item, q) = rr_pop (rr_cursor s p) (queues s p) in
          Some (item,
            s\<lparr>queues := (queues s)(p := q), rr_cursor := (rr_cursor s)(p := Some (si_tenant item)),
              total_dispatched := total_dispatched s + 1\<rparr>))"

text \<open>
  The put-back of \<open>schedule\<close>: the item returns to the head of its queue and its dispatch is not counted.
\<close>

definition push_front :: "scheduled_item \<Rightarrow> scheduler \<Rightarrow> scheduler" where
  "push_front item s =
     s\<lparr>queues := (queues s)(si_priority item := item # queues s (si_priority item)),
       total_dispatched := total_dispatched s - 1\<rparr>"

definition queue_size :: "scheduler \<Rightarrow> nat" where
  "queue_size s = sum_list (map (\<lambda>p. length (queues s p)) PRIORITY_ORDER)"

definition queue_depth :: "scheduler \<Rightarrow> priority \<Rightarrow> nat" where
  "queue_depth s p = length (queues s p)"

definition get_metrics_snapshot :: "scheduler \<Rightarrow> (priority \<times> nat) list \<times> nat" where
  "get_metrics_snapshot s = (map (\<lambda>p. (p, length (queues s p))) PRIORITY_ORDER, length (waiting s))"

record sched_stats =
  st_queues :: "(priority \<times> nat) list"
  st_waiting :: nat
  st_enqueued :: int
  st_dispatched :: int
  st_dropped :: int

definition stats :: "scheduler \<Rightarrow> sched_stats" where
  "stats s =
     \<lparr>st_queues = map (\<lambda>p. (p, length (queues s p))) PRIORITY_ORDER, st_waiting = length (waiting s),
      st_enqueued = total_enqueued s, st_dispatched = total_dispatched s, st_dropped = total_dropped s\<rparr>"

text \<open>\<open>_enqueue_resume\<close>: an unknown priority makes \<open>ScheduledItem\<close> raise, here \<open>Inl\<close> of its text.\<close>

definition enqueue_resume ::
    "int \<Rightarrow> string \<Rightarrow> resume_callback \<Rightarrow> string option \<Rightarrow> string option \<Rightarrow> string option \<Rightarrow> string \<Rightarrow> scheduler \<Rightarrow>
     string + scheduler" where
  "enqueue_resume env_retries run_id cb eu tenant prio ty s =
     (case new_item env_retries (or_str eu []) (or_str tenant ''system'') (or_str prio PRIORITY_NORMAL) cb
             (Some run_id) ty 2 of
        Inl e \<Rightarrow> Inl e
      | Inr item \<Rightarrow> Inr (enqueue item s))"

section \<open>The queue as an interface\<close>

text \<open>
  What \<open>schedule\<close> relies on: taking an item removes one item, putting it back or appending one adds
  it, and only an empty queue has nothing to take.
\<close>

locale item_queue =
  fixes items :: "'s \<Rightarrow> 'a multiset"
    and pop :: "'s \<Rightarrow> ('a \<times> 's) option"
    and push :: "'a \<Rightarrow> 's \<Rightarrow> 's"
    and ok :: "'s \<Rightarrow> bool"
  assumes pop_None: "ok s \<Longrightarrow> pop s = None \<longleftrightarrow> items s = {#}"
    and pop_Some: "ok s \<Longrightarrow> pop s = Some (x, s') \<Longrightarrow> items s = add_mset x (items s') \<and> ok s'"
    and push_back: "ok s \<Longrightarrow> pop s = Some (x, s') \<Longrightarrow> items (push x s') = items s \<and> ok (push x s')"
begin

fun drain :: "nat \<Rightarrow> 's \<Rightarrow> 'a list \<times> 's" where
  "drain 0 s = ([], s)"
| "drain (Suc n) s =
     (case pop s of None \<Rightarrow> ([], s) | Some (x, s') \<Rightarrow> let (xs, s'') = drain n s' in (x # xs, s''))"

lemma drain_conserves:
  "ok s \<Longrightarrow> drain n s = (xs, s') \<Longrightarrow> items s = mset xs + items s' \<and> ok s' \<and> length xs = min n (size (items s))"
proof (induction n arbitrary: s xs s')
  case (Suc n)
  show ?case
  proof (cases "pop s")
    case None
    with Suc.prems show ?thesis using pop_None by simp
  next
    case (Some p)
    obtain x s1 where p: "p = (x, s1)" by fastforce
    obtain ys s2 where d: "drain n s1 = (ys, s2)" by fastforce
    have "pop s = Some (x, s1)" using Some p by simp
    then have i: "items s = add_mset x (items s1)" and ok: "ok s1"
      using pop_Some [OF Suc.prems(1)] by blast+
    have eqs: "xs = x # ys" "s' = s2" using Suc.prems(2) Some p d by simp_all
    have c: "items s1 = mset ys + items s2" "ok s2" "length ys = min n (size (items s1))"
      using Suc.IH [OF ok d] by blast+
    have "length xs = min (Suc n) (size (items s))" unfolding eqs i by (simp add: c(3))
    moreover have "items s = mset xs + items s'" unfolding eqs i by (simp add: c(1))
    ultimately show ?thesis using c(2) eqs by blast
  qed
qed simp

lemma drain_all: "ok s \<Longrightarrow> size (items s) \<le> n \<Longrightarrow> mset (fst (drain n s)) = items s"
proof -
  assume a: "ok s" "size (items s) \<le> n"
  obtain xs s' where d: "drain n s = (xs, s')" by fastforce
  have c: "items s = mset xs + items s' \<and> ok s' \<and> length xs = min n (size (items s))"
    by (rule drain_conserves [OF a(1) d])
  then have m: "items s = mset xs + items s'" by blast
  have "length xs = size (items s)" using c a(2) by (metis min.absorb2)
  with m have "size (items s) = size (items s) + size (items s')" by (metis size_mset size_union)
  with m d show ?thesis by simp
qed

end

definition queued :: "scheduler \<Rightarrow> scheduled_item multiset" where
  "queued s = mset (queues s High) + mset (queues s Normal) + mset (queues s Low)"

text \<open>
  The invariant of the queues: items sit in the queue of their priority, the counters account for
  them, and sequence numbers are distinct and at most \<open>seq\<close>.
\<close>

definition all_queued :: "scheduler \<Rightarrow> scheduled_item list" where
  "all_queued s = concat (map (queues s) PRIORITY_ORDER)"

definition sched_inv :: "scheduler \<Rightarrow> bool" where
  "sched_inv s \<longleftrightarrow>
     (\<forall>p. \<forall>i\<in>set (queues s p). si_priority i = p) \<and>
     total_enqueued s - total_dispatched s = int (queue_size s) \<and>
     distinct (map si_seq (all_queued s)) \<and> (\<forall>i\<in>set (all_queued s). si_seq i \<le> seq s)"

lemma queue_size_queued: "queue_size s = size (queued s)"
  by (simp add: queue_size_def queued_def PRIORITY_ORDER_def)

lemma mset_all_queued: "mset (all_queued s) = queued s"
  by (simp add: all_queued_def queued_def PRIORITY_ORDER_def)

lemma distinct_seqs: "distinct (map si_seq (all_queued s)) \<longleftrightarrow> (\<forall>k. count (image_mset si_seq (queued s)) k \<le> 1)"
proof -
  have "mset (map si_seq (all_queued s)) = image_mset si_seq (queued s)"
    by (simp add: mset_all_queued [symmetric])
  then show ?thesis
    by (metis distinct_count_atmost_1 count_mset_0_iff le_SucE le_zero_eq One_nat_def order_refl zero_le_one)
qed

lemma sched_inv_alt:
  "sched_inv s \<longleftrightarrow>
     (\<forall>p. \<forall>i\<in>set (queues s p). si_priority i = p) \<and>
     total_enqueued s - total_dispatched s = int (size (queued s)) \<and>
     (\<forall>k. count (image_mset si_seq (queued s)) k \<le> 1) \<and> (\<forall>i\<in>#queued s. si_seq i \<le> seq s)"
  by (simp add: sched_inv_def distinct_seqs queue_size_queued flip: mset_all_queued)

lemma rr_pop_mset: "q \<noteq> [] \<Longrightarrow> rr_pop t q = (i, q') \<Longrightarrow> mset q = add_mset i (mset q')"
  by (cases q; cases "tl q") (auto simp: rr_pop_def Let_def split: if_splits)

lemma find_priority:
  "find (\<lambda>p. queues s p \<noteq> []) PRIORITY_ORDER = Some p \<Longrightarrow> queues s p \<noteq> []"
  by (auto simp: PRIORITY_ORDER_def split: if_splits)

lemma find_priority_None:
  "find (\<lambda>p. queues s p \<noteq> []) PRIORITY_ORDER = None \<longleftrightarrow> queued s = {#}"
  by (simp add: PRIORITY_ORDER_def queued_def)

lemma queued_upd:
  "queued (s\<lparr>queues := (queues s)(p := q)\<rparr>) + mset (queues s p) = queued s + mset q"
  by (cases p) (simp_all add: queued_def)

lemma queued_cong: "queues s = queues s' \<Longrightarrow> queued s = queued s'"
  by (simp add: queued_def)

lemma dequeue_Some:
  assumes "dequeue_next s = Some (i, s')"
  shows "\<exists>p q. find (\<lambda>p. queues s p \<noteq> []) PRIORITY_ORDER = Some p \<and> rr_pop (rr_cursor s p) (queues s p) = (i, q) \<and>
    s' = s\<lparr>queues := (queues s)(p := q), rr_cursor := (rr_cursor s)(p := Some (si_tenant i)),
           total_dispatched := total_dispatched s + 1\<rparr>"
  using assms by (auto simp: dequeue_next_def split: option.splits prod.splits)

lemma dequeue_queued:
  assumes "dequeue_next s = Some (i, s')"
  shows "queued s = add_mset i (queued s')"
proof -
  obtain p q where p: "find (\<lambda>p. queues s p \<noteq> []) PRIORITY_ORDER = Some p"
      and q: "rr_pop (rr_cursor s p) (queues s p) = (i, q)"
      and s': "queues s' = (queues s)(p := q)"
    using dequeue_Some [OF assms] by auto
  have "mset (queues s p) = add_mset i (mset q)"
    using rr_pop_mset [OF find_priority [OF p] q] .
  moreover have "queued s' = queued (s\<lparr>queues := (queues s)(p := q)\<rparr>)"
    using s' by (intro queued_cong) simp
  ultimately show ?thesis using queued_upd [of s p q] by simp
qed

lemma dequeue_None: "dequeue_next s = None \<longleftrightarrow> queued s = {#}"
  by (auto simp: dequeue_next_def find_priority_None [symmetric] split: option.splits prod.splits)

lemma dequeue_inv: "sched_inv s \<Longrightarrow> dequeue_next s = Some (i, s') \<Longrightarrow> sched_inv s'"
proof -
  assume inv: "sched_inv s" and d: "dequeue_next s = Some (i, s')"
  obtain p q where q: "rr_pop (rr_cursor s p) (queues s p) = (i, q)"
      and p: "find (\<lambda>p. queues s p \<noteq> []) PRIORITY_ORDER = Some p"
      and s': "queues s' = (queues s)(p := q)" "seq s' = seq s" "total_enqueued s' = total_enqueued s"
        "total_dispatched s' = total_dispatched s + 1"
    using dequeue_Some [OF d] by auto
  have sub: "set q \<subseteq> set (queues s p)"
    using rr_pop_mset [OF find_priority [OF p] q] by (metis set_mset_add_mset_insert set_mset_mset subset_insertI)
  have "count (image_mset si_seq (queued s')) k \<le> count (image_mset si_seq (queued s)) k" for k
    using dequeue_queued [OF d] by simp
  then have "\<forall>k. count (image_mset si_seq (queued s')) k \<le> 1"
    using inv unfolding sched_inv_alt by (meson order_trans)
  with inv sub s' dequeue_queued [OF d] show ?thesis
    unfolding sched_inv_alt by auto
qed

lemma enqueue_queued: "queued (enqueue i s) = add_mset (i\<lparr>si_seq := seq s + 1\<rparr>) (queued s)"
  by (cases "si_priority i") (simp_all add: enqueue_def queued_def Let_def)

lemma enqueue_inv: "sched_inv s \<Longrightarrow> sched_inv (enqueue i s)"
proof -
  assume inv: "sched_inv s"
  have "count (image_mset si_seq (queued s)) (seq s + 1) = 0"
    using inv unfolding sched_inv_alt by (force simp: count_eq_zero_iff)
  with inv show ?thesis
    unfolding sched_inv_alt enqueue_queued by (auto simp: enqueue_def Let_def)
qed

lemma push_front_queued: "queued (push_front i s) = add_mset i (queued s)"
  by (cases "si_priority i") (simp_all add: push_front_def queued_def)

lemma push_front_inv:
  "sched_inv s \<Longrightarrow> dequeue_next s = Some (i, s') \<Longrightarrow> sched_inv (push_front i s') \<and> queued (push_front i s') = queued s"
proof -
  assume inv: "sched_inv s" and d: "dequeue_next s = Some (i, s')"
  have q: "queued (push_front i s') = queued s"
    by (simp add: push_front_queued dequeue_queued [OF d])
  have "total_enqueued s' = total_enqueued s" "total_dispatched s' = total_dispatched s + 1" "seq s' = seq s"
    using dequeue_Some [OF d] by auto
  with inv dequeue_inv [OF inv d] q show ?thesis
    unfolding sched_inv_alt q by (auto simp: push_front_def split: if_splits)
qed

interpretation sq: item_queue queued dequeue_next push_front sched_inv
proof unfold_locales
  fix s x s'
  assume inv: "sched_inv s"
  show "dequeue_next s = None \<longleftrightarrow> queued s = {#}" by (rule dequeue_None)
  assume d: "dequeue_next s = Some (x, s')"
  show "queued s = add_mset x (queued s') \<and> sched_inv s'"
    using dequeue_queued [OF d] dequeue_inv [OF inv d] by simp
  show "queued (push_front x s') = queued s \<and> sched_inv (push_front x s')"
    using push_front_inv [OF inv d] by simp
qed

section \<open>Service in rounds\<close>

text \<open>One round takes an item, if there is one, and then enqueues what arrives meanwhile.\<close>

fun serve_rounds :: "scheduler \<Rightarrow> scheduled_item list list \<Rightarrow> scheduled_item list \<times> scheduler" where
  "serve_rounds s [] = ([], s)"
| "serve_rounds s (arrivals # rounds) =
     (case dequeue_next s of
        None \<Rightarrow> serve_rounds (fold enqueue arrivals s) rounds
      | Some (i, s1) \<Rightarrow>
          let (out, s2) = serve_rounds (fold enqueue arrivals s1) rounds in (i # out, s2))"

lemma enqueue_queue:
  "queues (enqueue i s) p = queues s p @ (if si_priority i = p then [i\<lparr>si_seq := seq s + 1\<rparr>] else [])"
  "rr_cursor (enqueue i s) = rr_cursor s"
  by (simp_all add: enqueue_def Let_def)

lemma enqueues_high:
  "\<exists>new. queues (fold enqueue arrivals s) High = queues s High @ new \<and>
     rr_cursor (fold enqueue arrivals s) = rr_cursor s"
proof (induction arrivals arbitrary: s)
  case (Cons i arrivals)
  obtain new where "queues (fold enqueue arrivals (enqueue i s)) High = queues (enqueue i s) High @ new"
      and "rr_cursor (fold enqueue arrivals (enqueue i s)) = rr_cursor (enqueue i s)"
    using Cons by blast
  then show ?case by (simp add: enqueue_queue)
qed simp

lemma dequeue_high:
  "queues s High \<noteq> [] \<Longrightarrow> rr_pop (rr_cursor s High) (queues s High) = (i, q) \<Longrightarrow>
   dequeue_next s = Some (i, s\<lparr>queues := (queues s)(High := q),
     rr_cursor := (rr_cursor s)(High := Some (si_tenant i)), total_dispatched := total_dispatched s + 1\<rparr>)"
  by (simp add: dequeue_next_def PRIORITY_ORDER_def)

text \<open>
  One dequeue with an item \<open>x\<close> that is the first of its tenant: it is taken, or it comes closer to the
  head and another tenant was served.
\<close>

lemma rr_pop_progress:
  assumes "rr_pop c (pre @ x # post) = (i, q)" and "\<forall>y\<in>set pre. si_tenant y \<noteq> si_tenant x"
    and "c \<noteq> Some (si_tenant x)"
  shows "i = x \<or> (\<exists>pre' post'. q = pre' @ x # post' \<and> length pre' < length pre \<and>
    (\<forall>y\<in>set pre'. si_tenant y \<noteq> si_tenant x) \<and> si_tenant i \<noteq> si_tenant x)"
proof (cases pre)
  case Nil
  then show ?thesis using assms by (auto simp: rr_pop_def Let_def)
next
  case (Cons y ys)
  show ?thesis
  proof (cases "c = Some (si_tenant y)")
    case False
    then have "i = y \<and> q = ys @ x # post" using assms(1) Cons by (auto simp: rr_pop_def Let_def)
    then show ?thesis using assms(2) Cons by auto
  next
    case True
    then have "i = hd (ys @ x # post @ [y]) \<and> q = tl (ys @ x # post @ [y])"
      using assms(1) Cons by (auto simp: rr_pop_def Let_def)
    then show ?thesis
    proof (cases ys)
      case (Cons z zs)
      with \<open>i = _ \<and> q = _\<close> have "i = z \<and> q = zs @ x # (post @ [y])" by simp
      then show ?thesis using assms(2) \<open>pre = y # ys\<close> Cons by fastforce
    qed (use \<open>i = _ \<and> q = _\<close> in simp)
  qed
qed

lemma first_of_tenant_served:
  assumes "queues s High = pre @ x # post" and "\<forall>y\<in>set pre. si_tenant y \<noteq> si_tenant x"
    and "rr_cursor s High \<noteq> Some (si_tenant x)" and "length pre < length rounds"
  shows "x \<in> set (fst (serve_rounds s rounds))"
  using assms
proof (induction rounds arbitrary: s pre post)
  case (Cons arrivals rounds)
  obtain i q where pop: "rr_pop (rr_cursor s High) (queues s High) = (i, q)" by fastforce
  let ?s1 = "s\<lparr>queues := (queues s)(High := q), rr_cursor := (rr_cursor s)(High := Some (si_tenant i)),
      total_dispatched := total_dispatched s + 1\<rparr>"
  have d: "dequeue_next s = Some (i, ?s1)"
    using dequeue_high [OF _ pop] Cons.prems(1) by simp
  show ?case
  proof (cases "i = x")
    case True
    then show ?thesis by (simp add: d split: prod.splits)
  next
    case False
    then obtain pre' post' where q: "q = pre' @ x # post'" "length pre' < length pre"
        "\<forall>y\<in>set pre'. si_tenant y \<noteq> si_tenant x" "si_tenant i \<noteq> si_tenant x"
      using rr_pop_progress [of _ pre x post i q] pop Cons.prems by metis
    obtain new where "queues (fold enqueue arrivals ?s1) High = q @ new"
        "rr_cursor (fold enqueue arrivals ?s1) High = Some (si_tenant i)"
      using enqueues_high [of arrivals ?s1] by auto
    then have "x \<in> set (fst (serve_rounds (fold enqueue arrivals ?s1) rounds))"
      using Cons.IH [of "fold enqueue arrivals ?s1" pre' "post' @ new"] q Cons.prems(4) by simp
    then show ?thesis by (auto simp: d split: prod.splits)
  qed
qed simp

lemma starving_round:
  assumes "queues s High = [x, y]" and "si_tenant x = t" and "si_tenant y = t"
    and "rr_cursor s High = Some t" and "si_seq x \<le> seq s" and "y \<noteq> x" and "si_priority i = High" and "si_tenant i = t"
  shows "\<exists>s1 i'. dequeue_next s = Some (y, s1) \<and> queues (enqueue i s1) High = [x, i'] \<and> si_tenant i' = t \<and>
    rr_cursor (enqueue i s1) High = Some t \<and> si_seq x \<le> seq (enqueue i s1) \<and> i' \<noteq> x"
proof -
  have "rr_pop (rr_cursor s High) (queues s High) = (y, [x])"
    using assms by (simp add: rr_pop_def)
  then have "dequeue_next s = Some (y, s\<lparr>queues := (queues s)(High := [x]),
      rr_cursor := (rr_cursor s)(High := Some (si_tenant y)), total_dispatched := total_dispatched s + 1\<rparr>)"
    using dequeue_high assms(1) by simp
  moreover have "i\<lparr>si_seq := seq s + 1\<rparr> \<noteq> x" using assms(5) by (cases x; cases i) auto
  ultimately show ?thesis using assms by (simp add: enqueue_def Let_def)
qed

section \<open>Properties\<close>


text \<open>An item of a tenant in the high-priority queue.\<close>

definition high_item :: "string \<Rightarrow> string \<Rightarrow> int \<Rightarrow> scheduled_item" where
  "high_item eu tenant n =
     \<lparr>si_eu = eu, si_tenant = tenant, si_priority = High, si_callback = Closure eu, si_run_id = None,
      si_eu_type = ''flow'', si_seq = n, si_retry_count = 0, si_max_retries = 2\<rparr>"


text \<open>
  The rotation moves a single item, so it reorders one tenant's own items and can starve one:
  with two items of a tenant queued, that tenant served last, and one more of its items arriving
  per dequeue, the item at the head is never dispatched, however many rounds are served.
\<close>

theorem own_tenant_starves:
  assumes "queues s High = [x, y]" and "si_tenant x = t" and "si_tenant y = t"
    and "rr_cursor s High = Some t" and "si_seq x \<le> seq s" and "y \<noteq> x"
    and "\<forall>i\<in>set arrivals. si_priority i = High \<and> si_tenant i = t"
  shows "x \<notin> set (fst (serve_rounds s (map (\<lambda>i. [i]) arrivals))) \<and>
    length (fst (serve_rounds s (map (\<lambda>i. [i]) arrivals))) = length arrivals \<and>
    hd (queues (snd (serve_rounds s (map (\<lambda>i. [i]) arrivals))) High) = x"
  using assms
proof (induction arrivals arbitrary: s y)
  case (Cons i arrivals)
  obtain s1 i' where r: "dequeue_next s = Some (y, s1)" "queues (enqueue i s1) High = [x, i']"
      "si_tenant i' = t" "rr_cursor (enqueue i s1) High = Some t" "si_seq x \<le> seq (enqueue i s1)" "i' \<noteq> x"
    using starving_round [OF Cons.prems(1-6), of i] Cons.prems(7) by auto
  show ?case
    using Cons.IH [OF r(2) Cons.prems(2) r(3-6)] Cons.prems(6,7) r(1)
    by (auto split: prod.splits)
qed simp

theorem own_tenant_starves_witness:
  "high_item ''a1'' ''a'' 1 \<notin> set (fst (serve_rounds
     (new_scheduler\<lparr>queues := (\<lambda>_. [])(High := [high_item ''a1'' ''a'' 1, high_item ''a2'' ''a'' 2]),
        rr_cursor := (\<lambda>_. Some ''a''), seq := 2\<rparr>)
     (map (\<lambda>i. [i]) (replicate 500 (high_item ''n'' ''a'' 0)))))"
  using own_tenant_starves
    [of "new_scheduler\<lparr>queues := (\<lambda>_. [])(High := [high_item ''a1'' ''a'' 1, high_item ''a2'' ''a'' 2]),
        rr_cursor := (\<lambda>_. Some ''a''), seq := 2\<rparr>"
        "high_item ''a1'' ''a'' 1" "high_item ''a2'' ''a'' 2" "''a''" "replicate 500 (high_item ''n'' ''a'' 0)"]
  by (simp add: high_item_def new_scheduler_def del: serve_rounds.simps replicate.simps map_replicate)

end
