(* ===== verification/Scheduler_Waits.thy ===== *)
theory Scheduler_Waits
  imports Scheduler_Queue
begin

text \<open>
  Suspension and wake-up: \<^verbatim>\<open>AINDY/kernel/scheduler/waits.py\<close>, \<^verbatim>\<open>cross_instance.py\<close>,
  \<^verbatim>\<open>persistence.py\<close>, \<^verbatim>\<open>AINDY/kernel/resume_spec.py\<close>, \<^verbatim>\<open>redis_wait_registry.py\<close> and
  \<^verbatim>\<open>event_bus.py\<close>.

  \<open>sched_world\<close> is one instance's engine together with what it shares with the others: the specs in
  Redis, the rows of \<open>waiting_flow_runs\<close>, the bus and the channel. \<open>sched_env\<close> is what the surroundings
  contribute to a call: the clock, whether Redis and the database answer, the flows' wait deadlines
  and the registered callback builders. Redis' key scan is read as the dictionary's order, and key
  expiry is left out. JSON texts are represented by the values they encode.
\<close>

section \<open>Resume specs and the shared registry\<close>

record resume_spec =
  rs_handler :: string
  rs_eu_id :: string
  rs_tenant_id :: string
  rs_run_id :: string
  rs_eu_type :: "string option"

definition RESUME_HANDLER_EU :: string where
  "RESUME_HANDLER_EU = ''execution_unit.resume''"

text \<open>A builder raises (\<open>None\<close>) or returns the callback it closes over.\<close>

type_synonym cb_builders = "(string, resume_spec \<Rightarrow> resume_callback option) dict"

definition build_execution_unit_resume_callback :: "resume_spec \<Rightarrow> resume_callback option" where
  "build_execution_unit_resume_callback spec = Some (Spec_resume (rs_eu_id spec))"

definition register_resume_callback_builder ::
    "string \<Rightarrow> (resume_spec \<Rightarrow> resume_callback option) \<Rightarrow> cb_builders \<Rightarrow> cb_builders" where
  "register_resume_callback_builder handler builder bs = AList.update handler builder bs"

definition RESUME_CALLBACK_BUILDERS :: cb_builders where
  "RESUME_CALLBACK_BUILDERS =
     register_resume_callback_builder RESUME_HANDLER_EU build_execution_unit_resume_callback []"

definition build_callback_from_spec :: "cb_builders \<Rightarrow> resume_spec \<Rightarrow> resume_callback option" where
  "build_callback_from_spec bs spec =
     (case map_of bs (rs_handler spec) of None \<Rightarrow> None | Some builder \<Rightarrow> builder spec)"

record wait_row =
  wr_event_type :: string
  wr_correlation_id :: "string option"
  wr_waited_since :: time_us
  wr_max_wait_seconds :: "int option"
  wr_timeout_at :: "py_datetime option"
  wr_eu_id :: "string option"
  wr_priority :: "string option"
  wr_instance_id :: string

section \<open>The event bus\<close>

record bus_message =
  bm_event :: "string option"
  bm_correlation_id :: "string option"
  bm_source :: "string option"

record event_bus =
  bus_instance :: string
  bus_enabled :: bool
  bus_failures :: nat
  bus_buffer :: "(string \<times> string option) list"

definition BUS_MAX_FAILURES :: nat where "BUS_MAX_FAILURES = 3"

definition BUS_MAX_BUFFER_SIZE :: nat where "BUS_MAX_BUFFER_SIZE = 1000"

definition new_event_bus :: "string \<Rightarrow> bool \<Rightarrow> event_bus" where
  "new_event_bus iid enabled =
     \<lparr>bus_instance = iid, bus_enabled = enabled, bus_failures = 0, bus_buffer = []\<rparr>"

definition publish ::
    "bool \<Rightarrow> string \<Rightarrow> string option \<Rightarrow> event_bus \<Rightarrow> bool \<times> bus_message list \<times> event_bus" where
  "publish ok event corr b =
     (if \<not> bus_enabled b then (False, [], b)
      else if ok
      then (True, [\<lparr>bm_event = Some event, bm_correlation_id = corr, bm_source = Some (bus_instance b)\<rparr>],
            b\<lparr>bus_failures := 0\<rparr>)
      else
        let b' = b\<lparr>bus_failures := bus_failures b + 1\<rparr> in
        (False, [], if BUS_MAX_FAILURES \<le> bus_failures b' then b'\<lparr>bus_enabled := False\<rparr> else b'))"

section \<open>The world\<close>

record sched_world =
  eng :: scheduler
  specs :: "(string, resume_spec) dict"
  rows :: "(string, wait_row) dict"
  bus :: event_bus
  channel :: "bus_message list"

record sched_env =
  now_utc :: time_us
  redis_up :: bool
  redis_ok :: bool
  publish_ok :: bool
  db_up :: bool
  wait_deadline :: "string \<Rightarrow> py_datetime option"
  builders :: cb_builders
  env_retries :: int
  host :: string

definition with_eng :: "(scheduler \<Rightarrow> scheduler) \<Rightarrow> sched_world \<Rightarrow> sched_world" where
  "with_eng f w = w\<lparr>eng := f (eng w)\<rparr>"

definition registry_register :: "sched_env \<Rightarrow> string \<Rightarrow> resume_spec \<Rightarrow> sched_world \<Rightarrow> bool \<times> sched_world" where
  "registry_register env run spec w =
     (if redis_up env \<and> redis_ok env then (True, w\<lparr>specs := AList.update run spec (specs w)\<rparr>)
      else (False, w))"

definition registry_get_spec :: "sched_env \<Rightarrow> string \<Rightarrow> sched_world \<Rightarrow> resume_spec option" where
  "registry_get_spec env run w = (if redis_up env \<and> redis_ok env then map_of (specs w) run else None)"

definition registry_get_all_specs :: "sched_env \<Rightarrow> sched_world \<Rightarrow> (string, resume_spec) dict" where
  "registry_get_all_specs env w = (if redis_up env \<and> redis_ok env then specs w else [])"

definition registry_unregister :: "sched_env \<Rightarrow> string \<Rightarrow> sched_world \<Rightarrow> sched_world" where
  "registry_unregister env run w =
     (if redis_up env \<and> redis_ok env then w\<lparr>specs := AList.delete run (specs w)\<rparr> else w)"

definition registry_unregister_if_exists :: "sched_env \<Rightarrow> string \<Rightarrow> sched_world \<Rightarrow> bool \<times> sched_world" where
  "registry_unregister_if_exists env run w =
     (if redis_up env \<and> redis_ok env
      then (map_of (specs w) run \<noteq> None, w\<lparr>specs := AList.delete run (specs w)\<rparr>)
      else (False, w))"

definition load_wait_entry_from_db :: "sched_env \<Rightarrow> string \<Rightarrow> sched_world \<Rightarrow> wait_row option" where
  "load_wait_entry_from_db env run w = (if db_up env then map_of (rows w) run else None)"

section \<open>Persistence\<close>

definition trigger_of :: "stored_condition option \<Rightarrow> py_datetime option" where
  "trigger_of wc =
     (case wc of
        None \<Rightarrow> None
      | Some c \<Rightarrow>
          (case sc_trigger_at c of
             No_time \<Rightarrow> None
           | Date_time d \<Rightarrow> Some (as_utc d)
           | Iso_text parsed \<Rightarrow> map_option as_utc parsed
           | Other_value _ \<Rightarrow> None))"

text \<open>
  Seconds from now to a deadline, cut off at zero. Subtracting a deadline without a time zone from
  the aware clock raises, which leaves the column empty.
\<close>

definition wait_seconds :: "time_us \<Rightarrow> py_datetime option \<Rightarrow> int option" where
  "wait_seconds now timeout =
     (case timeout of
        None \<Rightarrow> None
      | Some d \<Rightarrow> if tz_aware d then Some (max 0 ((instant d - now) div 1000000)) else None)"

definition backup_row :: "sched_env \<Rightarrow> string \<Rightarrow> wait_entry \<Rightarrow> wait_row" where
  "backup_row env run entry =
     (let wc = we_wait_condition entry;
          timeout = (case trigger_of wc of None \<Rightarrow> wait_deadline env run | Some d \<Rightarrow> Some d);
          event = or_str (Option.bind wc sc_event_name) (or_str (we_wait_for entry) ''__time_wait__'')
      in \<lparr>wr_event_type = event, wr_correlation_id = we_correlation_id entry,
          wr_waited_since = now_utc env, wr_max_wait_seconds = wait_seconds (now_utc env) timeout,
          wr_timeout_at = timeout, wr_eu_id = we_eu_id entry,
          wr_priority = Some (or_str (we_priority entry) PRIORITY_NORMAL), wr_instance_id = host env\<rparr>)"

definition persist_wait_backup :: "sched_env \<Rightarrow> string \<Rightarrow> sched_world \<Rightarrow> sched_world" where
  "persist_wait_backup env run w =
     (case map_of (waiting (eng w)) run of
        None \<Rightarrow> w
      | Some entry \<Rightarrow>
          if db_up env then w\<lparr>rows := AList.update run (backup_row env run entry) (rows w)\<rparr> else w)"

definition delete_wait_backup :: "sched_env \<Rightarrow> string \<Rightarrow> sched_world \<Rightarrow> sched_world" where
  "delete_wait_backup env run w =
     (if db_up env then w\<lparr>rows := AList.delete run (rows w)\<rparr> else w)"

section \<open>Waiting\<close>

datatype wait_arg =
    No_condition
  | Condition wait_condition
  | Condition_dict stored_condition
  | Bad_condition

definition condition_dict :: "wait_arg \<Rightarrow> string option \<Rightarrow> string option \<Rightarrow> stored_condition option" where
  "condition_dict arg event corr =
     (case arg of
        Condition c \<Rightarrow> Some (wc_to_dict c)
      | Condition_dict d \<Rightarrow> Some d
      | Bad_condition \<Rightarrow> None
      | No_condition \<Rightarrow>
          Some \<lparr>sc_type = Some ''event'', sc_trigger_at = No_time, sc_event_name = event,
                sc_correlation_id = corr\<rparr>)"

record wait_request =
  wq_run_id :: string
  wq_event :: "string option"
  wq_tenant_id :: string
  wq_eu_id :: string
  wq_callback :: resume_callback
  wq_priority :: string
  wq_correlation_id :: "string option"
  wq_trace_id :: "string option"
  wq_eu_type :: string
  wq_condition :: wait_arg

definition request_entry :: "wait_request \<Rightarrow> wait_entry" where
  "request_entry q =
     \<lparr>we_wait_for = wq_event q, we_tenant_id = Some (wq_tenant_id q), we_eu_id = Some (wq_eu_id q),
      we_callback = wq_callback q, we_priority = Some (wq_priority q),
      we_correlation_id = wq_correlation_id q, we_trace_id = wq_trace_id q, we_eu_type = wq_eu_type q,
      we_wait_condition = condition_dict (wq_condition q) (wq_event q) (wq_correlation_id q)\<rparr>"

definition request_spec :: "wait_request \<Rightarrow> resume_spec" where
  "request_spec q =
     \<lparr>rs_handler = RESUME_HANDLER_EU, rs_eu_id = wq_eu_id q, rs_tenant_id = wq_tenant_id q,
      rs_run_id = wq_run_id q, rs_eu_type = Some (wq_eu_type q)\<rparr>"

definition register_wait :: "sched_env \<Rightarrow> wait_request \<Rightarrow> sched_world \<Rightarrow> sched_world" where
  "register_wait env q w =
     (let w1 = with_eng (\<lambda>s. s\<lparr>waiting := AList.update (wq_run_id q) (request_entry q) (waiting s)\<rparr>) w;
          w2 = snd (registry_register env (wq_run_id q) (request_spec q) w1)
      in persist_wait_backup env (wq_run_id q) w2)"

definition entry_matches :: "string \<Rightarrow> string option \<Rightarrow> wait_entry \<Rightarrow> bool" where
  "entry_matches event corr entry =
     (let wc = we_wait_condition entry;
          ty = Option.bind wc sc_type;
          ev = Option.bind wc sc_event_name in
      if ty = Some ''time'' then False
      else if truthy_str ev \<and> (ty \<notin> {Some ''event'', Some ''external''} \<or> ev \<noteq> Some event) then False
      else if \<not> truthy_str ev \<and> we_wait_for entry \<noteq> Some event then False
      else
        let entry_corr = or_none (we_correlation_id entry);
            emit_corr = or_none corr
        in \<not> (entry_corr \<noteq> None \<and> emit_corr \<noteq> None \<and> entry_corr \<noteq> emit_corr))"

text \<open>The matched entries, removed from \<open>_waiting\<close> and from the shared registry under the lock.\<close>

definition claim_waits ::
    "sched_env \<Rightarrow> (wait_entry \<Rightarrow> bool) \<Rightarrow> sched_world \<Rightarrow> (string \<times> wait_entry) list \<times> sched_world" where
  "claim_waits env match w =
     (let hits = filter (\<lambda>(_, entry). match entry) (waiting (eng w));
          w1 = with_eng (\<lambda>s. s\<lparr>waiting := fold AList.delete (map fst hits) (waiting s)\<rparr>) w
      in (hits, fold (registry_unregister env) (map fst hits) w1))"

text \<open>
  The resumption of the claimed entries. A priority that \<open>ScheduledItem\<close> rejects raises in the middle
  of the loop: the result is \<open>Some\<close> of it.
\<close>

fun resume_claimed ::
    "sched_env \<Rightarrow> (string \<times> wait_entry) list \<Rightarrow> sched_world \<Rightarrow> string option \<times> sched_world" where
  "resume_claimed env [] w = (None, w)"
| "resume_claimed env ((run, entry) # hits) w =
     (case enqueue_resume (env_retries env) run (we_callback entry) (we_eu_id entry) (we_tenant_id entry)
             (we_priority entry) (we_eu_type entry) (eng w) of
        Inl e \<Rightarrow> (Some e, w)
      | Inr s \<Rightarrow> resume_claimed env hits (delete_wait_backup env run (w\<lparr>eng := s\<rparr>)))"

section \<open>Other instances' waits\<close>

fun cross_resume_loop ::
    "sched_env \<Rightarrow> string \<Rightarrow> string option \<Rightarrow> string list \<Rightarrow> (string \<times> resume_spec) list \<Rightarrow> nat \<Rightarrow> sched_world \<Rightarrow>
     nat \<times> sched_world" where
  "cross_resume_loop env event corr skip [] n w = (n, w)"
| "cross_resume_loop env event corr skip ((run, spec) # others) n w =
     (if run \<in> set skip \<or> map_of (waiting (eng w)) run \<noteq> None
      then cross_resume_loop env event corr skip others n w
      else
        case load_wait_entry_from_db env run w of
          None \<Rightarrow> cross_resume_loop env event corr skip others n w
        | Some row \<Rightarrow>
            if wr_event_type row \<noteq> event \<or> truthy_str corr \<and> wr_correlation_id row \<noteq> corr
            then cross_resume_loop env event corr skip others n w
            else
              (case build_callback_from_spec (builders env) spec of
                 None \<Rightarrow> cross_resume_loop env event corr skip others n w
               | Some cb \<Rightarrow>
                   (case registry_unregister_if_exists env run w of
                      (False, w1) \<Rightarrow> cross_resume_loop env event corr skip others n w1
                    | (True, w1) \<Rightarrow>
                        (case enqueue_resume (env_retries env) run cb
                                (if truthy_str (wr_eu_id row) then wr_eu_id row else Some (rs_eu_id spec))
                                (Some (or_str (Some (rs_tenant_id spec)) ''system''))
                                (Some (or_str (wr_priority row) PRIORITY_NORMAL))
                                (or_str (rs_eu_type spec) ''flow'') (eng w1) of
                           Inl _ \<Rightarrow> (0, w1)
                         | Inr s \<Rightarrow> cross_resume_loop env event corr skip others (n + 1) (w1\<lparr>eng := s\<rparr>)))))"

definition cross_instance_resume ::
    "sched_env \<Rightarrow> string \<Rightarrow> string option \<Rightarrow> string list \<Rightarrow> sched_world \<Rightarrow> nat \<times> sched_world" where
  "cross_instance_resume env event corr skip w =
     (if \<not> redis_up env then (0, w)
      else cross_resume_loop env event corr skip (registry_get_all_specs env w) 0 w)"

fun cross_tick_loop ::
    "sched_env \<Rightarrow> (string \<times> resume_spec) list \<Rightarrow> nat \<Rightarrow> sched_world \<Rightarrow> nat \<times> sched_world" where
  "cross_tick_loop env [] n w = (n, w)"
| "cross_tick_loop env ((run, spec) # others) n w =
     (if map_of (waiting (eng w)) run \<noteq> None then cross_tick_loop env others n w
      else
        case load_wait_entry_from_db env run w of
          None \<Rightarrow> cross_tick_loop env others n w
        | Some row \<Rightarrow>
            (case wr_timeout_at row of
               None \<Rightarrow> cross_tick_loop env others n w
             | Some d \<Rightarrow>
                 if now_utc env < instant (as_utc d) then cross_tick_loop env others n w
                 else
                   (case registry_unregister_if_exists env run w of
                      (False, w1) \<Rightarrow> cross_tick_loop env others n w1
                    | (True, w1) \<Rightarrow>
                        (case build_callback_from_spec (builders env) spec of
                           None \<Rightarrow> cross_tick_loop env others n w1
                         | Some cb \<Rightarrow>
                             (case enqueue_resume (env_retries env) run cb
                                     (if truthy_str (wr_eu_id row) then wr_eu_id row else Some run)
                                     (Some (or_str (Some (rs_tenant_id spec)) ''system''))
                                     (Some (or_str (wr_priority row) PRIORITY_NORMAL))
                                     (or_str (rs_eu_type spec) ''flow'') (eng w1) of
                                Inl _ \<Rightarrow> (0, w1)
                              | Inr s \<Rightarrow>
                                  cross_tick_loop env others (n + 1) (delete_wait_backup env run (w1\<lparr>eng := s\<rparr>)))))))"

definition cross_instance_tick :: "sched_env \<Rightarrow> sched_world \<Rightarrow> nat \<times> sched_world" where
  "cross_instance_tick env w =
     (if \<not> redis_up env then (0, w) else cross_tick_loop env (registry_get_all_specs env w) 0 w)"

section \<open>Wake-up\<close>

definition broadcast_event :: "sched_env \<Rightarrow> string \<Rightarrow> string option \<Rightarrow> sched_world \<Rightarrow> sched_world" where
  "broadcast_event env event corr w =
     (let (_, msgs, b) = publish (publish_ok env) event corr (bus w) in
      w\<lparr>bus := b, channel := channel w @ msgs\<rparr>)"

definition notify_event ::
    "sched_env \<Rightarrow> string \<Rightarrow> string option \<Rightarrow> bool \<Rightarrow> sched_world \<Rightarrow> (string + nat) \<times> sched_world" where
  "notify_event env event corr broadcast w =
     (if \<not> rehydrated (eng w) then
        (if MAX_PRE_REHYDRATION_BUFFER \<le> length (pre_rehydration_buffer (eng w)) then (Inr 0, w)
         else (Inr 0,
               with_eng (\<lambda>s. s\<lparr>pre_rehydration_buffer := pre_rehydration_buffer s @ [(event, corr)]\<rparr>) w))
      else
        let (hits, w1) = claim_waits env (entry_matches event corr) w in
        case resume_claimed env hits w1 of
          (Some e, w2) \<Rightarrow> (Inl e, w2)
        | (None, w2) \<Rightarrow>
            let (crossed, w3) = cross_instance_resume env event corr (map fst hits) w2;
                w4 = (if broadcast then broadcast_event env event corr w3 else w3)
            in (Inr (length hits + crossed), w4))"

definition time_expired :: "time_us \<Rightarrow> wait_entry \<Rightarrow> bool" where
  "time_expired now entry =
     (case we_wait_condition entry of
        None \<Rightarrow> False
      | Some c \<Rightarrow>
          sc_type c = Some ''time'' \<and>
          (case sc_trigger_at c of
             No_time \<Rightarrow> False
           | Iso_text None \<Rightarrow> False
           | Iso_text (Some d) \<Rightarrow> instant (as_utc d) \<le> now
           | Date_time d \<Rightarrow> instant (as_utc d) \<le> now
           | Other_value _ \<Rightarrow> False))"

definition tick_time_waits :: "sched_env \<Rightarrow> sched_world \<Rightarrow> (string + nat) \<times> sched_world" where
  "tick_time_waits env w =
     (let (hits, w1) = claim_waits env (time_expired (now_utc env)) w in
      case resume_claimed env hits w1 of
        (Some e, w2) \<Rightarrow> (Inl e, w2)
      | (None, w2) \<Rightarrow>
          let (crossed, w3) = cross_instance_tick env w2 in (Inr (length hits + crossed), w3))"

definition scan_expired_waits :: "sched_env \<Rightarrow> sched_world \<Rightarrow> (string + nat) \<times> sched_world" where
  "scan_expired_waits env w = tick_time_waits env w"

definition peek_matching_run_ids :: "string \<Rightarrow> string option \<Rightarrow> sched_world \<Rightarrow> string list" where
  "peek_matching_run_ids event corr w =
     map fst (filter (\<lambda>(_, entry).
       (let wc = we_wait_condition entry;
            ty = Option.bind wc sc_type;
            ev = Option.bind wc sc_event_name in
        ty \<noteq> Some ''time'' \<and>
        (if truthy_str ev then ty \<in> {Some ''event'', Some ''external''} \<and> ev = Some event
         else we_wait_for entry = Some event) \<and>
        (truthy_str (we_correlation_id entry) \<and> truthy_str corr \<longrightarrow> we_correlation_id entry = corr)))
       (waiting (eng w)))"

definition waiting_for :: "string \<Rightarrow> sched_world \<Rightarrow> string option" where
  "waiting_for run w =
     (case map_of (waiting (eng w)) run of None \<Rightarrow> None | Some entry \<Rightarrow> we_wait_for entry)"

text \<open>Replays raise nothing: a failing one is logged and the next follows.\<close>

definition replay_events :: "sched_env \<Rightarrow> (string \<times> string option) list \<Rightarrow> sched_world \<Rightarrow> sched_world" where
  "replay_events env evs w = fold (\<lambda>(event, corr) w. snd (notify_event env event corr False w)) evs w"

definition mark_rehydration_complete :: "sched_env \<Rightarrow> sched_world \<Rightarrow> sched_world" where
  "mark_rehydration_complete env w =
     (let buffered = pre_rehydration_buffer (eng w);
          w1 = with_eng (\<lambda>s. s\<lparr>rehydrated := True, pre_rehydration_buffer := []\<rparr>) w
      in replay_events env buffered w1)"

definition sched_reset :: "sched_env \<Rightarrow> sched_world \<Rightarrow> sched_world" where
  "sched_reset env w =
     (let cleared = map fst (waiting (eng w)) in
      fold (registry_unregister env) cleared (w\<lparr>eng := new_scheduler\<rparr>))"

section \<open>The bus' subscriber\<close>

text \<open>A message is its decoded fields; \<open>None\<close> is a payload that is not JSON.\<close>

definition handle_message :: "sched_env \<Rightarrow> bus_message option \<Rightarrow> sched_world \<Rightarrow> sched_world" where
  "handle_message env data w =
     (case data of
        None \<Rightarrow> w
      | Some m \<Rightarrow>
          if bm_source m = Some (bus_instance (bus w)) then w
          else if \<not> truthy_str (bm_event m) then w
          else
            let event = the (bm_event m);
                corr = or_none (bm_correlation_id m) in
            if \<not> is_rehydrated (eng w) then
              (if length (bus_buffer (bus w)) < BUS_MAX_BUFFER_SIZE
               then w\<lparr>bus := (bus w)\<lparr>bus_buffer := bus_buffer (bus w) @ [(event, corr)]\<rparr>\<rparr> else w)
            else snd (notify_event env event corr False w))"

fun drain_loop :: "sched_env \<Rightarrow> (string \<times> string option) list \<Rightarrow> nat \<Rightarrow> sched_world \<Rightarrow> nat \<times> sched_world" where
  "drain_loop env [] n w = (n, w)"
| "drain_loop env ((event, corr) # evs) n w =
     (case notify_event env event corr False w of
        (Inl _, w1) \<Rightarrow> drain_loop env evs n w1
      | (Inr _, w1) \<Rightarrow> drain_loop env evs (n + 1) w1)"

definition drain_buffered_events :: "sched_env \<Rightarrow> sched_world \<Rightarrow> nat \<times> sched_world" where
  "drain_buffered_events env w =
     (let pending = bus_buffer (bus w);
          w1 = w\<lparr>bus := (bus w)\<lparr>bus_buffer := []\<rparr>\<rparr>
      in drain_loop env pending 0 w1)"

definition publish_event :: "sched_env \<Rightarrow> string \<Rightarrow> string option \<Rightarrow> sched_world \<Rightarrow> (string + nat) \<times> sched_world" where
  "publish_event env event corr w = notify_event env event corr True w"

section \<open>Lemmas\<close>

lemma registry_unregister_eng [simp]: "eng (registry_unregister env r w) = eng w"
  by (simp add: registry_unregister_def)

lemma unregisters_fields [simp]:
  "eng (fold (registry_unregister env) rs w) = eng w" "rows (fold (registry_unregister env) rs w) = rows w"
  "bus (fold (registry_unregister env) rs w) = bus w" "channel (fold (registry_unregister env) rs w) = channel w"
  by (induction rs arbitrary: w) (simp_all add: registry_unregister_def)

lemma delete_wait_backup_fields [simp]:
  "eng (delete_wait_backup env r w) = eng w" "specs (delete_wait_backup env r w) = specs w"
  "bus (delete_wait_backup env r w) = bus w" "channel (delete_wait_backup env r w) = channel w"
  by (simp_all add: delete_wait_backup_def)

lemma map_of_filter_out: "r \<in> S \<Longrightarrow> map_of (filter (\<lambda>(k, _). k \<notin> S) d) r = None"
  by (auto simp: map_of_eq_None_iff)

lemma enqueue_keeps [simp]:
  "waiting (enqueue i s) = waiting s" "rehydrated (enqueue i s) = rehydrated s"
  "pre_rehydration_buffer (enqueue i s) = pre_rehydration_buffer s"
  by (simp_all add: enqueue_def Let_def)

text \<open>What a queued item came from.\<close>

definition queued_runs :: "scheduler \<Rightarrow> string option multiset" where
  "queued_runs s = image_mset si_run_id (queued s)"

lemma enqueue_resume_ok:
  assumes "enqueue_resume k run cb eu tenant prio ty s = Inr s'"
  shows "queued_runs s' = add_mset (Some run) (queued_runs s) \<and> waiting s' = waiting s \<and>
    rehydrated s' = rehydrated s \<and> pre_rehydration_buffer s' = pre_rehydration_buffer s"
proof -
  from assms obtain i where "s' = enqueue i s" and "si_run_id i = Some run"
    by (auto simp: enqueue_resume_def new_item_def split: option.splits)
  then show ?thesis by (simp add: queued_runs_def enqueue_queued)
qed

lemma enqueue_resume_iff:
  "(\<exists>s'. enqueue_resume k run cb eu tenant prio ty s = Inr s') \<longleftrightarrow> read_priority (or_str prio PRIORITY_NORMAL) \<noteq> None"
  by (auto simp: enqueue_resume_def new_item_def split: option.splits)

lemma enqueue_resume_bad:
  "read_priority (or_str prio PRIORITY_NORMAL) = None \<Longrightarrow>
   enqueue_resume k run cb eu tenant prio ty s = Inl (or_str prio PRIORITY_NORMAL)"
  by (simp add: enqueue_resume_def new_item_def)

definition entry_ok :: "wait_entry \<Rightarrow> bool" where
  "entry_ok e \<longleftrightarrow> read_priority (or_str (we_priority e) PRIORITY_NORMAL) \<noteq> None"

lemma resume_claimed_ok:
  assumes "\<forall>(r, e)\<in>set hits. entry_ok e"
  shows "\<exists>w'. resume_claimed env hits w = (None, w') \<and>
    queued_runs (eng w') = queued_runs (eng w) + mset (map (\<lambda>(r, e). Some r) hits) \<and>
    waiting (eng w') = waiting (eng w) \<and> specs w' = specs w \<and> bus w' = bus w \<and> channel w' = channel w \<and>
    rehydrated (eng w') = rehydrated (eng w) \<and>
    rows w' = (if db_up env then fold AList.delete (map fst hits) (rows w) else rows w)"
  using assms
proof (induction hits arbitrary: w)
  case (Cons h hits)
  obtain r e where h: "h = (r, e)" by fastforce
  with Cons.prems have "entry_ok e" by simp
  then obtain s where s: "enqueue_resume (env_retries env) r (we_callback e) (we_eu_id e) (we_tenant_id e)
      (we_priority e) (we_eu_type e) (eng w) = Inr s"
    using enqueue_resume_iff by (metis entry_ok_def)
  let ?w1 = "delete_wait_backup env r (w\<lparr>eng := s\<rparr>)"
  obtain w' where "resume_claimed env hits ?w1 = (None, w')"
      "queued_runs (eng w') = queued_runs (eng ?w1) + mset (map (\<lambda>(r, e). Some r) hits)"
      "waiting (eng w') = waiting (eng ?w1)" "specs w' = specs ?w1" "bus w' = bus ?w1" "channel w' = channel ?w1"
      "rehydrated (eng w') = rehydrated (eng ?w1)"
      "rows w' = (if db_up env then fold AList.delete (map fst hits) (rows ?w1) else rows ?w1)"
    using Cons.IH [of ?w1] Cons.prems by auto
  then show ?case
    using enqueue_resume_ok [OF s] by (simp add: h s delete_wait_backup_def)
qed simp

lemma peek_claims:
  "peek_matching_run_ids event corr w = map fst (filter (\<lambda>(_, entry). entry_matches event corr entry) (waiting (eng w)))"
proof -
  have "entry_matches event corr entry \<longleftrightarrow>
       (let wc = we_wait_condition entry;
            ty = Option.bind wc sc_type;
            ev = Option.bind wc sc_event_name in
        ty \<noteq> Some ''time'' \<and>
        (if truthy_str ev then ty \<in> {Some ''event'', Some ''external''} \<and> ev = Some event
         else we_wait_for entry = Some event) \<and>
        (truthy_str (we_correlation_id entry) \<and> truthy_str corr \<longrightarrow> we_correlation_id entry = corr))" for entry
    by (auto simp: entry_matches_def Let_def or_none_def)
  then show ?thesis by (simp add: peek_matching_run_ids_def split_def)
qed

lemma claim_waits_eq:
  "claim_waits env match w = (hits, w1) \<Longrightarrow>
   hits = filter (\<lambda>(_, entry). match entry) (waiting (eng w)) \<and>
   eng w1 = (eng w)\<lparr>waiting := filter (\<lambda>(r, _). r \<notin> fst ` set hits) (waiting (eng w))\<rparr> \<and>
   rows w1 = rows w \<and> bus w1 = bus w \<and> channel w1 = channel w"
  by (auto simp: claim_waits_def Let_def with_eng_def delete_all_filter)

lemma queued_runs_waiting [simp]: "queued_runs (s\<lparr>waiting := d\<rparr>) = queued_runs s"
  by (simp add: queued_runs_def queued_def)

text \<open>The loop over the shared specs: what it enqueues it has first removed from the registry.\<close>

lemma unregister_if_exists_ok:
  "redis_up env \<Longrightarrow> redis_ok env \<Longrightarrow> registry_unregister_if_exists env r w = (b, w1) \<Longrightarrow>
   (b \<longleftrightarrow> map_of (specs w) r \<noteq> None) \<and> specs w1 = AList.delete r (specs w) \<and> eng w1 = eng w"
  by (auto simp: registry_unregister_if_exists_def)

lemma cross_resume_claims:
  assumes "redis_up env" and "redis_ok env" and "cross_resume_loop env event corr skip l n w = (m, w')"
  shows "\<exists>rs. queued_runs (eng w') = queued_runs (eng w) + mset (map Some rs) \<and>
    (\<forall>r\<in>set rs. map_of (specs w) r \<noteq> None \<and> map_of (specs w') r = None) \<and>
    (\<forall>r. map_of (specs w) r = None \<longrightarrow> map_of (specs w') r = None) \<and> distinct rs"
  using assms(3)
proof (induction l arbitrary: n w)
  case Nil
  then show ?case by (intro exI [of _ "[]"]) simp
next
  case (Cons x l)
  obtain run spec where x: "x = (run, spec)" by fastforce
  consider (same) n' where "cross_resume_loop env event corr skip l n' w = (m, w')"
    | (gone) w1 where "registry_unregister_if_exists env run w = (False, w1)"
        "cross_resume_loop env event corr skip l n w1 = (m, w')"
    | (raised) w1 where "registry_unregister_if_exists env run w = (True, w1)" "w' = w1"
    | (claimed) w1 k cb eu t p ty s where "registry_unregister_if_exists env run w = (True, w1)"
        "enqueue_resume k run cb eu t p ty (eng w1) = Inr s"
        "cross_resume_loop env event corr skip l (n + 1) (w1\<lparr>eng := s\<rparr>) = (m, w')"
    using Cons.prems unfolding x
    by (auto split: if_splits option.splits prod.splits bool.splits sum.splits)
  then show ?case
  proof cases
    case same
    then show ?thesis by (rule Cons.IH)
  next
    case (gone w1)
    then show ?thesis
      using Cons.IH [OF gone(2)] unregister_if_exists_ok [OF assms(1,2) gone(1)]
      by (simp add: pd.get_del) (smt (verit, best))
  next
    case (raised w1)
    then show ?thesis
      using unregister_if_exists_ok [OF assms(1,2) raised(1)] by (intro exI [of _ "[]"]) (simp add: pd.get_del)
  next
    case (claimed w1 k cb eu t p ty s)
    obtain rs where rs: "queued_runs (eng w') = queued_runs s + mset (map Some rs)"
        "\<forall>r\<in>set rs. map_of (specs w1) r \<noteq> None \<and> map_of (specs w') r = None"
        "\<forall>r. map_of (specs w1) r = None \<longrightarrow> map_of (specs w') r = None" "distinct rs"
      using Cons.IH [OF claimed(3)] by auto
    note un = unregister_if_exists_ok [OF assms(1,2) claimed(1)]
    have "run \<notin> set rs" using rs(2) un by (auto simp: pd.get_del)
    then show ?thesis
      using rs un enqueue_resume_ok [OF claimed(2)]
      by (intro exI [of _ "run # rs"]) (auto simp: pd.get_del split: if_splits)
  qed
qed

lemma cross_instance_claims:
  assumes "redis_up env" and "redis_ok env" and "cross_instance_resume env event corr skip w = (m, w')"
  shows "\<exists>rs. queued_runs (eng w') = queued_runs (eng w) + mset (map Some rs) \<and>
    (\<forall>r\<in>set rs. map_of (specs w) r \<noteq> None \<and> map_of (specs w') r = None) \<and> distinct rs"
  using cross_resume_claims [OF assms(1,2), of event corr skip "registry_get_all_specs env w" 0 w m w'] assms
  by (auto simp: cross_instance_resume_def)

text \<open>Before rehydration a notification only appends to the buffer.\<close>

lemma notify_buffers:
  assumes "\<not> rehydrated (eng w)" and "length (pre_rehydration_buffer (eng w)) < MAX_PRE_REHYDRATION_BUFFER"
  shows "notify_event env event corr b w =
    (Inr 0, with_eng (\<lambda>s. s\<lparr>pre_rehydration_buffer := pre_rehydration_buffer s @ [(event, corr)]\<rparr>) w)"
  using assms by (simp add: notify_event_def)

lemma buffered_run:
  assumes "\<not> rehydrated (eng w)"
    and "length (pre_rehydration_buffer (eng w)) + length evs \<le> MAX_PRE_REHYDRATION_BUFFER"
  shows "fold (\<lambda>(e, c) w. snd (notify_event env e c True w)) evs w =
    with_eng (\<lambda>s. s\<lparr>pre_rehydration_buffer := pre_rehydration_buffer s @ evs\<rparr>) w"
  using assms
proof (induction evs arbitrary: w)
  case (Cons x evs)
  then show ?case by (cases x) (simp add: notify_buffers with_eng_def)
qed (simp add: with_eng_def)

text \<open>Without broadcast nothing is published.\<close>

lemma resume_claimed_channel: "channel (snd (resume_claimed env hits w)) = channel w"
  by (induction env hits w rule: resume_claimed.induct) (auto split: sum.splits)

lemma cross_loop_channel: "channel (snd (cross_resume_loop env event corr skip l n w)) = channel w"
  by (induction env event corr skip l n w rule: cross_resume_loop.induct)
     (auto simp: registry_unregister_if_exists_def split: if_splits option.splits prod.splits sum.splits bool.splits)

lemma cross_instance_channel: "channel (snd (cross_instance_resume env event corr skip w)) = channel w"
  by (simp add: cross_instance_resume_def cross_loop_channel)

lemma notify_silent: "channel (snd (notify_event env event corr False w)) = channel w"
proof (cases "rehydrated (eng w)")
  case True
  obtain hits w1 where c: "claim_waits env (entry_matches event corr) w = (hits, w1)" by fastforce
  obtain e w2 where r: "resume_claimed env hits w1 = (e, w2)" by fastforce
  obtain n w3 where x: "cross_instance_resume env event corr (map fst hits) w2 = (n, w3)" by fastforce
  have "channel w1 = channel w" "channel w2 = channel w1" "channel w3 = channel w2"
    using claim_waits_eq [OF c] resume_claimed_channel [of env hits w1]
      cross_instance_channel [of env event corr "map fst hits" w2] r x by simp_all
  then show ?thesis using True by (auto simp: notify_event_def c r x split: option.splits)
qed (simp add: notify_event_def with_eng_def)

text \<open>A concrete instance: a fresh, rehydrated engine with a database and no Redis.\<close>

definition plain_env :: sched_env where
  "plain_env = \<lparr>now_utc = 100, redis_up = False, redis_ok = False, publish_ok = False, db_up = True,
     wait_deadline = (\<lambda>_. None), builders = RESUME_CALLBACK_BUILDERS, env_retries = 2, host = ''a''\<rparr>"

definition plain_world :: sched_world where
  "plain_world = \<lparr>eng = new_scheduler\<lparr>rehydrated := True\<rparr>, specs = [], rows = [],
     bus = new_event_bus ''a'' True, channel = []\<rparr>"

definition event_entry :: "string \<Rightarrow> string \<Rightarrow> wait_entry" where
  "event_entry event prio =
     \<lparr>we_wait_for = Some event, we_tenant_id = Some ''t'', we_eu_id = Some ''e'', we_callback = Closure ''c'',
      we_priority = Some prio, we_correlation_id = None, we_trace_id = None, we_eu_type = ''flow'',
      we_wait_condition = None\<rparr>"

section \<open>Properties\<close>

text \<open>
  C8. One instance, no shared registry: notifying an event resumes exactly the runs that
  \<open>peek_matching_run_ids\<close> names. Each gets one queue entry, leaves \<open>_waiting\<close> and loses its backup row;
  every other wait stays, in order; the number is returned.
\<close>

theorem notify_resumes_exactly_matches:
  assumes "rehydrated (eng w)" and "\<not> redis_up env" and "\<forall>(r, e)\<in>set (waiting (eng w)). entry_ok e"
    and "runs = peek_matching_run_ids event corr w" and "notify_event env event corr broadcast w = (res, w')"
  shows "res = Inr (length runs) \<and>
    queued_runs (eng w') = queued_runs (eng w) + mset (map Some runs) \<and>
    waiting (eng w') = filter (\<lambda>(r, _). r \<notin> set runs) (waiting (eng w)) \<and>
    rows w' = (if db_up env then filter (\<lambda>(r, _). r \<notin> set runs) (rows w) else rows w)"
proof -
  obtain hits w1 where c: "claim_waits env (entry_matches event corr) w = (hits, w1)" by fastforce
  note cl = claim_waits_eq [OF c]
  have runs: "runs = map fst hits" using cl assms(4) by (simp add: peek_claims)
  have "\<forall>(r, e)\<in>set hits. entry_ok e" using cl assms(3) by auto
  then obtain w2 where r: "resume_claimed env hits w1 = (None, w2)"
      "queued_runs (eng w2) = queued_runs (eng w1) + mset (map (\<lambda>(r, e). Some r) hits)"
      "waiting (eng w2) = waiting (eng w1)"
      "rows w2 = (if db_up env then fold AList.delete (map fst hits) (rows w1) else rows w1)"
    using resume_claimed_ok [of hits env w1] by blast
  have "eng w' = eng w2 \<and> rows w' = rows w2 \<and> res = Inr (length hits)"
    using assms(1,2,5) c r(1)
    by (auto simp: notify_event_def cross_instance_resume_def broadcast_event_def Let_def split: prod.splits if_splits)
  then show ?thesis
    using cl r runs by (simp add: delete_all_filter split_def comp_def)
qed

theorem notify_resumes_exactly_matches_witness:
  "queued_runs (eng (snd (notify_event plain_env ''go'' None False
     (with_eng (\<lambda>s. s\<lparr>waiting := [(''r1'', event_entry ''go'' ''high''), (''r2'', event_entry ''stop'' ''low'')]\<rparr>) plain_world)))) =
   {#Some ''r1''#}"
proof -
  let ?w = "with_eng (\<lambda>s. s\<lparr>waiting := [(''r1'', event_entry ''go'' ''high''), (''r2'', event_entry ''stop'' ''low'')]\<rparr>) plain_world"
  obtain res w' where n: "notify_event plain_env ''go'' None False ?w = (res, w')" by fastforce
  have p: "[''r1''] = peek_matching_run_ids ''go'' None ?w"
    by (simp add: peek_claims entry_matches_def event_entry_def with_eng_def or_none_def)
  have "queued_runs (eng w') = {#Some ''r1''#}"
    using notify_resumes_exactly_matches [OF _ _ _ p n]
    by (simp add: plain_env_def plain_world_def with_eng_def event_entry_def entry_ok_def or_str_def
        read_priority_def new_scheduler_def queued_runs_def queued_def)
  then show ?thesis by (simp only: n snd_conv)
qed

text \<open>
  A wait registered with a priority that is none of the three makes the wake-up raise after all
  matched waits were removed: when it is the first match, every matched run leaves \<open>_waiting\<close> and none
  is queued.
\<close>

theorem bad_priority_loses_matches:
  assumes "rehydrated (eng w)"
    and "filter (\<lambda>(_, entry). entry_matches event corr entry) (waiting (eng w)) = (r0, e0) # hits"
    and "\<not> entry_ok e0" and "notify_event env event corr broadcast w = (res, w')"
  shows "(\<exists>p. res = Inl p) \<and> queued_runs (eng w') = queued_runs (eng w) \<and>
    (\<forall>r\<in>insert r0 (fst ` set hits). map_of (waiting (eng w')) r = None)"
proof -
  obtain hs w1 where c: "claim_waits env (entry_matches event corr) w = (hs, w1)" by fastforce
  note cl = claim_waits_eq [OF c]
  have hs: "hs = (r0, e0) # hits" using cl assms(2) by simp
  have "resume_claimed env hs w1 = (Some (or_str (we_priority e0) PRIORITY_NORMAL), w1)"
    using enqueue_resume_bad assms(3) by (simp add: hs entry_ok_def)
  then have "res = Inl (or_str (we_priority e0) PRIORITY_NORMAL) \<and> w' = w1"
    using assms(1,4) c by (simp add: notify_event_def)
  moreover have "waiting (eng w1) = filter (\<lambda>(r, _). r \<notin> fst ` set hs) (waiting (eng w))"
    and "queued_runs (eng w1) = queued_runs (eng w)"
    using cl by simp_all
  moreover have "insert r0 (fst ` set hits) = fst ` set hs" using hs by simp
  ultimately show ?thesis by (simp add: map_of_filter_out)
qed

theorem bad_priority_loses_matches_witness:
  "let w = with_eng (\<lambda>s. s\<lparr>waiting := [(''r1'', event_entry ''go'' ''urgent''), (''r2'', event_entry ''go'' ''low'')]\<rparr>) plain_world;
       w' = snd (notify_event plain_env ''go'' None False w)
   in map_of (waiting (eng w')) ''r2'' = None \<and> queued_runs (eng w') = queued_runs (eng w)"
proof -
  let ?w = "with_eng (\<lambda>s. s\<lparr>waiting := [(''r1'', event_entry ''go'' ''urgent''), (''r2'', event_entry ''go'' ''low'')]\<rparr>) plain_world"
  obtain res w' where n: "notify_event plain_env ''go'' None False ?w = (res, w')" by fastforce
  have f: "filter (\<lambda>(_, entry). entry_matches ''go'' None entry) (waiting (eng ?w)) =
      [(''r1'', event_entry ''go'' ''urgent''), (''r2'', event_entry ''go'' ''low'')]"
    by (simp add: entry_matches_def event_entry_def with_eng_def or_none_def)
  show ?thesis
    using bad_priority_loses_matches [OF _ f _ n]
    by (simp add: n Let_def) (simp add: plain_world_def with_eng_def event_entry_def entry_ok_def or_str_def
        read_priority_def new_scheduler_def)
qed

text \<open>
  Events that arrive before rehydration, up to the buffer's size, are kept and replayed in order
  when it completes, exactly as if they had been notified right after it without broadcast; so none
  of them ever reaches the other instances, even though each was notified with broadcast.
\<close>

theorem early_events_replayed_locally:
  assumes "\<not> rehydrated (eng w)" and "length (pre_rehydration_buffer (eng w)) + length evs \<le> MAX_PRE_REHYDRATION_BUFFER"
    and "w1 = fold (\<lambda>(e, c) w. snd (notify_event env e c True w)) evs w"
  shows "mark_rehydration_complete env w1 =
      replay_events env (pre_rehydration_buffer (eng w) @ evs)
        (with_eng (\<lambda>s. s\<lparr>rehydrated := True, pre_rehydration_buffer := []\<rparr>) w) \<and>
    channel w1 = channel w \<and> channel (mark_rehydration_complete env w1) = channel w"
proof -
  have w1: "w1 = with_eng (\<lambda>s. s\<lparr>pre_rehydration_buffer := pre_rehydration_buffer s @ evs\<rparr>) w"
    using buffered_run [OF assms(1,2)] assms(3) by simp
  have silent: "channel (replay_events env l v) = channel v" for l v
    by (induction l arbitrary: v) (auto simp: replay_events_def notify_silent)
  show ?thesis
    by (cases "eng w") (simp add: mark_rehydration_complete_def silent w1 with_eng_def Let_def)
qed

theorem early_events_replayed_locally_witness:
  "channel (mark_rehydration_complete plain_env
     (fold (\<lambda>(e, c) w. snd (notify_event plain_env e c True w)) [(''go'', None)]
       (plain_world\<lparr>eng := new_scheduler\<rparr>))) = []"
proof -
  let ?w = "plain_world\<lparr>eng := new_scheduler\<rparr>"
  have a: "\<not> rehydrated (eng ?w)"
    and b: "length (pre_rehydration_buffer (eng ?w)) + length [(''go'', None :: string option)] \<le> MAX_PRE_REHYDRATION_BUFFER"
    by (simp_all add: new_scheduler_def MAX_PRE_REHYDRATION_BUFFER_def)
  show ?thesis
    using early_events_replayed_locally [OF a b refl, of plain_env, THEN conjunct2, THEN conjunct2]
    by (simp add: plain_world_def)
qed

text \<open>
  One instance, no shared registry: a tick resumes exactly the time waits whose trigger has come,
  never one before its time and never an event wait, and no event notification resumes a time wait.
\<close>

theorem tick_fires_exactly_expired:
  assumes "\<not> redis_up env" and "\<forall>(r, e)\<in>set (waiting (eng w)). entry_ok e"
    and "due = filter (\<lambda>(_, e). time_expired (now_utc env) e) (waiting (eng w))"
    and "tick_time_waits env w = (res, w')"
  shows "res = Inr (length due) \<and>
    queued_runs (eng w') = queued_runs (eng w) + mset (map (\<lambda>(r, _). Some r) due) \<and>
    waiting (eng w') = filter (\<lambda>(r, _). r \<notin> fst ` set due) (waiting (eng w)) \<and>
    (\<forall>(r, e)\<in>set due. \<exists>c d. we_wait_condition e = Some c \<and> sc_type c = Some ''time'' \<and>
       trigger_of (Some c) = Some d \<and> instant d \<le> now_utc env \<and> \<not> entry_matches event corr e)"
proof -
  obtain hits w1 where c: "claim_waits env (time_expired (now_utc env)) w = (hits, w1)" by fastforce
  note cl = claim_waits_eq [OF c]
  have due: "due = hits" using cl assms(3) by simp
  have "\<forall>(r, e)\<in>set hits. entry_ok e" using cl assms(2) by auto
  then obtain w2 where r: "resume_claimed env hits w1 = (None, w2)"
      "queued_runs (eng w2) = queued_runs (eng w1) + mset (map (\<lambda>(r, e). Some r) hits)"
      "waiting (eng w2) = waiting (eng w1)"
    using resume_claimed_ok [of hits env w1] by blast
  have "w' = w2 \<and> res = Inr (length hits)"
    using assms(1,4) c r(1) by (auto simp: tick_time_waits_def cross_instance_tick_def)
  moreover have "\<forall>(r, e)\<in>set due. \<exists>c d. we_wait_condition e = Some c \<and> sc_type c = Some ''time'' \<and>
       trigger_of (Some c) = Some d \<and> instant d \<le> now_utc env \<and> \<not> entry_matches event corr e"
    by (auto simp: assms(3) time_expired_def trigger_of_def entry_matches_def Let_def
        split: option.splits time_value.splits)
  ultimately show ?thesis using cl r due by simp
qed

theorem tick_fires_exactly_expired_witness:
  "queued_runs (eng (snd (tick_time_waits plain_env
     (with_eng (\<lambda>s. s\<lparr>waiting := [(''r1'', (event_entry [] ''low'')\<lparr>we_wait_condition :=
        Some \<lparr>sc_type = Some ''time'', sc_trigger_at = Iso_text (Some (Aware 99)), sc_event_name = None,
              sc_correlation_id = None\<rparr>\<rparr>)]\<rparr>) plain_world)))) = {#Some ''r1''#}"
proof -
  let ?e = "(event_entry [] ''low'')\<lparr>we_wait_condition :=
        Some \<lparr>sc_type = Some ''time'', sc_trigger_at = Iso_text (Some (Aware 99)), sc_event_name = None,
              sc_correlation_id = None\<rparr>\<rparr>"
  let ?w = "with_eng (\<lambda>s. s\<lparr>waiting := [(''r1'', ?e)]\<rparr>) plain_world"
  obtain res w' where n: "tick_time_waits plain_env ?w = (res, w')" by fastforce
  have p: "[(''r1'', ?e)] = filter (\<lambda>(_, e). time_expired (now_utc plain_env) e) (waiting (eng ?w))"
    by (simp add: plain_env_def time_expired_def event_entry_def with_eng_def)
  have "queued_runs (eng w') = {#Some ''r1''#}"
    using tick_fires_exactly_expired [OF _ _ p n]
    by (simp add: plain_env_def plain_world_def with_eng_def event_entry_def entry_ok_def or_str_def
        read_priority_def new_scheduler_def queued_runs_def queued_def)
  then show ?thesis by (simp only: n snd_conv)
qed



text \<open>
  Correlation is read differently across instances: an event that carries a correlation resumes a
  wait without one on the instance that holds it, but another instance that looks at the persisted
  row of the same wait passes it over.
\<close>

theorem correlation_read_differently:
  assumes "we_wait_condition entry = None" and "we_wait_for entry = Some event" and "event \<noteq> []"
    and "we_correlation_id entry = None" and "corr = Some c" and "c \<noteq> []"
    and "map_of (rows w) run = Some (backup_row env run entry)"
  shows "entry_matches event corr entry \<and> wr_event_type (backup_row env run entry) = event \<and>
    cross_resume_loop env event corr skip [(run, spec)] n w = (n, w)"
proof -
  have "wr_event_type (backup_row env run entry) = event" "wr_correlation_id (backup_row env run entry) = None"
    using assms(1-4) by (simp_all add: backup_row_def or_str_def Let_def)
  then show ?thesis
    using assms by (auto simp: entry_matches_def or_none_def load_wait_entry_from_db_def truthy_str_def
        split: option.splits)
qed

theorem correlation_read_differently_witness:
  "let e = event_entry ''go'' ''low'' in
   entry_matches ''go'' (Some ''k'') e \<and>
   cross_resume_loop plain_env ''go'' (Some ''k'') []
     [(''r'', \<lparr>rs_handler = RESUME_HANDLER_EU, rs_eu_id = ''e'', rs_tenant_id = ''t'', rs_run_id = ''r'',
               rs_eu_type = None\<rparr>)] 0
     (plain_world\<lparr>rows := [(''r'', backup_row plain_env ''r'' e)]\<rparr>) =
   (0, plain_world\<lparr>rows := [(''r'', backup_row plain_env ''r'' e)]\<rparr>)"
  using correlation_read_differently [of "event_entry ''go'' ''low''" "''go''" "Some ''k''" "''k''"
      "plain_world\<lparr>rows := [(''r'', backup_row plain_env ''r'' (event_entry ''go'' ''low''))]\<rparr>" "''r''" plain_env "[]"]
  by (simp add: event_entry_def Let_def del: cross_resume_loop.simps)

text \<open>
  Three failed publications in a row disable the bus for the life of the process: from then on
  no event of this instance is sent, whether or not Redis is back.
\<close>

lemma bus_disabled_for_good:
  assumes "bus_enabled b" and "bus_failures b = 0"
    and "b3 = snd (snd (publish False e3 c3 (snd (snd (publish False e2 c2 (snd (snd (publish False e1 c1 b))))))))"
  shows "\<not> bus_enabled b3 \<and>
    foldl (\<lambda>(msgs, b) (ok, e, c). let (_, ms, b') = publish ok e c b in (msgs @ ms, b')) ([], b3) later = ([], b3)"
proof -
  have off: "\<not> bus_enabled b3"
    using assms by (simp add: publish_def BUS_MAX_FAILURES_def Let_def)
  then have "foldl (\<lambda>(msgs, b) (ok, e, c). let (_, ms, b') = publish ok e c b in (msgs @ ms, b')) ([], b3) later = ([], b3)"
    by (induction later) (auto simp: publish_def)
  with off show ?thesis by simp
qed

end
