(* ===== verification/Scheduler_Recovery.thy ===== *)
theory Scheduler_Recovery
  imports Scheduler_Waits Execution_Unit
begin

text \<open>
  Restart and recovery: \<^verbatim>\<open>AINDY/core/wait_rehydration.py\<close>, \<^verbatim>\<open>AINDY/core/flow_run_rehydration.py\<close>,
  \<^verbatim>\<open>AINDY/kernel/scheduler/recovery.py\<close>, and what the callbacks they and \<^verbatim>\<open>resume_spec.py\<close> build do
  when they run.

  \<open>sys_world\<close> adds the committed tables to the scheduler's world. A callback opens its own session on
  them; what it flushes and does not commit is dropped when it closes. The rows that a rehydration
  session has flushed into \<open>waiting_flow_runs\<close> are the dictionary \<open>pending\<close>. \<open>read_uuid\<close> is how the
  database layer reads a text as a UUID.
\<close>

record flow_run =
  fr_flow_name :: string
  fr_workflow_type :: "string option"
  fr_status :: string
  fr_waiting_for :: "string option"
  fr_wait_deadline :: "py_datetime option"
  fr_trace_id :: "string option"
  fr_user_id :: "string option"
  fr_trigger_at :: time_value
  fr_wait_until :: time_value

type_synonym flow_table = "(string, flow_run) dict"

record sys_world =
  sw :: sched_world
  flow_tbl :: flow_table
  eu_tbl :: eu_table

record rec_env =
  re_sched :: sched_env
  read_uuid :: "string \<Rightarrow> string option"
  now_mono_us :: time_us
  watchdog_interval :: time_us

section \<open>Rehydration\<close>

definition TIME_SENTINEL :: string where "TIME_SENTINEL = ''__time_wait__''"

definition ensure_waiting_flow_run_row ::
    "sched_env \<Rightarrow> string \<Rightarrow> string \<Rightarrow> string option \<Rightarrow> py_datetime option \<Rightarrow> string option \<Rightarrow> string \<Rightarrow>
     (string, wait_row) dict \<Rightarrow> (string, wait_row) dict \<Rightarrow> (string, wait_row) dict" where
  "ensure_waiting_flow_run_row env run event corr timeout eu prio table pending =
     (if \<not> db_up env then pending
      else
        let secs = wait_seconds (now_utc env) timeout;
            prio' = Some (if prio = [] then ''normal'' else prio);
            existing = (case map_of pending run of None \<Rightarrow> map_of table run | Some r \<Rightarrow> Some r)
        in case existing of
             None \<Rightarrow>
               AList.update run
                 \<lparr>wr_event_type = event, wr_correlation_id = corr, wr_waited_since = now_utc env,
                  wr_max_wait_seconds = secs, wr_timeout_at = timeout, wr_eu_id = eu, wr_priority = prio',
                  wr_instance_id = host env\<rparr> pending
           | Some r \<Rightarrow>
               AList.update run
                 (r\<lparr>wr_event_type := event, wr_correlation_id := corr, wr_timeout_at := timeout,
                    wr_eu_id := eu, wr_priority := prio', wr_max_wait_seconds := secs\<rparr>) pending)"

definition eu_condition :: "eu_row \<Rightarrow> wait_condition option" where
  "eu_condition eu =
     (case eu_wait_condition eu of
        None \<Rightarrow> None
      | Some d \<Rightarrow> (case wc_from_dict (Some d) of Inl _ \<Rightarrow> None | Inr c \<Rightarrow> Some c))"

text \<open>The registration of one waiting execution unit: \<open>None\<close> when it is skipped.\<close>

definition eu_request :: "string \<Rightarrow> eu_row \<Rightarrow> sched_world \<Rightarrow> wait_request option" where
  "eu_request eid eu w =
     (if waiting_for eid w \<noteq> None then None
      else
        case eu_condition eu of
          None \<Rightarrow> None
        | Some wc \<Rightarrow>
            let event = or_str (wc_event_name wc) [] in
            if event = [] \<and> wc_type wc \<noteq> WAIT_TYPE_TIME then None
            else
              Some \<lparr>wq_run_id = eid,
                    wq_event = Some (if wc_type wc = WAIT_TYPE_TIME \<and> event = [] then TIME_SENTINEL else event),
                    wq_tenant_id = or_str (eu_tenant_id eu) (or_str (eu_user_id eu) ''system''),
                    wq_eu_id = eid,
                    wq_callback = Eu_rehydrated eid (or_none (eu_flow_run_id eu)),
                    wq_priority = (if eu_priority eu = [] then ''normal'' else eu_priority eu),
                    wq_correlation_id = or_none (eu_correlation_id eu), wq_trace_id = None,
                    wq_eu_type = (if eu_type eu = [] then ''flow'' else eu_type eu),
                    wq_condition = Condition wc\<rparr>)"

fun rehydrate_eus_loop ::
    "sched_env \<Rightarrow> (string \<times> eu_row) list \<Rightarrow> nat \<Rightarrow> (string, wait_row) dict \<Rightarrow> sched_world \<Rightarrow>
     nat \<times> (string, wait_row) dict \<times> sched_world" where
  "rehydrate_eus_loop env [] n pending w = (n, pending, w)"
| "rehydrate_eus_loop env ((eid, eu) # eus) n pending w =
     (case eu_request eid eu w of
        None \<Rightarrow> rehydrate_eus_loop env eus n pending w
      | Some q \<Rightarrow>
          let w1 = register_wait env q w;
              pending1 = ensure_waiting_flow_run_row env eid (the (wq_event q)) (wq_correlation_id q) None
                           (Some eid) (wq_priority q) (rows w1) pending
          in rehydrate_eus_loop env eus (n + 1) pending1 w1)"

definition rehydrate_waiting_eus ::
    "sched_env \<Rightarrow> sys_world \<Rightarrow> nat \<times> (string, wait_row) dict \<times> sys_world" where
  "rehydrate_waiting_eus env y =
     (if \<not> db_up env then (0, [], y)
      else
        let (n, pending, w) =
              rehydrate_eus_loop env (filter (\<lambda>(_, eu). eu_status eu = ''waiting'') (eu_tbl y)) 0 [] (sw y)
        in (n, pending, y\<lparr>sw := w\<rparr>))"

definition derive_wait_condition_from_flow :: "string \<Rightarrow> flow_run \<Rightarrow> wait_condition option" where
  "derive_wait_condition_from_flow run fr =
     (let corr = (if run \<noteq> [] then Some (or_str (fr_trace_id fr) run) else None);
          result = (\<lambda>c. case c of Inl _ \<Rightarrow> None | Inr wc \<Rightarrow> Some wc)
      in if truthy_str (fr_waiting_for fr) then result (for_event (the (fr_waiting_for fr)) corr)
         else
           let raw = (if fr_trigger_at fr \<noteq> No_time then fr_trigger_at fr else fr_wait_until fr) in
           case parse_utc_datetime raw of
             None \<Rightarrow> None
           | Some d \<Rightarrow> result (for_time d corr))"

definition eu_of_run :: "sched_env \<Rightarrow> eu_table \<Rightarrow> string \<Rightarrow> (string \<times> eu_row) option" where
  "eu_of_run env eus run =
     (if db_up env then find (\<lambda>(_, eu). eu_flow_run_id eu = Some run) eus else None)"

definition flow_request :: "sched_env \<Rightarrow> eu_table \<Rightarrow> string \<Rightarrow> flow_run \<Rightarrow> sched_world \<Rightarrow> wait_request option" where
  "flow_request env eus run fr w =
     (if waiting_for run w \<noteq> None then None
      else
        case derive_wait_condition_from_flow run fr of
          None \<Rightarrow> None
        | Some wc \<Rightarrow>
            let eid = (case eu_of_run env eus run of None \<Rightarrow> [] | Some (e, _) \<Rightarrow> e);
                prio = (case eu_of_run env eus run of
                          None \<Rightarrow> ''normal''
                        | Some (_, eu) \<Rightarrow> if eu_priority eu = [] then ''normal'' else eu_priority eu)
            in Some \<lparr>wq_run_id = run, wq_event = wc_event_name wc,
                     wq_tenant_id = or_str (fr_user_id fr) ''system'', wq_eu_id = eid,
                     wq_callback = Flow_rehydrated run (fr_flow_name fr) (fr_user_id fr)
                                     (or_str (fr_workflow_type fr) ''flow'') eid,
                     wq_priority = prio, wq_correlation_id = Some (or_str (fr_trace_id fr) run),
                     wq_trace_id = fr_trace_id fr, wq_eu_type = ''flow'', wq_condition = Condition wc\<rparr>)"

fun rehydrate_flows_loop ::
    "sched_env \<Rightarrow> eu_table \<Rightarrow> (string \<times> flow_run) list \<Rightarrow> nat \<Rightarrow> (string, wait_row) dict \<Rightarrow> sched_world \<Rightarrow>
     nat \<times> (string, wait_row) dict \<times> sched_world" where
  "rehydrate_flows_loop env eus [] n pending w = (n, pending, w)"
| "rehydrate_flows_loop env eus ((run, fr) # frs) n pending w =
     (case flow_request env eus run fr w of
        None \<Rightarrow> rehydrate_flows_loop env eus frs n pending w
      | Some q \<Rightarrow>
          let w1 = register_wait env q w;
              pending1 = ensure_waiting_flow_run_row env run (or_str (wq_event q) TIME_SENTINEL)
                           (wq_correlation_id q) (fr_wait_deadline fr) (or_none (Some (wq_eu_id q)))
                           (wq_priority q) (rows w1) pending
          in rehydrate_flows_loop env eus frs (n + 1) pending1 w1)"

definition rehydrate_waiting_flow_runs ::
    "sched_env \<Rightarrow> string list \<Rightarrow> sys_world \<Rightarrow> nat \<times> (string, wait_row) dict \<times> sys_world" where
  "rehydrate_waiting_flow_runs env run_ids y =
     (if \<not> db_up env then (0, [], y)
      else
        let scoped = filter (\<lambda>r. r \<noteq> []) run_ids;
            runs = filter (\<lambda>(r, fr). fr_status fr = ''waiting'' \<and> (scoped = [] \<or> r \<in> set scoped)) (flow_tbl y);
            (n, pending, w) = rehydrate_flows_loop env (eu_tbl y) runs 0 [] (sw y)
        in (n, pending, y\<lparr>sw := w\<rparr>))"

section \<open>Recovery\<close>

definition recover_orphaned_waits :: "rec_env \<Rightarrow> sys_world \<Rightarrow> nat \<times> sys_world" where
  "recover_orphaned_waits env y =
     (if \<not> db_up (re_sched env) then (0, y)
      else
        let orphans = filter (\<lambda>r. map_of (waiting (eng (sw y))) r = None \<and> r \<noteq> []) (dict_keys (rows (sw y))) in
        if orphans = [] then (0, y)
        else
          let (n, _, y') = rehydrate_waiting_flow_runs (re_sched env) orphans y in (n, y'))"

definition check_stale_waits :: "rec_env \<Rightarrow> sys_world \<Rightarrow> nat \<times> sys_world" where
  "check_stale_waits env y =
     (let interval = max 0 (watchdog_interval env) in
      if 0 < interval \<and> now_mono_us env - last_stale_wait_check (eng (sw y)) < interval then (0, y)
      else
        recover_orphaned_waits env
          (y\<lparr>sw := with_eng (\<lambda>s. s\<lparr>last_stale_wait_check := now_mono_us env\<rparr>) (sw y)\<rparr>))"

definition still_waiting :: "rec_env \<Rightarrow> sys_world \<Rightarrow> string \<Rightarrow> bool" where
  "still_waiting env y run =
     ((case map_of (flow_tbl y) run of None \<Rightarrow> False | Some fr \<Rightarrow> fr_status fr = ''waiting'') \<or>
      (read_uuid env run = Some run \<and>
       (case map_of (eu_tbl y) run of None \<Rightarrow> False | Some eu \<Rightarrow> eu_status eu = ''waiting'')))"

definition cleanup_stale_waits :: "rec_env \<Rightarrow> sys_world \<Rightarrow> nat \<times> sys_world" where
  "cleanup_stale_waits env y =
     (let run_ids = dict_keys (waiting (eng (sw y))) in
      if run_ids = [] \<or> \<not> db_up (re_sched env) then (0, y)
      else
        let stale = filter (\<lambda>r. \<not> still_waiting env y r) run_ids;
            evict = (\<lambda>r w. delete_wait_backup (re_sched env) r
                             (with_eng (\<lambda>s. s\<lparr>waiting := AList.delete r (waiting s)\<rparr>) w))
        in (length stale, y\<lparr>sw := fold evict stale (sw y)\<rparr>))"

section \<open>Callbacks\<close>

text \<open>
  Running a callback against the committed tables. \<open>io\<close> says which database steps succeed. The result
  of the flow callback is the session handed to \<open>PersistentFlowRunner.resume\<close>, if it gets there.
\<close>

record tables =
  t_flows :: flow_table
  t_eus :: eu_table

record cb_io =
  cb_resume :: resume_io
  cb_commit :: bool
  cb_known_flow :: bool

definition resume_in_session ::
    "rec_env \<Rightarrow> cb_io \<Rightarrow> string \<Rightarrow> tables db_session \<Rightarrow> tables db_session" where
  "resume_in_session env io eid s =
     flush_with (\<lambda>t. t\<lparr>t_eus := snd (resume_execution_unit (cb_resume io) (now_utc (re_sched env))
                                       (Uuid_text (read_uuid env eid)) (t_eus t))\<rparr>) s"

definition spec_resume_callback :: "rec_env \<Rightarrow> cb_io \<Rightarrow> string \<Rightarrow> tables \<Rightarrow> tables" where
  "spec_resume_callback env io eid t =
     close_session (resume_in_session env io eid (open_session t))"

definition eu_rehydrated_callback ::
    "rec_env \<Rightarrow> cb_io \<Rightarrow> string \<Rightarrow> string option \<Rightarrow> tables \<Rightarrow> tables" where
  "eu_rehydrated_callback env io eid flow_run t =
     (let s = open_session t;
          owned = (truthy_str flow_run \<and>
                   (case map_of (t_flows (working s)) (the flow_run) of
                      None \<Rightarrow> False
                    | Some fr \<Rightarrow> fr_status fr \<noteq> ''waiting''))
      in close_session (if owned then s else resume_in_session env io eid s))"

definition claim_run :: "string \<Rightarrow> tables \<Rightarrow> nat \<times> tables" where
  "claim_run run t =
     (case map_of (t_flows t) run of
        None \<Rightarrow> (0, t)
      | Some fr \<Rightarrow>
          if fr_status fr = ''waiting''
          then (1, t\<lparr>t_flows := AList.update run (fr\<lparr>fr_status := ''executing''\<rparr>) (t_flows t)\<rparr>) else (0, t))"

definition flow_rehydrated_callback ::
    "rec_env \<Rightarrow> cb_io \<Rightarrow> string \<Rightarrow> string \<Rightarrow> tables \<Rightarrow> tables db_session option \<times> tables" where
  "flow_rehydrated_callback env io run eid t =
     (if \<not> cb_known_flow io then (None, t)
      else
        let (claimed, t1) = claim_run run t;
            s = \<lparr>committed = t, working = t1\<rparr> in
        if \<not> cb_commit io then (None, close_session s)
        else
          let s1 = commit_session s in
          if claimed = 0 then (None, close_session s1)
          else
            let s2 = (if eid \<noteq> [] then resume_in_session env io eid s1 else s1)
            in (Some s2, close_session s2))"

section \<open>Lemmas\<close>

lemma register_wait_waiting:
  "map_of (waiting (eng (register_wait env q w))) r =
     (if r = wq_run_id q then Some (request_entry q) else map_of (waiting (eng w)) r)"
  by (auto simp: register_wait_def persist_wait_backup_def registry_register_def with_eng_def Let_def
      pd.get_put split: option.splits)

lemma register_wait_rows:
  "db_up env \<Longrightarrow> map_of (rows (register_wait env q w)) r =
     (if r = wq_run_id q then Some (backup_row env (wq_run_id q) (request_entry q)) else map_of (rows w) r)"
  by (auto simp: register_wait_def persist_wait_backup_def registry_register_def with_eng_def Let_def
      pd.get_put split: option.splits)

lemma flow_request_run: "flow_request env eus run fr w = Some q \<Longrightarrow> wq_run_id q = run"
  by (auto simp: flow_request_def Let_def split: if_splits option.splits)

lemma flow_request_known: "map_of (waiting (eng w)) run = None \<Longrightarrow>
  flow_request env eus run fr w = None \<longleftrightarrow> derive_wait_condition_from_flow run fr = None"
  by (simp add: flow_request_def waiting_for_def Let_def split: option.splits)

lemma rehydrate_flows_keeps:
  "map_of (waiting (eng w)) r \<noteq> None \<Longrightarrow>
   map_of (waiting (eng (snd (snd (rehydrate_flows_loop env eus frs n p w))))) r \<noteq> None"
proof (induction env eus frs n p w rule: rehydrate_flows_loop.induct)
  case (2 env eus run fr frs n p w)
  then show ?case by (auto simp: register_wait_waiting Let_def split: option.splits)
qed simp

lemma rehydrate_flows_registers:
  assumes "(r, fr) \<in> set frs" and "derive_wait_condition_from_flow r fr \<noteq> None"
  shows "map_of (waiting (eng (snd (snd (rehydrate_flows_loop env eus frs n p w))))) r \<noteq> None"
  using assms(1)
proof (induction env eus frs n p w rule: rehydrate_flows_loop.induct)
  case (2 env eus run fr' frs n p w)
  show ?case
  proof (cases "flow_request env eus run fr' w")
    case None
    show ?thesis
    proof (cases "(r, fr) = (run, fr')")
      case True
      then have "map_of (waiting (eng w)) r \<noteq> None"
        using None flow_request_known [of w r env eus fr] assms(2) by (metis prod.inject)
      then show ?thesis using None rehydrate_flows_keeps by simp
    next
      case False
      then show ?thesis using 2 None by auto
    qed
  next
    case (Some q)
    let ?w1 = "register_wait env q w"
    show ?thesis
    proof (cases "r = run")
      case True
      then have "map_of (waiting (eng ?w1)) r \<noteq> None"
        using flow_request_run [OF Some] by (simp add: register_wait_waiting)
      then show ?thesis using Some rehydrate_flows_keeps by (simp add: Let_def)
    next
      case False
      then show ?thesis using 2 Some by (auto simp: Let_def)
    qed
  qed
qed simp

lemma rehydrate_flows_skips:
  assumes "waiting_for r w \<noteq> None"
  shows "map_of (waiting (eng (snd (snd (rehydrate_flows_loop env eus frs n p w))))) r = map_of (waiting (eng w)) r"
  using assms
proof (induction env eus frs n p w rule: rehydrate_flows_loop.induct)
  case (2 env eus run fr frs n p w)
  show ?case
  proof (cases "flow_request env eus run fr w")
    case None
    then show ?thesis using 2 by simp
  next
    case (Some q)
    then have "r \<noteq> wq_run_id q"
      using 2(3) flow_request_run [OF Some] by (auto simp: flow_request_def)
    moreover from this have "waiting_for r (register_wait env q w) \<noteq> None"
      using 2(3) by (simp add: waiting_for_def register_wait_waiting)
    ultimately show ?thesis using 2(2) [OF Some refl refl] Some by (simp add: Let_def register_wait_waiting)
  qed
qed simp

lemma claim_run_once:
  "claim_run run t = (n, t1) \<Longrightarrow> n \<le> 1 \<and> fst (claim_run run t1) = 0 \<and>
   (n = 1 \<longleftrightarrow> (\<exists>fr. map_of (t_flows t) run = Some fr \<and> fr_status fr = ''waiting''))"
  by (auto simp: claim_run_def pd.get_put split: option.splits if_splits)

text \<open>The callbacks of several instances for one run, in the order in which they run.\<close>

fun run_flow_callbacks ::
    "rec_env \<Rightarrow> string \<Rightarrow> string \<Rightarrow> cb_io list \<Rightarrow> tables \<Rightarrow> bool list \<times> tables" where
  "run_flow_callbacks env run eid [] t = ([], t)"
| "run_flow_callbacks env run eid (io # ios) t =
     (let (s, t1) = flow_rehydrated_callback env io run eid t;
          (bs, t2) = run_flow_callbacks env run eid ios t1
      in ((s \<noteq> None) # bs, t2))"

lemma resume_in_session_committed [simp]: "committed (resume_in_session env io eid s) = committed s"
  by (simp add: resume_in_session_def flush_with_def)

lemma flow_callback_outcome:
  assumes "flow_rehydrated_callback env io run eid t = (s, t1)"
  shows "(s \<noteq> None \<longleftrightarrow> cb_known_flow io \<and> cb_commit io \<and> fst (claim_run run t) = 1) \<and>
    (s \<noteq> None \<longrightarrow> fst (claim_run run t1) = 0) \<and> (s = None \<longrightarrow> t1 = t)"
proof -
  obtain n t' where c: "claim_run run t = (n, t')" by fastforce
  have "n \<le> 1" "fst (claim_run run t') = 0" "n = 0 \<Longrightarrow> t' = t"
    using claim_run_once [OF c] c by (auto simp: claim_run_def split: option.splits if_splits)
  then show ?thesis
    using assms c
    by (auto simp: flow_rehydrated_callback_def close_session_def commit_session_def Let_def split: if_splits)
qed

lemma claimed_run_stays:
  "fst (claim_run run t) = 0 \<Longrightarrow> run_flow_callbacks env run eid ios t = (replicate (length ios) False, t)"
proof (induction ios)
  case (Cons io ios)
  obtain s t1 where f: "flow_rehydrated_callback env io run eid t = (s, t1)" by fastforce
  then have "s = None \<and> t1 = t" using flow_callback_outcome [OF f] Cons.prems by auto
  with Cons f show ?case by simp
qed simp

section \<open>Properties\<close>

text \<open>
  After a restart no resumable wait is lost: rehydration registers every flow run in status
  \<open>waiting\<close> whose wait condition can be derived from its row, whatever the engine held before, and it
  leaves the entries of runs already registered under an event as they are.
\<close>

theorem rehydration_complete:
  assumes "db_up env" and "rehydrate_waiting_flow_runs env [] y = (n, pending, y')"
  shows "(\<forall>(r, fr)\<in>set (flow_tbl y). fr_status fr = ''waiting'' \<and> derive_wait_condition_from_flow r fr \<noteq> None \<longrightarrow>
      map_of (waiting (eng (sw y'))) r \<noteq> None) \<and>
    (waiting_for r0 (sw y) \<noteq> None \<longrightarrow>
      map_of (waiting (eng (sw y'))) r0 = map_of (waiting (eng (sw y))) r0)"
proof -
  let ?runs = "filter (\<lambda>(r, fr). fr_status fr = ''waiting'') (flow_tbl y)"
  have "sw y' = snd (snd (rehydrate_flows_loop env (eu_tbl y) ?runs 0 [] (sw y)))"
    using assms by (auto simp: rehydrate_waiting_flow_runs_def Let_def split: prod.splits)
  then show ?thesis
    using rehydrate_flows_registers [of _ _ ?runs env "eu_tbl y" 0 "[]" "sw y"]
      rehydrate_flows_skips [of r0 "sw y" env "eu_tbl y" ?runs 0 "[]"]
    by auto
qed

definition sample_run :: flow_run where
  "sample_run = \<lparr>fr_flow_name = ''f'', fr_workflow_type = None, fr_status = ''waiting'',
     fr_waiting_for = Some ''go'', fr_wait_deadline = None, fr_trace_id = None, fr_user_id = None,
     fr_trigger_at = No_time, fr_wait_until = No_time\<rparr>"

definition plain_rec_env :: rec_env where
  "plain_rec_env = \<lparr>re_sched = plain_env, read_uuid = Some, now_mono_us = 0, watchdog_interval = 120000000\<rparr>"

theorem rehydration_complete_witness:
  "let y = \<lparr>sw = plain_world, flow_tbl = [(''r'', sample_run)], eu_tbl = []\<rparr> in
   map_of (waiting (eng (sw (snd (snd (rehydrate_waiting_flow_runs plain_env [] y)))))) ''r'' \<noteq> None"
proof -
  let ?y = "\<lparr>sw = plain_world, flow_tbl = [(''r'', sample_run)], eu_tbl = []\<rparr>"
  obtain n p y' where h: "rehydrate_waiting_flow_runs plain_env [] ?y = (n, p, y')" by (metis prod_cases3)
  have "derive_wait_condition_from_flow ''r'' sample_run \<noteq> None"
    by (simp add: derive_wait_condition_from_flow_def sample_run_def truthy_str_def for_event_def
        wait_condition_init_def wait_types Let_def)
  moreover have "fr_status sample_run = ''waiting''" by (simp add: sample_run_def)
  moreover have "db_up plain_env" by (simp add: plain_env_def)
  ultimately have "map_of (waiting (eng (sw y'))) ''r'' \<noteq> None"
    using rehydration_complete [OF _ h] by simp
  then show ?thesis by (simp add: h Let_def)
qed

text \<open>
  The callbacks that resume an execution unit flush and close without a commit, so running one
  leaves the committed tables as they were: the unit stays \<open>waiting\<close> in the database.
\<close>

theorem eu_callbacks_not_committed:
  "spec_resume_callback env io eid t = t \<and> eu_rehydrated_callback env io eid flow_run t = t"
  by (simp add: spec_resume_callback_def eu_rehydrated_callback_def close_session_def open_session_def Let_def)

text \<open>
  The claim on the flow run is the single gate: of any number of callbacks for one waiting run,
  from any instances and with any failures, exactly the first that knows the flow and commits goes on
  to the runner; without one such callback none does, and the run is still claimable.
\<close>

theorem flow_claim_exclusive:
  assumes "map_of (t_flows t) run = Some fr" and "fr_status fr = ''waiting''"
    and "run_flow_callbacks env run eid ios t = (bs, t')"
  shows "length (filter (\<lambda>b. b) bs) = (if \<exists>io\<in>set ios. cb_known_flow io \<and> cb_commit io then 1 else 0) \<and>
    ((\<forall>io\<in>set ios. \<not> (cb_known_flow io \<and> cb_commit io)) \<longrightarrow> t' = t)"
  using assms(3)
proof (induction ios arbitrary: bs)
  case (Cons io ios)
  obtain s t1 where f: "flow_rehydrated_callback env io run eid t = (s, t1)" by fastforce
  obtain bs1 t2 where rest: "run_flow_callbacks env run eid ios t1 = (bs1, t2)" by fastforce
  have one: "fst (claim_run run t) = 1" using assms(1,2) by (simp add: claim_run_def)
  have eqs: "bs = (s \<noteq> None) # bs1" "t' = t2" using Cons.prems f rest by simp_all
  show ?case
  proof (cases "cb_known_flow io \<and> cb_commit io")
    case True
    then have "s \<noteq> None" and "fst (claim_run run t1) = 0" using flow_callback_outcome [OF f] one by auto
    then show ?thesis using claimed_run_stays [of run t1 env eid ios] rest True unfolding eqs by auto
  next
    case False
    then have "s = None" and "t1 = t" using flow_callback_outcome [OF f] one by auto
    then show ?thesis using Cons.IH [of bs1] rest False unfolding eqs by auto
  qed
qed simp

theorem flow_claim_exclusive_witness:
  "let io = \<lparr>cb_resume = \<lparr>io_check = True, io_resumed = True, io_clear = True, io_executing = True\<rparr>,
             cb_commit = True, cb_known_flow = True\<rparr>
   in length (filter (\<lambda>b. b) (fst (run_flow_callbacks plain_rec_env ''r'' [] [io, io, io]
        \<lparr>t_flows = [(''r'', sample_run)], t_eus = []\<rparr>))) = 1"
proof -
  let ?io = "\<lparr>cb_resume = \<lparr>io_check = True, io_resumed = True, io_clear = True, io_executing = True\<rparr>,
             cb_commit = True, cb_known_flow = True\<rparr>"
  let ?t = "\<lparr>t_flows = [(''r'', sample_run)], t_eus = []\<rparr>"
  obtain bs t' where h: "run_flow_callbacks plain_rec_env ''r'' [] [?io, ?io, ?io] ?t = (bs, t')" by fastforce
  have "length (filter (\<lambda>b. b) bs) = 1"
    using flow_claim_exclusive [OF _ _ h, of sample_run] by (simp add: sample_run_def)
  then show ?thesis by (simp only: h Let_def fst_conv)
qed

end
