(* ===== verification/Scheduler_Dispatch.thy ===== *)
theory Scheduler_Dispatch
  imports Scheduler_Recovery Resource_Manager
begin

text \<open>
  \<^verbatim>\<open>AINDY/kernel/scheduler/dispatch.py\<close>: one heartbeat of the scheduler. The world adds the resource
  manager. The execution dispatcher and the callback it runs are the argument \<open>disp\<close>, a function on
  the world that may change anything in it and returns the text of an exception or \<open>None\<close>. The loop
  is a function with a termination proof: an iteration either processes an item, at most ten times,
  or skips one, fewer times than there are items queued.
\<close>

record os_world =
  os_sys :: sys_world
  os_rm :: resource_manager

record os_env =
  oe_rec :: rec_env
  oe_rm :: rm_env

type_synonym dispatcher = "scheduled_item \<Rightarrow> os_world \<Rightarrow> string option \<times> os_world"

definition os_eng :: "os_world \<Rightarrow> scheduler" where
  "os_eng z = eng (sw (os_sys z))"

definition set_eng :: "scheduler \<Rightarrow> os_world \<Rightarrow> os_world" where
  "set_eng s z = z\<lparr>os_sys := (os_sys z)\<lparr>sw := (sw (os_sys z))\<lparr>eng := s\<rparr>\<rparr>\<rparr>"

lemma os_eng_set [simp]: "os_eng (set_eng s z) = s"
  by (simp add: os_eng_def set_eng_def)

lemma os_rm_set [simp]: "os_rm (set_eng s z) = os_rm z"
  by (simp add: set_eng_def)

lemma os_eng_rm [simp]: "os_eng (z\<lparr>os_rm := r\<rparr>) = os_eng z"
  by (simp add: os_eng_def)

text \<open>The failure path of one dispatch: another attempt at low priority, or the item is dropped.\<close>

definition after_failure ::
    "scheduled_item \<Rightarrow> scheduled_item list \<Rightarrow> os_world \<Rightarrow> scheduled_item list \<times> os_world" where
  "after_failure item retry z =
     (if si_retry_count item < si_max_retries item
      then (retry @ [item\<lparr>si_retry_count := si_retry_count item + 1, si_priority := Low\<rparr>], z)
      else (retry, set_eng ((os_eng z)\<lparr>total_dropped := total_dropped (os_eng z) + 1\<rparr>) z))"

function schedule_loop ::
    "os_env \<Rightarrow> dispatcher \<Rightarrow> nat \<Rightarrow> nat \<Rightarrow> string list \<Rightarrow> scheduled_item list \<Rightarrow> nat \<Rightarrow> os_world \<Rightarrow>
     nat \<times> scheduled_item list \<times> os_world" where
  "schedule_loop env disp processed skips saturated retry dispatched z =
     (if MAX_PER_SCHEDULE_CYCLE \<le> processed then (dispatched, retry, z)
      else
        case dequeue_next (os_eng z) of
          None \<Rightarrow> (dispatched, retry, z)
        | Some (item, s1) \<Rightarrow>
            if si_tenant item \<in> set saturated then
              (let o1 = set_eng (push_front item s1) z in
               if queue_size (os_eng o1) \<le> skips + 1 then (dispatched, retry, o1)
               else schedule_loop env disp processed (skips + 1) saturated retry dispatched o1)
            else
              (case can_execute (oe_rm env) (si_tenant item) (os_rm z) of
                 (Some reason, rm1) \<Rightarrow>
                   schedule_loop env disp (processed + 1) 0 (si_tenant item # saturated) retry dispatched
                     ((set_eng (push_front item s1) z)\<lparr>os_rm := rm1\<rparr>)
               | (None, rm1) \<Rightarrow>
                   (case disp item ((set_eng s1 z)\<lparr>os_rm := rm1\<rparr>) of
                      (None, o2) \<Rightarrow>
                        schedule_loop env disp (processed + 1) 0 saturated retry (dispatched + 1) o2
                    | (Some exc, o2) \<Rightarrow>
                        (case after_failure item retry o2 of
                           (retry', o3) \<Rightarrow>
                             schedule_loop env disp (processed + 1) 0 saturated retry' dispatched o3))))"
  by pat_completeness auto

lemma push_front_size: "dequeue_next s = Some (i, s') \<Longrightarrow> queue_size (push_front i s') = queue_size s"
  using dequeue_queued [of s i s'] by (simp add: queue_size_queued push_front_queued)

termination schedule_loop
  by (relation "measures [\<lambda>(env, disp, processed, skips, sat, retry, n, z). MAX_PER_SCHEDULE_CYCLE - processed,
        \<lambda>(env, disp, processed, skips, sat, retry, n, z). queue_size (os_eng z) - skips]")
     (auto simp: push_front_size)

text \<open>The loop from its initial values, and the re-enqueueing of what is to be tried again.\<close>

definition schedule_cycle :: "os_env \<Rightarrow> dispatcher \<Rightarrow> os_world \<Rightarrow> nat \<times> os_world" where
  "schedule_cycle env disp z =
     (let (n, retry, z2) = schedule_loop env disp 0 0 [] [] 0 z
      in (n, set_eng (fold enqueue retry (os_eng z2)) z2))"

definition schedule :: "os_env \<Rightarrow> dispatcher \<Rightarrow> os_world \<Rightarrow> (string + nat) \<times> os_world" where
  "schedule env disp z =
     (let y1 = snd (check_stale_waits (oe_rec env) (os_sys z)) in
      case tick_time_waits (re_sched (oe_rec env)) (sw y1) of
        (Inl e, w) \<Rightarrow> (Inl e, z\<lparr>os_sys := y1\<lparr>sw := w\<rparr>\<rparr>)
      | (Inr _, w) \<Rightarrow>
          let (n, z2) = schedule_cycle env disp (z\<lparr>os_sys := y1\<lparr>sw := w\<rparr>\<rparr>) in (Inr n, z2))"

declare schedule_loop.simps [simp del]

section \<open>Lemmas\<close>

text \<open>The branches of one iteration.\<close>

lemma loop_stop:
  "MAX_PER_SCHEDULE_CYCLE \<le> processed \<or> dequeue_next (os_eng z) = None \<Longrightarrow>
   schedule_loop env disp processed skips sat retry n z = (n, retry, z)"
  by (subst schedule_loop.simps) auto

lemma loop_skip:
  "\<not> MAX_PER_SCHEDULE_CYCLE \<le> processed \<Longrightarrow> dequeue_next (os_eng z) = Some (i, s1) \<Longrightarrow> si_tenant i \<in> set sat \<Longrightarrow>
   schedule_loop env disp processed skips sat retry n z =
     (if queue_size (push_front i s1) \<le> skips + 1 then (n, retry, set_eng (push_front i s1) z)
      else schedule_loop env disp processed (skips + 1) sat retry n (set_eng (push_front i s1) z))"
  by (subst schedule_loop.simps) simp

lemma loop_refused:
  "\<not> MAX_PER_SCHEDULE_CYCLE \<le> processed \<Longrightarrow> dequeue_next (os_eng z) = Some (i, s1) \<Longrightarrow> si_tenant i \<notin> set sat \<Longrightarrow>
   can_execute (oe_rm env) (si_tenant i) (os_rm z) = (Some reason, rm1) \<Longrightarrow>
   schedule_loop env disp processed skips sat retry n z =
     schedule_loop env disp (processed + 1) 0 (si_tenant i # sat) retry n
       ((set_eng (push_front i s1) z)\<lparr>os_rm := rm1\<rparr>)"
  by (subst schedule_loop.simps) simp

lemma loop_served:
  "\<not> MAX_PER_SCHEDULE_CYCLE \<le> processed \<Longrightarrow> dequeue_next (os_eng z) = Some (i, s1) \<Longrightarrow> si_tenant i \<notin> set sat \<Longrightarrow>
   can_execute (oe_rm env) (si_tenant i) (os_rm z) = (None, rm1) \<Longrightarrow>
   disp i ((set_eng s1 z)\<lparr>os_rm := rm1\<rparr>) = (None, z2) \<Longrightarrow>
   schedule_loop env disp processed skips sat retry n z =
     schedule_loop env disp (processed + 1) 0 sat retry (n + 1) z2"
  by (subst schedule_loop.simps) simp

lemma loop_failed:
  "\<not> MAX_PER_SCHEDULE_CYCLE \<le> processed \<Longrightarrow> dequeue_next (os_eng z) = Some (i, s1) \<Longrightarrow> si_tenant i \<notin> set sat \<Longrightarrow>
   can_execute (oe_rm env) (si_tenant i) (os_rm z) = (None, rm1) \<Longrightarrow>
   disp i ((set_eng s1 z)\<lparr>os_rm := rm1\<rparr>) = (Some exc, z2) \<Longrightarrow> after_failure i retry z2 = (r3, z3) \<Longrightarrow>
   schedule_loop env disp processed skips sat retry n z =
     schedule_loop env disp (processed + 1) 0 sat r3 n z3"
  by (subst schedule_loop.simps) simp

text \<open>A dispatcher whose callbacks leave the scheduler alone.\<close>

definition keeps_engine :: "dispatcher \<Rightarrow> bool" where
  "keeps_engine disp \<longleftrightarrow> (\<forall>i z. os_eng (snd (disp i z)) = os_eng z)"

text \<open>
  The account of a cycle: items queued, set aside for another attempt, dispatched and dropped. The
  first part counts them, the second follows the execution units.
\<close>

definition account :: "nat \<Rightarrow> scheduled_item list \<Rightarrow> os_world \<Rightarrow> int" where
  "account n retry z = int (size (queued (os_eng z)) + length retry + n) + total_dropped (os_eng z)"

definition units :: "scheduled_item list \<Rightarrow> os_world \<Rightarrow> string multiset" where
  "units retry z = image_mset si_eu (queued (os_eng z)) + mset (map si_eu retry)"

lemma dequeue_counters: "dequeue_next s = Some (i, s') \<Longrightarrow> total_dropped s' = total_dropped s"
  using dequeue_Some by fastforce

lemma put_back_account:
  assumes "dequeue_next (os_eng z) = Some (i, s1)"
  shows "account n retry (set_eng (push_front i s1) z) = account n retry z \<and>
    units retry (set_eng (push_front i s1) z) = units retry z"
  using dequeue_queued [OF assms] dequeue_counters [OF assms]
  by (simp add: account_def units_def push_front_queued) (simp add: push_front_def)

lemma served_account:
  assumes "dequeue_next (os_eng z) = Some (i, s1)" and "os_eng z2 = s1"
  shows "account (Suc n) retry z2 = account n retry z \<and> units retry z2 \<subseteq># units retry z"
  using dequeue_queued [OF assms(1)] dequeue_counters [OF assms(1)] assms(2)
  by (simp add: account_def units_def)

lemma failed_account:
  assumes "dequeue_next (os_eng z) = Some (i, s1)" and "os_eng z2 = s1" and "after_failure i retry z2 = (retry', z3)"
  shows "account n retry' z3 = account n retry z \<and> units retry' z3 \<subseteq># units retry z"
  using dequeue_queued [OF assms(1)] dequeue_counters [OF assms(1)] assms(2,3)
  by (auto simp: account_def units_def after_failure_def queued_def split: if_splits)

lemma schedule_loop_account:
  assumes "keeps_engine disp" and "processed \<le> MAX_PER_SCHEDULE_CYCLE"
    and "schedule_loop env disp processed skips sat retry n z = (n', retry', z')"
  shows "account n' retry' z' = account n retry z \<and> units retry' z' \<subseteq># units retry z \<and>
    n' + processed \<le> n + MAX_PER_SCHEDULE_CYCLE"
  using assms
proof (induction env disp processed skips sat retry n z arbitrary: n' retry' z' rule: schedule_loop.induct)
  case (1 env disp processed skips sat retry n z)
  note run = "1.prems"(3)
  show ?case
  proof (cases "MAX_PER_SCHEDULE_CYCLE \<le> processed \<or> dequeue_next (os_eng z) = None")
    case True
    then show ?thesis using run "1.prems"(2) by (simp add: loop_stop)
  next
    case False
    then obtain i s1 where d: "dequeue_next (os_eng z) = Some (i, s1)" and p: "\<not> MAX_PER_SCHEDULE_CYCLE \<le> processed"
      by auto
    note kept = put_back_account [OF d]
    have p': "processed + 1 \<le> MAX_PER_SCHEDULE_CYCLE" using p by simp
    obtain v rm1 where c: "can_execute (oe_rm env) (si_tenant i) (os_rm z) = (v, rm1)" by fastforce
    obtain x z2 where x: "disp i ((set_eng s1 z)\<lparr>os_rm := rm1\<rparr>) = (x, z2)" by fastforce
    have e2: "os_eng z2 = s1"
      using "1.prems"(1) x unfolding keeps_engine_def by (metis os_eng_rm os_eng_set snd_conv)
    obtain r3 z3 where a: "after_failure i retry z2 = (r3, z3)" by fastforce
    consider (skip) "si_tenant i \<in> set sat"
      | (refused) reason where "si_tenant i \<notin> set sat" "v = Some reason"
      | (served) "si_tenant i \<notin> set sat" "v = None" "x = None"
      | (failed) exc where "si_tenant i \<notin> set sat" "v = None" "x = Some exc"
      by (cases v; cases x) auto
    then show ?thesis
    proof cases
      case skip
      show ?thesis
      proof (cases "queue_size (os_eng (set_eng (push_front i s1) z)) \<le> skips + 1")
        case True
        then show ?thesis using run loop_skip [OF p d skip] kept p' by simp
      next
        case False
        then show ?thesis
          using "1.IH"(1) [OF p d refl skip refl False "1.prems"(1,2)] run loop_skip [OF p d skip] kept by simp
      qed
    next
      case refused
      then have c': "can_execute (oe_rm env) (si_tenant i) (os_rm z) = (Some reason, rm1)" using c by simp
      show ?thesis
        using "1.IH"(4) [OF p d refl refused(1) c' [symmetric] refl "1.prems"(1) p'] run loop_refused [OF p d refused(1) c'] kept
        by (auto simp: account_def units_def)
    next
      case served
      then have c': "can_execute (oe_rm env) (si_tenant i) (os_rm z) = (None, rm1)" 
        and x': "disp i ((set_eng s1 z)\<lparr>os_rm := rm1\<rparr>) = (None, z2)" using c x by simp_all
      show ?thesis
        using "1.IH"(2) [OF p d refl served(1) c' [symmetric] refl x' [symmetric] refl "1.prems"(1) p'] run
          loop_served [where disp = disp, OF p d served(1) c' x'] served_account [OF d e2, of n retry]
        by (auto dest: subset_mset.order_trans)
    next
      case failed
      then have c': "can_execute (oe_rm env) (si_tenant i) (os_rm z) = (None, rm1)"
        and x': "disp i ((set_eng s1 z)\<lparr>os_rm := rm1\<rparr>) = (Some exc, z2)" using c x by simp_all
      show ?thesis
        using "1.IH"(3) [OF p d refl failed(1) c' [symmetric] refl x' [symmetric] refl a [symmetric] "1.prems"(1) p'] run
          loop_failed [where disp = disp, OF p d failed(1) c' x' a] failed_account [OF d e2 a, of n]
        by (auto dest: subset_mset.order_trans)
    qed
  qed
qed

lemma enqueues_queued:
  "size (queued (fold enqueue is s)) = size (queued s) + length is \<and>
   image_mset si_eu (queued (fold enqueue is s)) = image_mset si_eu (queued s) + mset (map si_eu is) \<and>
   total_dropped (fold enqueue is s) = total_dropped s"
proof (induction "is" arbitrary: s)
  case (Cons i "is")
  then show ?case by (simp add: enqueue_queued) (simp add: enqueue_def Let_def)
qed simp

text \<open>While the head queue holds one saturated tenant only, the loop just turns it over.\<close>

definition blocked :: "string \<Rightarrow> scheduler \<Rightarrow> bool" where
  "blocked t s \<longleftrightarrow> queues s High \<noteq> [] \<and> (\<forall>i\<in>set (queues s High). si_tenant i = t \<and> si_priority i = High)"

lemma blocked_dequeue:
  assumes "blocked t s"
  obtains i s1 where "dequeue_next s = Some (i, s1)" and "si_tenant i = t" and "blocked t (push_front i s1)"
    and "queues (push_front i s1) Normal = queues s Normal" and "queues (push_front i s1) Low = queues s Low"
    and "total_dropped (push_front i s1) = total_dropped s"
proof -
  obtain i q where pop: "rr_pop (rr_cursor s High) (queues s High) = (i, q)" by fastforce
  have ne: "queues s High \<noteq> []" using assms by (simp add: blocked_def)
  have "mset (queues s High) = add_mset i (mset q)" by (rule rr_pop_mset [OF ne pop])
  then have "set (queues s High) = insert i (set q)" by (metis set_mset_add_mset_insert set_mset_mset)
  with assms have i: "si_tenant i = t" "si_priority i = High" "\<forall>j\<in>set q. si_tenant j = t \<and> si_priority j = High"
    by (auto simp: blocked_def)
  show thesis
    by (rule that [OF dequeue_high [OF ne pop]]) (use i in \<open>auto simp: blocked_def push_front_def\<close>)
qed

lemma blocked_skips:
  assumes "blocked t (os_eng z)" and "t \<in> set sat"
  shows "\<exists>z'. schedule_loop env disp processed skips sat retry n z = (n, retry, z') \<and>
    queues (os_eng z') Normal = queues (os_eng z) Normal \<and> queues (os_eng z') Low = queues (os_eng z) Low"
  using assms
proof (induction "queue_size (os_eng z) - skips" arbitrary: z skips rule: less_induct)
  case less
  obtain i s1 where d: "dequeue_next (os_eng z) = Some (i, s1)" "si_tenant i = t" "blocked t (push_front i s1)"
      "queues (push_front i s1) Normal = queues (os_eng z) Normal" "queues (push_front i s1) Low = queues (os_eng z) Low"
    using blocked_dequeue [OF less.prems(1)] by metis
  let ?z1 = "set_eng (push_front i s1) z"
  have size: "queue_size (os_eng ?z1) = queue_size (os_eng z)" using push_front_size [OF d(1)] by simp
  show ?case
  proof (cases "MAX_PER_SCHEDULE_CYCLE \<le> processed \<or> queue_size (os_eng ?z1) \<le> skips + 1")
    case True
    then show ?thesis
    proof (cases "MAX_PER_SCHEDULE_CYCLE \<le> processed")
      case False
      with True d less.prems(2) show ?thesis by (simp add: loop_skip)
    qed (simp add: loop_stop)
  next
    case False
    then have "queue_size (os_eng ?z1) - (skips + 1) < queue_size (os_eng z) - skips" using size by linarith
    then show ?thesis
      using less.hyps [of ?z1 "skips + 1"] False d less.prems(2) by (simp add: loop_skip)
  qed
qed

section \<open>Properties\<close>



text \<open>
  Head-of-line blocking: while the high-priority queue holds only items of a tenant at its
  concurrency limit, a cycle dispatches nothing, whatever the other tenants have queued at normal and
  low priority; those queues are left as they were.
\<close>

theorem saturated_tenant_blocks_all:
  assumes "blocked t (os_eng z)" and "local_env (oe_rm env, None)" and "\<not> redis_client (os_rm z)"
    and "max_concurrent (os_rm z) \<le> local_active (os_rm z) t" and "schedule_cycle env disp z = (n, z')"
  shows "n = 0 \<and> queues (os_eng z') Normal = queues (os_eng z) Normal \<and>
    queues (os_eng z') Low = queues (os_eng z) Low"
proof -
  obtain i s1 where d: "dequeue_next (os_eng z) = Some (i, s1)" "si_tenant i = t" "blocked t (push_front i s1)"
      "queues (push_front i s1) Normal = queues (os_eng z) Normal" "queues (push_front i s1) Low = queues (os_eng z) Low"
    using blocked_dequeue [OF assms(1)] by metis
  obtain reason rm1 where c: "can_execute (oe_rm env) (si_tenant i) (os_rm z) = (Some reason, rm1)"
    using can_execute_local [OF assms(2,3), of t] assms(4) d(2) by (simp add: Let_def)
  let ?z1 = "(set_eng (push_front i s1) z)\<lparr>os_rm := rm1\<rparr>"
  obtain z2 where z2: "schedule_loop env disp 1 0 [t] [] 0 ?z1 = (0, [], z2)"
      "queues (os_eng z2) Normal = queues (os_eng ?z1) Normal" "queues (os_eng z2) Low = queues (os_eng ?z1) Low"
    using blocked_skips [of t ?z1 "[t]" env disp 1 0 "[]" 0] d(3) by auto
  have "schedule_loop env disp 0 0 [] [] 0 z = (0, [], z2)"
    using loop_refused [OF _ d(1) _ c, of 0 "[]" disp 0 "[]" 0] d(2) z2(1)
    by (simp add: MAX_PER_SCHEDULE_CYCLE_def)
  then show ?thesis
    using assms(5) z2 d by (auto simp: schedule_cycle_def)
qed

theorem saturated_tenant_blocks_all_witness:
  "fst (schedule_cycle \<lparr>oe_rec = plain_rec_env, oe_rm = \<lparr>now_mono = 5, redis_url = False, ping_ok = False,
       call_ok = False, backend_ok = False, is_testing = False\<rparr>\<rparr> (\<lambda>i z. (None, z))
     \<lparr>os_sys = \<lparr>sw = with_eng (\<lambda>s. s\<lparr>queues := (\<lambda>_. [])(High := [high_item ''a1'' ''a'' 1],
         Normal := [(high_item ''b1'' ''b'' 2)\<lparr>si_priority := Normal\<rparr>])\<rparr>) plain_world, flow_tbl = [], eu_tbl = []\<rparr>,
      os_rm = (new_resource_manager None)\<lparr>active_counts := [(''a'', 5)]\<rparr>\<rparr>) = 0"
proof -
  let ?env = "\<lparr>oe_rec = plain_rec_env, oe_rm = \<lparr>now_mono = 5, redis_url = False, ping_ok = False,
       call_ok = False, backend_ok = False, is_testing = False\<rparr>\<rparr>"
  let ?z = "\<lparr>os_sys = \<lparr>sw = with_eng (\<lambda>s. s\<lparr>queues := (\<lambda>_. [])(High := [high_item ''a1'' ''a'' 1],
         Normal := [(high_item ''b1'' ''b'' 2)\<lparr>si_priority := Normal\<rparr>])\<rparr>) plain_world, flow_tbl = [], eu_tbl = []\<rparr>,
      os_rm = (new_resource_manager None)\<lparr>active_counts := [(''a'', 5)]\<rparr>\<rparr>"
  obtain n z' where c: "schedule_cycle ?env (\<lambda>i z. (None, z)) ?z = (n, z')" by fastforce
  have "blocked ''a'' (os_eng ?z)" by (simp add: blocked_def os_eng_def with_eng_def high_item_def)
  then have "n = 0"
    using saturated_tenant_blocks_all [OF _ _ _ _ c, of "''a''"]
    by (simp add: local_env_def new_resource_manager_def local_active_def counter_def)
  then show ?thesis by (simp add: c)
qed

end
