(* ===== verification/Memory_Address.thy ===== *)
theory Memory_Address
  imports Tenant_Context "HOL-Library.List_Lexorder" "HOL-Library.Char_ord"
begin

text \<open>
  \<^verbatim>\<open>AINDY/memory/memory_address_space.py\<close>: the path-addressed memory. A path is
  \<^verbatim>\<open>/memory/tenant/namespace/type/node\<close>. Errors are values; a fresh identifier is an argument. The
  depth-first walk of \<open>flatten_tree\<close> is a \<open>partial_function\<close> over its stack, since nothing in the code
  keeps it from looping on a tree with a cycle. Payload and node fields are texts or absent; a key
  that is present with a null value reads as absent.
\<close>

section \<open>Paths\<close>

definition MAS_ROOT :: string where "MAS_ROOT = ''/memory''"

definition LEGACY_NAMESPACE :: string where "LEGACY_NAMESPACE = ''_legacy''"

datatype mas_error =
    Empty_path
  | Not_under_root string
  | Foreign_tenant string string
  | Tenant_required
  | Type_needs_namespace
  | Node_needs_type

fun collapse_slashes :: "string \<Rightarrow> string" where
  "collapse_slashes [] = []"
| "collapse_slashes [c] = [c]"
| "collapse_slashes (a # b # s) =
     (if a = CHR ''/'' \<and> b = CHR ''/'' then collapse_slashes (b # s) else a # collapse_slashes (b # s))"

definition endswith :: "string \<Rightarrow> string \<Rightarrow> bool" where
  "endswith s p = startswith (rev s) (rev p)"

definition rstrip_slash :: "string \<Rightarrow> string" where
  "rstrip_slash s = rev (dropWhile (\<lambda>c. c = CHR ''/'') (rev s))"

definition normalize_path :: "string \<Rightarrow> mas_error + string" where
  "normalize_path path =
     (if path = [] then Inl Empty_path
      else
        let cleaned = collapse_slashes (py_strip path) in
        if \<not> startswith cleaned MAS_ROOT then Inl (Not_under_root path)
        else if cleaned \<noteq> MAS_ROOT \<and> endswith cleaned ''/'' then Inr (rstrip_slash cleaned)
        else Inr cleaned)"

definition validate_tenant_path :: "string \<Rightarrow> string \<Rightarrow> mas_error + unit" where
  "validate_tenant_path path tenant =
     (let prefix = MAS_ROOT @ ''/'' @ tenant @ ''/'';
          exact = MAS_ROOT @ ''/'' @ tenant in
      if \<not> (startswith path prefix \<or> path = exact) then Inl (Foreign_tenant path prefix) else Inr ())"

record mas_parts =
  mp_tenant_id :: "string option"
  mp_namespace :: "string option"
  mp_addr_type :: "string option"
  mp_node_id :: "string option"

definition segment :: "string list \<Rightarrow> nat \<Rightarrow> string option" where
  "segment segs i = (if i < length segs \<and> segs ! i \<noteq> [] then Some (segs ! i) else None)"

definition parse_path :: "string \<Rightarrow> mas_error + mas_parts" where
  "parse_path path =
     (case normalize_path path of
        Inl e \<Rightarrow> Inl e
      | Inr p \<Rightarrow>
          let segs = split_on CHR ''/'' p in
          Inr \<lparr>mp_tenant_id = segment segs 2, mp_namespace = segment segs 3,
               mp_addr_type = segment segs 4, mp_node_id = segment segs 5\<rparr>)"

definition build_path ::
    "string \<Rightarrow> string option \<Rightarrow> string option \<Rightarrow> string option \<Rightarrow> mas_error + string" where
  "build_path tenant ns ty node =
     (if tenant = [] then Inl Tenant_required
      else if truthy_str ty \<and> \<not> truthy_str ns then Inl Type_needs_namespace
      else if truthy_str node \<and> \<not> (truthy_str ns \<and> truthy_str ty) then Inl Node_needs_type
      else
        Inr (join_with ''/''
              ([MAS_ROOT, tenant] @ (if truthy_str ns then [the ns] else []) @
               (if truthy_str ty then [the ty] else []) @ (if truthy_str node then [the node] else []))))"

definition generate_node_path :: "string \<Rightarrow> string \<Rightarrow> string \<Rightarrow> string \<Rightarrow> mas_error + (string \<times> string)" where
  "generate_node_path fresh tenant ns ty =
     (case build_path tenant (Some ns) (Some ty) (Some fresh) of
        Inl e \<Rightarrow> Inl e
      | Inr p \<Rightarrow> Inr (p, fresh))"

record mem_node =
  mn_id :: "string option"
  mn_path :: "string option"
  mn_user_id :: "string option"
  mn_memory_type :: "string option"
  mn_node_type :: "string option"

definition derive_legacy_path :: "string \<Rightarrow> mem_node \<Rightarrow> mas_error + string" where
  "derive_legacy_path fresh n =
     build_path (or_str (mn_user_id n) ''unknown'') (Some LEGACY_NAMESPACE)
       (Some (or_str (mn_memory_type n) (or_str (mn_node_type n) ''insight'')))
       (Some (or_str (mn_id n) fresh))"

fun rfind_slash :: "string \<Rightarrow> nat option" where
  "rfind_slash [] = None"
| "rfind_slash (c # s) =
     (case rfind_slash s of Some i \<Rightarrow> Some (Suc i) | None \<Rightarrow> if c = CHR ''/'' then Some 0 else None)"

definition parent_path_of :: "string \<Rightarrow> mas_error + string" where
  "parent_path_of path =
     (case normalize_path path of
        Inl e \<Rightarrow> Inl e
      | Inr p \<Rightarrow>
          (case rfind_slash p of
             None \<Rightarrow> Inr MAS_ROOT
           | Some idx \<Rightarrow> if idx \<le> length MAS_ROOT then Inr MAS_ROOT else Inr (take idx p)))"

definition is_exact :: "string \<Rightarrow> bool" where
  "is_exact path = (\<not> contains_sub ''*'' path \<and> \<not> contains_sub ''**'' path)"

definition is_wildcard :: "string \<Rightarrow> mas_error + bool" where
  "is_wildcard path =
     (case normalize_path path of
        Inl e \<Rightarrow> Inl e
      | Inr p \<Rightarrow> Inr (endswith p ''/*'' \<and> \<not> endswith p ''/**''))"

definition is_recursive :: "string \<Rightarrow> mas_error + bool" where
  "is_recursive path =
     (case normalize_path path of Inl e \<Rightarrow> Inl e | Inr p \<Rightarrow> Inr (endswith p ''/**''))"

definition wildcard_prefix :: "string \<Rightarrow> mas_error + string" where
  "wildcard_prefix path =
     (case normalize_path path of
        Inl e \<Rightarrow> Inl e
      | Inr p \<Rightarrow>
          if endswith p ''/**'' then Inr (take (length p - 3) p)
          else if endswith p ''/*'' then Inr (take (length p - 2) p)
          else parent_path_of p)"

record write_payload =
  wp_path :: "string option"
  wp_namespace :: "string option"
  wp_addr_type :: "string option"
  wp_node_type :: "string option"

definition path_from_write_payload ::
    "string \<Rightarrow> write_payload \<Rightarrow> string \<Rightarrow> mas_error + (string \<times> string \<times> string)" where
  "path_from_write_payload fresh payload tenant =
     (let node_type = (case wp_node_type payload of None \<Rightarrow> ''general'' | Some t \<Rightarrow> t);
          generate = (\<lambda>ns ty. case generate_node_path fresh tenant ns ty of
                                Inl e \<Rightarrow> Inl e
                              | Inr (full, _) \<Rightarrow> Inr (full, ns, ty))
      in if truthy_str (wp_path payload) then
           (case normalize_path (the (wp_path payload)) of
              Inl e \<Rightarrow> Inl e
            | Inr raw \<Rightarrow>
                (case validate_tenant_path raw tenant of
                   Inl e \<Rightarrow> Inl e
                 | Inr _ \<Rightarrow>
                     (case parse_path raw of
                        Inl e \<Rightarrow> Inl e
                      | Inr parts \<Rightarrow>
                          let ns = or_str (mp_namespace parts) ''general'';
                              ty = or_str (mp_addr_type parts) node_type
                          in if truthy_str (mp_node_id parts) then Inr (raw, ns, ty) else generate ns ty)))
         else generate (or_str (wp_namespace payload) ''general'') (or_str (wp_addr_type payload) node_type))"

section \<open>Trees\<close>

record tree_entry =
  te_node :: mem_node
  te_children :: "string list"

type_synonym mem_tree = "(string, tree_entry) dict"

fun tree_scan ::
    "(nat \<Rightarrow> string) \<Rightarrow> mem_node list \<Rightarrow> mem_tree \<Rightarrow> (string, string list) dict \<Rightarrow>
     mas_error + (mem_tree \<times> (string, string list) dict)" where
  "tree_scan fresh [] by_path children = Inr (by_path, children)"
| "tree_scan fresh (n # ns) by_path children =
     (case (if truthy_str (mn_path n) then Inr (the (mn_path n)) else derive_legacy_path (fresh (length ns)) n) of
        Inl e \<Rightarrow> Inl e
      | Inr path \<Rightarrow>
          (case parent_path_of path of
             Inl e \<Rightarrow> Inl e
           | Inr parent \<Rightarrow>
               tree_scan fresh ns (AList.update path \<lparr>te_node = n, te_children = []\<rparr> by_path)
                 (AList.update parent
                   ((case map_of children parent of None \<Rightarrow> [] | Some cs \<Rightarrow> cs) @ [path]) children)))"

definition attach_children :: "(string, string list) dict \<Rightarrow> mem_tree \<Rightarrow> mem_tree" where
  "attach_children children by_path =
     map (\<lambda>(p, e). (p, case map_of children p of None \<Rightarrow> e | Some cs \<Rightarrow> e\<lparr>te_children := cs\<rparr>)) by_path"

definition build_tree :: "(nat \<Rightarrow> string) \<Rightarrow> mem_node list \<Rightarrow> mas_error + mem_tree" where
  "build_tree fresh nodes =
     (case tree_scan fresh nodes [] [] of
        Inl e \<Rightarrow> Inl e
      | Inr (by_path, children) \<Rightarrow> Inr (attach_children children by_path))"

partial_function (option) walk_stack :: "mem_tree \<Rightarrow> string list \<Rightarrow> mem_node list \<Rightarrow> mem_node list option" where
  "walk_stack tree stack acc =
     (case stack of
        [] \<Rightarrow> Some acc
      | p # ps \<Rightarrow>
          (case map_of tree p of
             None \<Rightarrow> walk_stack tree ps acc
           | Some e \<Rightarrow> walk_stack tree (te_children e @ ps) (acc @ [te_node e])))"

text \<open>A parent that cannot be computed raises, which is the left of the result.\<close>

definition parents_in :: "mem_tree \<Rightarrow> mas_error + string list" where
  "parents_in tree =
     foldr (\<lambda>p r. case parent_path_of p of Inl e \<Rightarrow> Inl e
              | Inr q \<Rightarrow> (case r of Inl e \<Rightarrow> Inl e
                         | Inr ps \<Rightarrow> Inr (if map_of tree q \<noteq> None then q # ps else ps)))
       (dict_keys tree) (Inr [])"

definition flatten_tree :: "mem_tree \<Rightarrow> mas_error + mem_node list option" where
  "flatten_tree tree =
     (case parents_in tree of
        Inl e \<Rightarrow> Inl e
      | Inr parents \<Rightarrow>
          Inr (walk_stack tree (sort (filter (\<lambda>p. p \<notin> set parents) (dict_keys tree))) []))"

definition enrich_node_with_path :: "string \<Rightarrow> mem_node \<Rightarrow> mas_error + mem_node" where
  "enrich_node_with_path fresh n =
     (if truthy_str (mn_path n) then Inr n
      else
        case derive_legacy_path fresh n of Inl e \<Rightarrow> Inl e | Inr p \<Rightarrow> Inr (n\<lparr>mn_path := Some p\<rparr>))"

section \<open>Lemmas\<close>

lemma collapse_segment:
  "CHR ''/'' \<notin> set s \<Longrightarrow> collapse_slashes (s @ CHR ''/'' # r) = s @ collapse_slashes (CHR ''/'' # r)"
proof (induction s)
  case (Cons c s)
  then show ?case by (cases s) auto
qed simp

lemma collapse_clean: "CHR ''/'' \<notin> set s \<Longrightarrow> collapse_slashes s = s"
  by (induction s rule: collapse_slashes.induct) auto

text \<open>A path as its list of non-empty segments.\<close>

definition abs_path :: "string list \<Rightarrow> string" where
  "abs_path segs = concat (map (\<lambda>s. CHR ''/'' # s) segs)"

definition clean :: "string \<Rightarrow> bool" where
  "clean s \<longleftrightarrow> s \<noteq> [] \<and> CHR ''/'' \<notin> set s \<and> (\<forall>c\<in>set s. \<not> is_space c)"

lemma collapse_abs: "\<forall>s\<in>set segs. clean s \<Longrightarrow> collapse_slashes (abs_path segs) = abs_path segs"
proof (induction segs)
  case (Cons s segs)
  then obtain c r where s: "s = c # r" "c \<noteq> CHR ''/''" by (cases s) (auto simp: clean_def)
  have "collapse_slashes (s @ abs_path segs) = s @ abs_path segs"
  proof (cases segs)
    case Nil
    then show ?thesis using Cons.prems by (simp add: abs_path_def clean_def collapse_clean)
  next
    case (Cons v vs)
    then have "abs_path segs = CHR ''/'' # v @ abs_path vs" by (simp add: abs_path_def)
    then show ?thesis
      using Cons.IH Cons.prems collapse_segment [of s "v @ abs_path vs"] by (simp add: clean_def)
  qed
  then show ?case using s by (simp add: abs_path_def)
qed (simp add: abs_path_def)

lemma abs_path_snoc: "abs_path (segs @ [s]) = abs_path segs @ CHR ''/'' # s"
  by (simp add: abs_path_def)

lemma abs_path_ends:
  assumes "segs \<noteq> []" and "\<forall>s\<in>set segs. clean s"
  shows "\<exists>r c. abs_path segs = CHR ''/'' # r @ [c] \<and> c \<noteq> CHR ''/'' \<and> \<not> is_space c"
proof -
  obtain pre s where segs: "segs = pre @ [s]" using assms(1) by (metis append_butlast_last_id)
  then have "clean s" using assms(2) by simp
  then obtain b c where s: "s = b @ [c]" "c \<noteq> CHR ''/''" "\<not> is_space c"
    by (cases s rule: rev_cases) (auto simp: clean_def)
  show ?thesis
  proof (cases pre)
    case Nil
    then show ?thesis using segs s by (auto simp: abs_path_def)
  next
    case (Cons p ps)
    then have "abs_path segs = CHR ''/'' # (p @ abs_path ps @ CHR ''/'' # b) @ [c]"
      using segs s by (simp add: abs_path_def)
    then show ?thesis using s by blast
  qed
qed

lemma strip_abs: "segs \<noteq> [] \<Longrightarrow> \<forall>s\<in>set segs. clean s \<Longrightarrow> py_strip (abs_path segs) = abs_path segs"
proof -
  assume "segs \<noteq> []" "\<forall>s\<in>set segs. clean s"
  then obtain r c where e: "abs_path segs = CHR ''/'' # r @ [c]" "\<not> is_space c"
    using abs_path_ends by blast
  have "\<not> is_space CHR ''/''" by (simp add: is_space_def)
  then show ?thesis unfolding e(1) by (simp add: py_strip_def e(2))
qed

lemma normalize_abs:
  assumes "\<forall>s\<in>set segs. clean s"
  shows "normalize_path (abs_path (''memory'' # segs)) = Inr (abs_path (''memory'' # segs))"
proof -
  let ?p = "abs_path (''memory'' # segs)"
  have cl: "\<forall>s\<in>set (''memory'' # segs). clean s" using assms by (simp add: clean_def is_space_def)
  then obtain r c where e: "?p = CHR ''/'' # r @ [c]" "c \<noteq> CHR ''/''"
    using abs_path_ends [of "''memory'' # segs"] by blast
  have "collapse_slashes (py_strip ?p) = ?p" using strip_abs [OF _ cl] collapse_abs [OF cl] by simp
  moreover have "startswith ?p MAS_ROOT" by (simp add: abs_path_def MAS_ROOT_def startswith_def)
  moreover have "\<not> endswith ?p ''/''" unfolding e(1) using e(2) by (simp add: endswith_def startswith_def)
  moreover have "?p \<noteq> []" by (simp add: e(1))
  ultimately show ?thesis by (simp add: normalize_path_def)
qed

lemma split_abs: "\<forall>s\<in>set segs. CHR ''/'' \<notin> set s \<Longrightarrow> split_on CHR ''/'' (abs_path segs) = [] # segs"
proof (induction segs rule: rev_induct)
  case Nil
  then show ?case by (simp add: abs_path_def)
next
  case (snoc s segs)
  have "split_on CHR ''/'' (a @ CHR ''/'' # s) = split_on CHR ''/'' a @ [s]" for a
    using snoc.prems
    by (induction a) (auto simp: split_on_id split: list.splits)
  then show ?case using snoc by (simp add: abs_path_snoc)
qed

lemma join_abs: "join_with ''/'' (MAS_ROOT # segs) = abs_path (''memory'' # segs)"
proof -
  have "join_with ''/'' (x # segs) = x @ abs_path segs" for x
    by (induction segs arbitrary: x) (auto simp: abs_path_def)
  then show ?thesis by (simp add: MAS_ROOT_def abs_path_def)
qed

lemma built_under_tenant:
  "build_path tenant (Some ns) ty node = Inr p \<Longrightarrow> ns \<noteq> [] \<Longrightarrow> startswith p (''/memory/'' @ tenant @ ''/'')"
  by (auto simp: build_path_def truthy_str_def MAS_ROOT_def startswith_iff split: if_splits)

lemma generated_under_tenant:
  assumes "generate_node_path fresh tenant ns ty = Inr (p, f)" and "fresh \<noteq> []"
  shows "startswith p (''/memory/'' @ tenant @ ''/'')"
proof -
  have b: "build_path tenant (Some ns) (Some ty) (Some fresh) = Inr p"
    using assms(1) by (auto simp: generate_node_path_def split: sum.splits)
  then have "ns \<noteq> []" using assms(2) by (auto simp: build_path_def truthy_str_def split: if_splits)
  with b show ?thesis by (rule built_under_tenant)
qed

lemma exact_has_no_node:
  assumes "CHR ''/'' \<notin> set tenant" and "parse_path (MAS_ROOT @ ''/'' @ tenant) = Inr parts"
    and "normalize_path x = Inr (MAS_ROOT @ ''/'' @ tenant)"
  shows "mp_node_id parts = None"
proof -
  obtain p where p: "normalize_path (MAS_ROOT @ ''/'' @ tenant) = Inr p"
      and m: "mp_node_id parts = segment (split_on CHR ''/'' p) 5"
    using assms(2) by (auto simp: parse_path_def Let_def split: sum.splits)
  have count: "length (split_on CHR ''/'' s) = Suc (count_list s CHR ''/'')" for s
    by (induction s) (auto split: list.splits)
  have coll: "count_list (collapse_slashes s) c \<le> count_list s c" for s c
    by (induction s rule: collapse_slashes.induct) auto
  have dw: "count_list (dropWhile P s) c \<le> count_list s c" for P s and c :: char
    by (induction s) auto
  have rv: "count_list (rev s) c = count_list s c" for s and c :: char
    by (induction s) (auto simp: count_list_append)
  have strip: "count_list (py_strip s) c \<le> count_list s c" for s c
    using dw [of is_space "rev (dropWhile is_space s)" c] dw [of is_space s c]
    by (simp add: py_strip_def rv del: count_list_rev)
  have "count_list p CHR ''/'' \<le> count_list (MAS_ROOT @ ''/'' @ tenant) CHR ''/''"
    using p coll [of "py_strip (MAS_ROOT @ ''/'' @ tenant)" "CHR ''/''"] strip [of "MAS_ROOT @ ''/'' @ tenant" "CHR ''/''"]
      dw [of "\<lambda>c. c = CHR ''/''" "rev (collapse_slashes (py_strip (MAS_ROOT @ ''/'' @ tenant)))" "CHR ''/''"]
    by (auto simp: normalize_path_def Let_def rstrip_slash_def rv split: if_splits)
  also have "\<dots> = 2" using assms(1) by (simp add: MAS_ROOT_def count_list_append count_notin)
  finally show ?thesis using count [of p] m by (simp add: segment_def)
qed

lemma validated_under_tenant:
  "validate_tenant_path raw tenant = Inr u \<Longrightarrow>
   raw = MAS_ROOT @ ''/'' @ tenant \<or> startswith raw (''/memory/'' @ tenant @ ''/'')"
  by (auto simp: validate_tenant_path_def MAS_ROOT_def Let_def split: if_splits)

lemma written_under_tenant:
  assumes "path_from_write_payload fresh payload tenant = Inr (p, ns, ty)" and "fresh \<noteq> []"
    and "CHR ''/'' \<notin> set tenant"
  shows "startswith p (''/memory/'' @ tenant @ ''/'')"
proof (cases "\<exists>n t f. generate_node_path fresh tenant n t = Inr (p, f)")
  case True
  then show ?thesis using generated_under_tenant assms(2) by blast
next
  case False
  then obtain parts u where "normalize_path (the (wp_path payload)) = Inr p"
      and v: "validate_tenant_path p tenant = Inr u" and "parse_path p = Inr parts" "truthy_str (mp_node_id parts)"
    using assms(1)
    by (auto simp: path_from_write_payload_def Let_def split: if_splits sum.splits prod.splits)
  then have "p \<noteq> MAS_ROOT @ ''/'' @ tenant"
    using exact_has_no_node [OF assms(3)] by auto
  with validated_under_tenant [OF v] show ?thesis by simp
qed

section \<open>Trees\<close>

text \<open>What the scan collects: leaves without children so far, and for each parent the nodes below it.\<close>

definition scan_inv :: "mem_tree \<Rightarrow> (string, string list) dict \<Rightarrow> bool" where
  "scan_inv by_path children \<longleftrightarrow>
     (\<forall>p e. map_of by_path p = Some e \<longrightarrow> te_children e = [] \<and> (\<exists>q. parent_path_of p = Inr q)) \<and>
     (\<forall>q cs. map_of children q = Some cs \<longrightarrow>
        cs \<noteq> [] \<and> (\<forall>c\<in>set cs. map_of by_path c \<noteq> None \<and> parent_path_of c = Inr q))"

lemma scan_keeps_inv:
  "scan_inv b c \<Longrightarrow> tree_scan fresh ns b c = Inr (b', c') \<Longrightarrow> scan_inv b' c'"
proof (induction fresh ns b c rule: tree_scan.induct)
  case (2 fresh n ns b c)
  obtain path parent where p: "parent_path_of path = Inr parent"
      and rec: "tree_scan fresh ns (AList.update path \<lparr>te_node = n, te_children = []\<rparr> b)
        (AList.update parent ((case map_of c parent of None \<Rightarrow> [] | Some cs \<Rightarrow> cs) @ [path]) c) = Inr (b', c')"
      and path: "(if truthy_str (mn_path n) then Inr (the (mn_path n)) else derive_legacy_path (fresh (length ns)) n) = Inr path"
    using 2(3) by (auto split: sum.splits)
  have "scan_inv (AList.update path \<lparr>te_node = n, te_children = []\<rparr> b)
      (AList.update parent ((case map_of c parent of None \<Rightarrow> [] | Some cs \<Rightarrow> cs) @ [path]) c)"
    using 2(2) p unfolding scan_inv_def
    by (cases "map_of c parent") (auto simp: pd.get_put split: if_splits)
  with 2(1) [OF path p] rec show ?case by simp
qed simp

lemma attach_get:
  "map_of (attach_children c b) p =
     map_option (\<lambda>e. case map_of c p of None \<Rightarrow> e | Some cs \<Rightarrow> e\<lparr>te_children := cs\<rparr>) (map_of b p)"
  by (induction b) (auto simp: attach_children_def split: option.splits)

lemma parents_ok:
  assumes "\<forall>p\<in>set (dict_keys tree). \<exists>q. parent_path_of p = Inr q"
  shows "\<exists>ps. parents_in tree = Inr ps \<and>
    set ps = {q. map_of tree q \<noteq> None \<and> (\<exists>p\<in>set (dict_keys tree). parent_path_of p = Inr q)}"
proof -
  have "\<exists>ps. foldr (\<lambda>p r. case parent_path_of p of Inl e \<Rightarrow> Inl e
              | Inr q \<Rightarrow> (case r of Inl e \<Rightarrow> Inl e
                         | Inr ps \<Rightarrow> Inr (if map_of tree q \<noteq> None then q # ps else ps))) ks (Inr []) = Inr ps \<and>
      set ps = {q. map_of tree q \<noteq> None \<and> (\<exists>p\<in>set ks. parent_path_of p = Inr q)}"
    if "\<forall>p\<in>set ks. \<exists>q. parent_path_of p = Inr q" for ks
    using that by (induction ks) auto
  with assms show ?thesis unfolding parents_in_def by blast
qed

lemma walk_leaves:
  assumes "\<forall>p\<in>set ps. \<exists>e. map_of tree p = Some e \<and> te_children e = []"
  shows "walk_stack tree ps acc = Some (acc @ map (\<lambda>p. te_node (the (map_of tree p))) ps)"
  using assms
proof (induction ps arbitrary: acc)
  case Nil
  then show ?case by (subst walk_stack.simps) simp
next
  case (Cons p ps)
  then obtain e where "map_of tree p = Some e" "te_children e = []" by auto
  with Cons show ?case by (subst walk_stack.simps) simp
qed

text \<open>The keys of a tree that are the parent of no key.\<close>

definition leaves :: "mem_tree \<Rightarrow> string list" where
  "leaves tree = filter (\<lambda>p. \<not> (\<exists>c\<in>set (dict_keys tree). parent_path_of c = Inr p)) (dict_keys tree)"

section \<open>Properties\<close>

text \<open>
  Building and parsing are inverse: a path built from segments without slashes or blanks parses to
  exactly those segments, absent ones absent.
\<close>

theorem build_parse_round_trip:
  assumes "build_path tenant ns ty node = Inr p" and "clean tenant"
    and "\<forall>s\<in>set_option ns \<union> set_option ty \<union> set_option node. s = [] \<or> clean s"
  shows "parse_path p = Inr \<lparr>mp_tenant_id = Some tenant,
    mp_namespace = (if truthy_str ns then ns else None), mp_addr_type = (if truthy_str ty then ty else None),
    mp_node_id = (if truthy_str node then node else None)\<rparr>"
proof -
  let ?opt = "\<lambda>x. if truthy_str x then [the x] else []"
  let ?segs = "[tenant] @ ?opt ns @ ?opt ty @ ?opt node"
  have p: "p = abs_path (''memory'' # ?segs)"
    using assms(1) join_abs [of ?segs] by (auto simp: build_path_def split: if_splits)
  have cl: "\<forall>s\<in>set ?segs. clean s" using assms(2,3) by (auto simp: truthy_str_def split: option.splits)
  then have "split_on CHR ''/'' p = [] # ''memory'' # ?segs"
    unfolding p by (subst split_abs) (auto simp: clean_def)
  then have "parse_path p = Inr \<lparr>mp_tenant_id = segment ([] # ''memory'' # ?segs) 2,
      mp_namespace = segment ([] # ''memory'' # ?segs) 3, mp_addr_type = segment ([] # ''memory'' # ?segs) 4,
      mp_node_id = segment ([] # ''memory'' # ?segs) 5\<rparr>"
    using normalize_abs [OF cl] by (simp add: parse_path_def p Let_def)
  moreover have truthy: "truthy_str x \<Longrightarrow> Some (the x) = x" for x
    by (simp add: truthy_str_def split: option.splits)
  moreover have "\<not> truthy_str ns \<Longrightarrow> \<not> truthy_str ty" "\<not> truthy_str ty \<Longrightarrow> \<not> truthy_str node"
    using assms(1) by (auto simp: build_path_def split: if_splits)
  ultimately show ?thesis
    using cl truthy by (cases "truthy_str ns"; cases "truthy_str ty"; cases "truthy_str node")
      (simp_all add: segment_def numeral_eq_Suc clean_def)
qed

theorem build_parse_round_trip_witness:
  "parse_path ''/memory/alice/entities/updated/n1'' = Inr \<lparr>mp_tenant_id = Some ''alice'',
     mp_namespace = Some ''entities'', mp_addr_type = Some ''updated'', mp_node_id = Some ''n1''\<rparr>"
  using build_parse_round_trip [of "''alice''" "Some ''entities''" "Some ''updated''" "Some ''n1''"
      "''/memory/alice/entities/updated/n1''"]
  by (simp add: build_path_def truthy_str_def MAS_ROOT_def clean_def is_space_def)

text \<open>
  C25. No write leaves its tenant: whatever path, namespace or type a write payload supplies, the path
  the write goes to passes the namespace check of the tenant's own context, and the context of every
  other tenant refuses it.
\<close>

theorem write_path_isolated:
  assumes "path_from_write_payload fresh payload tenant = Inr (p, ns, ty)" and "fresh \<noteq> []"
    and "CHR ''/'' \<notin> set tenant" and "CHR ''/'' \<notin> set other" and "other \<noteq> tenant" and "other \<noteq> []"
  shows "validate_memory_path (build_tenant_context (Some tenant) caps None) p \<and>
    assert_memory_path (build_tenant_context (Some other) caps None) p =
      Inl (Outside_namespace p (''/memory/'' @ other @ ''/''))"
proof -
  have own: "startswith p (''/memory/'' @ tenant @ ''/'')" by (rule written_under_tenant [OF assms(1-3)])
  then have "\<not> startswith p (''/memory/'' @ other @ ''/'')"
    using namespace_prefix_unique assms(3-5) by blast
  with own show ?thesis
    by (simp add: validate_memory_path_def assert_memory_path_def memory_prefix_def tenant_defaults_to_user)
qed

theorem write_path_isolated_witness:
  "validate_memory_path (build_tenant_context (Some ''alice'') None None) ''/memory/alice/notes/general/n1''"
  using write_path_isolated
    [of "''n1''" "\<lparr>wp_path = None, wp_namespace = Some ''notes'', wp_addr_type = None, wp_node_type = None\<rparr>"
        "''alice''" "''/memory/alice/notes/general/n1''" "''notes''" "''general''" "''bob''" None]
  by (simp add: path_from_write_payload_def generate_node_path_def build_path_def truthy_str_def MAS_ROOT_def
      or_str_def Let_def)

text \<open>
  \<open>flatten_tree\<close> takes as roots the nodes that are nobody's parent, which have no children, so its
  walk never descends: of a tree built from any nodes it returns the leaves in path order, and every
  node that has a child in the tree is missing.
\<close>

theorem flatten_returns_leaves_only:
  assumes "build_tree fresh nodes = Inr tree"
  shows "flatten_tree tree = Inr (Some (map (\<lambda>p. te_node (the (map_of tree p))) (sort (leaves tree))))"
proof -
  obtain b c where scan: "tree_scan fresh nodes [] [] = Inr (b, c)" and tree: "tree = attach_children c b"
    using assms by (auto simp: build_tree_def split: sum.splits)
  have inv: "scan_inv b c" using scan_keeps_inv [OF _ scan] by (simp add: scan_inv_def)
  have keys: "p \<in> set (dict_keys tree) \<longleftrightarrow> map_of b p \<noteq> None" for p
    by (simp add: pd.in_keys tree attach_get)
  have "\<forall>p\<in>set (dict_keys tree). \<exists>q. parent_path_of p = Inr q"
    using inv keys unfolding scan_inv_def by auto
  then obtain ps where ps: "parents_in tree = Inr ps"
      "set ps = {q. map_of tree q \<noteq> None \<and> (\<exists>p\<in>set (dict_keys tree). parent_path_of p = Inr q)}"
    using parents_ok by blast
  have roots: "filter (\<lambda>p. p \<notin> set ps) (dict_keys tree) = leaves tree"
    unfolding leaves_def by (rule filter_cong) (auto simp: ps(2) pd.in_keys)
  have "\<exists>e. map_of tree p = Some e \<and> te_children e = []" if leaf: "p \<in> set (sort (leaves tree))" for p
  proof -
    obtain e where e: "map_of b p = Some e" using leaf keys by (auto simp: leaves_def)
    have "map_of c p = None"
    proof (rule ccontr)
      assume "map_of c p \<noteq> None"
      then obtain cs where "map_of c p = Some cs" by blast
      with inv obtain d where "map_of b d \<noteq> None" "parent_path_of d = Inr p"
        unfolding scan_inv_def by (metis list.set_intros(1) neq_Nil_conv)
      then show False using leaf keys by (auto simp: leaves_def)
    qed
    with e inv show ?thesis unfolding scan_inv_def by (auto simp: tree attach_get)
  qed
  then show ?thesis by (simp add: flatten_tree_def ps(1) roots walk_leaves)
qed

definition sample_node :: "string \<Rightarrow> mem_node" where
  "sample_node path = \<lparr>mn_id = None, mn_path = Some path, mn_user_id = None, mn_memory_type = None,
     mn_node_type = None\<rparr>"

definition sample_tree :: mem_tree where
  "sample_tree = [(''/memory/a/n'', \<lparr>te_node = sample_node ''/memory/a/n'', te_children = [''/memory/a/n/t'']\<rparr>),
     (''/memory/a/n/t'', \<lparr>te_node = sample_node ''/memory/a/n/t'', te_children = []\<rparr>)]"

theorem flatten_returns_leaves_only_witness:
  "build_tree (\<lambda>_. []) [sample_node ''/memory/a/n'', sample_node ''/memory/a/n/t''] = Inr sample_tree \<and>
   flatten_tree sample_tree = Inr (Some [sample_node ''/memory/a/n/t''])"
proof -
  have b: "build_tree (\<lambda>_. []) [sample_node ''/memory/a/n'', sample_node ''/memory/a/n/t''] = Inr sample_tree"
    by code_simp
  have "map (\<lambda>p. te_node (the (map_of sample_tree p))) (sort (leaves sample_tree)) = [sample_node ''/memory/a/n/t'']"
    by code_simp
  with flatten_returns_leaves_only [OF b] b show ?thesis by simp
qed

end
