(* ===== verification/Distributed_Queue.thy ===== *)
theory Distributed_Queue
  imports Prelude "HOL-Library.Multiset" "HOL-Library.Product_Lexorder" "HOL-Library.Sublist"
begin

text \<open>
  \<^verbatim>\<open>AINDY/core/distributed_queue.py\<close>: the job queue with its Redis and its in-process backend.

  A job's JSON text is represented by what \<open>from_json\<close> reads in it. The Redis server is a store, a
  command is a function of it, and \<open>rw_io\<close> says how the coming attempts to reach it end: done, lost
  before the server, applied with the reply lost, or failed for a reason that is not retried; when the
  list is used up every attempt is done. \<open>_redis_retry\<close> makes at most three attempts. A blocking pop
  is one attempt on the list as it is. Clocks are arguments; \<open>qe_rank\<close> is the place of a text in the
  lexicographic order by which Redis sorts members of equal score. The threads' timers of the
  in-process backend fire as operations of their own.

  \<open>job_queue\<close> is the contract both backends are held to: a job leaves only by being acknowledged or
  failed, and what waits is delivered in order.
\<close>

section \<open>Jobs\<close>

record queue_job =
  qj_job_id :: string
  qj_task_name :: string
  qj_idempotency_key :: string
  qj_context :: "(string, pyval) dict"
  qj_retry_metadata :: "(string, pyval) dict"
  qj_enqueued_at :: string

datatype wire = Job_text queue_job | Other_text string

datatype queue_error =
    Redis_fault
  | Redis_error
  | Queue_saturated int
  | Queue_full
  | Blocks_forever
  | Requires_redis
  | No_backend

definition job_post_init :: "queue_job \<Rightarrow> queue_job" where
  "job_post_init j = (if qj_idempotency_key j = [] then j\<lparr>qj_idempotency_key := qj_job_id j\<rparr> else j)"

definition to_json :: "queue_job \<Rightarrow> wire" where
  "to_json j = Job_text j"

definition from_json :: "wire \<Rightarrow> queue_job option" where
  "from_json raw = (case raw of Job_text j \<Rightarrow> Some (job_post_init j) | Other_text _ \<Rightarrow> None)"

section \<open>Limits\<close>

text \<open>
  An integer setting: the environment variable (absent, unreadable or a number) and the attribute of
  the settings object (unusable or a number).
\<close>

type_synonym int_setting = "int option option \<times> int option"

definition safe_int_env :: "int_setting \<Rightarrow> int \<Rightarrow> int" where
  "safe_int_env s dflt =
     (case fst s of
        Some raw \<Rightarrow> (case raw of Some n \<Rightarrow> n | None \<Rightarrow> dflt)
      | None \<Rightarrow> (case snd s of Some n \<Rightarrow> n | None \<Rightarrow> dflt))"

record queue_config =
  max_queue_size_setting :: int_setting
  async_queue_maxsize :: int_setting
  saturation_setting :: int_setting
  testing :: bool
  test_mode :: bool
  redis_url :: "string option"
  is_prod :: bool
  mode_distributed :: bool
  require_redis :: bool

definition queue_capacity_limit :: "queue_config \<Rightarrow> int" where
  "queue_capacity_limit c =
     max 1 (safe_int_env (max_queue_size_setting c) (safe_int_env (async_queue_maxsize c) 100))"

definition saturation_threshold :: "queue_config \<Rightarrow> int" where
  "saturation_threshold c =
     max 1 (min (safe_int_env (saturation_setting c) (queue_capacity_limit c)) (queue_capacity_limit c))"

record queue_metrics =
  qm_queue_depth :: nat
  qm_in_flight_count :: nat
  qm_failed_jobs :: nat
  qm_delayed_jobs :: nat
  qm_dlq_depth :: nat
  qm_max_queue_size :: int
  qm_total_pending_jobs :: nat
  qm_saturation_threshold :: int

record queue_env =
  qe_mono :: nat
  qe_now :: time_us
  qe_rank :: "wire \<Rightarrow> nat"
  qe_config :: queue_config

section \<open>The Redis server\<close>

record inflight_entry =
  if_payload :: wire
  if_dequeued_at :: time_us

record dead_letter =
  dl_job_id :: string
  dl_payload :: "queue_job option"
  dl_payload_raw :: "wire option"
  dl_error :: string
  dl_failed_at :: time_us

record redis_store =
  rq_main :: "wire list"
  rq_inflight :: "(string, inflight_entry) dict"
  rq_delayed :: "(wire, time_us) dict"
  rq_dead :: "dead_letter list"

text \<open>The list is kept with its left end first: \<open>LPUSH\<close> at the head, \<open>RPOP\<close> at the end.\<close>

definition lpush_main :: "wire \<Rightarrow> redis_store \<Rightarrow> int \<times> redis_store" where
  "lpush_main raw s = (int (length (rq_main s)) + 1, s\<lparr>rq_main := raw # rq_main s\<rparr>)"

definition rpop_main :: "redis_store \<Rightarrow> wire option \<times> redis_store" where
  "rpop_main s =
     (if rq_main s = [] then (None, s)
      else (Some (last (rq_main s)), s\<lparr>rq_main := butlast (rq_main s)\<rparr>))"

definition total_pending :: "redis_store \<Rightarrow> int" where
  "total_pending s = int (length (rq_main s)) + int (length (rq_delayed s))"

definition enqueue_with_capacity :: "wire \<Rightarrow> int \<Rightarrow> redis_store \<Rightarrow> int \<times> redis_store" where
  "enqueue_with_capacity raw cap s = (if cap \<le> total_pending s then (-1, s) else lpush_main raw s)"

definition enqueue_delayed_with_capacity :: "wire \<Rightarrow> time_us \<Rightarrow> int \<Rightarrow> redis_store \<Rightarrow> int \<times> redis_store" where
  "enqueue_delayed_with_capacity raw at cap s =
     (if cap \<le> total_pending s then (-1, s)
      else (if map_of (rq_delayed s) raw = None then 1 else 0,
            s\<lparr>rq_delayed := AList.update raw at (rq_delayed s)\<rparr>))"

definition ready_jobs :: "(wire \<Rightarrow> nat) \<Rightarrow> time_us \<Rightarrow> redis_store \<Rightarrow> wire list" where
  "ready_jobs rank now s =
     map fst (take 100 (filter (\<lambda>(_, at). at \<le> now) (sort_key (\<lambda>(raw, at). (at, rank raw)) (rq_delayed s))))"

definition promote_one :: "wire \<Rightarrow> redis_store \<Rightarrow> redis_store" where
  "promote_one raw s = s\<lparr>rq_main := raw # rq_main s, rq_delayed := AList.delete raw (rq_delayed s)\<rparr>"

definition process_delayed :: "(wire \<Rightarrow> nat) \<Rightarrow> time_us \<Rightarrow> redis_store \<Rightarrow> nat \<times> redis_store" where
  "process_delayed rank now s =
     (let ready = ready_jobs rank now s in (length ready, fold promote_one ready s))"

definition hset_inflight :: "string \<Rightarrow> inflight_entry \<Rightarrow> redis_store \<Rightarrow> unit \<times> redis_store" where
  "hset_inflight i e s = ((), s\<lparr>rq_inflight := AList.update i e (rq_inflight s)\<rparr>)"

definition hdel_inflight :: "string \<Rightarrow> redis_store \<Rightarrow> nat \<times> redis_store" where
  "hdel_inflight i s =
     (if map_of (rq_inflight s) i = None then 0 else 1, s\<lparr>rq_inflight := AList.delete i (rq_inflight s)\<rparr>)"

definition lpush_dead :: "dead_letter \<Rightarrow> redis_store \<Rightarrow> unit \<times> redis_store" where
  "lpush_dead d s = ((), s\<lparr>rq_dead := d # rq_dead s\<rparr>)"

section \<open>Reaching the server\<close>

datatype attempt = Done | Lost | Reply_lost | Broken

record redis_backend =
  rb_max_queue_size :: int
  rb_failure_count :: nat
  rb_open_until :: nat
  rb_threshold :: nat
  rb_open_time :: nat

record redis_world =
  rw_backend :: redis_backend
  rw_store :: redis_store
  rw_io :: "attempt list"

type_synonym ('w, 'a) queue_call = "'w \<Rightarrow> (queue_error + 'a) \<times> 'w"

definition q_bind :: "('w, 'a) queue_call \<Rightarrow> ('a \<Rightarrow> ('w, 'b) queue_call) \<Rightarrow> ('w, 'b) queue_call" where
  "q_bind m f w = (case m w of (Inl e, w') \<Rightarrow> (Inl e, w') | (Inr a, w') \<Rightarrow> f a w')"

definition q_return :: "'a \<Rightarrow> ('w, 'a) queue_call" where
  "q_return a w = (Inr a, w)"

definition new_redis_backend :: "int option \<Rightarrow> queue_config \<Rightarrow> redis_backend" where
  "new_redis_backend cap c =
     \<lparr>rb_max_queue_size = (case cap of Some n \<Rightarrow> if n = 0 then queue_capacity_limit c else n
                                      | None \<Rightarrow> queue_capacity_limit c),
      rb_failure_count = 0, rb_open_until = 0, rb_threshold = 5, rb_open_time = 30000000\<rparr>"

definition check_circuit_breaker :: "queue_env \<Rightarrow> (redis_world, unit) queue_call" where
  "check_circuit_breaker env w =
     (if qe_mono env < rb_open_until (rw_backend w) then (Inl Redis_fault, w) else (Inr (), w))"

definition rb_record_success :: "redis_backend \<Rightarrow> redis_backend" where
  "rb_record_success b = b\<lparr>rb_failure_count := 0, rb_open_until := 0\<rparr>"

definition rb_record_failure :: "queue_env \<Rightarrow> redis_backend \<Rightarrow> redis_backend" where
  "rb_record_failure env b =
     (let b' = b\<lparr>rb_failure_count := rb_failure_count b + 1\<rparr> in
      if rb_threshold b' \<le> rb_failure_count b'
      then b'\<lparr>rb_open_until := qe_mono env + rb_open_time b'\<rparr> else b')"

text \<open>The attempts of one operation: how many are left, and what the next ones meet.\<close>

fun redis_retry ::
    "nat \<Rightarrow> attempt list \<Rightarrow> (redis_store \<Rightarrow> 'a \<times> redis_store) \<Rightarrow> redis_store \<Rightarrow>
     (queue_error + 'a) \<times> redis_store \<times> attempt list" where
  "redis_retry 0 io fn s = (Inl Redis_fault, s, io)"
| "redis_retry (Suc n) [] fn s = (let (r, s') = fn s in (Inr r, s', []))"
| "redis_retry (Suc n) (a # io) fn s =
     (case a of
        Done \<Rightarrow> let (r, s') = fn s in (Inr r, s', io)
      | Lost \<Rightarrow> redis_retry n io fn s
      | Reply_lost \<Rightarrow> redis_retry n io fn (snd (fn s))
      | Broken \<Rightarrow> (Inl Redis_error, s, io))"

definition run_redis_operation ::
    "queue_env \<Rightarrow> (redis_store \<Rightarrow> 'a \<times> redis_store) \<Rightarrow> (redis_world, 'a) queue_call" where
  "run_redis_operation env fn w =
     (case redis_retry 3 (rw_io w) fn (rw_store w) of
        (Inr r, s, io) \<Rightarrow>
          (Inr r, w\<lparr>rw_backend := rb_record_success (rw_backend w), rw_store := s, rw_io := io\<rparr>)
      | (Inl e, s, io) \<Rightarrow>
          (Inl e, w\<lparr>rw_backend := (if e = Redis_fault then rb_record_failure env (rw_backend w) else rw_backend w),
                    rw_store := s, rw_io := io\<rparr>))"

text \<open>A read that goes to the client directly: one attempt, and no bookkeeping.\<close>

definition raw_read :: "(redis_store \<Rightarrow> 'a) \<Rightarrow> (redis_world, 'a) queue_call" where
  "raw_read f w =
     (case rw_io w of
        [] \<Rightarrow> (Inr (f (rw_store w)), w)
      | a # io \<Rightarrow>
          ((case a of Done \<Rightarrow> Inr (f (rw_store w)) | Broken \<Rightarrow> Inl Redis_error | _ \<Rightarrow> Inl Redis_fault),
           w\<lparr>rw_io := io\<rparr>))"

section \<open>The Redis backend\<close>

definition redis_get_dlq_depth :: "(redis_world, nat) queue_call" where
  "redis_get_dlq_depth = raw_read (\<lambda>s. length (rq_dead s))"

definition redis_get_metrics :: "queue_env \<Rightarrow> (redis_world, queue_metrics) queue_call" where
  "redis_get_metrics env =
     q_bind (raw_read (\<lambda>s. length (rq_main s))) (\<lambda>depth.
     q_bind (raw_read (\<lambda>s. length (rq_delayed s))) (\<lambda>delayed.
     q_bind (raw_read (\<lambda>s. length (rq_inflight s))) (\<lambda>inflight.
     q_bind redis_get_dlq_depth (\<lambda>failed.
     q_bind redis_get_dlq_depth (\<lambda>dlq w.
       (Inr \<lparr>qm_queue_depth = depth, qm_in_flight_count = inflight, qm_failed_jobs = failed,
             qm_delayed_jobs = delayed, qm_dlq_depth = dlq,
             qm_max_queue_size = rb_max_queue_size (rw_backend w), qm_total_pending_jobs = depth + delayed,
             qm_saturation_threshold = saturation_threshold (qe_config env)\<rparr>, w))))))"

text \<open>\<open>_refresh_queue_metrics(self.get_metrics())\<close>, after which the operation returns \<open>a\<close>.\<close>

definition redis_refresh :: "queue_env \<Rightarrow> 'a \<Rightarrow> (redis_world, 'a) queue_call" where
  "redis_refresh env a = q_bind (redis_get_metrics env) (\<lambda>_. q_return a)"

definition redis_assert_ready :: "queue_env \<Rightarrow> (redis_world, unit) queue_call" where
  "redis_assert_ready env =
     q_bind (check_circuit_breaker env) (\<lambda>_. run_redis_operation env (\<lambda>s. ((), s)))"

definition redis_enqueue :: "queue_env \<Rightarrow> queue_job \<Rightarrow> (redis_world, unit) queue_call" where
  "redis_enqueue env j w =
     (let cap = rb_max_queue_size (rw_backend w) in
      q_bind (check_circuit_breaker env) (\<lambda>_.
      q_bind (run_redis_operation env (enqueue_with_capacity (to_json j) cap)) (\<lambda>result.
        if result = -1 then (\<lambda>w. (Inl (Queue_saturated cap), w)) else redis_refresh env ())) w)"

definition redis_dequeue :: "queue_env \<Rightarrow> (redis_world, queue_job option) queue_call" where
  "redis_dequeue env =
     q_bind (check_circuit_breaker env) (\<lambda>_.
     q_bind (run_redis_operation env rpop_main) (\<lambda>result.
       case result of
         None \<Rightarrow> q_return None
       | Some raw \<Rightarrow>
           (case from_json raw of
              None \<Rightarrow> q_return None
            | Some job \<Rightarrow>
                q_bind (run_redis_operation env
                         (hset_inflight (qj_job_id job) \<lparr>if_payload = raw, if_dequeued_at = qe_now env\<rparr>))
                  (\<lambda>_. redis_refresh env (Some job)))))"

definition redis_ack :: "queue_env \<Rightarrow> string \<Rightarrow> (redis_world, unit) queue_call" where
  "redis_ack env i = q_bind (run_redis_operation env (hdel_inflight i)) (\<lambda>_. redis_refresh env ())"

definition redis_fail :: "queue_env \<Rightarrow> string \<Rightarrow> string \<Rightarrow> (redis_world, unit) queue_call" where
  "redis_fail env i error =
     q_bind (run_redis_operation env (\<lambda>s. (map_of (rq_inflight s) i, s))) (\<lambda>entry.
     q_bind (run_redis_operation env (hdel_inflight i)) (\<lambda>_.
     q_bind (run_redis_operation env
              (lpush_dead \<lparr>dl_job_id = i, dl_payload = None, dl_payload_raw = map_option if_payload entry,
                           dl_error = error, dl_failed_at = qe_now env\<rparr>))
       (\<lambda>_. redis_refresh env ())))"

definition redis_enqueue_delayed :: "queue_env \<Rightarrow> queue_job \<Rightarrow> time_us \<Rightarrow> (redis_world, unit) queue_call" where
  "redis_enqueue_delayed env j delay w =
     (let cap = rb_max_queue_size (rw_backend w) in
      q_bind (run_redis_operation env (enqueue_delayed_with_capacity (to_json j) (qe_now env + delay) cap)) (\<lambda>result.
        if result = -1 then (\<lambda>w. (Inl (Queue_saturated cap), w)) else redis_refresh env ()) w)"

definition redis_process_delayed_jobs :: "queue_env \<Rightarrow> (redis_world, nat) queue_call" where
  "redis_process_delayed_jobs env =
     q_bind (run_redis_operation env (process_delayed (qe_rank env) (qe_now env))) (\<lambda>n. redis_refresh env n)"

fun redis_requeue_loop ::
    "queue_env \<Rightarrow> time_us \<Rightarrow> (string \<times> inflight_entry) list \<Rightarrow> nat \<Rightarrow> redis_world \<Rightarrow> nat \<times> redis_world" where
  "redis_requeue_loop env timeout [] n w = (n, w)"
| "redis_requeue_loop env timeout ((i, e) # es) n w =
     (if qe_now env - if_dequeued_at e \<le> timeout then redis_requeue_loop env timeout es n w
      else
        case run_redis_operation env (hdel_inflight i) w of
          (Inl _, w1) \<Rightarrow> redis_requeue_loop env timeout es n w1
        | (Inr removed, w1) \<Rightarrow>
            if removed = 0 then redis_requeue_loop env timeout es n w1
            else
              (case run_redis_operation env (lpush_main (if_payload e)) w1 of
                 (Inl _, w2) \<Rightarrow> redis_requeue_loop env timeout es n w2
               | (Inr _, w2) \<Rightarrow> redis_requeue_loop env timeout es (n + 1) w2))"

definition redis_requeue_stale_jobs :: "queue_env \<Rightarrow> time_us \<Rightarrow> (redis_world, nat) queue_call" where
  "redis_requeue_stale_jobs env timeout =
     q_bind (run_redis_operation env (\<lambda>s. (rq_inflight s, s))) (\<lambda>entries w.
       let (n, w') = redis_requeue_loop env timeout entries 0 w in redis_refresh env n w')"

definition redis_peek_dead_letters :: "int \<Rightarrow> (redis_world, dead_letter list) queue_call" where
  "redis_peek_dead_letters n =
     raw_read (\<lambda>s. if n \<le> 0 then rq_dead s else take (nat n) (rq_dead s))"

text \<open>\<open>LREM\<close> takes out the first element equal to the entry found, which is the entry itself.\<close>

definition redis_remove_dead_letter :: "queue_env \<Rightarrow> string \<Rightarrow> (redis_world, bool) queue_call" where
  "redis_remove_dead_letter env i =
     q_bind (run_redis_operation env (\<lambda>s. (rq_dead s, s))) (\<lambda>entries.
       case List.find (\<lambda>d. dl_job_id d = i) entries of
         None \<Rightarrow> q_return False
       | Some d \<Rightarrow>
           q_bind (run_redis_operation env
                    (\<lambda>s. (if d \<in> set (rq_dead s) then 1 else 0 :: nat, s\<lparr>rq_dead := remove1 d (rq_dead s)\<rparr>)))
             (\<lambda>removed. if 0 < removed then redis_refresh env True else q_return False))"

definition redis_drain_dead_letters :: "queue_env \<Rightarrow> (redis_world, nat) queue_call" where
  "redis_drain_dead_letters env =
     q_bind redis_get_dlq_depth (\<lambda>n.
       if n = 0 then q_return 0
       else q_bind (run_redis_operation env (\<lambda>s. ((), s\<lparr>rq_dead := []\<rparr>))) (\<lambda>_. redis_refresh env n))"

section \<open>The in-process backend\<close>

record mem_queue =
  mq_max :: int
  mq_degraded :: bool
  mq_fallback_reason :: "string option"
  mq_q :: "queue_job list"
  mq_inflight :: "(string, queue_job \<times> time_us) dict"
  mq_dlq :: "dead_letter list"
  mq_timers :: "queue_job list"
  mq_delayed_count :: nat

definition new_mem_queue :: "int option \<Rightarrow> bool \<Rightarrow> string option \<Rightarrow> queue_config \<Rightarrow> mem_queue" where
  "new_mem_queue cap degraded reason c =
     \<lparr>mq_max = (case cap of Some n \<Rightarrow> if n = 0 then queue_capacity_limit c else n
                           | None \<Rightarrow> queue_capacity_limit c),
      mq_degraded = degraded, mq_fallback_reason = reason, mq_q = [], mq_inflight = [], mq_dlq = [],
      mq_timers = [], mq_delayed_count = 0\<rparr>"

definition pending_depth :: "mem_queue \<Rightarrow> int" where
  "pending_depth m = int (length (mq_q m)) + int (mq_delayed_count m)"

text \<open>\<open>queue.Queue\<close> is full when a positive size is reached.\<close>

definition q_full :: "mem_queue \<Rightarrow> bool" where
  "q_full m = (0 < mq_max m \<and> mq_max m \<le> int (length (mq_q m)))"

definition put_nowait :: "queue_job \<Rightarrow> (mem_queue, unit) queue_call" where
  "put_nowait j m = (if q_full m then (Inl Queue_full, m) else (Inr (), m\<lparr>mq_q := mq_q m @ [j]\<rparr>))"

definition reject_if_full :: "(mem_queue, unit) queue_call" where
  "reject_if_full m = (if mq_max m \<le> pending_depth m then (Inl (Queue_saturated (mq_max m)), m) else (Inr (), m))"

definition mem_enqueue :: "queue_job \<Rightarrow> (mem_queue, unit) queue_call" where
  "mem_enqueue j = q_bind reject_if_full (\<lambda>_. put_nowait j)"

definition mem_dequeue :: "time_us \<Rightarrow> (mem_queue, queue_job option) queue_call" where
  "mem_dequeue now m =
     (case mq_q m of
        [] \<Rightarrow> (Inr None, m)
      | j # q \<Rightarrow>
          (Inr (Some j), m\<lparr>mq_q := q, mq_inflight := AList.update (qj_job_id j) (j, now) (mq_inflight m)\<rparr>))"

definition mem_ack :: "string \<Rightarrow> (mem_queue, unit) queue_call" where
  "mem_ack i m = (Inr (), m\<lparr>mq_inflight := AList.delete i (mq_inflight m)\<rparr>)"

definition mem_fail :: "time_us \<Rightarrow> string \<Rightarrow> string \<Rightarrow> (mem_queue, unit) queue_call" where
  "mem_fail now i error m =
     (let entry = map_option fst (map_of (mq_inflight m) i) in
      (Inr (), m\<lparr>mq_inflight := AList.delete i (mq_inflight m),
                 mq_dlq := mq_dlq m @ [\<lparr>dl_job_id = i, dl_payload = entry,
                   dl_payload_raw = map_option to_json entry, dl_error = error, dl_failed_at = now\<rparr>]\<rparr>))"

definition mem_enqueue_delayed :: "queue_job \<Rightarrow> (mem_queue, unit) queue_call" where
  "mem_enqueue_delayed j =
     q_bind reject_if_full (\<lambda>_ m.
       (Inr (), m\<lparr>mq_delayed_count := mq_delayed_count m + 1, mq_timers := mq_timers m @ [j]\<rparr>))"

text \<open>The timer at place \<open>k\<close> fires: the count goes down even when the put fails.\<close>

definition timer_fire :: "nat \<Rightarrow> (mem_queue, unit) queue_call" where
  "timer_fire k m =
     (if k < length (mq_timers m) then
        let (r, m1) = put_nowait (mq_timers m ! k) m
        in (r, m1\<lparr>mq_delayed_count := mq_delayed_count m1 - 1,
                  mq_timers := take k (mq_timers m1) @ drop (Suc k) (mq_timers m1)\<rparr>)
      else (Inr (), m))"

text \<open>
  \<open>put\<close> without a timeout waits for room. Nobody else runs within this operation, so a full queue is
  the result \<open>Blocks_forever\<close>; the jobs not put back are then in no structure.
\<close>

fun put_all :: "queue_job list \<Rightarrow> (mem_queue, unit) queue_call" where
  "put_all [] m = (Inr (), m)"
| "put_all (j # js) m = (if q_full m then (Inl Blocks_forever, m) else put_all js (m\<lparr>mq_q := mq_q m @ [j]\<rparr>))"

definition mem_requeue_stale_jobs :: "time_us \<Rightarrow> time_us \<Rightarrow> (mem_queue, nat) queue_call" where
  "mem_requeue_stale_jobs now timeout m =
     (let stale = filter (\<lambda>(_, _, at). timeout < now - at) (mq_inflight m);
          m1 = m\<lparr>mq_inflight := fold AList.delete (map fst stale) (mq_inflight m)\<rparr>
      in q_bind (put_all (map (\<lambda>(_, j, _). j) stale)) (\<lambda>_. q_return (length stale)) m1)"

definition mem_get_metrics :: "queue_config \<Rightarrow> mem_queue \<Rightarrow> queue_metrics" where
  "mem_get_metrics c m =
     \<lparr>qm_queue_depth = length (mq_q m), qm_in_flight_count = length (mq_inflight m),
      qm_failed_jobs = length (mq_dlq m), qm_delayed_jobs = mq_delayed_count m,
      qm_dlq_depth = length (mq_dlq m), qm_max_queue_size = mq_max m,
      qm_total_pending_jobs = length (mq_q m) + mq_delayed_count m,
      qm_saturation_threshold = saturation_threshold c\<rparr>"

definition mem_remove_dead_letter :: "string \<Rightarrow> mem_queue \<Rightarrow> bool \<times> mem_queue" where
  "mem_remove_dead_letter i m =
     (let pre = takeWhile (\<lambda>d. dl_job_id d \<noteq> i) (mq_dlq m);
          rest = dropWhile (\<lambda>d. dl_job_id d \<noteq> i) (mq_dlq m)
      in if rest = [] then (False, m) else (True, m\<lparr>mq_dlq := pre @ tl rest\<rparr>))"

definition mem_drain_dead_letters :: "mem_queue \<Rightarrow> nat \<times> mem_queue" where
  "mem_drain_dead_letters m = (length (mq_dlq m), m\<lparr>mq_dlq := []\<rparr>)"

section \<open>The singleton\<close>

datatype queue_backend = Redis_queue redis_backend | Memory_queue mem_queue

record queue_sys =
  qs_instance :: "queue_backend option"
  qs_store :: redis_store
  qs_io :: "attempt list"

definition on_redis :: "redis_backend \<Rightarrow> (redis_world, 'a) queue_call \<Rightarrow> queue_sys \<Rightarrow>
    (queue_error + 'a) \<times> redis_backend \<times> queue_sys" where
  "on_redis b call y =
     (let (r, w) = call \<lparr>rw_backend = b, rw_store = qs_store y, rw_io = qs_io y\<rparr>
      in (r, rw_backend w, y\<lparr>qs_store := rw_store w, qs_io := rw_io w\<rparr>))"

definition fallback_to_memory_backend :: "queue_config \<Rightarrow> string \<Rightarrow> queue_error + mem_queue" where
  "fallback_to_memory_backend c reason =
     (if require_redis c then Inl Requires_redis else Inr (new_mem_queue None True (Some reason) c))"

text \<open>The first call builds the backend: \<open>reason\<close> is the text of the connection error, if there is one.\<close>

definition build_instance ::
    "queue_env \<Rightarrow> string \<Rightarrow> queue_sys \<Rightarrow> (queue_error + queue_backend) \<times> queue_sys" where
  "build_instance env reason y =
     (let c = qe_config env in
      if testing c \<or> test_mode c then (Inr (Memory_queue (new_mem_queue None False None c)), y)
      else if is_prod c \<and> \<not> truthy_str (redis_url c) then (Inl Requires_redis, y)
      else if truthy_str (redis_url c) then
        (case on_redis (new_redis_backend None c) (redis_assert_ready env) y of
           (Inr _, b, y1) \<Rightarrow> (Inr (Redis_queue b), y1)
         | (Inl _, _, y1) \<Rightarrow> (map_sum id Memory_queue (fallback_to_memory_backend c reason), y1))
      else if mode_distributed c then (Inl Requires_redis, y)
      else (Inr (Memory_queue (new_mem_queue None False None c)), y))"

definition get_queue :: "queue_env \<Rightarrow> string \<Rightarrow> (queue_sys, queue_backend) queue_call" where
  "get_queue env reason y =
     (case qs_instance y of
        Some b \<Rightarrow> (Inr b, y)
      | None \<Rightarrow>
          (case build_instance env reason y of
             (Inl e, y1) \<Rightarrow> (Inl e, y1)
           | (Inr (Memory_queue m), y1) \<Rightarrow> (Inr (Memory_queue m), y1\<lparr>qs_instance := Some (Memory_queue m)\<rparr>)
           | (Inr (Redis_queue b), y1) \<Rightarrow>
               (case on_redis b (q_bind (redis_assert_ready env) (\<lambda>_. redis_refresh env ())) y1 of
                  (Inl e, b', y2) \<Rightarrow> (Inl e, y2\<lparr>qs_instance := Some (Redis_queue b')\<rparr>)
                | (Inr _, b', y2) \<Rightarrow> (Inr (Redis_queue b'), y2\<lparr>qs_instance := Some (Redis_queue b')\<rparr>))))"

definition reset_queue :: "queue_sys \<Rightarrow> queue_sys" where
  "reset_queue y = y\<lparr>qs_instance := None\<rparr>"

definition attempt_queue_backend_reconnect :: "queue_env \<Rightarrow> (queue_sys, bool) queue_call" where
  "attempt_queue_backend_reconnect env y =
     (if \<not> truthy_str (redis_url (qe_config env)) then (Inr False, y)
      else
        case qs_instance y of
          Some (Memory_queue m) \<Rightarrow>
            if \<not> mq_degraded m then (Inr False, y)
            else
              (case on_redis (new_redis_backend None (qe_config env)) (redis_assert_ready env) y of
                 (Inl _, _, y1) \<Rightarrow> (Inr False, y1)
               | (Inr _, b, y1) \<Rightarrow>
                   (case on_redis b (redis_refresh env True) (y1\<lparr>qs_instance := Some (Redis_queue b)\<rparr>) of
                      (r, b', y2) \<Rightarrow> (r, y2\<lparr>qs_instance := Some (Redis_queue b')\<rparr>)))
        | _ \<Rightarrow> (Inr False, y))"

end
