(* ===== verification/Queue_Contract.thy ===== *)
theory Queue_Contract
  imports Distributed_Queue
begin

text \<open>
  The contract of a job queue and its refinement by both backends of
  \<^verbatim>\<open>AINDY/core/distributed_queue.py\<close>: an abstract queue with its specification \<open>queue_spec\<close>, the locale
  \<open>job_queue\<close> of the backends that simulate it, what follows for every history, and the
  interpretations on \<open>mem_apply\<close> and \<open>redis_apply\<close>.
\<close>

section \<open>The contract of a backend\<close>

text \<open>One call of a backend, with the uninteresting results dropped, and histories of calls.\<close>

datatype queue_op =
    Q_enqueue queue_job
  | Q_enqueue_delayed queue_job time_us
  | Q_dequeue
  | Q_ack string
  | Q_fail string string
  | Q_promote nat
  | Q_requeue time_us

definition q_void :: "('w, 'a) queue_call \<Rightarrow> ('w, queue_job option) queue_call" where
  "q_void m = q_bind m (\<lambda>_. q_return None)"

fun redis_apply :: "queue_env \<Rightarrow> queue_op \<Rightarrow> (redis_world, queue_job option) queue_call" where
  "redis_apply env (Q_enqueue j) = q_void (redis_enqueue env j)"
| "redis_apply env (Q_enqueue_delayed j d) = q_void (redis_enqueue_delayed env j d)"
| "redis_apply env Q_dequeue = redis_dequeue env"
| "redis_apply env (Q_ack i) = q_void (redis_ack env i)"
| "redis_apply env (Q_fail i msg) = q_void (redis_fail env i msg)"
| "redis_apply env (Q_promote _) = q_void (redis_process_delayed_jobs env)"
| "redis_apply env (Q_requeue t) = q_void (redis_requeue_stale_jobs env t)"

fun mem_apply :: "queue_env \<Rightarrow> queue_op \<Rightarrow> (mem_queue, queue_job option) queue_call" where
  "mem_apply env (Q_enqueue j) = q_void (mem_enqueue j)"
| "mem_apply env (Q_enqueue_delayed j d) = q_void (mem_enqueue_delayed j)"
| "mem_apply env Q_dequeue = mem_dequeue (qe_now env)"
| "mem_apply env (Q_ack i) = q_void (mem_ack i)"
| "mem_apply env (Q_fail i msg) = q_void (mem_fail (qe_now env) i msg)"
| "mem_apply env (Q_promote k) = q_void (timer_fire k)"
| "mem_apply env (Q_requeue t) = q_void (mem_requeue_stale_jobs (qe_now env) t)"

type_synonym queue_log = "(queue_op \<times> (queue_error + queue_job option)) list"

fun run_queue ::
    "('e \<Rightarrow> queue_op \<Rightarrow> ('s, queue_job option) queue_call) \<Rightarrow> ('e \<times> queue_op) list \<Rightarrow> 's \<Rightarrow> queue_log \<times> 's" where
  "run_queue ap [] s = ([], s)"
| "run_queue ap ((e, c) # es) s =
     (let (r, s1) = ap e c s; (log, s2) = run_queue ap es s1 in ((c, r) # log, s2))"

fun submitted :: "queue_op \<Rightarrow> queue_job list" where
  "submitted (Q_enqueue j) = [j]"
| "submitted (Q_enqueue_delayed j _) = [j]"
| "submitted _ = []"

fun accepted1 :: "queue_op \<times> (queue_error + queue_job option) \<Rightarrow> queue_job list" where
  "accepted1 (c, Inr _) = submitted c"
| "accepted1 (c, Inl _) = []"

fun enqueued1 :: "queue_op \<times> (queue_error + queue_job option) \<Rightarrow> queue_job list" where
  "enqueued1 (Q_enqueue j, Inr _) = [j]"
| "enqueued1 _ = []"

fun delivered1 :: "queue_op \<times> (queue_error + queue_job option) \<Rightarrow> queue_job list" where
  "delivered1 (Q_dequeue, Inr (Some j)) = [j]"
| "delivered1 _ = []"

fun failed1 :: "queue_op \<times> (queue_error + queue_job option) \<Rightarrow> string list" where
  "failed1 (Q_fail i _, Inr _) = [i]"
| "failed1 _ = []"

fun finished1 :: "queue_op \<times> (queue_error + queue_job option) \<Rightarrow> string list" where
  "finished1 (Q_ack i, Inr _) = [i]"
| "finished1 (Q_fail i _, Inr _) = [i]"
| "finished1 _ = []"

definition accepted :: "queue_log \<Rightarrow> queue_job list" where "accepted log = concat (map accepted1 log)"

definition enqueued :: "queue_log \<Rightarrow> queue_job list" where "enqueued log = concat (map enqueued1 log)"

definition delivered :: "queue_log \<Rightarrow> queue_job list" where "delivered log = concat (map delivered1 log)"

definition failed :: "queue_log \<Rightarrow> string list" where "failed log = concat (map failed1 log)"

definition finished :: "queue_log \<Rightarrow> string list" where "finished log = concat (map finished1 log)"

text \<open>What a queue is, abstractly: the jobs in delivery order, those deferred, those handed out, the dead.\<close>

record queue_view =
  v_waiting :: "queue_job list"
  v_later :: "queue_job multiset"
  v_running :: "queue_job multiset"
  v_dead :: "string multiset"

definition v_jobs :: "queue_view \<Rightarrow> queue_job multiset" where
  "v_jobs v = mset (v_waiting v) + v_later v + v_running v"

definition v_drop :: "string \<Rightarrow> queue_view \<Rightarrow> queue_view" where
  "v_drop i v = v\<lparr>v_running := filter_mset (\<lambda>j. qj_job_id j \<noteq> i) (v_running v)\<rparr>"

definition v_promoted :: "queue_job list \<Rightarrow> queue_view \<Rightarrow> queue_view \<Rightarrow> bool" where
  "v_promoted p v v' \<longleftrightarrow> mset p \<subseteq># v_later v \<and>
     v' = v\<lparr>v_waiting := v_waiting v @ p, v_later := v_later v - mset p\<rparr>"

definition v_requeued :: "queue_job list \<Rightarrow> queue_view \<Rightarrow> queue_view \<Rightarrow> bool" where
  "v_requeued p v v' \<longleftrightarrow> mset p \<subseteq># v_running v \<and>
     v' = v\<lparr>v_waiting := v_waiting v @ p, v_running := v_running v - mset p\<rparr>"

fun queue_spec :: "queue_op \<Rightarrow> queue_error + queue_job option \<Rightarrow> queue_view \<Rightarrow> queue_view \<Rightarrow> bool" where
  "queue_spec c (Inl _) v v' = (v' = v)"
| "queue_spec (Q_enqueue j) (Inr x) v v' = (v' = v\<lparr>v_waiting := v_waiting v @ [j]\<rparr>)"
| "queue_spec (Q_enqueue_delayed j _) (Inr x) v v' = (v' = v\<lparr>v_later := add_mset j (v_later v)\<rparr>)"
| "queue_spec Q_dequeue (Inr None) v v' = (v_waiting v = [] \<and> v' = v)"
| "queue_spec Q_dequeue (Inr (Some j)) v v' =
     (v_waiting v \<noteq> [] \<and> j = hd (v_waiting v) \<and>
      v' = v\<lparr>v_waiting := tl (v_waiting v), v_running := add_mset j (v_running v)\<rparr>)"
| "queue_spec (Q_ack i) (Inr x) v v' = (v' = v_drop i v)"
| "queue_spec (Q_fail i _) (Inr x) v v' = (v' = (v_drop i v)\<lparr>v_dead := add_mset i (v_dead v)\<rparr>)"
| "queue_spec (Q_promote _) (Inr x) v v' = (\<exists>p. v_promoted p v v')"
| "queue_spec (Q_requeue _) (Inr x) v v' = (\<exists>p. v_requeued p v v')"

text \<open>The results the contract speaks of: success, or refusal for lack of room.\<close>

fun regular :: "queue_error + queue_job option \<Rightarrow> bool" where
  "regular (Inr _) = True"
| "regular (Inl (Queue_saturated _)) = True"
| "regular (Inl _) = False"

text \<open>A submitted job was built by its constructor and its identifier is not in the queue.\<close>

definition admissible :: "queue_op \<Rightarrow> queue_view \<Rightarrow> bool" where
  "admissible c v \<longleftrightarrow>
     (\<forall>j\<in>set (submitted c). job_post_init j = j \<and> qj_job_id j \<notin> qj_job_id ` set_mset (v_jobs v))"

definition fresh_submissions :: "('e \<times> queue_op) list \<Rightarrow> queue_view \<Rightarrow> bool" where
  "fresh_submissions es v \<longleftrightarrow>
     (let js = concat (map (submitted \<circ> snd) es) in
      distinct (map qj_job_id js) \<and> (\<forall>j\<in>set js. job_post_init j = j) \<and>
      qj_job_id ` set js \<inter> qj_job_id ` set_mset (v_jobs v) = {})"

text \<open>
  What a history did: a job that was not acknowledged or failed is there exactly as often as before
  plus as it was accepted, nothing was invented, every failure is a dead letter, and the deliveries
  follow the order of arrival.
\<close>

definition conserves :: "queue_log \<Rightarrow> queue_view \<Rightarrow> queue_view \<Rightarrow> bool" where
  "conserves log v v' \<longleftrightarrow>
     (\<forall>j. qj_job_id j \<notin> set (finished log) \<longrightarrow>
        count (v_jobs v') j = count (v_jobs v) j + count (mset (accepted log)) j) \<and>
     v_jobs v' \<subseteq># v_jobs v + mset (accepted log) \<and>
     v_dead v' = v_dead v + mset (failed log) \<and>
     (\<exists>added. delivered log @ v_waiting v' = v_waiting v @ added \<and> subseq (enqueued log) added)"

lemmas log_defs = accepted_def enqueued_def delivered_def failed_def finished_def

lemma conserves_refl: "conserves [] v v"
  by (simp add: conserves_def log_defs)

lemma conserves_append:
  assumes "conserves a v v1" and "conserves b v1 v2"
  shows "conserves (a @ b) v v2"
proof -
  have "\<exists>added. (delivered a @ delivered b) @ v_waiting v2 = v_waiting v @ added \<and>
      subseq (enqueued a @ enqueued b) added"
    using assms unfolding conserves_def by (metis append.assoc list_emb_append_mono)
  moreover have "v_jobs v2 \<subseteq># v_jobs v + (mset (accepted a) + mset (accepted b))"
    using assms unfolding conserves_def
    by (metis (no_types, lifting) add.assoc subset_mset.add_right_mono subset_mset.order_trans)
  ultimately show ?thesis
    using assms unfolding conserves_def by (simp add: log_defs add.assoc)
qed

lemma v_moved:
  "v_promoted p v v' \<or> v_requeued p v v' \<Longrightarrow>
   v_jobs v' = v_jobs v \<and> v_dead v' = v_dead v \<and> v_waiting v' = v_waiting v @ p"
  by (auto simp: v_promoted_def v_requeued_def v_jobs_def multiset_eq_iff subseteq_mset_def)

lemma moved_conserves:
  assumes "v_promoted p v v' \<or> v_requeued p v v'" and "accepted1 e = []" and "failed1 e = []"
    and "delivered1 e = []" and "enqueued1 e = []"
  shows "conserves [e] v v'"
  using v_moved [OF assms(1)] assms(2-) by (auto simp: conserves_def log_defs)

lemma dropped_conserves:
  "conserves [(Q_ack i, Inr x)] v (v_drop i v) \<and>
   conserves [(Q_fail i m, Inr x)] v ((v_drop i v)\<lparr>v_dead := add_mset i (v_dead v)\<rparr>)"
  by (auto simp: conserves_def log_defs v_jobs_def v_drop_def multiset_filter_subset)

lemma dequeued_conserves:
  "v_waiting v = j # rest \<Longrightarrow>
   conserves [(Q_dequeue, Inr (Some j))] v (v\<lparr>v_waiting := rest, v_running := add_mset j (v_running v)\<rparr>)"
  by (auto simp: conserves_def log_defs v_jobs_def)

lemma submitted_conserves:
  "conserves [(Q_enqueue j, Inr x)] v (v\<lparr>v_waiting := v_waiting v @ [j]\<rparr>) \<and>
   conserves [(Q_enqueue_delayed j d, Inr x)] v (v\<lparr>v_later := add_mset j (v_later v)\<rparr>)"
  by (auto simp: conserves_def log_defs v_jobs_def)

lemma refused_conserves: "conserves [(c, Inl e)] v v"
  by (cases c) (simp_all add: conserves_def log_defs)

lemma spec_conserves:
  assumes "queue_spec c r v v'"
  shows "conserves [(c, r)] v v'"
proof (cases r)
  case (Inl e)
  then show ?thesis using assms refused_conserves by simp
next
  case (Inr x)
  show ?thesis
  proof (cases c)
    case Q_dequeue
    show ?thesis
    proof (cases x)
      case None
      then show ?thesis using assms Inr Q_dequeue by (simp add: conserves_def log_defs)
    next
      case (Some j)
      then obtain rest where "v_waiting v = j # rest"
        using assms Inr Q_dequeue by (cases "v_waiting v") auto
      then show ?thesis using dequeued_conserves assms Inr Q_dequeue Some by simp
    qed
  next
    case (Q_promote k)
    then obtain p where "v_promoted p v v'" using assms Inr by auto
    then show ?thesis using moved_conserves [of p v v' "(c, r)"] Inr Q_promote by simp
  next
    case (Q_requeue t)
    then obtain p where "v_requeued p v v'" using assms Inr by auto
    then show ?thesis using moved_conserves [of p v v' "(c, r)"] Inr Q_requeue by simp
  qed (use assms Inr in \<open>simp_all add: submitted_conserves dropped_conserves\<close>)
qed

lemma conserves_jobs:
  assumes "conserves [(c, r)] v v'"
  shows "set_mset (v_jobs v') \<subseteq> set_mset (v_jobs v) \<union> set (submitted c)"
proof -
  have "set_mset (v_jobs v') \<subseteq> set_mset (v_jobs v + mset (accepted [(c, r)]))"
    by (rule set_mset_mono) (use assms in \<open>simp add: conserves_def\<close>)
  moreover have "set (accepted [(c, r)]) \<subseteq> set (submitted c)"
    by (cases r) (simp_all add: accepted_def)
  ultimately show ?thesis by auto
qed

lemma fresh_step:
  assumes "fresh_submissions ((e, c) # es) v" and "set_mset (v_jobs v') \<subseteq> set_mset (v_jobs v) \<union> set (submitted c)"
  shows "fresh_submissions es v'"
proof -
  let ?js = "concat (map (submitted \<circ> snd) es)"
  have "qj_job_id ` set ?js \<inter> (qj_job_id ` set_mset (v_jobs v) \<union> qj_job_id ` set (submitted c)) = {}"
    using assms(1) by (simp add: fresh_submissions_def Let_def image_Un Int_Un_distrib Int_Un_distrib2 Int_commute)
  moreover have "qj_job_id ` set_mset (v_jobs v') \<subseteq> qj_job_id ` set_mset (v_jobs v) \<union> qj_job_id ` set (submitted c)"
    using assms(2) by blast
  ultimately have "qj_job_id ` set ?js \<inter> qj_job_id ` set_mset (v_jobs v') = {}" by blast
  then show ?thesis using assms(1) by (simp add: fresh_submissions_def Let_def)
qed

text \<open>No two jobs of a queue have the same identifier; every step of the specification keeps it so.\<close>

definition v_distinct :: "queue_view \<Rightarrow> bool" where
  "v_distinct v \<longleftrightarrow> (\<forall>i. count (image_mset qj_job_id (v_jobs v)) i \<le> 1)"

lemma v_distinct_step:
  assumes "v_distinct v" and "admissible c v" and "queue_spec c r v v'"
  shows "v_distinct v'"
  unfolding v_distinct_def
proof
  fix i
  let ?n = "\<lambda>M. count (image_mset qj_job_id M) i"
  have sub: "image_mset qj_job_id (v_jobs v') \<subseteq># image_mset qj_job_id (v_jobs v + mset (accepted [(c, r)]))"
    using spec_conserves [OF assms(3)] by (intro image_mset_subseteq_mono) (simp add: conserves_def)
  then have le: "?n (v_jobs v') \<le> ?n (v_jobs v) + ?n (mset (accepted [(c, r)]))"
    using mset_subset_eq_count [OF sub, of i] by simp
  have old: "?n (v_jobs v) \<le> 1" using assms(1) by (simp add: v_distinct_def)
  show "?n (v_jobs v') \<le> 1"
  proof (cases "\<exists>j. accepted [(c, r)] = [j] \<and> qj_job_id j = i")
    case True
    then obtain j where j: "accepted [(c, r)] = [j]" "qj_job_id j = i" by blast
    then have "j \<in> set (submitted c)" by (cases r) (auto simp: accepted_def)
    then have "i \<notin># image_mset qj_job_id (v_jobs v)" using assms(2) j(2) by (auto simp: admissible_def)
    then have "?n (v_jobs v) = 0" by (simp only: not_in_iff)
    then show ?thesis using le j by simp
  next
    case False
    have "accepted [(c, r)] = [] \<or> (\<exists>j. accepted [(c, r)] = [j])"
      by (cases r; cases c) (simp_all add: accepted_def)
    then have "?n (mset (accepted [(c, r)])) = 0" using False by auto
    then show ?thesis using le old by simp
  qed
qed

locale job_queue =
  fixes ap :: "'e \<Rightarrow> queue_op \<Rightarrow> ('s, queue_job option) queue_call"
    and view :: "'s \<Rightarrow> queue_view"
    and ok :: "'s \<Rightarrow> bool"
  assumes refines: "ok s \<Longrightarrow> admissible c (view s) \<Longrightarrow> ap e c s = (r, s') \<Longrightarrow> regular r \<Longrightarrow>
    ok s' \<and> queue_spec c r (view s) (view s')"
begin

lemma history_conserves:
  assumes "ok s" and "fresh_submissions es (view s)" and "run_queue ap es s = (log, s')"
    and "\<forall>(c, r)\<in>set log. regular r"
  shows "ok s' \<and> conserves log (view s) (view s')"
  using assms
proof (induction es arbitrary: s log)
  case Nil
  then show ?case by (simp add: conserves_refl)
next
  case (Cons a es)
  obtain e c where a: "a = (e, c)" by (cases a)
  obtain r s1 where r: "ap e c s = (r, s1)" by (cases "ap e c s")
  obtain log' where log: "run_queue ap es s1 = (log', s')" "log = (c, r) # log'"
    using Cons.prems(3) a r by (auto split: prod.splits)
  have "admissible c (view s)"
    using Cons.prems(2) a by (auto simp: fresh_submissions_def admissible_def Let_def)
  then have step: "ok s1" "queue_spec c r (view s) (view s1)"
    using refines [OF Cons.prems(1) _ r] Cons.prems(4) log(2) by auto
  have cons: "conserves [(c, r)] (view s) (view s1)" by (rule spec_conserves [OF step(2)])
  then have "set_mset (v_jobs (view s1)) \<subseteq> set_mset (v_jobs (view s)) \<union> set (submitted c)"
    by (rule conserves_jobs)
  then have "fresh_submissions es (view s1)" by (rule fresh_step [OF Cons.prems(2) [unfolded a]])
  with Cons.IH [OF step(1) _ log(1)] Cons.prems(4) log(2)
  have tl: "ok s'" "conserves log' (view s1) (view s')" by auto
  have "log = [(c, r)] @ log'" using log(2) by simp
  with tl(1) conserves_append [OF cons tl(2)] show ?case by (simp only:)
qed

end

section \<open>The in-process backend keeps the contract\<close>

lemmas queue_calls = q_void_def q_bind_def q_return_def

definition mem_view :: "mem_queue \<Rightarrow> queue_view" where
  "mem_view m =
     \<lparr>v_waiting = mq_q m, v_later = mset (mq_timers m),
      v_running = mset (map (\<lambda>(_, j, _). j) (mq_inflight m)), v_dead = mset (map dl_job_id (mq_dlq m))\<rparr>"

definition mem_wf :: "mem_queue \<Rightarrow> bool" where
  "mem_wf m \<longleftrightarrow> mq_delayed_count m = length (mq_timers m) \<and> (\<forall>(i, j, at)\<in>set (mq_inflight m). qj_job_id j = i)"

definition mem_ok :: "mem_queue \<Rightarrow> bool" where
  "mem_ok m \<longleftrightarrow> mem_wf m \<and> v_distinct (mem_view m)"

lemma mem_keys: "mem_wf m \<Longrightarrow> image_mset qj_job_id (v_running (mem_view m)) = mset (map fst (mq_inflight m))"
  by (auto simp: mem_wf_def mem_view_def multiset.map_comp intro!: image_mset_cong)

lemma v_distinct_running: "v_distinct v \<Longrightarrow> count (image_mset qj_job_id (v_running v)) i \<le> 1"
  unfolding v_distinct_def v_jobs_def image_mset_union count_union using le_trans le_add2 by blast

lemma mem_distinct_keys: "mem_ok m \<Longrightarrow> distinct (map fst (mq_inflight m))"
  unfolding distinct_le mem_ok_def using mem_keys [of m] v_distinct_running [of "mem_view m"] by metis

lemma v_distinct_apart:
  assumes "v_distinct v" and "v_waiting v = j # rest"
  shows "qj_job_id j \<notin># image_mset qj_job_id (v_running v)"
proof -
  have "count (image_mset qj_job_id (v_jobs v)) (qj_job_id j) \<le> 1" using assms(1) by (simp add: v_distinct_def)
  then have "count (image_mset qj_job_id (v_running v)) (qj_job_id j) = 0" using assms(2) by (simp add: v_jobs_def)
  then show ?thesis by (simp only: not_in_iff)
qed

lemma mem_fresh_head:
  assumes "mem_ok m" and "mq_q m = j # q"
  shows "qj_job_id j \<notin> fst ` set (mq_inflight m)"
proof -
  have "v_waiting (mem_view m) = j # q" using assms(2) by (simp add: mem_view_def)
  with assms(1) have "qj_job_id j \<notin># image_mset qj_job_id (v_running (mem_view m))"
    using v_distinct_apart unfolding mem_ok_def by blast
  then have "qj_job_id j \<notin># mset (map fst (mq_inflight m))"
    using assms(1) mem_keys unfolding mem_ok_def by metis
  then show ?thesis by simp
qed

lemma mem_drop:
  "mem_wf m \<Longrightarrow> mem_wf (m\<lparr>mq_inflight := AList.delete k (mq_inflight m)\<rparr>) \<and>
   mem_view (m\<lparr>mq_inflight := AList.delete k (mq_inflight m)\<rparr>) = v_drop k (mem_view m)"
proof -
  have "mset (map (\<lambda>(_, j, _). j) (AList.delete k d)) = filter_mset (\<lambda>j. qj_job_id j \<noteq> k) (mset (map (\<lambda>(_, j, _). j) d))"
    if "\<forall>(i, j, at)\<in>set d. qj_job_id j = i" for d :: "(string, queue_job \<times> time_us) dict"
    using that by (induction d) auto
  then show "mem_wf m \<Longrightarrow> ?thesis" by (auto simp: mem_wf_def mem_view_def v_drop_def AList.delete_eq)
qed

lemma put_all_ok: "put_all js m = (Inr x, m') \<Longrightarrow> m' = m\<lparr>mq_q := mq_q m @ js\<rparr>"
proof (induction js arbitrary: m)
  case (Cons j js)
  then have "put_all js (m\<lparr>mq_q := mq_q m @ [j]\<rparr>) = (Inr x, m')" by (auto split: if_splits)
  from Cons.IH [OF this] show ?case by simp
qed simp

lemma mem_requeue_refines:
  assumes "mem_ok m" and "mem_requeue_stale_jobs now t m = (Inr n, m')"
  shows "mem_wf m' \<and> (\<exists>p. v_requeued p (mem_view m) (mem_view m'))"
proof -
  define P :: "string \<times> queue_job \<times> time_us \<Rightarrow> bool" where "P = (\<lambda>(_, _, at). t < now - at)"
  define p where "p = map (\<lambda>(_, j, _). j) (filter P (mq_inflight m))"
  obtain u where "put_all p (m\<lparr>mq_inflight := filter (\<lambda>e. \<not> P e) (mq_inflight m)\<rparr>) = (Inr u, m')"
    using assms(2) drop_matching [OF mem_distinct_keys [OF assms(1)], of P]
    by (auto simp: mem_requeue_stale_jobs_def Let_def queue_calls p_def P_def split: prod.splits sum.splits)
  from put_all_ok [OF this]
  have m': "m' = m\<lparr>mq_inflight := filter (\<lambda>e. \<not> P e) (mq_inflight m), mq_q := mq_q m @ p\<rparr>" by simp
  have "mset (map (\<lambda>(_, j, _). j) (mq_inflight m)) =
      mset (map (\<lambda>(_, j, _). j) (filter (\<lambda>e. \<not> P e) (mq_inflight m))) + mset p"
    by (simp only: mset_map p_def image_mset_union mset_parts [of "mq_inflight m" P])
  then have "v_requeued p (mem_view m) (mem_view m')" by (simp add: v_requeued_def mem_view_def m')
  moreover have "mem_wf m'" using assms(1) by (auto simp: mem_ok_def mem_wf_def m')
  ultimately show ?thesis by blast
qed

lemma mem_fire_refines:
  assumes "mem_ok m" and "timer_fire k m = (Inr u, m')"
  shows "mem_wf m' \<and> (\<exists>p. v_promoted p (mem_view m) (mem_view m'))"
proof (cases "k < length (mq_timers m)")
  case True
  define rest where "rest = take k (mq_timers m) @ drop (Suc k) (mq_timers m)"
  have "mset (mq_timers m) = mset (take k (mq_timers m) @ mq_timers m ! k # drop (Suc k) (mq_timers m))"
    using True by (simp add: id_take_nth_drop [symmetric])
  then have ms: "mset (mq_timers m) = add_mset (mq_timers m ! k) (mset rest)" by (simp add: rest_def)
  have m': "m' = m\<lparr>mq_q := mq_q m @ [mq_timers m ! k], mq_delayed_count := mq_delayed_count m - 1, mq_timers := rest\<rparr>"
    using assms(2) True by (auto simp: timer_fire_def put_nowait_def rest_def split: if_splits)
  have "v_promoted [mq_timers m ! k] (mem_view m) (mem_view m')"
    using ms by (simp add: v_promoted_def mem_view_def m')
  moreover have "mem_wf m'" using assms(1) True by (auto simp: mem_ok_def mem_wf_def m' rest_def)
  ultimately show ?thesis by blast
next
  case False
  then have "v_promoted [] (mem_view m) (mem_view m')" "m' = m"
    using assms(2) by (auto simp: timer_fire_def v_promoted_def)
  then show ?thesis using assms(1) by (auto simp: mem_ok_def)
qed

lemma q_void_regular:
  assumes "q_void m w = (r, w')" and "regular r"
  shows "(\<exists>x. m w = (Inr x, w') \<and> r = Inr None) \<or> (\<exists>cap. m w = (Inl (Queue_saturated cap), w') \<and> r = Inl (Queue_saturated cap))"
proof (cases "m w")
  case (Pair q w1)
  then show ?thesis
    using assms by (cases q; cases r rule: regular.cases) (auto simp: queue_calls)
qed

lemma timer_not_saturated: "timer_fire k m \<noteq> (Inl (Queue_saturated cap), m')"
  by (simp add: timer_fire_def put_nowait_def)

lemma put_all_not_saturated: "put_all js m \<noteq> (Inl (Queue_saturated cap), m')"
  by (induction js arbitrary: m) auto

lemma requeue_not_saturated: "mem_requeue_stale_jobs now t m \<noteq> (Inl (Queue_saturated cap), m')"
  using put_all_not_saturated
  by (auto simp: mem_requeue_stale_jobs_def Let_def queue_calls split: prod.splits sum.splits)

lemma mem_enqueue_refines:
  assumes "mem_ok m" and "mem_apply env (Q_enqueue j) m = (r, m')" and "regular r"
  shows "mem_wf m' \<and> queue_spec (Q_enqueue j) r (mem_view m) (mem_view m')"
proof (cases "mq_max m \<le> pending_depth m")
  case True
  then show ?thesis
    using assms by (auto simp: mem_enqueue_def reject_if_full_def queue_calls mem_ok_def)
next
  case False
  then have "m' = m\<lparr>mq_q := mq_q m @ [j]\<rparr> \<and> r = Inr None"
    using assms(2,3) by (cases "q_full m") (auto simp: mem_enqueue_def reject_if_full_def put_nowait_def queue_calls)
  then show ?thesis using assms(1) by (simp add: mem_view_def mem_ok_def mem_wf_def)
qed

lemma mem_delay_refines:
  assumes "mem_ok m" and "mem_apply env (Q_enqueue_delayed j d) m = (r, m')"
  shows "mem_wf m' \<and> queue_spec (Q_enqueue_delayed j d) r (mem_view m) (mem_view m')"
proof (cases "mq_max m \<le> pending_depth m")
  case True
  then show ?thesis
    using assms by (auto simp: mem_enqueue_delayed_def reject_if_full_def queue_calls mem_ok_def)
next
  case False
  then have "m' = m\<lparr>mq_delayed_count := mq_delayed_count m + 1, mq_timers := mq_timers m @ [j]\<rparr> \<and> r = Inr None"
    using assms(2) by (auto simp: mem_enqueue_delayed_def reject_if_full_def queue_calls)
  then show ?thesis using assms(1) by (simp add: mem_view_def mem_ok_def mem_wf_def)
qed

lemma mem_dequeue_refines:
  assumes "mem_ok m" and "mem_apply env Q_dequeue m = (r, m')"
  shows "mem_wf m' \<and> queue_spec Q_dequeue r (mem_view m) (mem_view m')"
proof (cases "mq_q m")
  case Nil
  then show ?thesis using assms by (auto simp: mem_dequeue_def mem_view_def mem_ok_def)
next
  case (Cons j q)
  then have "m' = m\<lparr>mq_q := q, mq_inflight := mq_inflight m @ [(qj_job_id j, j, qe_now env)]\<rparr> \<and> r = Inr (Some j)"
    using assms mem_fresh_head [OF assms(1) Cons] by (auto simp: mem_dequeue_def update_new)
  then show ?thesis using assms(1) Cons by (auto simp: mem_view_def mem_ok_def mem_wf_def)
qed

lemma mem_finish_refines:
  assumes "mem_ok m" and "c = Q_ack i \<or> c = Q_fail i msg" and "mem_apply env c m = (r, m')"
  shows "mem_wf m' \<and> queue_spec c r (mem_view m) (mem_view m')"
proof -
  let ?m = "m\<lparr>mq_inflight := AList.delete i (mq_inflight m)\<rparr>"
  have d: "mem_wf ?m" "mem_view ?m = v_drop i (mem_view m)" using mem_drop assms(1) by (auto simp: mem_ok_def)
  have f: "mem_wf (?m\<lparr>mq_dlq := dlq\<rparr>)" "mem_view (?m\<lparr>mq_dlq := dlq\<rparr>) = (mem_view ?m)\<lparr>v_dead := mset (map dl_job_id dlq)\<rparr>" for dlq
    using d(1) by (simp_all add: mem_wf_def mem_view_def)
  show ?thesis
  proof (cases "c = Q_ack i")
    case True
    then show ?thesis using assms(3) d by (auto simp: mem_ack_def queue_calls)
  next
    case False
    obtain e where "m' = ?m\<lparr>mq_dlq := mq_dlq m @ [e]\<rparr>" "dl_job_id e = i" "r = Inr None"
      using assms(2,3) False by (auto simp: mem_fail_def queue_calls Let_def)
    moreover have "v_dead (mem_view m) = mset (map dl_job_id (mq_dlq m))" by (simp add: mem_view_def)
    ultimately show ?thesis using f d(2) assms(2) False by auto
  qed
qed

lemma mem_simulates:
  assumes "mem_ok m" and "mem_apply env c m = (r, m')" and "regular r"
  shows "mem_wf m' \<and> queue_spec c r (mem_view m) (mem_view m')"
proof (cases c)
  case (Q_enqueue j)
  show ?thesis unfolding Q_enqueue by (rule mem_enqueue_refines [OF assms(1) assms(2) [unfolded Q_enqueue] assms(3)])
next
  case (Q_enqueue_delayed j d)
  show ?thesis unfolding Q_enqueue_delayed
    by (rule mem_delay_refines [OF assms(1) assms(2) [unfolded Q_enqueue_delayed]])
next
  case Q_dequeue
  show ?thesis unfolding Q_dequeue by (rule mem_dequeue_refines [OF assms(1) assms(2) [unfolded Q_dequeue]])
next
  case (Q_ack i)
  then show ?thesis by (intro mem_finish_refines [OF assms(1) _ assms(2)] disjI1)
next
  case (Q_fail i msg)
  then show ?thesis by (intro mem_finish_refines [OF assms(1) _ assms(2)] disjI2)
next
  case (Q_promote k)
  have "q_void (timer_fire k) m = (r, m')" using assms(2) by (simp add: Q_promote)
  from q_void_regular [OF this assms(3)] timer_not_saturated
  obtain u where fire: "timer_fire k m = (Inr u, m')" and r: "r = Inr None" by metis
  show ?thesis using mem_fire_refines [OF assms(1) fire] by (simp add: Q_promote r)
next
  case (Q_requeue t)
  have "q_void (mem_requeue_stale_jobs (qe_now env) t) m = (r, m')" using assms(2) by (simp add: Q_requeue)
  from q_void_regular [OF this assms(3)] requeue_not_saturated
  obtain n where run: "mem_requeue_stale_jobs (qe_now env) t m = (Inr n, m')" and r: "r = Inr None" by metis
  show ?thesis using mem_requeue_refines [OF assms(1) run] by (simp add: Q_requeue r)
qed

interpretation mq: job_queue mem_apply mem_view mem_ok
proof
  fix m env c r m'
  assume ok: "mem_ok m" and adm: "admissible c (mem_view m)" and run: "mem_apply env c m = (r, m')" "regular r"
  have sim: "mem_wf m' \<and> queue_spec c r (mem_view m) (mem_view m')" by (rule mem_simulates [OF ok run])
  then have "v_distinct (mem_view m')" using v_distinct_step [OF _ adm] ok unfolding mem_ok_def by blast
  with sim show "mem_ok m' \<and> queue_spec c r (mem_view m) (mem_view m')" by (simp add: mem_ok_def)
qed

end
