(* ===== verification/Redis_Queue.thy ===== *)
theory Redis_Queue
  imports Queue_Contract
begin

text \<open>
  The Redis backend of \<^verbatim>\<open>AINDY/core/distributed_queue.py\<close> against the contract of a job queue: with a
  reachable server it is a \<open>job_queue\<close>; with faults the capacity bound still holds, and jobs can be
  lost and doubled.
\<close>

section \<open>A reachable server\<close>

definition settle :: "redis_world \<Rightarrow> redis_store \<Rightarrow> redis_world" where
  "settle w s = w\<lparr>rw_backend := rb_record_success (rw_backend w), rw_store := s\<rparr>"

lemma settle_simps [simp]:
  "rw_io (settle w s) = rw_io w" "rw_store (settle w s) = s" "settle (settle w s) s' = settle w s'"
  "rb_open_until (rw_backend (settle w s)) = 0"
  "rb_max_queue_size (rw_backend (settle w s)) = rb_max_queue_size (rw_backend w)"
  by (simp_all add: settle_def rb_record_success_def)

lemma run_calm [simp]:
  "rw_io w = [] \<Longrightarrow> run_redis_operation env fn w = (Inr (fst (fn (rw_store w))), settle w (snd (fn (rw_store w))))"
  by (cases w) (simp add: run_redis_operation_def settle_def numeral_3_eq_3 split: prod.splits)

lemma read_calm [simp]: "rw_io w = [] \<Longrightarrow> raw_read f w = (Inr (f (rw_store w)), w)"
  by (simp add: raw_read_def)

lemma refresh_calm [simp]: "rw_io w = [] \<Longrightarrow> redis_refresh env a w = (Inr a, w)"
  by (simp add: redis_refresh_def redis_get_metrics_def redis_get_dlq_depth_def queue_calls)

lemma check_calm [simp]: "rb_open_until (rw_backend w) = 0 \<Longrightarrow> check_circuit_breaker env w = (Inr (), w)"
  by (simp add: check_circuit_breaker_def)

definition calm :: "redis_world \<Rightarrow> bool" where
  "calm w \<longleftrightarrow> rw_io w = [] \<and> rb_open_until (rw_backend w) = 0"

lemma calm_settle [simp]: "calm w \<Longrightarrow> calm (settle w s)"
  by (simp add: calm_def)

section \<open>The view of a store\<close>

fun good_wire :: "wire \<Rightarrow> bool" where
  "good_wire (Job_text j) = (job_post_init j = j)"
| "good_wire (Other_text _) = False"

fun wire_job :: "wire \<Rightarrow> queue_job" where
  "wire_job (Job_text j) = j"
| "wire_job (Other_text t) =
     \<lparr>qj_job_id = t, qj_task_name = [], qj_idempotency_key = [], qj_context = [], qj_retry_metadata = [],
      qj_enqueued_at = []\<rparr>"

definition store_view :: "redis_store \<Rightarrow> queue_view" where
  "store_view s =
     \<lparr>v_waiting = map wire_job (rev (rq_main s)), v_later = mset (map (wire_job \<circ> fst) (rq_delayed s)),
      v_running = mset (map (\<lambda>(_, e). wire_job (if_payload e)) (rq_inflight s)),
      v_dead = mset (map dl_job_id (rq_dead s))\<rparr>"

definition store_wf :: "redis_store \<Rightarrow> bool" where
  "store_wf s \<longleftrightarrow>
     (\<forall>raw\<in>set (rq_main s). good_wire raw) \<and> (\<forall>(raw, at)\<in>set (rq_delayed s). good_wire raw) \<and>
     (\<forall>(i, e)\<in>set (rq_inflight s). good_wire (if_payload e) \<and> qj_job_id (wire_job (if_payload e)) = i) \<and>
     distinct (map fst (rq_delayed s)) \<and> distinct (map fst (rq_inflight s))"

definition redis_ok :: "redis_world \<Rightarrow> bool" where
  "redis_ok w \<longleftrightarrow> calm w \<and> store_wf (rw_store w) \<and> v_distinct (store_view (rw_store w))"

lemma good_from_json: "good_wire raw \<Longrightarrow> from_json raw = Some (wire_job raw)"
  by (cases raw) (simp_all add: from_json_def)

lemma wire_job_inject: "good_wire a \<Longrightarrow> good_wire b \<Longrightarrow> wire_job a = wire_job b \<Longrightarrow> a = b"
  by (cases a; cases b) simp_all

lemma store_keys: "store_wf s \<Longrightarrow> image_mset qj_job_id (v_running (store_view s)) = mset (map fst (rq_inflight s))"
  by (auto simp: store_wf_def store_view_def multiset.map_comp intro!: image_mset_cong)

lemma store_drop:
  assumes "store_wf s"
  shows "store_wf (s\<lparr>rq_inflight := AList.delete k (rq_inflight s)\<rparr>) \<and>
    store_view (s\<lparr>rq_inflight := AList.delete k (rq_inflight s)\<rparr>) = v_drop k (store_view s)"
proof -
  have "mset (map (\<lambda>(_, e). wire_job (if_payload e)) (AList.delete k d)) =
      filter_mset (\<lambda>j. qj_job_id j \<noteq> k) (mset (map (\<lambda>(_, e). wire_job (if_payload e)) d))"
    if "\<forall>(i, e)\<in>set d. qj_job_id (wire_job (if_payload e)) = i" for d :: "(string, inflight_entry) dict"
    using that by (induction d) auto
  moreover have "\<forall>(i, e)\<in>set (rq_inflight s). qj_job_id (wire_job (if_payload e)) = i"
    using assms by (auto simp: store_wf_def)
  ultimately show ?thesis
    using assms by (auto simp: store_wf_def store_view_def v_drop_def distinct_map_filter AList.delete_eq)
qed

section \<open>Moving jobs between the structures\<close>

lemma v_requeued_refl: "v_requeued [] v v"
  by (simp add: v_requeued_def)

lemma v_requeued_trans: "v_requeued p v v1 \<Longrightarrow> v_requeued q v1 v2 \<Longrightarrow> v_requeued (p @ q) v v2"
  by (auto simp: v_requeued_def subset_eq_diff_conv diff_diff_add_mset add.commute subset_mset.le_diff_conv2)

lemma v_promoted_refl: "v_promoted [] v v"
  by (simp add: v_promoted_def)

lemma v_promoted_trans: "v_promoted p v v1 \<Longrightarrow> v_promoted q v1 v2 \<Longrightarrow> v_promoted (p @ q) v v2"
  by (auto simp: v_promoted_def subset_eq_diff_conv diff_diff_add_mset add.commute subset_mset.le_diff_conv2)

definition requeue_one :: "string \<times> inflight_entry \<Rightarrow> redis_store \<Rightarrow> redis_store" where
  "requeue_one = (\<lambda>(i, e) s. s\<lparr>rq_inflight := AList.delete i (rq_inflight s), rq_main := if_payload e # rq_main s\<rparr>)"

lemma taken_out:
  assumes "distinct (map fst d)" and "(k, v) \<in> set d"
  shows "mset d = add_mset (k, v) (mset (AList.delete k d))"
  using assms
proof (induction d)
  case (Cons a d)
  show ?case
  proof (cases "fst a = k")
    case True
    then have "k \<notin> fst ` set d" using Cons.prems by auto
    moreover from this have "a = (k, v)" using True Cons.prems(2) by (cases a) (auto simp: image_iff)
    ultimately have "a = (k, v)" "k \<notin> fst ` set d" by simp_all
    then show ?thesis using delete_idem [of k d] by simp
  next
    case False
    then show ?thesis using Cons by (cases a) auto
  qed
qed simp

lemma requeue_one_moves:
  assumes "store_wf s" and "(i, e) \<in> set (rq_inflight s)"
  shows "store_wf (requeue_one (i, e) s) \<and>
    v_requeued [wire_job (if_payload e)] (store_view s) (store_view (requeue_one (i, e) s))"
proof -
  have "mset (rq_inflight s) = add_mset (i, e) (mset (AList.delete i (rq_inflight s)))"
    using assms by (intro taken_out) (auto simp: store_wf_def)
  from arg_cong [OF this, of "image_mset (\<lambda>(_, e). wire_job (if_payload e))"]
  have "v_requeued [wire_job (if_payload e)] (store_view s) (store_view (requeue_one (i, e) s))"
    by (simp add: v_requeued_def store_view_def requeue_one_def)
  moreover have "good_wire (if_payload e)" using assms by (auto simp: store_wf_def)
  then have "store_wf (requeue_one (i, e) s)"
    using store_drop [OF assms(1), of i] by (auto simp: store_wf_def requeue_one_def)
  ultimately show ?thesis by blast
qed

lemma requeue_all_moves:
  assumes "store_wf s" and "distinct (map fst es)" and "set es \<subseteq> set (rq_inflight s)"
  shows "store_wf (fold requeue_one es s) \<and>
    v_requeued (map (\<lambda>(_, e). wire_job (if_payload e)) es) (store_view s) (store_view (fold requeue_one es s))"
  using assms
proof (induction es arbitrary: s)
  case Nil
  then show ?case by (simp add: v_requeued_refl)
next
  case (Cons a es)
  obtain i e where a: "a = (i, e)" by (cases a)
  have one: "store_wf (requeue_one a s)"
      "v_requeued [wire_job (if_payload e)] (store_view s) (store_view (requeue_one a s))"
    using requeue_one_moves [OF Cons.prems(1)] Cons.prems(3) by (auto simp: a)
  have "set es \<subseteq> set (rq_inflight (requeue_one a s))"
    using Cons.prems(2,3) by (force simp: a requeue_one_def AList.delete_eq)
  with Cons.IH [OF one(1)] Cons.prems(2)
  have "store_wf (fold requeue_one es (requeue_one a s))"
    "v_requeued (map (\<lambda>(_, e). wire_job (if_payload e)) es) (store_view (requeue_one a s))
       (store_view (fold requeue_one es (requeue_one a s)))" by auto
  with v_requeued_trans [OF one(2)] show ?case by (auto simp: a)
qed

lemma promote_one_moves:
  assumes "store_wf s" and "raw \<in> fst ` set (rq_delayed s)"
  shows "store_wf (promote_one raw s) \<and>
    v_promoted [wire_job raw] (store_view s) (store_view (promote_one raw s))"
proof -
  obtain at where at: "(raw, at) \<in> set (rq_delayed s)" using assms(2) by force
  then have "mset (rq_delayed s) = add_mset (raw, at) (mset (AList.delete raw (rq_delayed s)))"
    using assms(1) by (intro taken_out) (auto simp: store_wf_def)
  from arg_cong [OF this, of "image_mset (wire_job \<circ> fst)"]
  have "v_promoted [wire_job raw] (store_view s) (store_view (promote_one raw s))"
    by (simp add: v_promoted_def store_view_def promote_one_def)
  moreover have "store_wf (promote_one raw s)"
    using assms(1) at by (auto simp: store_wf_def promote_one_def distinct_map_filter AList.delete_eq)
  ultimately show ?thesis by blast
qed

lemma promote_all_moves:
  assumes "store_wf s" and "distinct raws" and "set raws \<subseteq> fst ` set (rq_delayed s)"
  shows "store_wf (fold promote_one raws s) \<and>
    v_promoted (map wire_job raws) (store_view s) (store_view (fold promote_one raws s))"
  using assms
proof (induction raws arbitrary: s)
  case Nil
  then show ?case by (simp add: v_promoted_refl)
next
  case (Cons a raws)
  have one: "store_wf (promote_one a s)" "v_promoted [wire_job a] (store_view s) (store_view (promote_one a s))"
    using promote_one_moves [OF Cons.prems(1)] Cons.prems(3) by auto
  have "set raws \<subseteq> fst ` set (rq_delayed (promote_one a s))"
    using Cons.prems(2,3) by (force simp: promote_one_def AList.delete_eq)
  with Cons.IH [OF one(1)] Cons.prems(2)
  have "store_wf (fold promote_one raws (promote_one a s))"
    "v_promoted (map wire_job raws) (store_view (promote_one a s)) (store_view (fold promote_one raws (promote_one a s)))"
    by auto
  with v_promoted_trans [OF one(2)] show ?case by auto
qed

section \<open>Each operation of the backend\<close>

lemma redis_enqueue_calm:
  assumes "calm w"
  shows "redis_enqueue env j w =
    (if rb_max_queue_size (rw_backend w) \<le> total_pending (rw_store w)
     then (Inl (Queue_saturated (rb_max_queue_size (rw_backend w))), settle w (rw_store w))
     else (Inr (), settle w ((rw_store w)\<lparr>rq_main := to_json j # rq_main (rw_store w)\<rparr>)))"
  using assms by (simp add: redis_enqueue_def calm_def q_bind_def enqueue_with_capacity_def lpush_main_def Let_def)

lemma redis_delay_calm:
  assumes "calm w"
  shows "redis_enqueue_delayed env j d w =
    (if rb_max_queue_size (rw_backend w) \<le> total_pending (rw_store w)
     then (Inl (Queue_saturated (rb_max_queue_size (rw_backend w))), settle w (rw_store w))
     else (Inr (), settle w ((rw_store w)\<lparr>rq_delayed := AList.update (to_json j) (qe_now env + d) (rq_delayed (rw_store w))\<rparr>)))"
  using assms by (simp add: redis_enqueue_delayed_def calm_def q_bind_def enqueue_delayed_with_capacity_def Let_def)

lemma redis_dequeue_calm:
  assumes "calm w" and "\<forall>raw\<in>set (rq_main (rw_store w)). good_wire raw"
  shows "redis_dequeue env w =
    (let s = rw_store w in
     if rq_main s = [] then (Inr None, settle w s)
     else let raw = last (rq_main s) in
       (Inr (Some (wire_job raw)),
        settle w (s\<lparr>rq_main := butlast (rq_main s),
          rq_inflight := AList.update (qj_job_id (wire_job raw)) \<lparr>if_payload = raw, if_dequeued_at = qe_now env\<rparr> (rq_inflight s)\<rparr>)))"
  using assms good_from_json [of "last (rq_main (rw_store w))"]
  by (simp add: redis_dequeue_def calm_def q_bind_def q_return_def rpop_main_def hset_inflight_def Let_def)

lemma redis_ack_calm:
  "calm w \<Longrightarrow> redis_ack env i w = (Inr (), settle w ((rw_store w)\<lparr>rq_inflight := AList.delete i (rq_inflight (rw_store w))\<rparr>))"
  by (simp add: redis_ack_def calm_def q_bind_def hdel_inflight_def)

lemma redis_fail_calm:
  assumes "calm w"
  shows "\<exists>d. dl_job_id d = i \<and> redis_fail env i msg w =
    (Inr (), settle w ((rw_store w)\<lparr>rq_inflight := AList.delete i (rq_inflight (rw_store w)), rq_dead := d # rq_dead (rw_store w)\<rparr>))"
  using assms by (simp add: redis_fail_def calm_def q_bind_def hdel_inflight_def lpush_dead_def)
    (metis dead_letter.select_convs(1))

lemma redis_promote_calm:
  "calm w \<Longrightarrow> redis_process_delayed_jobs env w =
     (Inr (length (ready_jobs (qe_rank env) (qe_now env) (rw_store w))),
      settle w (fold promote_one (ready_jobs (qe_rank env) (qe_now env) (rw_store w)) (rw_store w)))"
  by (simp add: redis_process_delayed_jobs_def calm_def q_bind_def process_delayed_def Let_def)

lemma requeue_loop_calm:
  assumes "rw_io w = []" and "settle w (rw_store w) = w" and "distinct (map fst es)"
    and "set es \<subseteq> set (rq_inflight (rw_store w))" and "distinct (map fst (rq_inflight (rw_store w)))"
  shows "redis_requeue_loop env t es n w =
    (n + length (filter (\<lambda>(_, e). t < qe_now env - if_dequeued_at e) es),
     settle w (fold requeue_one (filter (\<lambda>(_, e). t < qe_now env - if_dequeued_at e) es) (rw_store w)))"
  using assms
proof (induction es arbitrary: n w)
  case Nil
  then show ?case by simp
next
  case (Cons a es)
  obtain i e where a: "a = (i, e)" by (cases a)
  show ?case
  proof (cases "qe_now env - if_dequeued_at e \<le> t")
    case True
    then show ?thesis using Cons.IH [OF Cons.prems(1,2)] Cons.prems(3-) by (simp add: a)
  next
    case False
    let ?s = "requeue_one (i, e) (rw_store w)"
    have "map_of (rq_inflight (rw_store w)) i = Some e" using Cons.prems(4,5) by (simp add: a)
    then have loop: "redis_requeue_loop env t (a # es) n w = redis_requeue_loop env t es (n + 1) (settle w ?s)"
      using False Cons.prems(1) by (simp add: a hdel_inflight_def lpush_main_def requeue_one_def)
    have sub: "set es \<subseteq> set (rq_inflight ?s)"
      using Cons.prems(3,4) by (force simp: a requeue_one_def AList.delete_eq)
    have "distinct (map fst (rq_inflight ?s))"
      using Cons.prems(5) by (simp add: requeue_one_def AList.delete_eq distinct_map_filter)
    with sub Cons.IH [of "settle w ?s" "n + 1"] Cons.prems(1,3) loop False
    show ?thesis by (simp add: a)
  qed
qed

lemma redis_requeue_calm:
  assumes "calm w" and "store_wf (rw_store w)"
  shows "\<exists>n. redis_requeue_stale_jobs env t w =
    (Inr n, settle w (fold requeue_one
       (filter (\<lambda>(_, e). t < qe_now env - if_dequeued_at e) (rq_inflight (rw_store w))) (rw_store w)))"
  using assms requeue_loop_calm [of "settle w (rw_store w)" "rq_inflight (rw_store w)" env t 0]
  by (simp add: redis_requeue_stale_jobs_def calm_def q_bind_def store_wf_def Let_def)

section \<open>The backend refines the contract\<close>

lemma store_enqueue:
  "store_wf s \<Longrightarrow> job_post_init j = j \<Longrightarrow>
   store_wf (s\<lparr>rq_main := to_json j # rq_main s\<rparr>) \<and>
   store_view (s\<lparr>rq_main := to_json j # rq_main s\<rparr>) = (store_view s)\<lparr>v_waiting := v_waiting (store_view s) @ [j]\<rparr>"
  by (auto simp: store_wf_def store_view_def to_json_def)

lemma store_delay:
  assumes "store_wf s" and "job_post_init j = j" and "qj_job_id j \<notin> qj_job_id ` set_mset (v_jobs (store_view s))"
  shows "store_wf (s\<lparr>rq_delayed := AList.update (to_json j) at (rq_delayed s)\<rparr>) \<and>
    store_view (s\<lparr>rq_delayed := AList.update (to_json j) at (rq_delayed s)\<rparr>) =
      (store_view s)\<lparr>v_later := add_mset j (v_later (store_view s))\<rparr>"
proof -
  have "to_json j \<notin> fst ` set (rq_delayed s)"
    using assms(3) by (force simp: store_view_def v_jobs_def to_json_def)
  then show ?thesis
    using assms(1,2) by (auto simp: update_new store_wf_def store_view_def to_json_def)
qed

lemma store_dequeue:
  fixes now :: time_us
  assumes "store_wf s" and "v_distinct (store_view s)" and "rq_main s \<noteq> []"
  defines "raw \<equiv> last (rq_main s)"
  defines "s' \<equiv> s\<lparr>rq_main := butlast (rq_main s),
    rq_inflight := AList.update (qj_job_id (wire_job raw)) \<lparr>if_payload = raw, if_dequeued_at = now\<rparr> (rq_inflight s)\<rparr>"
  shows "store_wf s' \<and> queue_spec Q_dequeue (Inr (Some (wire_job raw))) (store_view s) (store_view s')"
proof -
  obtain pre where "rq_main s = pre @ [raw]" using assms(3) append_butlast_last_id unfolding raw_def by metis
  then have waiting: "v_waiting (store_view s) = wire_job raw # map wire_job (rev (butlast (rq_main s)))"
    by (simp add: store_view_def)
  have "qj_job_id (wire_job raw) \<notin># mset (map fst (rq_inflight s))"
    using v_distinct_apart [OF assms(2) waiting] store_keys [OF assms(1)] by simp
  then have new: "rq_inflight s' = rq_inflight s @ [(qj_job_id (wire_job raw), \<lparr>if_payload = raw, if_dequeued_at = now\<rparr>)]"
    by (simp add: s'_def update_new)
  have "good_wire raw" using assms(1,3) by (simp add: store_wf_def raw_def)
  then have "store_wf s'"
    using assms(1) new \<open>qj_job_id (wire_job raw) \<notin># mset (map fst (rq_inflight s))\<close>
    by (auto simp: store_wf_def s'_def dest: in_set_butlastD)
  moreover have "store_view s' = (store_view s)\<lparr>v_waiting := map wire_job (rev (butlast (rq_main s))),
      v_running := add_mset (wire_job raw) (v_running (store_view s))\<rparr>"
    using new by (simp add: store_view_def s'_def)
  ultimately show ?thesis using waiting by simp
qed

lemma ready_jobs_due: "distinct (map fst (rq_delayed s)) \<Longrightarrow>
  distinct (ready_jobs rank now s) \<and> set (ready_jobs rank now s) \<subseteq> fst ` set (rq_delayed s)"
proof -
  let ?due = "filter (\<lambda>(_, at). at \<le> now) (sort_key (\<lambda>(raw, at). (at, rank raw)) (rq_delayed s))"
  assume "distinct (map fst (rq_delayed s))"
  then have "distinct (map fst (sort_key (\<lambda>(raw, at). (at, rank raw)) (rq_delayed s)))"
    by (metis mset_eq_imp_distinct_iff mset_map mset_sort)
  then have "distinct (map fst ?due)" by (rule distinct_map_filter)
  then have "distinct (map fst (take 100 ?due))" by (simp add: take_map [symmetric])
  moreover have "set (take 100 ?due) \<subseteq> set (rq_delayed s)" by (auto dest: in_set_takeD)
  ultimately show ?thesis unfolding ready_jobs_def by auto
qed

lemma redis_simulates:
  assumes "redis_ok w" and "admissible c (store_view (rw_store w))" and "redis_apply env c w = (r, w')"
  shows "calm w' \<and> store_wf (rw_store w') \<and> regular r \<and> queue_spec c r (store_view (rw_store w)) (store_view (rw_store w'))"
proof -
  have w: "calm w" "store_wf (rw_store w)" "v_distinct (store_view (rw_store w))"
    using assms(1) by (simp_all add: redis_ok_def)
  note fresh = assms(2) [unfolded admissible_def]
  show ?thesis
  proof (cases c)
    case (Q_enqueue j)
    then show ?thesis
      using assms(3) fresh w store_enqueue [of "rw_store w" j]
      by (auto simp: queue_calls redis_enqueue_calm split: if_splits)
  next
    case (Q_enqueue_delayed j d)
    then show ?thesis
      using assms(3) fresh w store_delay [of "rw_store w" j]
      by (auto simp: queue_calls redis_delay_calm split: if_splits)
  next
    case Q_dequeue
    show ?thesis
    proof (cases "rq_main (rw_store w) = []")
      case True
      then show ?thesis
        using assms(3) w Q_dequeue by (auto simp: redis_dequeue_calm store_wf_def store_view_def)
    next
      case False
      then show ?thesis
        using assms(3) w Q_dequeue store_dequeue [OF w(2,3) False, of "qe_now env"]
        by (auto simp: redis_dequeue_calm store_wf_def Let_def)
    qed
  next
    case (Q_ack i)
    then show ?thesis
      using assms(3) w store_drop [of "rw_store w" i] by (auto simp: queue_calls redis_ack_calm)
  next
    case (Q_fail i msg)
    obtain d where d: "dl_job_id d = i" "redis_fail env i msg w = (Inr (), settle w ((rw_store w)\<lparr>rq_inflight :=
        AList.delete i (rq_inflight (rw_store w)), rq_dead := d # rq_dead (rw_store w)\<rparr>))"
      using redis_fail_calm [OF w(1)] by blast
    have "store_view (s\<lparr>rq_dead := d # rq_dead s\<rparr>) = (store_view s)\<lparr>v_dead := add_mset i (v_dead (store_view s))\<rparr>"
        "store_wf (s\<lparr>rq_dead := d # rq_dead s\<rparr>) = store_wf s" for s
      using d(1) by (simp_all add: store_view_def store_wf_def)
    from this [of "(rw_store w)\<lparr>rq_inflight := AList.delete i (rq_inflight (rw_store w))\<rparr>"]
    show ?thesis
      using assms(3) w(1) d(2) Q_fail store_drop [OF w(2), of i] by (auto simp: queue_calls v_drop_def)
  next
    case (Q_promote k)
    have "distinct (map fst (rq_delayed (rw_store w)))" using w(2) by (simp add: store_wf_def)
    with ready_jobs_due have "store_wf (fold promote_one (ready_jobs (qe_rank env) (qe_now env) (rw_store w)) (rw_store w)) \<and>
        (\<exists>p. v_promoted p (store_view (rw_store w))
          (store_view (fold promote_one (ready_jobs (qe_rank env) (qe_now env) (rw_store w)) (rw_store w))))"
      using promote_all_moves [OF w(2)] by blast
    then show ?thesis using assms(3) w(1) Q_promote by (auto simp: queue_calls redis_promote_calm)
  next
    case (Q_requeue t)
    let ?es = "filter (\<lambda>(_, e). t < qe_now env - if_dequeued_at e) (rq_inflight (rw_store w))"
    have "distinct (map fst ?es)" using w(2) by (simp add: store_wf_def distinct_map_filter)
    then have "store_wf (fold requeue_one ?es (rw_store w)) \<and> (\<exists>p. v_requeued p (store_view (rw_store w))
        (store_view (fold requeue_one ?es (rw_store w))))"
      using requeue_all_moves [OF w(2), of ?es] by (meson filter_is_subset)
    moreover obtain n where "redis_requeue_stale_jobs env t w = (Inr n, settle w (fold requeue_one ?es (rw_store w)))"
      using redis_requeue_calm [OF w(1,2)] by blast
    then have "r = Inr None" "w' = settle w (fold requeue_one ?es (rw_store w))"
      using assms(3) by (simp_all add: queue_calls Q_requeue)
    ultimately show ?thesis using w(1) by (simp add: Q_requeue)
  qed
qed

interpretation rq: job_queue redis_apply "\<lambda>w. store_view (rw_store w)" redis_ok
proof
  fix w env c r w'
  assume ok: "redis_ok w" and adm: "admissible c (store_view (rw_store w))" and run: "redis_apply env c w = (r, w')"
  note sim = redis_simulates [OF ok adm run]
  then have "v_distinct (store_view (rw_store w'))" using v_distinct_step [OF _ adm] ok unfolding redis_ok_def by blast
  with sim show "redis_ok w' \<and> queue_spec c r (store_view (rw_store w)) (store_view (rw_store w'))"
    by (simp add: redis_ok_def)
qed

lemma calm_history_regular:
  assumes "redis_ok w" and "fresh_submissions es (store_view (rw_store w))" and "run_queue redis_apply es w = (log, w')"
  shows "\<forall>(c, r)\<in>set log. regular r"
  using assms
proof (induction es arbitrary: w log)
  case (Cons a es)
  obtain e c r w1 log' where a: "a = (e, c)" and r: "redis_apply e c w = (r, w1)"
      and log: "run_queue redis_apply es w1 = (log', w')" "log = (c, r) # log'"
    using Cons.prems(3) by (cases a) (auto split: prod.splits)
  have "admissible c (store_view (rw_store w))"
    using Cons.prems(2) a by (auto simp: fresh_submissions_def admissible_def Let_def)
  note sim = redis_simulates [OF Cons.prems(1) this r]
  have "redis_ok w1" using rq.refines [OF Cons.prems(1) \<open>admissible c _\<close> r] sim by blast
  moreover have "fresh_submissions es (store_view (rw_store w1))"
    using fresh_step [OF Cons.prems(2) [unfolded a]] conserves_jobs [OF spec_conserves] sim by blast
  ultimately show ?case using Cons.IH [OF _ _ log(1)] log(2) sim by auto
qed simp

section \<open>Faults\<close>

text \<open>What every attempt of every command keeps, a whole operation keeps, whatever faults it meets.\<close>

definition keeps :: "('w \<Rightarrow> bool) \<Rightarrow> ('w, 'a) queue_call \<Rightarrow> bool" where
  "keeps P m \<longleftrightarrow> (\<forall>w. P w \<longrightarrow> P (snd (m w)))"

lemma snd_q_void [simp]: "snd (q_void m w) = snd (m w)"
  by (simp add: q_void_def q_bind_def q_return_def split: prod.splits sum.splits)

lemma keeps_bind: "keeps P m \<Longrightarrow> (\<And>a. keeps P (f a)) \<Longrightarrow> keeps P (q_bind m f)"
  by (auto simp: keeps_def q_bind_def split: prod.splits sum.splits)

lemma keeps_return: "keeps P (q_return a)" "keeps P (\<lambda>w. (Inl e, w))"
  by (simp_all add: keeps_def q_return_def)

lemma retry_keeps:
  "(\<And>s. P s \<Longrightarrow> P (snd (fn s))) \<Longrightarrow> P s \<Longrightarrow> P (fst (snd (redis_retry n io fn s)))"
proof (induction n io fn s rule: redis_retry.induct)
  case (3 n a io fn s)
  then show ?case by (cases a) (auto simp: split_beta)
qed (auto simp: split_beta)

text \<open>The room the two capacity scripts watch, with the capacity and a bound.\<close>

definition within :: "int \<Rightarrow> int \<Rightarrow> redis_world \<Rightarrow> bool" where
  "within cap n w \<longleftrightarrow> rb_max_queue_size (rw_backend w) = cap \<and> cap \<le> n \<and>
     distinct (map fst (rq_delayed (rw_store w))) \<and> total_pending (rw_store w) \<le> n"

definition roomy :: "int \<Rightarrow> redis_store \<Rightarrow> bool" where
  "roomy n s \<longleftrightarrow> distinct (map fst (rq_delayed s)) \<and> total_pending s \<le> n"

lemma run_keeps: "(\<And>s. roomy n s \<Longrightarrow> roomy n (snd (fn s))) \<Longrightarrow> keeps (within cap n) (run_redis_operation env fn)"
  unfolding keeps_def
proof (intro allI impI)
  fix w
  assume fn: "\<And>s. roomy n s \<Longrightarrow> roomy n (snd (fn s))" and w: "within cap n w"
  obtain r s io where "redis_retry 3 (rw_io w) fn (rw_store w) = (r, s, io)" by (metis prod_cases3)
  moreover from this have "roomy n s"
    using retry_keeps [of "roomy n" fn "rw_store w" 3 "rw_io w"] fn w by (simp add: roomy_def within_def)
  ultimately show "within cap n (snd (run_redis_operation env fn w))"
    using w by (cases r) (auto simp: run_redis_operation_def within_def roomy_def rb_record_success_def
        rb_record_failure_def Let_def)
qed

lemma read_keeps: "keeps (within cap n) (raw_read f)"
  by (auto simp: keeps_def raw_read_def within_def split: list.splits attempt.splits)

lemma refresh_keeps: "keeps (within cap n) (redis_refresh env a)"
  unfolding redis_refresh_def redis_get_metrics_def redis_get_dlq_depth_def
  by (intro keeps_bind keeps_return read_keeps) (simp add: keeps_def)

lemma check_keeps: "keeps (within cap n) (check_circuit_breaker env)"
  by (simp add: keeps_def check_circuit_breaker_def)

lemma delete_shorter: "k \<in> fst ` set d \<Longrightarrow> length (AList.delete k d) < length d"
  by (induction d) (auto simp: AList.delete_eq le_imp_less_Suc)

lemma promote_roomy:
  assumes "roomy n s" and "distinct raws" and "set raws \<subseteq> fst ` set (rq_delayed s)"
  shows "roomy n (fold promote_one raws s)"
  using assms
proof (induction raws arbitrary: s)
  case (Cons raw raws)
  have "roomy n (promote_one raw s)"
    using Cons.prems delete_shorter [of raw "rq_delayed s"]
    by (simp add: roomy_def promote_one_def total_pending_def distinct_map_filter AList.delete_eq)
  moreover have "set raws \<subseteq> fst ` set (rq_delayed (promote_one raw s))"
    using Cons.prems(2,3) by (force simp: promote_one_def AList.delete_eq)
  ultimately show ?case using Cons by simp
qed simp

lemma command_roomy:
  "roomy n s \<Longrightarrow> roomy n (snd (rpop_main s))" "roomy n s \<Longrightarrow> roomy n (snd (hset_inflight i e s))"
  "roomy n s \<Longrightarrow> roomy n (snd (hdel_inflight i s))" "roomy n s \<Longrightarrow> roomy n (snd (lpush_dead d s))"
  "roomy n s \<Longrightarrow> cap \<le> n \<Longrightarrow> roomy n (snd (enqueue_with_capacity raw cap s))"
  "roomy n s \<Longrightarrow> roomy n (snd (process_delayed rank now s))"
  using promote_roomy [of n s "ready_jobs rank now s"] ready_jobs_due [of s rank now]
  by (auto simp: roomy_def total_pending_def rpop_main_def hset_inflight_def hdel_inflight_def lpush_dead_def
      enqueue_with_capacity_def lpush_main_def process_delayed_def Let_def)

lemma delay_roomy: "roomy n s \<Longrightarrow> cap \<le> n \<Longrightarrow> roomy n (snd (enqueue_delayed_with_capacity raw at cap s))"
proof -
  have "length (AList.update raw at d) \<le> Suc (length d)" for d by (induction d) auto
  then show "roomy n s \<Longrightarrow> cap \<le> n \<Longrightarrow> ?thesis"
    by (auto simp: roomy_def total_pending_def enqueue_delayed_with_capacity_def distinct_update)
      (smt (verit) of_nat_Suc of_nat_le_iff)
qed

lemma apply_keeps:
  assumes "\<forall>t. c \<noteq> Q_requeue t" and "within cap n w"
  shows "within cap n (snd (redis_apply env c w))"
proof -
  have cap: "rb_max_queue_size (rw_backend w) = cap" "cap \<le> n" using assms(2) by (simp_all add: within_def)
  note rules = keeps_bind keeps_return run_keeps refresh_keeps check_keeps command_roomy delay_roomy cap(2)
  have "within cap n (snd (redis_enqueue env j w))" for j
  proof -
    have "keeps (within cap n) (q_bind (check_circuit_breaker env) (\<lambda>_.
        q_bind (run_redis_operation env (enqueue_with_capacity (to_json j) cap)) (\<lambda>result.
          if result = -1 then (\<lambda>w. (Inl (Queue_saturated cap), w)) else redis_refresh env ())))"
      by (intro rules) (auto intro: rules)
    then show ?thesis using assms(2) cap(1) by (simp add: redis_enqueue_def keeps_def)
  qed
  moreover have "within cap n (snd (redis_enqueue_delayed env j d w))" for j d
  proof -
    have "keeps (within cap n)
        (q_bind (run_redis_operation env (enqueue_delayed_with_capacity (to_json j) (qe_now env + d) cap)) (\<lambda>result.
          if result = -1 then (\<lambda>w. (Inl (Queue_saturated cap), w)) else redis_refresh env ()))"
      by (intro rules) (auto intro: rules)
    then show ?thesis using assms(2) cap(1) by (simp add: redis_enqueue_delayed_def keeps_def)
  qed
  moreover have "keeps (within cap n) (redis_dequeue env)"
    unfolding redis_dequeue_def by (intro rules) (auto intro!: rules split: option.splits)
  moreover have "keeps (within cap n) (redis_ack env i)" for i
    unfolding redis_ack_def by (intro rules)
  moreover have "keeps (within cap n) (redis_fail env i msg)" for i msg
    unfolding redis_fail_def by (intro rules) simp
  moreover have "keeps (within cap n) (redis_process_delayed_jobs env)"
    unfolding redis_process_delayed_jobs_def by (intro rules)
  ultimately show ?thesis using assms by (cases c) (simp_all add: keeps_def)
qed

section \<open>Properties\<close>

definition sample_job :: "string \<Rightarrow> queue_job" where
  "sample_job i = \<lparr>qj_job_id = i, qj_task_name = ''t'', qj_idempotency_key = i, qj_context = [],
     qj_retry_metadata = [], qj_enqueued_at = []\<rparr>"

definition sample_env :: queue_env where
  "sample_env = \<lparr>qe_mono = 0, qe_now = 0, qe_rank = (\<lambda>_. 0), qe_config =
     \<lparr>max_queue_size_setting = (None, None), async_queue_maxsize = (None, None), saturation_setting = (None, None),
      testing = False, test_mode = False, redis_url = None, is_prod = False, mode_distributed = False,
      require_redis = False\<rparr>\<rparr>"

definition sample_world :: "wire list \<Rightarrow> attempt list \<Rightarrow> redis_world" where
  "sample_world main io = \<lparr>rw_backend = new_redis_backend (Some 10) (qe_config sample_env),
     rw_store = \<lparr>rq_main = main, rq_inflight = [], rq_delayed = [], rq_dead = []\<rparr>, rw_io = io\<rparr>"

definition sample_history :: "(queue_env \<times> queue_op) list" where
  "sample_history = map (\<lambda>c. (sample_env, c))
     [Q_enqueue (sample_job ''a''), Q_enqueue (sample_job ''b''), Q_dequeue, Q_requeue (-1), Q_dequeue,
      Q_fail ''b'' ''boom'']"

lemma sample_job_built: "job_post_init (sample_job i) = sample_job i"
  by (simp add: job_post_init_def sample_job_def)

lemma sample_history_fresh: "v_jobs v = {#} \<Longrightarrow> fresh_submissions sample_history v"
  by (simp add: fresh_submissions_def sample_history_def sample_job_built Let_def) (simp add: sample_job_def)



text \<open>
  The in-process queue keeps the same contract in every history in which no call blocks and no
  timer finds the queue full, which is where it loses a job.
\<close>

theorem memory_queue_conserves:
  assumes "mem_ok m" and "fresh_submissions es (mem_view m)" and "run_queue mem_apply es m = (log, m')"
    and "\<forall>(c, r)\<in>set log. regular r"
  shows "mem_ok m' \<and> conserves log (mem_view m) (mem_view m')"
  by (rule mq.history_conserves [OF assms])

theorem memory_queue_conserves_witness:
  "mem_ok (snd (run_queue mem_apply [(sample_env, Q_enqueue (sample_job ''a'')), (sample_env, Q_dequeue)]
     (new_mem_queue (Some 2) False None (qe_config sample_env))))"
proof -
  let ?m = "new_mem_queue (Some 2) False None (qe_config sample_env)"
  let ?es = "[(sample_env, Q_enqueue (sample_job ''a'')), (sample_env, Q_dequeue)]"
  have ok: "mem_ok ?m"
    by (simp add: mem_ok_def mem_wf_def v_distinct_def v_jobs_def mem_view_def new_mem_queue_def)
  have fresh: "fresh_submissions ?es (mem_view ?m)"
    by (simp add: fresh_submissions_def sample_job_built v_jobs_def mem_view_def new_mem_queue_def)
  obtain log m' where run: "run_queue mem_apply ?es ?m = (log, m')" by fastforce
  have "\<forall>(c, r)\<in>set log. regular r"
    using run by (auto simp: queue_calls mem_enqueue_def reject_if_full_def put_nowait_def mem_dequeue_def
        pending_depth_def q_full_def new_mem_queue_def)
  from memory_queue_conserves [OF ok fresh run this] run show ?thesis by simp
qed

text \<open>
  The capacity holds against every fault: whatever attempts are lost, repeated or answered
  late, no history of calls other than the recovery of stale jobs takes the main list and the
  delayed set together above the configured size.
\<close>

theorem redis_capacity_bounded:
  assumes "distinct (map fst (rq_delayed (rw_store w)))"
    and "total_pending (rw_store w) \<le> rb_max_queue_size (rw_backend w)"
    and "\<forall>(e, c)\<in>set es. \<forall>t. c \<noteq> Q_requeue t" and "run_queue redis_apply es w = (log, w')"
  shows "total_pending (rw_store w') \<le> rb_max_queue_size (rw_backend w)"
proof -
  let ?n = "rb_max_queue_size (rw_backend w)"
  have "within ?n ?n (snd (run_queue redis_apply es u))" if "within ?n ?n u" for u
    using that assms(3)
  proof (induction es arbitrary: u)
    case (Cons a es)
    obtain e c r u1 where "a = (e, c)" and "redis_apply e c u = (r, u1)" by (metis prod.exhaust)
    moreover from this have "within ?n ?n u1" using apply_keeps [of c ?n ?n u e] Cons.prems by auto
    ultimately show ?case using Cons.IH [of u1] Cons.prems(2) by (auto split: prod.splits)
  qed simp
  from this [of w] assms(1,2,4) show ?thesis by (simp add: within_def)
qed

theorem redis_capacity_bounded_witness:
  "total_pending (rw_store (snd (run_queue redis_apply
     [(sample_env, Q_enqueue (sample_job ''a'')), (sample_env, Q_enqueue (sample_job ''b''))]
     (sample_world [] [Reply_lost, Lost, Reply_lost])))) \<le> 10"
  using redis_capacity_bounded [of "sample_world [] [Reply_lost, Lost, Reply_lost]"
      "[(sample_env, Q_enqueue (sample_job ''a'')), (sample_env, Q_enqueue (sample_job ''b''))]", OF _ _ _ surjective_pairing]
  by (simp add: sample_world_def total_pending_def new_redis_backend_def del: run_queue.simps)

text \<open>
  C22. Neither the pop nor the push survives a fault: when the server fails after the pop and before
  the in-flight entry is written, the job is in no structure and the caller gets an error; when the
  reply to a pop is lost, the retry takes the next job and the first is gone; and when the reply to
  an enqueue is lost, the retry enqueues the job twice and reports success once.
\<close>

theorem faults_lose_and_double_jobs:
  assumes "rq_main s = pre @ [Job_text j]" and "rb_open_until b = 0" and "total_pending s + 1 < rb_max_queue_size b"
  shows "(let (r, w) = redis_dequeue env \<lparr>rw_backend = b, rw_store = s, rw_io = [Done, Lost, Lost, Lost]\<rparr>
      in r = Inl Redis_fault \<and> rw_store w = s\<lparr>rq_main := pre\<rparr>) \<and>
    redis_dequeue env \<lparr>rw_backend = b, rw_store = s, rw_io = [Reply_lost]\<rparr> =
      redis_dequeue env \<lparr>rw_backend = b, rw_store = s\<lparr>rq_main := pre\<rparr>, rw_io = []\<rparr> \<and>
    (let (r, w) = redis_enqueue env k \<lparr>rw_backend = b, rw_store = s, rw_io = [Reply_lost]\<rparr>
      in r = Inr () \<and> rw_store w = s\<lparr>rq_main := to_json k # to_json k # rq_main s\<rparr>)"
proof (intro conjI)
  show "let (r, w) = redis_dequeue env \<lparr>rw_backend = b, rw_store = s, rw_io = [Done, Lost, Lost, Lost]\<rparr>
      in r = Inl Redis_fault \<and> rw_store w = s\<lparr>rq_main := pre\<rparr>"
    using assms(1,2)
    by (simp add: redis_dequeue_def q_bind_def check_circuit_breaker_def run_redis_operation_def numeral_3_eq_3
        rpop_main_def from_json_def rb_record_success_def)
  show "redis_dequeue env \<lparr>rw_backend = b, rw_store = s, rw_io = [Reply_lost]\<rparr> =
      redis_dequeue env \<lparr>rw_backend = b, rw_store = s\<lparr>rq_main := pre\<rparr>, rw_io = []\<rparr>"
    using assms(1,2)
    by (simp add: redis_dequeue_def q_bind_def check_circuit_breaker_def run_redis_operation_def numeral_3_eq_3
        rpop_main_def)
  show "let (r, w) = redis_enqueue env k \<lparr>rw_backend = b, rw_store = s, rw_io = [Reply_lost]\<rparr>
      in r = Inr () \<and> rw_store w = s\<lparr>rq_main := to_json k # to_json k # rq_main s\<rparr>"
    using assms(2,3)
    by (simp add: redis_enqueue_def q_bind_def check_circuit_breaker_def run_redis_operation_def numeral_3_eq_3
        enqueue_with_capacity_def lpush_main_def total_pending_def Let_def rb_record_success_def)
qed

theorem faults_lose_and_double_jobs_witness:
  "(let (r, w) = redis_dequeue sample_env (sample_world [Job_text (sample_job ''a'')] [Done, Lost, Lost, Lost])
    in r = Inl Redis_fault \<and> rq_main (rw_store w) = [])"
  using faults_lose_and_double_jobs [of "rw_store (sample_world [Job_text (sample_job ''a'')] [])" "[]" "sample_job ''a''"
      "new_redis_backend (Some 10) (qe_config sample_env)" sample_env, THEN conjunct1]
  by (simp add: sample_world_def total_pending_def new_redis_backend_def split_beta)

text \<open>
  A degraded process drops its queue when Redis comes back: the in-process backend is replaced, and
  nothing carries its waiting, deferred, running and dead jobs over.
\<close>

lemma reconnect_drops_jobs:
  assumes "qs_instance y = Some (Memory_queue m)" and "mq_degraded m" and "truthy_str (redis_url (qe_config env))"
    and "qs_io y = []"
  shows "\<exists>b. attempt_queue_backend_reconnect env y = (Inr True, y\<lparr>qs_instance := Some (Redis_queue b)\<rparr>)"
  using assms
  by (cases y) (auto simp: attempt_queue_backend_reconnect_def on_redis_def redis_assert_ready_def q_bind_def new_redis_backend_def
      settle_def)

end
