(* ===== verification/Job_Store.thy ===== *)
theory Job_Store
  imports Distributed_Queue Execution_Unit
begin

text \<open>
  What the job system keeps: the table of job logs (\<^verbatim>\<open>db/models/job_log.py\<close>) beside the execution units
  and the system events, the thread pool, the submission semaphore and the distributed queue; and the
  emission of system events (\<^verbatim>\<open>core/system_event_service.py\<close>), which commits or rolls back the session
  of its caller.

  A session is the \<open>db_session\<close> of the prelude: \<open>committed\<close> is what every other session reads. Each
  write that has to become durable, a commit or an event, takes one entry of \<open>jr_io\<close>: \<open>False\<close> means
  that it raises; an exhausted list means that all goes well. Reads succeed. Texts of exceptions are
  the exceptions.
\<close>

section \<open>Tables\<close>

datatype job_error =
    Shutting_down
  | Global_cap int
  | User_cap int
  | Queue_threshold int
  | Slots_full
  | Not_registered string
  | Handler_raised string
  | Interrupted
  | Commit_failed
  | Emission_failed
  | Queue_raised queue_error
  | Never_started

datatype job_result = Job_value pyval | Job_failure job_error

record job_log =
  jl_source :: string
  jl_task_name :: string
  jl_payload :: pyval
  jl_status :: string
  jl_attempt_count :: int
  jl_max_attempts :: int
  jl_error_message :: "job_error option"
  jl_user_id :: "string option"
  jl_result :: "job_result option"
  jl_trace_id :: "string option"
  jl_started_at :: "time_us option"
  jl_completed_at :: "time_us option"
  jl_created_at :: time_us
  jl_scheduled_for :: "time_us option"

record job_db =
  d_logs :: "(string, job_log) dict"
  d_units :: eu_table
  d_events :: "(string \<times> string) list"

text \<open>
  What a thread of the pool runs: \<open>_submit_and_release\<close> of a submission, or \<open>_execute_job\<close> of a retry or
  of a deferred job.
\<close>

datatype pool_task = Submit_and_release string string pyval | Execute_task string string pyval

record job_run =
  jr_db :: "job_db db_session"
  jr_io :: "bool list"
  jr_pool :: "pool_task list"
  jr_slots :: "int option"
  jr_accepting :: bool
  jr_queue :: queue_sys

text \<open>
  The settings and the surroundings of a call: the clock, the environment variables (as the texts they
  hold), the context variables, and what the code asks of the process it runs in.
\<close>

record job_env =
  je_now :: time_us
  je_now_text :: string
  je_queue_env :: queue_env
  je_queue_reason :: string
  je_pipeline :: bool
  je_async_active :: bool
  je_enforce_contract :: bool
  je_fail_closed :: bool
  je_units_ok :: bool
  je_TESTING :: "string option"
  je_TEST_MODE :: "string option"
  je_ASYNC_HEAVY :: "string option"
  je_EXECUTION_MODE :: "string option"
  je_trace_id :: string
  je_eu_id :: string
  je_fresh :: string
  je_backoff_base_ms :: int
  je_backoff_max_ms :: int
  je_backoff_read_ok :: bool

definition env_flag :: "string option \<Rightarrow> bool" where
  "env_flag v = (case v of None \<Rightarrow> False | Some t \<Rightarrow> py_lower t \<in> {''1'', ''true'', ''yes''})"

definition distributed_execution_enabled :: "job_env \<Rightarrow> bool" where
  "distributed_execution_enabled env = (case je_EXECUTION_MODE env of None \<Rightarrow> False | Some t \<Rightarrow> py_lower t = ''distributed'')"

section \<open>Sessions\<close>

definition draw_io :: "job_run \<Rightarrow> bool \<times> job_run" where
  "draw_io s = (case jr_io s of [] \<Rightarrow> (True, s) | ok # rest \<Rightarrow> (ok, s\<lparr>jr_io := rest\<rparr>))"

definition new_session :: "job_run \<Rightarrow> job_run" where
  "new_session s = s\<lparr>jr_db := open_session (committed (jr_db s))\<rparr>"

definition rollback_run :: "job_run \<Rightarrow> job_run" where
  "rollback_run s = s\<lparr>jr_db := rollback_session (jr_db s)\<rparr>"

definition commit_run :: "job_run \<Rightarrow> bool \<times> job_run" where
  "commit_run s =
     (case draw_io s of
        (True, s1) \<Rightarrow> (True, s1\<lparr>jr_db := commit_session (jr_db s1)\<rparr>)
      | (False, s1) \<Rightarrow> (False, s1))"

definition work_on :: "(job_db \<Rightarrow> job_db) \<Rightarrow> job_run \<Rightarrow> job_run" where
  "work_on f s = s\<lparr>jr_db := flush_with f (jr_db s)\<rparr>"

definition log_of :: "string \<Rightarrow> job_run \<Rightarrow> job_log option" where
  "log_of i s = map_of (d_logs (working (jr_db s))) i"

definition edit_log :: "string \<Rightarrow> (job_log \<Rightarrow> job_log) \<Rightarrow> job_run \<Rightarrow> job_run" where
  "edit_log i f =
     work_on (\<lambda>d. case map_of (d_logs d) i of
                     None \<Rightarrow> d
                   | Some l \<Rightarrow> d\<lparr>d_logs := AList.update i (f l) (d_logs d)\<rparr>)"

text \<open>The unit of a job is found by its source and moved, in the same session; errors are swallowed.\<close>

definition mark_unit :: "job_env \<Rightarrow> string \<Rightarrow> string \<Rightarrow> job_run \<Rightarrow> job_run" where
  "mark_unit env i status =
     work_on (\<lambda>d. case get_by_source (je_units_ok env) ''job_log'' i (d_units d) of
                     None \<Rightarrow> d
                   | Some (u, _) \<Rightarrow> d\<lparr>d_units := snd (update_status (je_units_ok env) (je_now env) (Uuid u) status (d_units d))\<rparr>)"

section \<open>System events\<close>

definition persist_system_event :: "string \<Rightarrow> string \<Rightarrow> job_run \<Rightarrow> bool \<times> job_run" where
  "persist_system_event ty trace s =
     commit_run (work_on (\<lambda>d. d\<lparr>d_events := d_events d @ [(ty, trace)]\<rparr>) s)"

definition emission_fallback :: "string \<Rightarrow> job_run \<Rightarrow> job_run" where
  "emission_fallback trace s =
     (case persist_system_event ''error.system_event_failure'' trace (rollback_run s) of
        (True, s1) \<Rightarrow> s1
      | (False, s1) \<Rightarrow> rollback_run s1)"

text \<open>
  \<open>Inr True\<close> is an event id, \<open>Inr False\<close> is \<^verbatim>\<open>None\<close>. The refusal of an \<^verbatim>\<open>execution.\<close> event outside the
  pipeline comes before the \<^verbatim>\<open>try\<close> and leaves the session alone. What follows a persisted event (internal
  handlers, feedback signals, memory capture, webhooks, the scheduler's wake-up) swallows its errors
  and finds a committed session.
\<close>

definition emit_system_event :: "job_env \<Rightarrow> bool \<Rightarrow> string \<Rightarrow> string \<Rightarrow> job_run \<Rightarrow> (job_error + bool) \<times> job_run" where
  "emit_system_event env required ty trace s =
     (if startswith ty ''execution.'' \<and> \<not> je_pipeline env \<and> \<not> je_async_active env \<and> je_enforce_contract env
      then (Inl Emission_failed, s)
      else
        case persist_system_event ty trace s of
          (True, s1) \<Rightarrow> (Inr True, s1)
        | (False, s1) \<Rightarrow>
            if required \<and> je_fail_closed env then (Inl Emission_failed, emission_fallback trace (rollback_run s1))
            else (Inr False, rollback_run s1))"

definition queue_system_event :: "job_env \<Rightarrow> bool \<Rightarrow> string \<Rightarrow> string \<Rightarrow> job_run \<Rightarrow> (job_error + bool) \<times> job_run" where
  "queue_system_event env required ty trace s =
     (if je_pipeline env then (Inr True, s) else emit_system_event env required ty trace s)"

definition emit_error_event :: "job_env \<Rightarrow> string \<Rightarrow> string \<Rightarrow> job_run \<Rightarrow> (job_error + bool) \<times> job_run" where
  "emit_error_event env error_type trace s = queue_system_event env True (''error.'' @ error_type) trace s"

definition emit_async_system_event :: "job_env \<Rightarrow> string \<Rightarrow> string \<Rightarrow> job_run \<Rightarrow> job_run" where
  "emit_async_system_event env ty trace s = snd (emit_system_event env True ty trace s)"

text \<open>An event emitted in a session of its own: the session of the caller keeps what it has pending.\<close>

definition emit_apart :: "job_env \<Rightarrow> bool \<Rightarrow> string \<Rightarrow> string \<Rightarrow> job_run \<Rightarrow> job_run" where
  "emit_apart env required ty trace s =
     (let s1 = snd (emit_system_event env required ty trace (new_session s)); d = committed (jr_db s1)
      in s1\<lparr>jr_db := \<lparr>committed = d, working = (working (jr_db s))\<lparr>d_events := d_events d\<rparr>\<rparr>\<rparr>)"

section \<open>The queue behind its singleton\<close>

definition with_queue ::
    "queue_env \<Rightarrow> string \<Rightarrow> (redis_world, 'a) queue_call \<Rightarrow> (mem_queue, 'a) queue_call \<Rightarrow> (queue_sys, 'a) queue_call" where
  "with_queue env reason on_r on_m y =
     (case get_queue env reason y of
        (Inl e, y1) \<Rightarrow> (Inl e, y1)
      | (Inr (Redis_queue b), y1) \<Rightarrow>
          (case on_redis b on_r y1 of (r, b', y2) \<Rightarrow> (r, y2\<lparr>qs_instance := Some (Redis_queue b')\<rparr>))
      | (Inr (Memory_queue m), y1) \<Rightarrow>
          (case on_m m of (r, m') \<Rightarrow> (r, y1\<lparr>qs_instance := Some (Memory_queue m')\<rparr>)))"

definition on_queue ::
    "job_env \<Rightarrow> (redis_world, 'a) queue_call \<Rightarrow> (mem_queue, 'a) queue_call \<Rightarrow> job_run \<Rightarrow> (queue_error + 'a) \<times> job_run" where
  "on_queue env on_r on_m s =
     (case with_queue (je_queue_env env) (je_queue_reason env) on_r on_m (jr_queue s) of
        (r, y) \<Rightarrow> (r, s\<lparr>jr_queue := y\<rparr>))"

section \<open>Facts\<close>

text \<open>
  The logs and events a session sees, and the committed ones. A run is \<open>durable\<close> when no write fails any
  more, and \<open>settled\<close> when its session has nothing pending.
\<close>

abbreviation seen_logs :: "job_run \<Rightarrow> (string, job_log) dict" where
  "seen_logs s \<equiv> d_logs (working (jr_db s))"

abbreviation stored_logs :: "job_run \<Rightarrow> (string, job_log) dict" where
  "stored_logs s \<equiv> d_logs (committed (jr_db s))"

abbreviation seen_events :: "job_run \<Rightarrow> (string \<times> string) list" where
  "seen_events s \<equiv> d_events (working (jr_db s))"

abbreviation stored_events :: "job_run \<Rightarrow> (string \<times> string) list" where
  "stored_events s \<equiv> d_events (committed (jr_db s))"

definition durable :: "job_run \<Rightarrow> bool" where
  "durable s = (jr_io s = [])"

definition settled :: "job_run \<Rightarrow> bool" where
  "settled s = (working (jr_db s) = committed (jr_db s))"

definition contract_blocks :: "job_env \<Rightarrow> string \<Rightarrow> bool" where
  "contract_blocks env ty =
     (startswith ty ''execution.'' \<and> \<not> je_pipeline env \<and> \<not> je_async_active env \<and> je_enforce_contract env)"

named_theorems jobs \<open>what each step of the job system does to the state\<close>

lemmas session_defs = open_session_def flush_with_def commit_session_def rollback_session_def

lemma new_session_view [jobs]:
  "committed (jr_db (new_session s)) = committed (jr_db s)" "working (jr_db (new_session s)) = committed (jr_db s)"
  "jr_io (new_session s) = jr_io s" "jr_pool (new_session s) = jr_pool s" "jr_slots (new_session s) = jr_slots s"
  "jr_accepting (new_session s) = jr_accepting s" "jr_queue (new_session s) = jr_queue s"
  by (simp_all add: new_session_def open_session_def)

lemma rollback_run_view [jobs]:
  "committed (jr_db (rollback_run s)) = committed (jr_db s)" "working (jr_db (rollback_run s)) = committed (jr_db s)"
  "jr_io (rollback_run s) = jr_io s" "jr_pool (rollback_run s) = jr_pool s" "jr_slots (rollback_run s) = jr_slots s"
  "jr_accepting (rollback_run s) = jr_accepting s" "jr_queue (rollback_run s) = jr_queue s"
  by (simp_all add: rollback_run_def rollback_session_def)

lemma work_on_view [jobs]:
  "committed (jr_db (work_on f s)) = committed (jr_db s)" "working (jr_db (work_on f s)) = f (working (jr_db s))"
  "jr_io (work_on f s) = jr_io s" "jr_pool (work_on f s) = jr_pool s" "jr_slots (work_on f s) = jr_slots s"
  "jr_accepting (work_on f s) = jr_accepting s" "jr_queue (work_on f s) = jr_queue s"
  by (simp_all add: work_on_def flush_with_def)

lemma edit_log_view [jobs]:
  "committed (jr_db (edit_log i f s)) = committed (jr_db s)"
  "seen_logs (edit_log i f s) =
     (case map_of (seen_logs s) i of None \<Rightarrow> seen_logs s | Some l \<Rightarrow> AList.update i (f l) (seen_logs s))"
  "seen_events (edit_log i f s) = seen_events s" "d_units (working (jr_db (edit_log i f s))) = d_units (working (jr_db s))"
  "jr_io (edit_log i f s) = jr_io s" "jr_pool (edit_log i f s) = jr_pool s" "jr_slots (edit_log i f s) = jr_slots s"
  "jr_accepting (edit_log i f s) = jr_accepting s" "jr_queue (edit_log i f s) = jr_queue s"
  by (simp_all add: edit_log_def jobs split: option.split)

lemma mark_unit_view [jobs]:
  "committed (jr_db (mark_unit env i st s)) = committed (jr_db s)"
  "seen_logs (mark_unit env i st s) = seen_logs s" "seen_events (mark_unit env i st s) = seen_events s"
  "jr_io (mark_unit env i st s) = jr_io s" "jr_pool (mark_unit env i st s) = jr_pool s"
  "jr_slots (mark_unit env i st s) = jr_slots s" "jr_accepting (mark_unit env i st s) = jr_accepting s"
  "jr_queue (mark_unit env i st s) = jr_queue s"
  by (simp_all add: mark_unit_def jobs split: option.split prod.split)

lemma durable_commit: "durable s \<Longrightarrow> commit_run s = (True, s\<lparr>jr_db := commit_session (jr_db s)\<rparr>)"
  by (simp add: durable_def commit_run_def draw_io_def)

lemma durable_emission:
  assumes "durable s"
  shows "emit_system_event env required ty trace s =
    (if contract_blocks env ty then (Inl Emission_failed, s)
     else (Inr True, s\<lparr>jr_db := commit_session (flush_with (\<lambda>d. d\<lparr>d_events := d_events d @ [(ty, trace)]\<rparr>) (jr_db s))\<rparr>))"
  using assms
  by (simp add: emit_system_event_def contract_blocks_def persist_system_event_def durable_commit durable_def work_on_def)

lemma emit_durable [jobs]:
  assumes "durable s"
  shows "durable (emit_async_system_event env ty trace s)"
    and "seen_logs (emit_async_system_event env ty trace s) = seen_logs s"
    and "stored_logs (emit_async_system_event env ty trace s) = (if contract_blocks env ty then stored_logs s else seen_logs s)"
    and "seen_events (emit_async_system_event env ty trace s) =
      (if contract_blocks env ty then seen_events s else seen_events s @ [(ty, trace)])"
    and "stored_events (emit_async_system_event env ty trace s) =
      (if contract_blocks env ty then stored_events s else seen_events s @ [(ty, trace)])"
    and "jr_pool (emit_async_system_event env ty trace s) = jr_pool s"
    and "jr_slots (emit_async_system_event env ty trace s) = jr_slots s"
    and "jr_accepting (emit_async_system_event env ty trace s) = jr_accepting s"
    and "jr_queue (emit_async_system_event env ty trace s) = jr_queue s"
  using assms by (simp_all add: emit_async_system_event_def durable_emission durable_def session_defs)

end
