(* ===== verification/Execution_Dispatcher.thy ===== *)
theory Execution_Dispatcher
  imports Job_Store
begin

text \<open>
  \<^verbatim>\<open>core/execution_dispatcher.py\<close>: the decision whether a piece of work runs inline or not, the payload of
  a distributed job with its back-off, and \<open>dispatch\<close>. The object dispatched is read through the
  attributes the code asks for; the context dictionary through its keys.
\<close>

section \<open>The mode\<close>

datatype execution_mode = INLINE | ASYNC

record unit_view =
  uv_type :: "string option"
  uv_priority :: "string option"
  uv_id :: "string option"
  uv_user_id :: "string option"
  uv_extra :: "(string, pyval) dict option"

definition ASYNC_EU_TYPES :: "string list" where
  "ASYNC_EU_TYPES = [''flow'', ''agent'', ''nodus'', ''job'']"

definition JOB_DISPATCH_STUB :: unit_view where
  "JOB_DISPATCH_STUB =
     \<lparr>uv_type = Some ''job'', uv_priority = Some ''normal'', uv_id = None, uv_user_id = None,
      uv_extra = Some [(''async_hint'', PBool True)]\<rparr>"

definition async_heavy_execution_enabled :: "job_env \<Rightarrow> bool" where
  "async_heavy_execution_enabled env =
     (if env_flag (je_TESTING env) then False
      else if env_flag (je_TEST_MODE env) then False
      else env_flag (je_ASYNC_HEAVY env))"

definition lowered :: "string option \<Rightarrow> string" where
  "lowered t = (case t of None \<Rightarrow> [] | Some x \<Rightarrow> py_lower x)"

definition decide_mode :: "job_env \<Rightarrow> unit_view \<Rightarrow> execution_mode" where
  "decide_mode env u =
     (let hint = (case uv_extra u of None \<Rightarrow> None | Some d \<Rightarrow> map_of d ''async_hint'') in
      if hint = Some (PBool True) then ASYNC
      else if \<not> async_heavy_execution_enabled env then INLINE
      else if hint = Some (PBool False) then INLINE
      else if lowered (uv_priority u) = ''high'' then ASYNC
      else if lowered (uv_type u) \<in> set ASYNC_EU_TYPES then ASYNC
      else INLINE)"

section \<open>The distributed path\<close>

record dispatch_context =
  dc_log_id :: "string option"
  dc_operation_name :: "string option"
  dc_task_name :: "string option"
  dc_user_id :: "string option"
  dc_retry :: bool
  dc_attempt_count :: "int option"
  dc_max_attempts :: "int option"

definition in_test :: "job_env \<Rightarrow> bool" where
  "in_test env = (env_flag (je_TESTING env) \<or> env_flag (je_TEST_MODE env))"

definition queue_payload :: "job_env \<Rightarrow> unit_view \<Rightarrow> dispatch_context \<Rightarrow> queue_job" where
  "queue_payload env u c =
     (let eu_id = or_str (Some (je_eu_id env)) (or_str (uv_id u) []);
          job_id = or_str (dc_log_id c) (or_str (Some eu_id) (je_fresh env));
          operation_name = or_str (dc_operation_name c) (case dc_task_name c of None \<Rightarrow> [] | Some t \<Rightarrow> t);
          task_name = or_str (dc_task_name c) operation_name
      in job_post_init
           \<lparr>qj_job_id = job_id, qj_task_name = task_name, qj_idempotency_key = [],
            qj_context =
              [(''trace_id'', PStr (je_trace_id env)), (''eu_id'', PStr eu_id),
               (''user_id'', PStr (or_str (dc_user_id c) (or_str (uv_user_id u) []))),
               (''operation_name'', PStr operation_name)],
            qj_retry_metadata =
              [(''attempt_count'', PInt (case dc_attempt_count c of None \<Rightarrow> 0 | Some n \<Rightarrow> n)),
               (''max_attempts'', PInt (case dc_max_attempts c of None \<Rightarrow> 1 | Some n \<Rightarrow> n)),
               (''is_retry'', PBool (dc_retry c))],
            qj_enqueued_at = je_now_text env\<rparr>)"

text \<open>The delay in milliseconds; the attempt count is read in a session of its own.\<close>

definition compute_retry_delay :: "job_env \<Rightarrow> string \<Rightarrow> job_run \<Rightarrow> int" where
  "compute_retry_delay env i s =
     (let attempt =
            (if \<not> je_backoff_read_ok env then 1
             else case map_of (d_logs (committed (jr_db s))) i of
                    None \<Rightarrow> 1
                  | Some l \<Rightarrow> max 1 (if jl_attempt_count l = 0 then 1 else jl_attempt_count l))
      in min (je_backoff_base_ms env * 2 ^ nat (attempt - 1)) (je_backoff_max_ms env))"

definition enqueue_distributed :: "job_env \<Rightarrow> unit_view \<Rightarrow> dispatch_context \<Rightarrow> job_run \<Rightarrow> (queue_error + unit) \<times> job_run" where
  "enqueue_distributed env u c s =
     (let j = queue_payload env u c;
          s1 = (if in_test env then s else emit_apart env False ''job_enqueued'' (je_trace_id env) s);
          delay = compute_retry_delay env (qj_job_id j) s1
      in if dc_retry c \<and> 0 < delay
         then on_queue env (redis_enqueue_delayed (je_queue_env env) j (delay * 1000)) (mem_enqueue_delayed j) s1
         else on_queue env (redis_enqueue (je_queue_env env) j) (mem_enqueue j) s1)"

section \<open>Dispatch\<close>

text \<open>
  The branch for \<open>ASYNC\<close> stands alone because the job service calls \<open>dispatch\<close> on the stub, which always
  takes it, from inside the handler it hands over.
\<close>

definition dispatch_async ::
    "job_env \<Rightarrow> unit_view \<Rightarrow> pool_task \<Rightarrow> dispatch_context \<Rightarrow> job_run \<Rightarrow> (queue_error + unit) \<times> job_run" where
  "dispatch_async env u task c s =
     (if distributed_execution_enabled env then enqueue_distributed env u c s
      else (Inr (), s\<lparr>jr_pool := jr_pool s @ [task]\<rparr>))"

record dispatch_result =
  dr_mode :: execution_mode
  dr_envelope :: "pyval option"
  dr_meta :: dispatch_context

definition dispatch_unit ::
    "job_env \<Rightarrow> unit_view \<Rightarrow> (job_run \<Rightarrow> (job_error + pyval) \<times> job_run) \<Rightarrow> pool_task \<Rightarrow> dispatch_context \<Rightarrow> job_run \<Rightarrow>
     (job_error + dispatch_result) \<times> job_run" where
  "dispatch_unit env u handler_fn task c s =
     (case decide_mode env u of
        INLINE \<Rightarrow>
          (case handler_fn s of
             (Inl e, s1) \<Rightarrow> (Inl e, s1)
           | (Inr v, s1) \<Rightarrow> (Inr \<lparr>dr_mode = INLINE, dr_envelope = Some v, dr_meta = c\<rparr>, s1))
      | ASYNC \<Rightarrow>
          (case dispatch_async env u task c s of
             (Inl e, s1) \<Rightarrow> (Inl (Queue_raised e), s1)
           | (Inr _, s1) \<Rightarrow> (Inr \<lparr>dr_mode = ASYNC, dr_envelope = None, dr_meta = c\<rparr>, s1)))"

section \<open>Facts\<close>

lemma stub_is_async [simp]: "decide_mode env JOB_DISPATCH_STUB = ASYNC"
  by (simp add: decide_mode_def JOB_DISPATCH_STUB_def)

end
