(* ===== verification/Async_Job.thy ===== *)
theory Async_Job
  imports Execution_Dispatcher
begin

text \<open>
  \<^verbatim>\<open>platform_layer/async_job_service.py\<close>: admission, submission, deferral and execution of background
  jobs, the stale-log sweep of \<^verbatim>\<open>platform_layer/scheduler_service.py\<close>, and the two public entries of the
  dispatcher that submit jobs.

  A registered handler is a function of the payload and of the session it is given, since it may
  commit or roll back that session; how it ends is an \<open>outcome\<close>. The evaluation of autonomous triggers
  (\<^verbatim>\<open>agents/autonomous_controller.py\<close>) is a parameter. Identifiers and times come with the call.
\<close>

section \<open>Envelopes\<close>

definition execution_success :: "pyval \<Rightarrow> string \<Rightarrow> pyval" where
  "execution_success result trace_id =
     PDict [(''status'', PStr ''SUCCESS''), (''data'', result), (''result'', result), (''events'', PList []),
            (''next_action'', PNone), (''trace_id'', PStr trace_id)]"

definition is_execution_envelope :: "pyval \<Rightarrow> bool" where
  "is_execution_envelope v =
     (case v of
        PDict d \<Rightarrow> list_all (\<lambda>k. k \<in> set (map fst d)) [''status'', ''result'', ''events'', ''next_action'', ''trace_id'']
      | _ \<Rightarrow> False)"

section \<open>Service state\<close>

definition start_async_job_service :: "job_run \<Rightarrow> job_run" where
  "start_async_job_service s = s\<lparr>jr_accepting := True\<rparr>"

text \<open>Stopping shuts the pool down without cancelling what it holds; only a forced shutdown drops it.\<close>

definition stop_async_job_service :: "bool \<Rightarrow> job_run \<Rightarrow> job_run" where
  "stop_async_job_service reopen s =
     (let s1 = s\<lparr>jr_accepting := False\<rparr> in if reopen then start_async_job_service s1 else s1)"

definition shutdown_async_jobs :: "bool \<Rightarrow> job_run \<Rightarrow> job_run" where
  "shutdown_async_jobs wait s =
     (if wait then stop_async_job_service True s else start_async_job_service (s\<lparr>jr_pool := []\<rparr>))"

record job_limits =
  lim_global :: int_setting
  lim_per_user :: int_setting
  lim_semaphore :: int

definition ACTIVE_JOB_STATUSES :: "string list" where
  "ACTIVE_JOB_STATUSES = [''pending'', ''running'', ''deferred'']"

definition active_jobs :: "job_db \<Rightarrow> job_log list" where
  "active_jobs d = filter (\<lambda>l. jl_status l \<in> set ACTIVE_JOB_STATUSES) (map snd (d_logs d))"

definition enforce_job_admission_limits :: "job_limits \<Rightarrow> string option \<Rightarrow> job_run \<Rightarrow> job_error option" where
  "enforce_job_admission_limits c user s =
     (let active = active_jobs (working (jr_db s));
          global_cap = safe_int_env (lim_global c) 0;
          per_user_cap = safe_int_env (lim_per_user c) 0
      in if 0 < global_cap \<and> global_cap \<le> int (length active) then Some (Global_cap global_cap)
         else if 0 < per_user_cap \<and> user \<noteq> None \<and>
                 per_user_cap \<le> int (length (filter (\<lambda>l. jl_user_id l = user) active)) then Some (User_cap per_user_cap)
         else None)"

definition enforce_distributed_queue_backpressure :: "job_env \<Rightarrow> job_run \<Rightarrow> job_error option \<times> job_run" where
  "enforce_distributed_queue_backpressure env s =
     (if \<not> distributed_execution_enabled env then (None, s)
      else
        let q = je_queue_env env in
        case on_queue env (redis_get_metrics q) (\<lambda>m. (Inr (mem_get_metrics (qe_config q) m), m)) s of
          (Inl e, s1) \<Rightarrow> (Some (Queue_raised e), s1)
        | (Inr m, s1) \<Rightarrow>
            (if qm_saturation_threshold m \<le> int (qm_total_pending_jobs m) then Some (Queue_threshold (qm_saturation_threshold m))
             else None, s1))"

section \<open>Root events\<close>

definition has_existing_execution_started :: "string \<Rightarrow> job_run \<Rightarrow> bool" where
  "has_existing_execution_started trace s = ((''execution.started'', trace) \<in> set (d_events (working (jr_db s))))"

definition ensure_root_execution_event :: "job_env \<Rightarrow> string \<Rightarrow> job_run \<Rightarrow> job_run" where
  "ensure_root_execution_event env trace s =
     (if has_existing_execution_started trace s then s else emit_async_system_event env ''execution.started'' trace s)"

section \<open>Execution\<close>

type_synonym job_handler = "pyval \<Rightarrow> job_db db_session \<Rightarrow> pyval outcome \<times> job_db db_session"

type_synonym job_registry = "string \<Rightarrow> job_handler option"

definition retry_context :: "string \<Rightarrow> job_log \<Rightarrow> dispatch_context" where
  "retry_context i l =
     \<lparr>dc_log_id = Some i, dc_operation_name = None, dc_task_name = None, dc_user_id = jl_user_id l, dc_retry = True,
      dc_attempt_count = None, dc_max_attempts = None\<rparr>"

text \<open>The last part of the failure branch: the job has no attempt left.\<close>

definition finish_failed :: "job_env \<Rightarrow> job_error \<Rightarrow> string \<Rightarrow> job_run \<Rightarrow> (job_error + unit) \<times> job_run" where
  "finish_failed env err i s =
     (let s1 = edit_log i (\<lambda>l. l\<lparr>jl_status := ''failed'', jl_error_message := Some err,
                                jl_result := Some (Job_failure err), jl_completed_at := Some (je_now env)\<rparr>) s;
          s2 = mark_unit env i ''failed'' s1;
          s3 = (if has_existing_execution_started i s2 then emit_async_system_event env ''async_job.failed'' i s2 else s2);
          s4 = emit_async_system_event env ''execution.failed'' i s3
      in case emit_error_event env ''async_job_execution'' i s4 of
           (Inl e, s5) \<Rightarrow> (Inl e, s5)
         | (Inr _, s5) \<Rightarrow>
             (case commit_run s5 of (True, s6) \<Rightarrow> (Inr (), s6) | (False, s6) \<Rightarrow> (Inl Commit_failed, s6)))"

definition after_exception ::
    "job_env \<Rightarrow> job_error \<Rightarrow> string \<Rightarrow> string \<Rightarrow> pyval \<Rightarrow> job_run \<Rightarrow> (job_error + unit) \<times> job_run" where
  "after_exception env err i task payload s =
     (let s1 = rollback_run s in
      case log_of i s1 of
        None \<Rightarrow> (Inr (), s1)
      | Some l \<Rightarrow>
          if jl_attempt_count l < jl_max_attempts l
          then
            (case commit_run (edit_log i (\<lambda>l. l\<lparr>jl_status := ''pending'', jl_error_message := Some err\<rparr>) s1) of
               (False, s2) \<Rightarrow> (Inl Commit_failed, s2)
             | (True, s2) \<Rightarrow>
                 (case dispatch_async env JOB_DISPATCH_STUB (Execute_task i task payload) (retry_context i l) s2 of
                    (Inl e, s3) \<Rightarrow> (Inl (Queue_raised e), s3)
                  | (Inr _, s3) \<Rightarrow> (Inr (), s3)))
          else finish_failed env err i s1)"

definition begin_attempt :: "job_env \<Rightarrow> bool \<Rightarrow> string \<Rightarrow> job_run \<Rightarrow> job_run" where
  "begin_attempt env queued i s =
     (let s1 = edit_log i (\<lambda>l. l\<lparr>jl_status := ''running'', jl_started_at := Some (je_now env),
                                jl_attempt_count := jl_attempt_count l + 1\<rparr>) s;
          s2 = mark_unit env i ''executing'' s1
      in if queued then emit_async_system_event env ''async_job.started'' i s2 else s2)"

definition record_success_of :: "job_env \<Rightarrow> bool \<Rightarrow> string \<Rightarrow> pyval \<Rightarrow> job_run \<Rightarrow> job_run" where
  "record_success_of env queued i v s =
     (let result = (if is_execution_envelope v then v else execution_success v i);
          s1 = edit_log i (\<lambda>l. l\<lparr>jl_status := ''success'', jl_result := Some (Job_value result),
                                jl_completed_at := Some (je_now env)\<rparr>) s;
          s2 = mark_unit env i ''completed'' s1;
          s3 = (if queued then emit_async_system_event env ''async_job.completed'' i s2 else s2)
      in emit_async_system_event env ''execution.completed'' i s3)"

definition execute_job_inline ::
    "job_env \<Rightarrow> job_registry \<Rightarrow> string \<Rightarrow> string \<Rightarrow> pyval \<Rightarrow> job_run \<Rightarrow> (job_error + unit) \<times> job_run" where
  "execute_job_inline env reg i task payload s =
     (let s1 = ensure_root_execution_event env i s in
      case log_of i s1 of
        None \<Rightarrow> (Inr (), s1)
      | Some _ \<Rightarrow>
          (case reg task of
             None \<Rightarrow> after_exception env (Not_registered task) i task payload s1
           | Some handler \<Rightarrow>
               let queued = has_existing_execution_started i s1;
                   s2 = begin_attempt env queued i s1;
                   (out, db) = handler payload (jr_db s2);
                   s3 = s2\<lparr>jr_db := db\<rparr>
               in case out of
                    Raises e \<Rightarrow> after_exception env (Handler_raised e) i task payload s3
                  | Interrupts \<Rightarrow>
                      (case commit_run s3 of
                         (True, s4) \<Rightarrow> (Inl Interrupted, s4)
                       | (False, s4) \<Rightarrow> after_exception env Commit_failed i task payload s4)
                  | Returns v \<Rightarrow>
                      (case commit_run (record_success_of env queued i v s3) of
                         (True, s4) \<Rightarrow> (Inr (), s4)
                       | (False, s4) \<Rightarrow> after_exception env Commit_failed i task payload s4)))"

definition execute_job ::
    "job_env \<Rightarrow> job_registry \<Rightarrow> string \<Rightarrow> string \<Rightarrow> pyval \<Rightarrow> job_run \<Rightarrow> (job_error + unit) \<times> job_run" where
  "execute_job env reg i task payload s =
     (case execute_job_inline env reg i task payload (new_session s) of (r, s1) \<Rightarrow> (r, new_session s1))"

text \<open>A thread of the pool takes the oldest task. The slot of a submission is released however it ends.\<close>

definition release_slot :: "job_run \<Rightarrow> job_run" where
  "release_slot s = s\<lparr>jr_slots := map_option (\<lambda>n. n + 1) (jr_slots s)\<rparr>"

definition run_pool_task :: "job_env \<Rightarrow> job_registry \<Rightarrow> job_run \<Rightarrow> job_run" where
  "run_pool_task env reg s =
     (case jr_pool s of
        [] \<Rightarrow> s
      | Execute_task i task payload # rest \<Rightarrow> snd (execute_job env reg i task payload (s\<lparr>jr_pool := rest\<rparr>))
      | Submit_and_release i task payload # rest \<Rightarrow>
          release_slot (snd (execute_job env reg i task payload (s\<lparr>jr_pool := rest\<rparr>))))"

section \<open>Submission\<close>

record job_request =
  rq_task_name :: string
  rq_payload :: pyval
  rq_user :: "string option"
  rq_source :: string
  rq_max_attempts :: int
  rq_inline_in_test :: bool

record job_process =
  pr_force_inline :: bool
  pr_background_runner :: bool
  pr_sqlite :: bool
  pr_test_mode :: bool
  pr_limits :: job_limits

definition new_job_log :: "job_env \<Rightarrow> job_request \<Rightarrow> string \<Rightarrow> string \<Rightarrow> int \<Rightarrow> time_us option \<Rightarrow> job_log" where
  "new_job_log env a i status attempts at =
     \<lparr>jl_source = rq_source a, jl_task_name = rq_task_name a, jl_payload = rq_payload a, jl_status = status,
      jl_attempt_count = 0, jl_max_attempts = attempts, jl_error_message = None, jl_user_id = rq_user a,
      jl_result = None, jl_trace_id = Some i, jl_started_at = None, jl_completed_at = None,
      jl_created_at = je_now env, jl_scheduled_for = at\<rparr>"

definition add_log :: "string \<Rightarrow> job_log \<Rightarrow> job_run \<Rightarrow> job_run" where
  "add_log i l = work_on (\<lambda>d. d\<lparr>d_logs := AList.update i l (d_logs d)\<rparr>)"

definition job_unit :: "job_request \<Rightarrow> string \<Rightarrow> eu_new" where
  "job_unit a i =
     \<lparr>new_type = ''job'', new_user_id = (case rq_user a of None \<Rightarrow> No_ref | Some u \<Rightarrow> Uuid u),
      new_source_type = Some ''job_log'', new_source_id = Some i, new_parent_id = No_ref, new_flow_run_id = None,
      new_correlation_id = Some i,
      new_extra = Some (PDict [(''task_name'', PStr (rq_task_name a)), (''source'', PStr (rq_source a)),
                               (''workflow_type'', PStr (rq_task_name a))]),
      new_status = ''pending''\<rparr>"

text \<open>The unit of a job is created in a transaction of its own, and its failure is swallowed.\<close>

definition create_job_unit :: "job_env \<Rightarrow> job_request \<Rightarrow> string \<Rightarrow> job_run \<Rightarrow> job_run" where
  "create_job_unit env a i s =
     (case commit_run (work_on (\<lambda>d. d\<lparr>d_units := snd (eu_create (je_units_ok env) (je_now env) (je_fresh env) (job_unit a i) (d_units d))\<rparr>) s) of
        (True, s1) \<Rightarrow> s1
      | (False, s1) \<Rightarrow> rollback_run s1)"

text \<open>The guard in the \<^verbatim>\<open>finally\<close> of the inline fallback.\<close>

definition inline_terminal_guard :: "job_env \<Rightarrow> string \<Rightarrow> job_run \<Rightarrow> job_run" where
  "inline_terminal_guard env i s =
     (case log_of i s of
        None \<Rightarrow> s
      | Some l \<Rightarrow>
          if jl_status l \<in> {''success'', ''failed''} then s
          else
            case commit_run (edit_log i
                   (\<lambda>l. l\<lparr>jl_status := ''success'',
                          jl_completed_at := (case jl_completed_at l of None \<Rightarrow> Some (je_now env) | Some t \<Rightarrow> Some t)\<rparr>) s) of
              (True, s1) \<Rightarrow> s1
            | (False, s1) \<Rightarrow> rollback_run s1)"

text \<open>The outer \<^verbatim>\<open>except\<close>: the row is marked, the events carry the mark into the database, the rest is rolled back.\<close>

definition submission_failed :: "job_env \<Rightarrow> job_error \<Rightarrow> string \<Rightarrow> job_run \<Rightarrow> job_error \<times> job_run" where
  "submission_failed env err i s =
     (case log_of i s of
        None \<Rightarrow> (err, rollback_run s)
      | Some _ \<Rightarrow>
          let s1 = edit_log i (\<lambda>l. l\<lparr>jl_status := ''failed'', jl_error_message := Some err,
                                    jl_completed_at := Some (je_now env)\<rparr>) s;
              s2 = emit_async_system_event env ''execution.failed'' i s1
          in case emit_error_event env ''async_job_submission'' i s2 of
               (Inl e, s3) \<Rightarrow> (e, rollback_run s3)
             | (Inr _, s3) \<Rightarrow> (err, rollback_run s3))"

definition raise_submission :: "job_env \<Rightarrow> string \<Rightarrow> job_error \<times> job_run \<Rightarrow> (job_error + string) \<times> job_run" where
  "raise_submission env i x = (case submission_failed env (fst x) i (snd x) of (e, s) \<Rightarrow> (Inl e, s))"

definition get_job_semaphore :: "job_limits \<Rightarrow> job_run \<Rightarrow> int" where
  "get_job_semaphore c s = (case jr_slots s of None \<Rightarrow> lim_semaphore c | Some n \<Rightarrow> n)"

definition submit_context :: "job_request \<Rightarrow> string \<Rightarrow> dispatch_context" where
  "submit_context a i =
     \<lparr>dc_log_id = Some i, dc_operation_name = None, dc_task_name = Some (rq_task_name a), dc_user_id = rq_user a,
      dc_retry = False, dc_attempt_count = None, dc_max_attempts = None\<rparr>"

text \<open>Handing the job over, once its row is there and it is not to run inline.\<close>

definition hand_over :: "job_env \<Rightarrow> job_process \<Rightarrow> job_request \<Rightarrow> string \<Rightarrow> job_run \<Rightarrow> (job_error + string) \<times> job_run" where
  "hand_over env p a i s =
     (let free = get_job_semaphore (pr_limits p) s in
      if free \<le> 0
      then
        (case commit_run (edit_log i (\<lambda>l. l\<lparr>jl_status := ''failed'', jl_error_message := Some Slots_full,
                                           jl_completed_at := Some (je_now env)\<rparr>) (s\<lparr>jr_slots := Some free\<rparr>)) of
           (True, s1) \<Rightarrow> raise_submission env i (Slots_full, s1)
         | (False, s1) \<Rightarrow> raise_submission env i (Commit_failed, s1))
      else
        let s1 = s\<lparr>jr_slots := Some (free - 1)\<rparr> in
        if distributed_execution_enabled env
        then
          (case dispatch_async env JOB_DISPATCH_STUB (Execute_task i (rq_task_name a) (rq_payload a)) (submit_context a i) s1 of
             (Inl e, s2) \<Rightarrow> raise_submission env i (Queue_raised e, release_slot s2)
           | (Inr _, s2) \<Rightarrow> (Inr i, release_slot s2))
        else (Inr i, s1\<lparr>jr_pool := jr_pool s1 @ [Submit_and_release i (rq_task_name a) (rq_payload a)]\<rparr>))"

definition run_inline :: "job_env \<Rightarrow> job_registry \<Rightarrow> job_request \<Rightarrow> string \<Rightarrow> job_run \<Rightarrow> (job_error + string) \<times> job_run" where
  "run_inline env reg a i s =
     (case execute_job_inline env reg i (rq_task_name a) (rq_payload a) s of
        (Inr _, s1) \<Rightarrow> (Inr i, inline_terminal_guard env i s1)
      | (Inl Interrupted, s1) \<Rightarrow> (Inl Interrupted, inline_terminal_guard env i s1)
      | (Inl e, s1) \<Rightarrow> raise_submission env i (e, inline_terminal_guard env i s1))"

definition inline_enabled :: "job_env \<Rightarrow> job_process \<Rightarrow> job_request \<Rightarrow> bool" where
  "inline_enabled env p a =
     (let runner_disabled = (\<not> pr_background_runner p \<and> \<not> distributed_execution_enabled env)
      in pr_force_inline p \<or> runner_disabled \<or> rq_inline_in_test a \<and> pr_sqlite p)"

definition admission :: "job_env \<Rightarrow> job_process \<Rightarrow> job_request \<Rightarrow> job_run \<Rightarrow> job_error option \<times> job_run" where
  "admission env p a s =
     (if inline_enabled env p a then (None, s)
      else
        case enforce_job_admission_limits (pr_limits p) (rq_user a) s of
          Some e \<Rightarrow> (Some e, s)
        | None \<Rightarrow> enforce_distributed_queue_backpressure env s)"

text \<open>What follows once the row is stored.\<close>

definition launch_job ::
    "job_env \<Rightarrow> job_registry \<Rightarrow> job_process \<Rightarrow> job_request \<Rightarrow> string \<Rightarrow> job_run \<Rightarrow> (job_error + string) \<times> job_run" where
  "launch_job env reg p a i s =
     (let s1 = create_job_unit env a i s;
          s2 = emit_async_system_event env ''execution.started'' i s1
      in if inline_enabled env p a then run_inline env reg a i s2
         else if \<not> rq_inline_in_test a then (Inr i, s2)
         else hand_over env p a i s2)"

definition submit_async_job ::
    "job_env \<Rightarrow> job_registry \<Rightarrow> job_process \<Rightarrow> job_request \<Rightarrow> string \<Rightarrow> job_run \<Rightarrow> (job_error + string) \<times> job_run" where
  "submit_async_job env reg p a i s =
     (if \<not> jr_accepting s then (Inl Shutting_down, s)
      else
        case admission env p a (new_session s) of
          (Some e, s1) \<Rightarrow> (Inl e, s1)
        | (None, s1) \<Rightarrow>
            (case commit_run (add_log i (new_job_log env a i ''pending'' (rq_max_attempts a) None) s1) of
               (False, s2) \<Rightarrow> (Inl Commit_failed, rollback_run s2)
             | (True, s2) \<Rightarrow> (case launch_job env reg p a i s2 of (r, s3) \<Rightarrow> (r, new_session s3))))"

section \<open>Deferral\<close>

datatype live_decision = Ignore_job | Defer_job int | Execute_now

text \<open>\<open>int(decision.get("defer_seconds") or 300)\<close>; times are microseconds.\<close>

definition defer_until :: "time_us \<Rightarrow> int \<Rightarrow> time_us" where
  "defer_until now secs = now + (if secs = 0 then 300 else secs) * 1000000"

definition defer_async_job :: "job_env \<Rightarrow> job_request \<Rightarrow> int \<Rightarrow> string \<Rightarrow> job_run \<Rightarrow> (job_error + string) \<times> job_run" where
  "defer_async_job env a secs i s =
     (case commit_run (add_log i (new_job_log env a i ''deferred'' 1 (Some (defer_until (je_now env) secs))) (new_session s)) of
        (False, s1) \<Rightarrow> (Inl Commit_failed, new_session s1)
      | (True, s1) \<Rightarrow> (Inr i, new_session (create_job_unit env a i s1)))"

datatype autonomous_response = Queued string | Deferred string | Ignored

definition submit_autonomous_async_job ::
    "job_env \<Rightarrow> job_registry \<Rightarrow> job_process \<Rightarrow> live_decision \<Rightarrow> pyval \<Rightarrow> job_request \<Rightarrow> string \<Rightarrow> job_run \<Rightarrow>
     (job_error + autonomous_response) \<times> job_run" where
  "submit_autonomous_async_job env reg p decision autonomy a i s =
     (let payload = (case rq_payload a of PDict d \<Rightarrow> PDict (AList.update ''__autonomy'' autonomy d) | v \<Rightarrow> v);
          a1 = a\<lparr>rq_payload := payload\<rparr>
      in case decision of
           Ignore_job \<Rightarrow> (Inr Ignored, s)
         | Defer_job secs \<Rightarrow>
             (case defer_async_job env a1 secs i s of
                (Inl e, s1) \<Rightarrow> (Inl e, s1) | (Inr j, s1) \<Rightarrow> (Inr (Deferred j), s1))
         | Execute_now \<Rightarrow>
             (case submit_async_job env reg p (a1\<lparr>rq_inline_in_test := True\<rparr>) i s of
                (Inl e, s1) \<Rightarrow> (Inl e, s1) | (Inr j, s1) \<Rightarrow> (Inr (Queued j), s1)))"

definition due_logs :: "time_us \<Rightarrow> nat \<Rightarrow> job_db \<Rightarrow> (string \<times> job_log) list" where
  "due_logs now limit d =
     take limit (sort_key (\<lambda>(_, l). case jl_scheduled_for l of None \<Rightarrow> 0 | Some t \<Rightarrow> t)
       (filter (\<lambda>(_, l). jl_status l = ''deferred'' \<and> (case jl_scheduled_for l of None \<Rightarrow> False | Some t \<Rightarrow> t \<le> now))
         (d_logs d)))"

definition deferred_context :: "string \<Rightarrow> dispatch_context" where
  "deferred_context i =
     \<lparr>dc_log_id = Some i, dc_operation_name = None, dc_task_name = None, dc_user_id = None, dc_retry = False,
      dc_attempt_count = None, dc_max_attempts = None\<rparr>"

fun deferred_loop ::
    "job_env \<Rightarrow> job_registry \<Rightarrow> job_process \<Rightarrow> (job_log \<Rightarrow> live_decision) \<Rightarrow> (string \<times> job_log) list \<Rightarrow> nat \<Rightarrow> job_run \<Rightarrow>
     (job_error + nat) \<times> job_run" where
  "deferred_loop env reg p evaluate [] resumed s = (Inr resumed, s)"
| "deferred_loop env reg p evaluate ((i, l) # rest) resumed s =
     (case evaluate l of
        Ignore_job \<Rightarrow>
          (case commit_run (edit_log i (\<lambda>l. l\<lparr>jl_status := ''ignored'', jl_completed_at := Some (je_now env)\<rparr>) s) of
             (False, s1) \<Rightarrow> (Inl Commit_failed, s1)
           | (True, s1) \<Rightarrow> deferred_loop env reg p evaluate rest resumed s1)
      | Defer_job secs \<Rightarrow>
          (case commit_run (edit_log i (\<lambda>l. l\<lparr>jl_scheduled_for := Some (defer_until (je_now env) secs)\<rparr>) s) of
             (False, s1) \<Rightarrow> (Inl Commit_failed, s1)
           | (True, s1) \<Rightarrow> deferred_loop env reg p evaluate rest resumed s1)
      | Execute_now \<Rightarrow>
          (case commit_run (edit_log i (\<lambda>l. l\<lparr>jl_status := ''pending''\<rparr>) s) of
             (False, s1) \<Rightarrow> (Inl Commit_failed, s1)
           | (True, s1) \<Rightarrow>
               (case (if pr_test_mode p then execute_job env reg i (jl_task_name l) (jl_payload l) s1
                      else (case dispatch_async env JOB_DISPATCH_STUB (Execute_task i (jl_task_name l) (jl_payload l))
                                   (deferred_context i) s1 of
                              (Inl e, s2) \<Rightarrow> (Inl (Queue_raised e), s2)
                            | (Inr _, s2) \<Rightarrow> (Inr (), s2))) of
                  (Inl e, s2) \<Rightarrow> (Inl e, s2)
                | (Inr _, s2) \<Rightarrow> deferred_loop env reg p evaluate rest (resumed + 1) s2)))"

definition process_deferred_jobs ::
    "job_env \<Rightarrow> job_registry \<Rightarrow> job_process \<Rightarrow> (job_log \<Rightarrow> live_decision) \<Rightarrow> nat \<Rightarrow> job_run \<Rightarrow> (job_error + nat) \<times> job_run" where
  "process_deferred_jobs env reg p evaluate limit s =
     (let s0 = new_session s in
      case deferred_loop env reg p evaluate (due_logs (je_now env) limit (working (jr_db s0))) 0 s0 of
        (r, s1) \<Rightarrow> (r, new_session s1))"

section \<open>Sweeps\<close>

definition stale_log :: "time_us \<Rightarrow> job_log \<Rightarrow> bool" where
  "stale_log now l = (jl_status l = ''pending'' \<and> jl_created_at l < now - 3600 * 1000000)"

definition cleanup_stale_logs :: "job_env \<Rightarrow> job_run \<Rightarrow> job_run" where
  "cleanup_stale_logs env s =
     (let s0 = new_session s;
          fail_stale = (\<lambda>l. if stale_log (je_now env) l
                            then l\<lparr>jl_status := ''failed'', jl_error_message := Some Never_started\<rparr> else l)
      in new_session (snd (commit_run (work_on (\<lambda>d. d\<lparr>d_logs := map (map_prod id fail_stale) (d_logs d)\<rparr>) s0))))"

section \<open>The public entries of the dispatcher\<close>

definition dispatch_job ::
    "job_env \<Rightarrow> job_registry \<Rightarrow> job_process \<Rightarrow> job_request \<Rightarrow> string \<Rightarrow> job_run \<Rightarrow> (job_error + execution_mode \<times> string) \<times> job_run" where
  "dispatch_job env reg p a i s =
     (case submit_async_job env reg p a i s of (Inl e, s1) \<Rightarrow> (Inl e, s1) | (Inr j, s1) \<Rightarrow> (Inr (ASYNC, j), s1))"

definition dispatch_autonomous_job ::
    "job_env \<Rightarrow> job_registry \<Rightarrow> job_process \<Rightarrow> live_decision \<Rightarrow> pyval \<Rightarrow> job_request \<Rightarrow> string \<Rightarrow> job_run \<Rightarrow>
     (job_error + execution_mode \<times> autonomous_response) \<times> job_run" where
  "dispatch_autonomous_job env reg p decision autonomy a i s =
     (case submit_autonomous_async_job env reg p decision autonomy a i s of
        (Inl e, s1) \<Rightarrow> (Inl e, s1)
      | (Inr r, s1) \<Rightarrow> (Inr (if r = Ignored then INLINE else ASYNC, r), s1))"

end
