(* ===== verification/Worker_Loop.thy ===== *)
theory Worker_Loop
  imports Async_Job
begin

text \<open>
  \<^verbatim>\<open>worker/worker_loop.py\<close>: the process that takes jobs from the distributed queue, claims their rows and
  runs them as the thread pool would; the recovery of stale jobs and the draining of dead letters.

  One thread's call of \<open>process_one_job\<close> is one function. It may find the concurrency semaphore taken;
  then it ends only when the process is stopping (\<open>wk_stop\<close>), and otherwise the result \<open>Waiting\<close> stands for
  a thread that still polls for a slot.
\<close>

section \<open>Process state\<close>

record worker_health =
  wh_state :: string
  wh_last_heartbeat :: time_us
  wh_first_iteration_complete :: bool
  wh_active_jobs :: int
  wh_queue_depth :: int
  wh_queue_capacity :: int

record worker =
  wk_run :: job_run
  wk_health :: worker_health
  wk_failures :: "time_us list"
  wk_semaphore :: "int option"
  wk_stop :: bool

record worker_env =
  we_job :: job_env
  we_mono :: time_us
  we_max_concurrent :: int
  we_alert_threshold :: int
  we_error_text :: "job_error \<Rightarrow> string"

definition fresh_health :: "time_us \<Rightarrow> worker_health" where
  "fresh_health now =
     \<lparr>wh_state = ''STARTING'', wh_last_heartbeat = now, wh_first_iteration_complete = False, wh_active_jobs = 0,
      wh_queue_depth = 0, wh_queue_capacity = 0\<rparr>"

definition set_worker_state :: "string \<Rightarrow> worker \<Rightarrow> worker" where
  "set_worker_state st w = w\<lparr>wk_health := (wk_health w)\<lparr>wh_state := st\<rparr>\<rparr>"

definition update_worker_queue_snapshot :: "worker_env \<Rightarrow> worker \<Rightarrow> worker" where
  "update_worker_queue_snapshot e w =
     (let q = je_queue_env (we_job e) in
      case on_queue (we_job e) (redis_get_metrics q) (\<lambda>m. (Inr (mem_get_metrics (qe_config q) m), m)) (wk_run w) of
        (Inl _, s) \<Rightarrow> w\<lparr>wk_run := s\<rparr>
      | (Inr m, s) \<Rightarrow>
          w\<lparr>wk_run := s,
            wk_health := (wk_health w)\<lparr>wh_queue_depth := int (qm_total_pending_jobs m),
                                       wh_queue_capacity := qm_max_queue_size m\<rparr>\<rparr>)"

definition record_worker_heartbeat :: "worker_env \<Rightarrow> bool \<Rightarrow> worker \<Rightarrow> worker" where
  "record_worker_heartbeat e iteration_completed w =
     (let h = (wk_health w)\<lparr>wh_last_heartbeat := we_mono e\<rparr>;
          h1 = (if iteration_completed \<and> \<not> wh_first_iteration_complete h
                then h\<lparr>wh_first_iteration_complete := True,
                       wh_state := (if wh_state h \<noteq> ''DRAINING'' then ''READY'' else wh_state h)\<rparr>
                else h)
      in update_worker_queue_snapshot e (w\<lparr>wk_health := h1\<rparr>))"

definition increment_active_jobs :: "worker \<Rightarrow> worker" where
  "increment_active_jobs w = w\<lparr>wk_health := (wk_health w)\<lparr>wh_active_jobs := wh_active_jobs (wk_health w) + 1\<rparr>\<rparr>"

definition decrement_active_jobs :: "worker \<Rightarrow> worker" where
  "decrement_active_jobs w = w\<lparr>wk_health := (wk_health w)\<lparr>wh_active_jobs := max 0 (wh_active_jobs (wk_health w) - 1)\<rparr>\<rparr>"

definition reset_worker_state :: "time_us \<Rightarrow> worker \<Rightarrow> worker" where
  "reset_worker_state now w = w\<lparr>wk_stop := False, wk_failures := [], wk_semaphore := None, wk_health := fresh_health now\<rparr>"

definition handle_signal :: "worker \<Rightarrow> worker" where
  "handle_signal w = (set_worker_state ''DRAINING'' w)\<lparr>wk_stop := True\<rparr>"

section \<open>Claiming\<close>

definition claim_log :: "time_us \<Rightarrow> string \<Rightarrow> job_db \<Rightarrow> bool \<times> job_db" where
  "claim_log now i d =
     (case map_of (d_logs d) i of
        None \<Rightarrow> (False, d)
      | Some l \<Rightarrow>
          if jl_status l = ''pending''
          then (True, d\<lparr>d_logs := AList.update i (l\<lparr>jl_status := ''running'', jl_started_at := Some now\<rparr>) (d_logs d)\<rparr>)
          else (False, d))"

definition try_claim_job :: "job_env \<Rightarrow> string \<Rightarrow> job_run \<Rightarrow> bool \<times> job_run" where
  "try_claim_job env i s =
     (let s0 = new_session s; updated = fst (claim_log (je_now env) i (working (jr_db s0))) in
      case commit_run (work_on (\<lambda>d. snd (claim_log (je_now env) i d)) s0) of
        (True, s1) \<Rightarrow> (updated, s1)
      | (False, s1) \<Rightarrow> (False, rollback_run s1))"

definition fetch_job_data :: "string \<Rightarrow> job_run \<Rightarrow> (string \<times> pyval) option" where
  "fetch_job_data i s =
     map_option (\<lambda>l. (jl_task_name l, if py_truthy (jl_payload l) then jl_payload l else PDict []))
       (map_of (d_logs (committed (jr_db s))) i)"

section \<open>Failures\<close>

definition FAILURE_WINDOW :: time_us where
  "FAILURE_WINDOW = 300 * 1000000"

definition prune_failure_window :: "time_us \<Rightarrow> time_us list \<Rightarrow> time_us list" where
  "prune_failure_window now ts = dropWhile (\<lambda>t. t < now - FAILURE_WINDOW) ts"

definition record_job_failure_alert :: "worker_env \<Rightarrow> string \<Rightarrow> worker \<Rightarrow> worker" where
  "record_job_failure_alert e i w =
     (let ts = prune_failure_window (we_mono e) (wk_failures w @ [we_mono e]);
          w1 = w\<lparr>wk_failures := ts\<rparr>
      in if we_alert_threshold e \<le> int (length ts)
         then w1\<lparr>wk_run := emit_apart (we_job e) True ''queue.failure_rate_alert'' i (wk_run w1)\<rparr> else w1)"

section \<open>One job\<close>

text \<open>The semaphore is built on first use; \<open>None\<close> as the result means that no slot is free.\<close>

definition acquire_slot :: "worker_env \<Rightarrow> worker \<Rightarrow> worker option" where
  "acquire_slot e w =
     (if we_max_concurrent e \<le> 0 then Some w
      else
        let n = (case wk_semaphore w of None \<Rightarrow> we_max_concurrent e | Some n \<Rightarrow> n) in
        if 0 < n then Some (w\<lparr>wk_semaphore := Some (n - 1)\<rparr>) else None)"

definition release_worker_slot :: "worker_env \<Rightarrow> worker \<Rightarrow> worker" where
  "release_worker_slot e w =
     (if we_max_concurrent e \<le> 0 then w else w\<lparr>wk_semaphore := map_option (\<lambda>n. n + 1) (wk_semaphore w)\<rparr>)"

definition queue_ack :: "job_env \<Rightarrow> string \<Rightarrow> job_run \<Rightarrow> (job_error + unit) \<times> job_run" where
  "queue_ack env i s =
     (case on_queue env (redis_ack (je_queue_env env) i) (mem_ack i) s of
        (Inl e, s1) \<Rightarrow> (Inl (Queue_raised e), s1)
      | (Inr _, s1) \<Rightarrow> (Inr (), s1))"

definition text_at :: "string \<Rightarrow> (string, pyval) dict \<Rightarrow> string" where
  "text_at k d = (case map_of d k of Some (PStr t) \<Rightarrow> t | _ \<Rightarrow> [])"

text \<open>The context variables while a job runs: those its payload carries, where it carries any.\<close>

definition restored_env :: "job_env \<Rightarrow> queue_job \<Rightarrow> job_env" where
  "restored_env env j =
     env\<lparr>je_trace_id := or_str (Some (text_at ''trace_id'' (qj_context j))) (je_trace_id env),
         je_eu_id := or_str (Some (text_at ''eu_id'' (qj_context j))) (je_eu_id env)\<rparr>"

definition event_trace :: "queue_job \<Rightarrow> string" where
  "event_trace j = or_str (Some (text_at ''trace_id'' (qj_context j))) (qj_job_id j)"

text \<open>The body of the \<^verbatim>\<open>try\<close>: claim, fetch, execute, acknowledge.\<close>

definition job_body :: "job_env \<Rightarrow> job_registry \<Rightarrow> queue_job \<Rightarrow> job_run \<Rightarrow> (job_error + unit) \<times> job_run" where
  "job_body env reg j s =
     (let i = qj_job_id j;
          (claimed, s1) = try_claim_job env i (emit_apart env False ''job_started'' (event_trace j) s)
      in if \<not> claimed then queue_ack env i s1
         else
           case fetch_job_data i s1 of
             None \<Rightarrow> queue_ack env i s1
           | Some (task, payload) \<Rightarrow>
               (case execute_job env reg i task payload s1 of
                  (Inl e, s2) \<Rightarrow> (Inl e, s2)
                | (Inr _, s2) \<Rightarrow>
                    (case queue_ack env i s2 of
                       (Inl e, s3) \<Rightarrow> (Inl e, s3)
                     | (Inr _, s3) \<Rightarrow> (Inr (), emit_apart env False ''job_completed'' (event_trace j) s3))))"

definition job_failed :: "worker_env \<Rightarrow> queue_job \<Rightarrow> job_error \<Rightarrow> worker \<Rightarrow> (job_error + unit) \<times> worker" where
  "job_failed e j err w =
     (let env = restored_env (we_job e) j;
          s1 = emit_apart env False ''job_failed'' (event_trace j) (wk_run w);
          text = we_error_text e err
      in case on_queue env (redis_fail (je_queue_env env) (qj_job_id j) text)
                (mem_fail (qe_now (je_queue_env env)) (qj_job_id j) text) s1 of
           (Inl q, s2) \<Rightarrow> (Inl (Queue_raised q), w\<lparr>wk_run := s2\<rparr>)
         | (Inr _, s2) \<Rightarrow> (Inr (), record_job_failure_alert e (qj_job_id j) (w\<lparr>wk_run := s2\<rparr>)))"

definition finish_job :: "worker_env \<Rightarrow> worker \<Rightarrow> worker" where
  "finish_job e w = release_worker_slot e (update_worker_queue_snapshot e (decrement_active_jobs w))"

datatype worker_end = Idle | Requeued | Waiting | Processed

definition run_taken_job :: "worker_env \<Rightarrow> job_registry \<Rightarrow> queue_job \<Rightarrow> worker \<Rightarrow> (job_error + worker_end) \<times> worker" where
  "run_taken_job e reg j w =
     (let w1 = increment_active_jobs w in
      case job_body (restored_env (we_job e) j) reg j (wk_run w1) of
        (Inr _, s) \<Rightarrow> (Inr Processed, finish_job e (w1\<lparr>wk_run := s\<rparr>))
      | (Inl Interrupted, s) \<Rightarrow> (Inl Interrupted, finish_job e (w1\<lparr>wk_run := s\<rparr>))
      | (Inl err, s) \<Rightarrow>
          (case job_failed e j err (w1\<lparr>wk_run := s\<rparr>) of
             (Inl err', w2) \<Rightarrow> (Inl err', finish_job e w2)
           | (Inr _, w2) \<Rightarrow> (Inr Processed, finish_job e w2)))"

definition process_one_job :: "worker_env \<Rightarrow> job_registry \<Rightarrow> worker \<Rightarrow> (job_error + worker_end) \<times> worker" where
  "process_one_job e reg w =
     (let w0 = update_worker_queue_snapshot e w; q = je_queue_env (we_job e) in
      case on_queue (we_job e) (redis_dequeue q) (mem_dequeue (qe_now q)) (wk_run w0) of
        (Inl err, s) \<Rightarrow> (Inl (Queue_raised err), w0\<lparr>wk_run := s\<rparr>)
      | (Inr taken, s) \<Rightarrow>
          let w1 = record_worker_heartbeat e True (w0\<lparr>wk_run := s\<rparr>) in
          case taken of
            None \<Rightarrow> (Inr Idle, w1)
          | Some j \<Rightarrow>
              (case acquire_slot e w1 of
                 Some w2 \<Rightarrow> run_taken_job e reg j w2
               | None \<Rightarrow>
                   if \<not> wk_stop w1 then (Inr Waiting, w1)
                   else
                     (case on_queue (we_job e) (redis_enqueue q j) (mem_enqueue j) (wk_run w1) of
                        (Inl err, s1) \<Rightarrow> (Inl (Queue_raised err), w1\<lparr>wk_run := s1\<rparr>)
                      | (Inr _, s1) \<Rightarrow> (Inr Requeued, w1\<lparr>wk_run := s1\<rparr>))))"

text \<open>An iteration of the loop of one thread; every exception is logged and the loop goes on.\<close>

definition worker_iteration :: "worker_env \<Rightarrow> job_registry \<Rightarrow> worker \<Rightarrow> worker" where
  "worker_iteration e reg w =
     (if wk_stop w then w else snd (process_one_job e reg (record_worker_heartbeat e False w)))"

definition stale_recovery_step :: "worker_env \<Rightarrow> time_us \<Rightarrow> worker \<Rightarrow> worker" where
  "stale_recovery_step e visibility_timeout w =
     (if wk_stop w then w
      else
        let q = je_queue_env (we_job e) in
        w\<lparr>wk_run := snd (on_queue (we_job e) (redis_requeue_stale_jobs q visibility_timeout)
                           (mem_requeue_stale_jobs (qe_now q) visibility_timeout) (wk_run w))\<rparr>)"

section \<open>Dead letters\<close>

record drain_report =
  dp_inspected :: nat
  dp_requeued :: nat
  dp_errors :: "string list"

definition letter_job :: "dead_letter \<Rightarrow> queue_job option" where
  "letter_job d =
     (case dl_payload d of
        Some j \<Rightarrow> Some j
      | None \<Rightarrow> (case dl_payload_raw d of None \<Rightarrow> None | Some raw \<Rightarrow> from_json raw))"

fun requeue_letters :: "job_env \<Rightarrow> dead_letter list \<Rightarrow> drain_report \<Rightarrow> job_run \<Rightarrow> drain_report \<times> job_run" where
  "requeue_letters env [] r s = (r, s)"
| "requeue_letters env (d # ds) r s =
     (let r1 = r\<lparr>dp_inspected := dp_inspected r + 1\<rparr>; bad = r1\<lparr>dp_errors := dp_errors r1 @ [dl_job_id d]\<rparr> in
      case letter_job d of
        None \<Rightarrow> requeue_letters env ds bad s
      | Some j \<Rightarrow>
          (case on_queue env (redis_enqueue (je_queue_env env) j) (mem_enqueue j) s of
             (Inl _, s1) \<Rightarrow> requeue_letters env ds bad s1
           | (Inr _, s1) \<Rightarrow> requeue_letters env ds (r1\<lparr>dp_requeued := dp_requeued r1 + 1\<rparr>) s1))"

definition take_letters :: "queue_env \<Rightarrow> nat \<Rightarrow> bool \<Rightarrow> (redis_world, dead_letter list) queue_call" where
  "take_letters env limit requeue =
     q_bind (redis_peek_dead_letters (int limit)) (\<lambda>ds.
       if requeue \<and> ds \<noteq> []
       then q_bind (run_redis_operation env (\<lambda>s. ((), s\<lparr>rq_dead := drop limit (rq_dead s)\<rparr>))) (\<lambda>_. q_return ds)
       else q_return ds)"

definition drain_dead_letters :: "job_env \<Rightarrow> int \<Rightarrow> bool \<Rightarrow> job_run \<Rightarrow> (queue_error + drain_report) \<times> job_run" where
  "drain_dead_letters env max_items requeue s =
     (let limit = nat (max 0 (min max_items 100)); none = \<lparr>dp_inspected = 0, dp_requeued = 0, dp_errors = []\<rparr> in
      case on_queue env (q_return ()) (q_return ()) s of
        (Inl e, s0) \<Rightarrow> (Inl e, s0)
      | (Inr _, s0) \<Rightarrow>
      if limit = 0 then (Inr none, s0)
      else
        case on_queue env (take_letters (je_queue_env env) limit requeue)
               (\<lambda>m. (Inr (take limit (mq_dlq m)), if requeue then m\<lparr>mq_dlq := drop limit (mq_dlq m)\<rparr> else m)) s0 of
          (Inl e, s1) \<Rightarrow> (Inl e, s1)
        | (Inr ds, s1) \<Rightarrow>
            let (r, s2) = (if requeue then requeue_letters env ds none s1
                           else (none\<lparr>dp_inspected := length ds\<rparr>, s1))
            in (Inr r, snd (commit_run (emit_async_system_event env ''dlq.drained'' ''dlq-drain'' s2))))"

end
