(* ===== verification/Job_Lifecycle.thy ===== *)
theory Job_Lifecycle
  imports Async_Job
begin

text \<open>
  What happens to a background job between its submission and its end: the contract of one execution,
  the bound on retries and the two ways around it, and the admission limits.
\<close>

section \<open>One execution while writes succeed\<close>

text \<open>
  A handler works on tables of its own: it may commit or roll back its session, but what the session
  sees of the job logs stays, and no event disappears.
\<close>

definition leaves_logs :: "job_handler \<Rightarrow> bool" where
  "leaves_logs h =
     (\<forall>p x. d_logs (working (snd (h p x))) = d_logs (working x) \<and>
            d_logs (committed (snd (h p x))) = d_logs (committed x) \<and>
            set (d_events (working x)) \<subseteq> set (d_events (working (snd (h p x)))) \<and>
            set (d_events (committed x)) \<subseteq> set (d_events (committed (snd (h p x)))))"

text \<open>A quiet job: nothing pending in the logs, its root event stored, its row known.\<close>

definition job_ready :: "string \<Rightarrow> job_log \<Rightarrow> job_run \<Rightarrow> bool" where
  "job_ready i l s =
     (durable s \<and> map_of (stored_logs s) i = Some l \<and> (''execution.started'', i) \<in> set (stored_events s))"

definition begun_row :: "job_env \<Rightarrow> job_log \<Rightarrow> job_log" where
  "begun_row env l = l\<lparr>jl_status := ''running'', jl_started_at := Some (je_now env), jl_attempt_count := jl_attempt_count l + 1\<rparr>"

definition success_row :: "job_env \<Rightarrow> string \<Rightarrow> pyval \<Rightarrow> job_log \<Rightarrow> job_log" where
  "success_row env i v l =
     (begun_row env l)\<lparr>jl_status := ''success'',
       jl_result := Some (Job_value (if is_execution_envelope v then v else execution_success v i)),
       jl_completed_at := Some (je_now env)\<rparr>"

definition retry_row :: "job_env \<Rightarrow> job_error \<Rightarrow> job_log \<Rightarrow> job_log" where
  "retry_row env err l = (begun_row env l)\<lparr>jl_status := ''pending'', jl_error_message := Some err\<rparr>"

definition failed_row :: "job_env \<Rightarrow> job_error \<Rightarrow> job_log \<Rightarrow> job_log" where
  "failed_row env err l =
     (begun_row env l)\<lparr>jl_status := ''failed'', jl_error_message := Some err, jl_result := Some (Job_failure err),
       jl_completed_at := Some (je_now env)\<rparr>"

lemma emit_error_durable:
  assumes "durable s"
  shows "\<exists>s'. emit_error_event env t trace s = (Inr True, s') \<and> durable s' \<and> seen_logs s' = seen_logs s \<and>
    set (seen_events s) \<subseteq> set (seen_events s') \<and> jr_pool s' = jr_pool s \<and> jr_slots s' = jr_slots s \<and> jr_queue s' = jr_queue s"
  using assms
  by (auto simp: emit_error_event_def queue_system_event_def durable_emission contract_blocks_def startswith_def durable_def
      session_defs)

lemma finish_failed_durable:
  assumes "durable s" and "map_of (seen_logs s) i = Some l"
  shows "\<exists>s'. finish_failed env err i s = (Inr (), s') \<and> durable s' \<and>
    stored_logs s' = AList.update i (l\<lparr>jl_status := ''failed'', jl_error_message := Some err, jl_result := Some (Job_failure err),
       jl_completed_at := Some (je_now env)\<rparr>) (seen_logs s) \<and>
    seen_logs s' = stored_logs s' \<and> set (seen_events s) \<subseteq> set (stored_events s') \<and> jr_pool s' = jr_pool s \<and> jr_slots s' = jr_slots s \<and> jr_queue s' = jr_queue s"
proof -
  define s1 where "s1 = mark_unit env i ''failed'' (edit_log i (\<lambda>l. l\<lparr>jl_status := ''failed'', jl_error_message := Some err,
      jl_result := Some (Job_failure err), jl_completed_at := Some (je_now env)\<rparr>) s)"
  have d1: "durable s1" using assms(1) by (simp add: s1_def durable_def jobs)
  define s2 where "s2 = emit_async_system_event env ''execution.failed'' i
      (if has_existing_execution_started i s1 then emit_async_system_event env ''async_job.failed'' i s1 else s1)"
  have d2: "durable s2" using d1 by (simp add: s2_def jobs)
  have v2: "seen_logs s2 = seen_logs s1" "set (seen_events s1) \<subseteq> set (seen_events s2)" "jr_pool s2 = jr_pool s1"
    "jr_slots s2 = jr_slots s1" "jr_queue s2 = jr_queue s1"
    using d1 by (auto simp: s2_def jobs)
  obtain s3 where s3: "emit_error_event env ''async_job_execution'' i s2 = (Inr True, s3)" "durable s3" "seen_logs s3 = seen_logs s2"
    "set (seen_events s2) \<subseteq> set (seen_events s3)" "jr_pool s3 = jr_pool s2" "jr_slots s3 = jr_slots s2" "jr_queue s3 = jr_queue s2"
    using emit_error_durable [OF d2] by blast
  have run: "finish_failed env err i s = (Inr (), s3\<lparr>jr_db := commit_session (jr_db s3)\<rparr>)"
    unfolding finish_failed_def Let_def s1_def [symmetric] s2_def [symmetric] by (simp add: s3(1) durable_commit s3(2))
  have v1: "seen_logs s1 = AList.update i (l\<lparr>jl_status := ''failed'', jl_error_message := Some err, jl_result := Some (Job_failure err),
       jl_completed_at := Some (je_now env)\<rparr>) (seen_logs s)" "seen_events s1 = seen_events s" "jr_pool s1 = jr_pool s"
    "jr_slots s1 = jr_slots s" "jr_queue s1 = jr_queue s"
    using assms(2) by (simp_all add: s1_def jobs)
  show ?thesis unfolding run
    using s3(2-) v2 v1 by (auto simp: durable_def session_defs)
qed

text \<open>In the thread pool a failed attempt either queues the next one or ends the job.\<close>

lemma after_exception_durable:
  assumes "durable s" and "map_of (stored_logs s) i = Some l" and "\<not> distributed_execution_enabled env"
  shows "\<exists>s'. after_exception env err i task payload s = (Inr (), s') \<and> durable s' \<and>
    stored_logs s' = AList.update i
      (if jl_attempt_count l < jl_max_attempts l then l\<lparr>jl_status := ''pending'', jl_error_message := Some err\<rparr>
       else l\<lparr>jl_status := ''failed'', jl_error_message := Some err, jl_result := Some (Job_failure err),
              jl_completed_at := Some (je_now env)\<rparr>) (stored_logs s) \<and>
    seen_logs s' = stored_logs s' \<and> set (stored_events s) \<subseteq> set (stored_events s') \<and>
    (jl_attempt_count l < jl_max_attempts l \<longrightarrow> stored_events s' = stored_events s) \<and>
    jr_pool s' = (if jl_attempt_count l < jl_max_attempts l then jr_pool s @ [Execute_task i task payload] else jr_pool s) \<and>
    jr_slots s' = jr_slots s \<and> jr_queue s' = jr_queue s"
proof -
  have d: "durable (rollback_run s)" "durable (edit_log i f (rollback_run s))" for f
    using assms(1) by (simp_all add: durable_def jobs)
  have row: "log_of i (rollback_run s) = Some l" "map_of (seen_logs (rollback_run s)) i = Some l"
    using assms(2) by (simp_all add: log_of_def jobs)
  show ?thesis
  proof (cases "jl_attempt_count l < jl_max_attempts l")
    case True
    then show ?thesis using row d(2) assms(3)
      by (auto simp: after_exception_def Let_def dispatch_async_def durable_commit durable_def jobs session_defs assms(2))
  next
    case False
    then show ?thesis using finish_failed_durable [OF d(1) row(2), of env err] row(1)
      by (simp add: after_exception_def Let_def jobs)
  qed
qed

text \<open>The state in which the handler is called, and how a value it returns is recorded.\<close>

lemma begin_attempt_durable:
  assumes "durable s" and "map_of (seen_logs s) i = Some l"
  shows "durable (begin_attempt env True i s)"
    and "seen_logs (begin_attempt env True i s) = AList.update i (begun_row env l) (seen_logs s)"
    and "stored_logs (begin_attempt env True i s) = AList.update i (begun_row env l) (seen_logs s)"
    and "set (seen_events s) \<subseteq> set (stored_events (begin_attempt env True i s))"
    and "jr_pool (begin_attempt env True i s) = jr_pool s" and "jr_slots (begin_attempt env True i s) = jr_slots s"
    and "jr_queue (begin_attempt env True i s) = jr_queue s"
    and "set (seen_events s) \<subseteq> set (seen_events (begin_attempt env True i s))"
proof -
  define s1 where "s1 = mark_unit env i ''executing'' (edit_log i (\<lambda>l. begun_row env l) s)"
  have e: "begin_attempt env True i s = emit_async_system_event env ''async_job.started'' i s1"
    by (simp add: begin_attempt_def s1_def begun_row_def Let_def)
  have "durable s1" using assms(1) by (simp add: s1_def durable_def jobs)
  note this [THEN emit_durable(1)] this [THEN emit_durable(2)] this [THEN emit_durable(3)] this [THEN emit_durable(4)]
    this [THEN emit_durable(5)]
    this [THEN emit_durable(6)] this [THEN emit_durable(7)] this [THEN emit_durable(9)]
  then show "durable (begin_attempt env True i s)"
    and "seen_logs (begin_attempt env True i s) = AList.update i (begun_row env l) (seen_logs s)"
    and "stored_logs (begin_attempt env True i s) = AList.update i (begun_row env l) (seen_logs s)"
    and "set (seen_events s) \<subseteq> set (stored_events (begin_attempt env True i s))"
    and "jr_pool (begin_attempt env True i s) = jr_pool s" and "jr_slots (begin_attempt env True i s) = jr_slots s"
    and "jr_queue (begin_attempt env True i s) = jr_queue s"
    and "set (seen_events s) \<subseteq> set (seen_events (begin_attempt env True i s))"
    using assms(2) unfolding e by (auto simp: s1_def jobs contract_blocks_def startswith_def)
qed

lemma record_success_durable:
  assumes "durable s" and "map_of (seen_logs s) i = Some (begun_row env l)"
  shows "durable (record_success_of env queued i v s)"
    and "seen_logs (record_success_of env queued i v s) = AList.update i (success_row env i v l) (seen_logs s)"
    and "set (seen_events s) \<subseteq> set (seen_events (record_success_of env queued i v s))"
    and "jr_pool (record_success_of env queued i v s) = jr_pool s" and "jr_slots (record_success_of env queued i v s) = jr_slots s"
    and "jr_queue (record_success_of env queued i v s) = jr_queue s"
proof -
  define s1 where "s1 = mark_unit env i ''completed'' (edit_log i (\<lambda>l. l\<lparr>jl_status := ''success'',
      jl_result := Some (Job_value (if is_execution_envelope v then v else execution_success v i)),
      jl_completed_at := Some (je_now env)\<rparr>) s)"
  have d: "durable s1" using assms(1) by (simp add: s1_def durable_def jobs)
  have e: "record_success_of env queued i v s = emit_async_system_event env ''execution.completed'' i
      (if queued then emit_async_system_event env ''async_job.completed'' i s1 else s1)"
    by (simp add: record_success_of_def s1_def Let_def)
  have v1: "seen_logs s1 = AList.update i (success_row env i v l) (seen_logs s)" "seen_events s1 = seen_events s"
    "jr_pool s1 = jr_pool s" "jr_slots s1 = jr_slots s" "jr_queue s1 = jr_queue s"
    using assms(2) by (simp_all add: s1_def jobs success_row_def)
  show "durable (record_success_of env queued i v s)"
    and "seen_logs (record_success_of env queued i v s) = AList.update i (success_row env i v l) (seen_logs s)"
    and "set (seen_events s) \<subseteq> set (seen_events (record_success_of env queued i v s))"
    and "jr_pool (record_success_of env queued i v s) = jr_pool s" and "jr_slots (record_success_of env queued i v s) = jr_slots s"
    and "jr_queue (record_success_of env queued i v s) = jr_queue s"
    unfolding e using d v1 by (auto simp: jobs)
qed

text \<open>What the row of a job becomes, and what is left for the pool to do, when its handler ends with \<open>out\<close>.\<close>

definition ended_row :: "job_env \<Rightarrow> string \<Rightarrow> pyval outcome \<Rightarrow> job_log \<Rightarrow> job_log" where
  "ended_row env i out l =
     (case out of
        Returns v \<Rightarrow> success_row env i v l
      | Raises e \<Rightarrow>
          (if jl_attempt_count l + 1 < jl_max_attempts l then retry_row env (Handler_raised e) l
           else failed_row env (Handler_raised e) l)
      | Interrupts \<Rightarrow> begun_row env l)"

definition goes_on :: "pyval outcome \<Rightarrow> job_log \<Rightarrow> bool" where
  "goes_on out l = ((\<exists>e. out = Raises e) \<and> jl_attempt_count l + 1 < jl_max_attempts l)"

lemma handled_view:
  assumes "leaves_logs h"
  shows "d_logs (working (snd (h p x))) = d_logs (working x)" "d_logs (committed (snd (h p x))) = d_logs (committed x)"
    "set (d_events (working x)) \<subseteq> set (d_events (working (snd (h p x))))"
    "set (d_events (committed x)) \<subseteq> set (d_events (committed (snd (h p x))))"
  using assms by (auto simp: leaves_logs_def)

text \<open>The call of the handler, and what is left to do after it.\<close>

definition after_handler ::
    "job_env \<Rightarrow> string \<Rightarrow> string \<Rightarrow> pyval \<Rightarrow> pyval outcome \<Rightarrow> job_run \<Rightarrow> (job_error + unit) \<times> job_run" where
  "after_handler env i task payload out s =
     (case out of
        Raises e \<Rightarrow> after_exception env (Handler_raised e) i task payload s
      | Interrupts \<Rightarrow>
          (case commit_run s of
             (True, s4) \<Rightarrow> (Inl Interrupted, s4)
           | (False, s4) \<Rightarrow> after_exception env Commit_failed i task payload s4)
      | Returns v \<Rightarrow>
          (case commit_run (record_success_of env True i v s) of
             (True, s4) \<Rightarrow> (Inr (), s4)
           | (False, s4) \<Rightarrow> after_exception env Commit_failed i task payload s4))"

definition attempt_begun :: "job_env \<Rightarrow> string \<Rightarrow> job_log \<Rightarrow> job_run \<Rightarrow> job_run \<Rightarrow> bool" where
  "attempt_begun env i l s s3 \<longleftrightarrow>
     durable s3 \<and> seen_logs s3 = AList.update i (begun_row env l) (stored_logs s) \<and>
     stored_logs s3 = AList.update i (begun_row env l) (stored_logs s) \<and>
     set (stored_events s) \<subseteq> set (stored_events s3) \<and> set (stored_events s) \<subseteq> set (seen_events s3) \<and>
     jr_pool s3 = jr_pool s \<and> jr_slots s3 = jr_slots s \<and> jr_queue s3 = jr_queue s"

lemma handler_called:
  assumes "settled s" and "job_ready i l s" and h: "leaves_logs h" and "reg task = Some h"
  shows "\<exists>x s3. attempt_begun env i l s s3 \<and>
    execute_job_inline env reg i task payload s = after_handler env i task payload (fst (h payload x)) s3"
proof -
  have s0: "durable s" "map_of (seen_logs s) i = Some l" "has_existing_execution_started i s"
    using assms(1,2) by (simp_all add: job_ready_def settled_def has_existing_execution_started_def)
  have root: "ensure_root_execution_event env i s = s" by (simp add: ensure_root_execution_event_def s0(3))
  define s2 where "s2 = begin_attempt env True i s"
  note s2 = begin_attempt_durable [OF s0(1,2), of env, folded s2_def, unfolded assms(1) [unfolded settled_def]]
  obtain out db where call: "h payload (jr_db s2) = (out, db)" by fastforce
  have hv: "d_logs (working db) = seen_logs s2" "d_logs (committed db) = stored_logs s2"
    "set (seen_events s2) \<subseteq> set (d_events (working db))" "set (stored_events s2) \<subseteq> set (d_events (committed db))"
    using handled_view [OF h, where p = payload and x = "jr_db s2"] by (simp_all add: call)
  have "attempt_begun env i l s (s2\<lparr>jr_db := db\<rparr>)"
    using s2 hv by (auto simp: attempt_begun_def durable_def)
  moreover have "execute_job_inline env reg i task payload s = after_handler env i task payload out (s2\<lparr>jr_db := db\<rparr>)"
    unfolding s2_def using s0(2) call [unfolded s2_def]
    by (simp add: execute_job_inline_def after_handler_def root s0(3) assms(4) log_of_def Let_def)
  ultimately show ?thesis using call by (metis fst_conv)
qed

lemma execute_inline_ready:
  assumes "settled s" and "job_ready i l s" and "leaves_logs h" and "reg task = Some h"
    and thread: "\<not> distributed_execution_enabled env"
  shows "\<exists>x out s'. fst (h payload x) = out \<and> (out \<noteq> Interrupts \<longrightarrow>
    execute_job_inline env reg i task payload s = (Inr (), s') \<and> durable s' \<and>
    stored_logs s' = AList.update i (ended_row env i out l) (stored_logs s) \<and> seen_logs s' = stored_logs s' \<and>
    set (stored_events s) \<subseteq> set (stored_events s') \<and>
    jr_pool s' = (if goes_on out l then jr_pool s @ [Execute_task i task payload] else jr_pool s) \<and> jr_slots s' = jr_slots s)"
proof -
  obtain x out s3 where x: "fst (h payload x) = out" and a: "attempt_begun env i l s s3"
    and run: "execute_job_inline env reg i task payload s = after_handler env i task payload out s3"
    using handler_called [where reg = reg and task = task, OF assms(1-4)] by metis
  have s3: "durable s3" "map_of (seen_logs s3) i = Some (begun_row env l)" "map_of (stored_logs s3) i = Some (begun_row env l)"
    using a by (simp_all add: attempt_begun_def update_conv)
  have "\<exists>s'. out \<noteq> Interrupts \<longrightarrow> execute_job_inline env reg i task payload s = (Inr (), s') \<and> durable s' \<and>
    stored_logs s' = AList.update i (ended_row env i out l) (stored_logs s) \<and> seen_logs s' = stored_logs s' \<and>
    set (stored_events s) \<subseteq> set (stored_events s') \<and>
    jr_pool s' = (if goes_on out l then jr_pool s @ [Execute_task i task payload] else jr_pool s) \<and> jr_slots s' = jr_slots s"
  proof (cases out)
    case (Returns v)
    note rs = record_success_durable [OF s3(1,2), of True v]
    show ?thesis using rs a
      by (auto simp: run after_handler_def attempt_begun_def Returns durable_commit durable_def jobs session_defs ended_row_def
          goes_on_def)
  next
    case (Raises e)
    from after_exception_durable [OF s3(1,3) thread, of "Handler_raised e" task payload] a
    show ?thesis
      by (auto simp: run after_handler_def attempt_begun_def Raises durable_def jobs ended_row_def goes_on_def retry_row_def
          failed_row_def begun_row_def)
  qed simp
  with x show ?thesis by metis
qed

lemma execute_ready:
  assumes "job_ready i l s" and "leaves_logs h" and "reg task = Some h" and "\<not> distributed_execution_enabled env"
  shows "\<exists>x out s'. fst (h payload x) = out \<and> (out \<noteq> Interrupts \<longrightarrow>
    execute_job env reg i task payload s = (Inr (), s') \<and> durable s' \<and>
    stored_logs s' = AList.update i (ended_row env i out l) (stored_logs s) \<and>
    set (stored_events s) \<subseteq> set (stored_events s') \<and>
    jr_pool s' = (if goes_on out l then jr_pool s @ [Execute_task i task payload] else jr_pool s) \<and> jr_slots s' = jr_slots s)"
proof -
  have "settled (new_session s)" "job_ready i l (new_session s)"
    using assms(1) by (simp_all add: settled_def job_ready_def durable_def jobs)
  from execute_inline_ready [where reg = reg and task = task and h = h and payload = payload, OF this assms(2-4), unfolded new_session_view]
  obtain x out s' where "fst (h payload x) = out" "out \<noteq> Interrupts \<longrightarrow>
    execute_job_inline env reg i task payload (new_session s) = (Inr (), s') \<and> durable s' \<and>
    stored_logs s' = AList.update i (ended_row env i out l) (stored_logs s) \<and>
    set (stored_events s) \<subseteq> set (stored_events s') \<and>
    jr_pool s' = (if goes_on out l then jr_pool s @ [Execute_task i task payload] else jr_pool s) \<and> jr_slots s' = jr_slots s"
    by blast
  then show ?thesis
    by (intro exI [of _ x] exI [of _ out] exI [of _ "new_session s'"]) (auto simp: execute_job_def durable_def jobs)
qed

section \<open>A sample process\<close>

definition sample_log :: "int \<Rightarrow> job_log" where
  "sample_log attempts =
     \<lparr>jl_source = ''api'', jl_task_name = ''t'', jl_payload = PDict [], jl_status = ''pending'', jl_attempt_count = 0,
      jl_max_attempts = attempts, jl_error_message = None, jl_user_id = Some ''u'', jl_result = None,
      jl_trace_id = Some ''j'', jl_started_at = None, jl_completed_at = None, jl_created_at = 0, jl_scheduled_for = None\<rparr>"

definition sample_run :: "(string, job_log) dict \<Rightarrow> pool_task list \<Rightarrow> job_run" where
  "sample_run logs pool =
     \<lparr>jr_db = open_session \<lparr>d_logs = logs, d_units = [], d_events = map (\<lambda>(i, _). (''execution.started'', i)) logs\<rparr>,
      jr_io = [], jr_pool = pool, jr_slots = None, jr_accepting = True,
      jr_queue = \<lparr>qs_instance = None,
        qs_store = \<lparr>rq_main = [], rq_inflight = [], rq_delayed = [], rq_dead = []\<rparr>, qs_io = []\<rparr>\<rparr>"

definition pooled_run :: "int \<Rightarrow> job_run" where
  "pooled_run attempts = sample_run [(''j'', sample_log attempts)] [Execute_task ''j'' ''t'' (PDict [])]"

definition failing_registry :: job_registry where
  "failing_registry task = (if task = ''t'' then Some (\<lambda>p x. (Raises ''boom'', x)) else None)"

definition quiet_env :: job_env where
  "quiet_env =
     \<lparr>je_now = 0, je_now_text = [],
      je_queue_env = \<lparr>qe_mono = 0, qe_now = 0, qe_rank = (\<lambda>_. 0), qe_config =
        \<lparr>max_queue_size_setting = (None, None), async_queue_maxsize = (None, None), saturation_setting = (None, None),
         testing = False, test_mode = False, redis_url = None, is_prod = False, mode_distributed = False,
         require_redis = False\<rparr>\<rparr>,
      je_queue_reason = [], je_pipeline = False, je_async_active = False, je_enforce_contract = True, je_fail_closed = True,
      je_units_ok = True, je_TESTING = None, je_TEST_MODE = None, je_ASYNC_HEAVY = None, je_EXECUTION_MODE = None,
      je_trace_id = ''t'', je_eu_id = [], je_fresh = ''f'', je_backoff_base_ms = 1000, je_backoff_max_ms = 30000,
      je_backoff_read_ok = True\<rparr>"

section \<open>The retry bound\<close>

fun run_pool :: "nat \<Rightarrow> job_env \<Rightarrow> job_registry \<Rightarrow> job_run \<Rightarrow> job_run" where
  "run_pool 0 env reg s = s"
| "run_pool (Suc n) env reg s = run_pool n env reg (run_pool_task env reg s)"

lemma pool_step_ready:
  assumes "job_ready i l s" and "leaves_logs h" and "reg task = Some h" and "\<not> distributed_execution_enabled env"
    and pool: "jr_pool s = [Execute_task i task payload]" and calm: "\<forall>x. fst (h payload x) \<noteq> Interrupts"
  shows "\<exists>out. out \<noteq> Interrupts \<and> job_ready i (ended_row env i out l) (run_pool_task env reg s) \<and>
    jr_pool (run_pool_task env reg s) = (if goes_on out l then [Execute_task i task payload] else [])"
proof -
  let ?s = "s\<lparr>jr_pool := []\<rparr>"
  have "job_ready i l ?s" using assms(1) by (simp add: job_ready_def durable_def)
  from execute_ready [where reg = reg and task = task and h = h and payload = payload, OF this assms(2-4)] calm obtain out s' where
    "out \<noteq> Interrupts" "execute_job env reg i task payload ?s = (Inr (), s')" "durable s'"
    "stored_logs s' = AList.update i (ended_row env i out l) (stored_logs ?s)"
    "set (stored_events ?s) \<subseteq> set (stored_events s')"
    "jr_pool s' = (if goes_on out l then jr_pool ?s @ [Execute_task i task payload] else jr_pool ?s)"
    by metis
  with assms(1) pool show ?thesis
    by (intro exI [of _ out]) (auto simp: run_pool_task_def job_ready_def update_conv)
qed





section \<open>The contract of an execution\<close>



section \<open>The inline fallback\<close>

lemma guard_durable:
  assumes "durable s" and "map_of (seen_logs s) i = Some l" and "jl_status l \<notin> {''success'', ''failed''}"
  shows "map_of (stored_logs (inline_terminal_guard env i s)) i =
      Some (l\<lparr>jl_status := ''success'',
             jl_completed_at := (case jl_completed_at l of None \<Rightarrow> Some (je_now env) | Some t \<Rightarrow> Some t)\<rparr>)"
    and "jr_pool (inline_terminal_guard env i s) = jr_pool s"
  using assms by (simp_all add: inline_terminal_guard_def log_of_def durable_commit durable_def jobs session_defs update_conv)

text \<open>
  The guard of the inline fallback records a failure as a success: when a job that has more than one
  attempt is run inline and its handler raises, \<open>submit_async_job\<close> returns its id, the row reads
  \<open>success\<close> with the error message of the failed attempt and no result, and the retry is still in the pool.
\<close>

theorem inline_failure_recorded_as_success:
  assumes "jr_accepting s" and "durable s" and "map_of (stored_logs s) i = None" and "pr_force_inline p"
    and "\<not> contract_blocks env ''execution.started''" and "\<not> distributed_execution_enabled env"
    and "reg (rq_task_name a) = Some h" and "leaves_logs h" and "\<forall>x. fst (h (rq_payload a) x) = Raises e" and "1 < rq_max_attempts a"
  shows "\<exists>l s'. submit_async_job env reg p a i s = (Inr i, s') \<and> map_of (stored_logs s') i = Some l \<and>
    jl_status l = ''success'' \<and> jl_error_message l = Some (Handler_raised e) \<and> jl_result l = None \<and>
    jr_pool s' = jr_pool s @ [Execute_task i (rq_task_name a) (rq_payload a)]"
proof -
  let ?l = "new_job_log env a i ''pending'' (rq_max_attempts a) None"
  define s2 where "s2 = snd (commit_run (add_log i ?l (new_session s)))"
  have d: "durable (add_log i ?l (new_session s))" using assms(2) by (simp add: durable_def add_log_def jobs)
  have c: "commit_run (add_log i ?l (new_session s)) = (True, s2)" using durable_commit [OF d] by (simp add: s2_def)
  have s2: "durable s2" "seen_logs s2 = stored_logs s @ [(i, ?l)]" "jr_pool s2 = jr_pool s"
    using d assms(3) by (simp_all add: s2_def durable_commit add_log_def jobs session_defs durable_def update_new map_of_eq_None_iff)
  define s3 where "s3 = create_job_unit env a i s2"
  have s3: "durable s3" "seen_logs s3 = stored_logs s @ [(i, ?l)]" "jr_pool s3 = jr_pool s"
    using s2 by (simp_all add: s3_def create_job_unit_def durable_commit durable_def jobs session_defs)
  define s4 where "s4 = emit_async_system_event env ''execution.started'' i s3"
  have s4: "settled s4" "job_ready i ?l s4" "jr_pool s4 = jr_pool s"
    using s3 assms(3,5)
    by (simp_all add: s4_def emit_async_system_event_def durable_emission settled_def job_ready_def durable_def session_defs
        map_add_Some_iff)
  from execute_inline_ready [where reg = reg and task = "rq_task_name a" and h = h and payload = "rq_payload a",
      OF s4(1,2) assms(8,7,6)] assms(9)
  obtain s5 where s5: "execute_job_inline env reg i (rq_task_name a) (rq_payload a) s4 = (Inr (), s5)" "durable s5"
    "stored_logs s5 = AList.update i (ended_row env i (Raises e) ?l) (stored_logs s4)" "seen_logs s5 = stored_logs s5"
    "jr_pool s5 = (if goes_on (Raises e) ?l then jr_pool s4 @ [Execute_task i (rq_task_name a) (rq_payload a)] else jr_pool s4)"
    by auto
  have row: "map_of (seen_logs s5) i = Some (retry_row env (Handler_raised e) ?l)"
    using s5(3,4) assms(10) by (simp add: update_conv ended_row_def new_job_log_def)
  have r: "jl_status (retry_row env (Handler_raised e) ?l) = ''pending''" "jl_result (retry_row env (Handler_raised e) ?l) = None"
    "jl_error_message (retry_row env (Handler_raised e) ?l) = Some (Handler_raised e)"
    by (simp_all add: retry_row_def begun_row_def new_job_log_def)
  have run: "submit_async_job env reg p a i s = (Inr i, new_session (inline_terminal_guard env i s5))"
    using assms(1,4)
    by (simp add: submit_async_job_def admission_def launch_job_def inline_enabled_def c s3_def [symmetric] s4_def [symmetric]
        run_inline_def s5(1) Let_def)
  have go: "goes_on (Raises e) ?l" using assms(10) by (simp add: goes_on_def new_job_log_def)
  show ?thesis unfolding run using guard_durable [OF s5(2) row, of env] r s5(5) s4(3) go by (simp add: jobs)
qed

definition sample_process :: "bool \<Rightarrow> job_process" where
  "sample_process inline =
     \<lparr>pr_force_inline = inline, pr_background_runner = True, pr_sqlite = False, pr_test_mode = False,
      pr_limits = \<lparr>lim_global = (None, Some 2), lim_per_user = (None, None), lim_semaphore = 100\<rparr>\<rparr>"

definition sample_request :: "int \<Rightarrow> job_request" where
  "sample_request attempts =
     \<lparr>rq_task_name = ''t'', rq_payload = PDict [], rq_user = Some ''u'', rq_source = ''api'', rq_max_attempts = attempts,
      rq_inline_in_test = True\<rparr>"

theorem inline_failure_recorded_as_success_witness:
  "\<exists>l s'. submit_async_job (quiet_env\<lparr>je_pipeline := True\<rparr>) failing_registry (sample_process True) (sample_request 2) ''j''
      (sample_run [] []) = (Inr ''j'', s') \<and> map_of (stored_logs s') ''j'' = Some l \<and> jl_status l = ''success'' \<and>
    jl_error_message l = Some (Handler_raised ''boom'')"
  using inline_failure_recorded_as_success [of "sample_run [] []" "''j''" "sample_process True" "quiet_env\<lparr>je_pipeline := True\<rparr>"
      failing_registry "sample_request 2" "\<lambda>p x. (Raises ''boom'', x)" "''boom''"]
  by (auto simp: sample_run_def sample_process_def sample_request_def durable_def open_session_def quiet_env_def
      contract_blocks_def distributed_execution_enabled_def failing_registry_def leaves_logs_def)

end
