(* ===== verification/Job_Invariant.thy ===== *)
theory Job_Invariant
  imports Worker_Loop Job_Lifecycle
begin

text \<open>
  Invariants of the job table under every operation of the service and of the worker, whatever writes
  fail. The locale \<open>log_invariant\<close> is the interface: a predicate on the data that depends on the logs
  alone and survives storing a row of a known status under the keys \<open>I\<close>. It is interpreted for the
  domain of the status column and for the growth of the table by one submission.
\<close>

section \<open>The interface\<close>

definition JOB_STATUSES :: "string list" where
  "JOB_STATUSES = [''pending'', ''running'', ''success'', ''failed'', ''deferred'', ''ignored'']"

definition both :: "(job_db \<Rightarrow> bool) \<Rightarrow> job_run \<Rightarrow> bool" where
  "both P s = (P (committed (jr_db s)) \<and> P (working (jr_db s)))"

lemma both_same_db: "jr_db s' = jr_db s \<Longrightarrow> both P s' = both P s"
  by (simp add: both_def)

lemma both_rollback: "both P s \<Longrightarrow> both P (rollback_run s)"
  by (simp add: both_def jobs)

lemma both_new_session: "both P s \<Longrightarrow> both P (new_session s)"
  by (simp add: both_def jobs)

lemma both_commit: "both P s \<Longrightarrow> both P (snd (commit_run s))"
  by (auto simp: both_def commit_run_def draw_io_def session_defs split: list.split prod.split bool.split)

lemma db_of_queue_call: "jr_db (snd (on_queue env f g s)) = jr_db s"
  by (simp add: on_queue_def split: prod.split)

lemma both_queue_result: "on_queue env f g s = (r, s') \<Longrightarrow> both P s' = both P s"
  using db_of_queue_call [of env f g s] by (simp add: both_def)

lemma both_queue: "both P (snd (on_queue env f g s)) = both P s"
  by (simp add: both_def db_of_queue_call)

lemma both_fields [simp]:
  "both P (s\<lparr>jr_pool := x\<rparr>) = both P s" "both P (s\<lparr>jr_slots := y\<rparr>) = both P s" "both P (s\<lparr>jr_accepting := z\<rparr>) = both P s"
  "both P (s\<lparr>jr_queue := q\<rparr>) = both P s"
  by (simp_all add: both_def)

text \<open>To show what a call keeps that matches on the result of another.\<close>

named_theorems kept \<open>rules for showing that a call keeps a predicate\<close>

lemma both_commit_case [kept]:
  "both P s \<Longrightarrow> (\<And>s'. both P s' \<Longrightarrow> both P (snd (f s'))) \<Longrightarrow> (\<And>s'. both P s' \<Longrightarrow> both P (snd (g s'))) \<Longrightarrow>
   both P (snd (case commit_run s of (True, s') \<Rightarrow> f s' | (False, s') \<Rightarrow> g s'))"
  using both_commit [of P s] by (auto split: prod.split bool.split)

lemma both_commit_state [kept]:
  "both P s \<Longrightarrow> (\<And>s'. both P s' \<Longrightarrow> both P (f s')) \<Longrightarrow> (\<And>s'. both P s' \<Longrightarrow> both P (g s')) \<Longrightarrow>
   both P (case commit_run s of (True, s') \<Rightarrow> f s' | (False, s') \<Rightarrow> g s')"
  using both_commit [of P s] by (auto split: prod.split bool.split)

lemma both_sum_case [kept]:
  "both P (snd x) \<Longrightarrow> (\<And>e s'. both P s' \<Longrightarrow> both P (snd (f e s'))) \<Longrightarrow> (\<And>v s'. both P s' \<Longrightarrow> both P (snd (g v s'))) \<Longrightarrow>
   both P (snd (case x of (Inl e, s') \<Rightarrow> f e s' | (Inr v, s') \<Rightarrow> g v s'))"
  by (auto split: prod.split sum.split)

lemma both_if [kept]: "both P (snd x) \<Longrightarrow> both P (snd y) \<Longrightarrow> both P (snd (if c then x else y))"
  by simp

lemma both_if_state [kept]: "both P x \<Longrightarrow> both P y \<Longrightarrow> both P (if c then x else y)"
  by simp

lemma both_snd [kept]: "both P s \<Longrightarrow> both P (snd (r, s))"
  by simp

lemma both_release: "both P (release_slot s) = both P s"
  by (simp add: release_slot_def)

definition handlers_keep :: "(job_db \<Rightarrow> bool) \<Rightarrow> job_registry \<Rightarrow> bool" where
  "handlers_keep P reg =
     (\<forall>task h p x. reg task = Some h \<longrightarrow> P (committed x) \<longrightarrow> P (working x) \<longrightarrow>
        P (committed (snd (h p x))) \<and> P (working (snd (h p x))))"

lemma both_handled: "handlers_keep P reg \<Longrightarrow> reg task = Some h \<Longrightarrow> both P s \<Longrightarrow> both P (s\<lparr>jr_db := snd (h p (jr_db s))\<rparr>)"
  by (auto simp: handlers_keep_def both_def)

locale log_invariant =
  fixes P :: "job_db \<Rightarrow> bool" and I :: "string set"
  assumes logs_only: "P d \<Longrightarrow> d_logs d' = d_logs d \<Longrightarrow> P d'"
    and store: "P d \<Longrightarrow> i \<in> I \<Longrightarrow> jl_status l \<in> set JOB_STATUSES \<Longrightarrow> P (d\<lparr>d_logs := AList.update i l (d_logs d)\<rparr>)"
    and restore: "P d \<Longrightarrow> i \<in> I \<Longrightarrow> map_of (d_logs d) i = Some l \<Longrightarrow> jl_status l' = jl_status l \<Longrightarrow>
      P (d\<lparr>d_logs := AList.update i l' (d_logs d)\<rparr>)"
begin

lemma keeps_work: "both P s \<Longrightarrow> (\<And>d. d_logs (f d) = d_logs d) \<Longrightarrow> both P (work_on f s)"
  using logs_only by (fastforce simp: both_def jobs)

lemma keeps_add: "both P s \<Longrightarrow> i \<in> I \<Longrightarrow> jl_status l \<in> set JOB_STATUSES \<Longrightarrow> both P (add_log i l s)"
  by (simp add: both_def add_log_def jobs store)

lemma keeps_edit: "both P s \<Longrightarrow> i \<in> I \<Longrightarrow> (\<And>l. jl_status (f l) \<in> set JOB_STATUSES) \<Longrightarrow> both P (edit_log i f s)"
  by (auto simp: both_def edit_log_def jobs store split: option.split)

lemma keeps_edit_status: "both P s \<Longrightarrow> i \<in> I \<Longrightarrow> (\<And>l. jl_status (f l) = jl_status l) \<Longrightarrow> both P (edit_log i f s)"
  by (auto simp: both_def edit_log_def jobs restore split: option.split)

lemma keeps_mark: "both P s \<Longrightarrow> both P (mark_unit env i st s)"
  by (auto simp: mark_unit_def intro!: keeps_work split: option.split)

lemma keeps_persist: "both P s \<Longrightarrow> both P (snd (persist_system_event ty tr s))"
  by (simp add: persist_system_event_def both_commit keeps_work)

lemma keeps_fallback: "both P s \<Longrightarrow> both P (emission_fallback tr s)"
  using keeps_persist [OF both_rollback, of s]
  by (auto simp: emission_fallback_def both_rollback split: prod.split bool.split) (metis both_rollback snd_conv)+

lemma keeps_emit: "both P s \<Longrightarrow> both P (snd (emit_system_event env required ty tr s))"
  using keeps_persist [of s ty tr]
  by (auto simp: emit_system_event_def both_rollback keeps_fallback split: prod.split bool.split)

lemma keeps_emit_async: "both P s \<Longrightarrow> both P (emit_async_system_event env ty tr s)"
  by (simp add: emit_async_system_event_def keeps_emit)

lemma keeps_emit_error: "both P s \<Longrightarrow> both P (snd (emit_error_event env t tr s))"
  by (simp add: emit_error_event_def queue_system_event_def keeps_emit)

lemma keeps_emit_apart: "both P s \<Longrightarrow> both P (emit_apart env required ty tr s)"
  using keeps_emit [OF both_new_session, of s env required ty tr] logs_only
  by (fastforce simp: emit_apart_def both_def Let_def)

lemma keeps_dispatch: "both P s \<Longrightarrow> both P (snd (dispatch_async env u task c s))"
  by (simp add: dispatch_async_def enqueue_distributed_def Let_def both_queue keeps_emit_apart)

lemmas keeps = kept both_rollback both_new_session keeps_add keeps_mark keeps_emit_async keeps_emit_error keeps_emit_apart keeps_dispatch

lemma keeps_finish_failed: "both P s \<Longrightarrow> i \<in> I \<Longrightarrow> both P (snd (finish_failed env err i s))"
  unfolding finish_failed_def Let_def by (intro keeps keeps_edit; assumption?) (simp_all add: JOB_STATUSES_def)

lemma keeps_after_exception: "both P s \<Longrightarrow> i \<in> I \<Longrightarrow> both P (snd (after_exception env err i task payload s))"
  unfolding after_exception_def Let_def
  by (cases "log_of i (rollback_run s)")
    (auto intro!: keeps keeps_edit keeps_finish_failed simp: JOB_STATUSES_def simp del: snd_conv)

lemma keeps_begin_attempt: "both P s \<Longrightarrow> i \<in> I \<Longrightarrow> both P (begin_attempt env queued i s)"
  unfolding begin_attempt_def Let_def by (intro keeps keeps_edit; assumption?) (simp_all add: JOB_STATUSES_def)

lemma keeps_record_success: "both P s \<Longrightarrow> i \<in> I \<Longrightarrow> both P (record_success_of env queued i v s)"
  unfolding record_success_of_def Let_def by (intro keeps keeps_edit; assumption?) (simp_all add: JOB_STATUSES_def)

lemma keeps_root: "both P s \<Longrightarrow> both P (ensure_root_execution_event env i s)"
  by (simp add: ensure_root_execution_event_def keeps_emit_async)

lemma keeps_execute_inline:
  assumes "handlers_keep P reg" and "both P s" and "i \<in> I"
  shows "both P (snd (execute_job_inline env reg i task payload s))"
proof -
  define s1 where "s1 = ensure_root_execution_event env i s"
  have s1: "both P s1" unfolding s1_def by (rule keeps_root [OF assms(2)])
  show ?thesis
  proof (cases "log_of i s1")
    case None
    then show ?thesis using s1 by (simp add: execute_job_inline_def s1_def [symmetric] Let_def)
  next
    case (Some l)
    show ?thesis
    proof (cases "reg task")
      case None
      then show ?thesis using Some s1 assms(3)
        by (simp add: execute_job_inline_def s1_def [symmetric] Let_def keeps_after_exception)
    next
      case (Some h)
      define s2 where "s2 = begin_attempt env (has_existing_execution_started i s1) i s1"
      obtain out db where call: "h payload (jr_db s2) = (out, db)" by fastforce
      have "both P s2" unfolding s2_def by (rule keeps_begin_attempt [OF s1 assms(3)])
      then have s3: "both P (s2\<lparr>jr_db := db\<rparr>)"
        using both_handled [OF assms(1) Some, of s2 payload] by (simp add: call)
      show ?thesis using \<open>log_of i s1 = _\<close> Some
        unfolding execute_job_inline_def Let_def s1_def [symmetric] s2_def [symmetric]
        by (cases out)
          (auto simp: call simp del: snd_conv intro!: keeps s3 keeps_after_exception assms(3) keeps_record_success)
    qed
  qed
qed

lemma keeps_execute: "handlers_keep P reg \<Longrightarrow> both P s \<Longrightarrow> i \<in> I \<Longrightarrow> both P (snd (execute_job env reg i task payload s))"
  using keeps_execute_inline [of reg "new_session s" i env task payload]
  by (auto simp: execute_job_def both_new_session split: prod.split)

lemma keeps_pool_task:
  assumes "handlers_keep P reg" and "both P s"
    and "\<forall>t\<in>set (jr_pool s). case t of Execute_task i _ _ \<Rightarrow> i \<in> I | Submit_and_release i _ _ \<Rightarrow> i \<in> I"
  shows "both P (run_pool_task env reg s)"
  using assms(2,3)
  by (auto simp: run_pool_task_def both_release keeps_execute [OF assms(1)] split: list.split pool_task.split)

lemma keeps_create_unit: "both P s \<Longrightarrow> both P (create_job_unit env a i s)"
  unfolding create_job_unit_def by (intro keeps keeps_work) simp_all

lemma keeps_guard: "both P s \<Longrightarrow> i \<in> I \<Longrightarrow> both P (inline_terminal_guard env i s)"
  unfolding inline_terminal_guard_def
  by (cases "log_of i s") (auto intro!: keeps keeps_edit simp: JOB_STATUSES_def)

lemma keeps_raise: "both P (snd x) \<Longrightarrow> i \<in> I \<Longrightarrow> both P (snd (raise_submission env i x))"
proof -
  assume a: "both P (snd x)" "i \<in> I"
  have "both P (snd (submission_failed env (fst x) i (snd x)))"
    using a unfolding submission_failed_def Let_def
    by (cases "log_of i (snd x)") (auto intro!: keeps keeps_edit simp: JOB_STATUSES_def simp del: snd_conv)
  then show ?thesis by (simp add: raise_submission_def split_beta)
qed

lemma keeps_hand_over: "both P s \<Longrightarrow> i \<in> I \<Longrightarrow> both P (snd (hand_over env p a i s))"
  unfolding hand_over_def Let_def
  by (auto intro!: keeps keeps_edit keeps_raise simp: JOB_STATUSES_def both_release simp del: snd_conv)

lemma keeps_run_inline:
  assumes "handlers_keep P reg" and "both P s" and "i \<in> I"
  shows "both P (snd (run_inline env reg a i s))"
proof -
  obtain r s1 where r: "execute_job_inline env reg i (rq_task_name a) (rq_payload a) s = (r, s1)" by fastforce
  have "both P s1" using keeps_execute_inline [OF assms, of env "rq_task_name a" "rq_payload a"] by (simp add: r)
  then have g: "both P (inline_terminal_guard env i s1)" by (rule keeps_guard [OF _ assms(3)])
  show ?thesis
  proof (cases r)
    case (Inl e)
    then show ?thesis using g keeps_raise [of "(e, inline_terminal_guard env i s1)" i env] assms(3)
      by (cases e) (simp_all add: run_inline_def r)
  next
    case (Inr x)
    then show ?thesis using g by (simp add: run_inline_def r)
  qed
qed

lemma keeps_backpressure: "both P s \<Longrightarrow> both P (snd (enforce_distributed_queue_backpressure env s))"
  unfolding enforce_distributed_queue_backpressure_def Let_def by (intro keeps) (simp_all add: both_queue)

lemma keeps_admission: "both P s \<Longrightarrow> both P (snd (admission env p a s))"
  by (simp add: admission_def keeps_backpressure split: option.split)

lemma keeps_launch:
  assumes "both P s" and "i \<in> I" and reg: "handlers_keep P reg \<or> \<not> inline_enabled env p a"
  shows "both P (snd (launch_job env reg p a i s))"
proof -
  define u where "u = emit_async_system_event env ''execution.started'' i (create_job_unit env a i s)"
  have u: "both P u" unfolding u_def by (intro keeps keeps_create_unit assms(1))
  show ?thesis unfolding launch_job_def Let_def u_def [symmetric]
    using keeps_run_inline [OF _ u assms(2)] keeps_hand_over [OF u assms(2)] u reg by auto
qed

lemma keeps_submit:
  assumes "both P s" and "i \<in> I" and reg: "handlers_keep P reg \<or> \<not> inline_enabled env p a"
  shows "both P (snd (submit_async_job env reg p a i s))"
proof -
  obtain r s1 where x: "admission env p a (new_session s) = (r, s1)" by fastforce
  have s1: "both P s1" using keeps_admission [OF both_new_session [OF assms(1)], of env p a] by (simp add: x)
  have added: "both P (add_log i (new_job_log env a i ''pending'' (rq_max_attempts a) None) s1)"
    by (rule keeps_add [OF s1 assms(2)]) (simp add: new_job_log_def JOB_STATUSES_def)
  have l: "both P (snd (case launch_job env reg p a i s2 of (r, s3) \<Rightarrow> (r, new_session s3)))" if "both P s2" for s2
    using keeps_launch [OF that assms(2) reg] by (simp add: split_beta both_new_session)
  show ?thesis unfolding submit_async_job_def x using assms(1) s1 added
    by (cases r) (auto simp del: snd_conv intro!: keeps l)
qed

lemma keeps_defer: "both P s \<Longrightarrow> i \<in> I \<Longrightarrow> both P (snd (defer_async_job env a secs i s))"
  unfolding defer_async_job_def
  by (intro keeps keeps_create_unit; assumption?) (simp_all add: new_job_log_def JOB_STATUSES_def)

lemma keeps_claim:
  assumes "both P s" and "i \<in> I"
  shows "both P (snd (try_claim_job env i s))"
proof -
  have "both P (work_on (\<lambda>d. snd (claim_log (je_now env) i d)) (new_session s))"
    using assms by (auto simp: both_def jobs claim_log_def store JOB_STATUSES_def split: option.split)
  then show ?thesis unfolding try_claim_job_def Let_def by (intro keeps)
qed

lemma keeps_autonomous:
  assumes "both P s" and "i \<in> I" and "handlers_keep P reg"
  shows "both P (snd (submit_autonomous_async_job env reg p decision autonomy a i s))"
  unfolding submit_autonomous_async_job_def Let_def using assms
  by (cases decision) (auto simp del: snd_conv intro!: keeps keeps_defer keeps_submit)

lemma keeps_deferred_loop:
  assumes "handlers_keep P reg" and "both P s" and "fst ` set ls \<subseteq> I"
  shows "both P (snd (deferred_loop env reg p evaluate ls n s))"
  using assms(2,3)
proof (induction ls arbitrary: n s)
  case (Cons a ls)
  obtain i l where a: "a = (i, l)" by fastforce
  have i: "i \<in> I" and ls: "fst ` set ls \<subseteq> I" using Cons.prems(2) by (auto simp: a)
  note IH = Cons.IH [OF _ ls]
  show ?case
  proof (cases "evaluate l")
    case (Defer_job secs)
    then show ?thesis unfolding a deferred_loop.simps using Cons.prems(1) i
      by (auto simp del: snd_conv intro!: keeps keeps_edit_status IH)
  qed (use Cons.prems(1) i in \<open>auto simp del: snd_conv simp: a JOB_STATUSES_def
        intro!: keeps keeps_edit IH keeps_execute [OF assms(1)]\<close>)
qed simp

lemma keeps_deferred:
  assumes "handlers_keep P reg" and "both P s" and "I = UNIV"
  shows "both P (snd (process_deferred_jobs env reg p evaluate limit s))"
  using keeps_deferred_loop [OF assms(1) both_new_session [OF assms(2)], of "due_logs (je_now env) limit (working (jr_db (new_session s)))"]
  by (simp add: process_deferred_jobs_def Let_def assms(3) split_beta both_new_session)

lemma keeps_ack: "both P s \<Longrightarrow> both P (snd (queue_ack env i s))"
  unfolding queue_ack_def by (intro keeps) (simp_all add: both_queue)

lemma keeps_body:
  assumes "handlers_keep P reg" and "both P s" and "qj_job_id j \<in> I"
  shows "both P (snd (job_body env reg j s))"
proof -
  obtain c s1 where c: "try_claim_job env (qj_job_id j) (emit_apart env False ''job_started'' (event_trace j) s) = (c, s1)"
    by fastforce
  have "both P s1"
    using keeps_claim [OF keeps_emit_apart [OF assms(2)] assms(3), of env env False "''job_started''" "event_trace j"] by (simp add: c)
  then show ?thesis unfolding job_body_def Let_def c
    by (cases "fetch_job_data (qj_job_id j) s1")
      (auto simp del: snd_conv intro!: keeps keeps_ack keeps_execute [OF assms(1)] assms(3))
qed

lemma keeps_snapshot:
  assumes "both P (wk_run w)"
  shows "both P (wk_run (update_worker_queue_snapshot e w))"
proof -
  let ?q = "je_queue_env (we_job e)"
  obtain r s where q: "on_queue (we_job e) (redis_get_metrics ?q) (\<lambda>m. (Inr (mem_get_metrics (qe_config ?q) m), m)) (wk_run w) = (r, s)"
    by fastforce
  with assms have "both P s" using both_queue_result [OF q] by simp
  then show ?thesis by (cases r) (simp_all add: update_worker_queue_snapshot_def q Let_def)
qed

lemma keeps_heartbeat: "both P (wk_run w) \<Longrightarrow> both P (wk_run (record_worker_heartbeat e done w))"
  unfolding record_worker_heartbeat_def Let_def by (rule keeps_snapshot) simp

lemma keeps_finish_job: "both P (wk_run w) \<Longrightarrow> both P (wk_run (finish_job e w))"
  using keeps_snapshot [of "decrement_active_jobs w" e]
  by (simp add: finish_job_def release_worker_slot_def decrement_active_jobs_def)

lemma keeps_alert: "both P (wk_run w) \<Longrightarrow> both P (wk_run (record_job_failure_alert e i w))"
  by (simp add: record_job_failure_alert_def Let_def keeps_emit_apart)

lemma keeps_job_failed:
  assumes "both P (wk_run w)"
  shows "both P (wk_run (snd (job_failed e j err w)))"
proof -
  let ?env = "restored_env (we_job e) j"
  let ?s = "emit_apart ?env False ''job_failed'' (event_trace j) (wk_run w)"
  obtain r s where q: "on_queue ?env (redis_fail (je_queue_env ?env) (qj_job_id j) (we_error_text e err))
      (mem_fail (qe_now (je_queue_env ?env)) (qj_job_id j) (we_error_text e err)) ?s = (r, s)" by fastforce
  have "both P s" using both_queue_result [OF q, of P] keeps_emit_apart [OF assms] by simp
  then show ?thesis by (cases r) (simp_all add: job_failed_def q Let_def keeps_alert)
qed

lemma keeps_taken:
  assumes "handlers_keep P reg" and "both P (wk_run w)" and "qj_job_id j \<in> I"
  shows "both P (wk_run (snd (run_taken_job e reg j w)))"
proof -
  obtain r s where b: "job_body (restored_env (we_job e) j) reg j (wk_run (increment_active_jobs w)) = (r, s)" by fastforce
  have s: "both P s"
    using keeps_body [OF assms(1) _ assms(3), of "wk_run (increment_active_jobs w)" "restored_env (we_job e) j"] assms(2)
    unfolding b by (simp add: increment_active_jobs_def)
  let ?w = "(increment_active_jobs w)\<lparr>wk_run := s\<rparr>"
  have fin: "both P (wk_run (finish_job e ?w))" by (rule keeps_finish_job) (simp add: s)
  have failed: "both P (wk_run (snd (case job_failed e j err ?w of
        (Inl err', w2) \<Rightarrow> (Inl err', finish_job e w2) | (Inr _, w2) \<Rightarrow> (Inr Processed, finish_job e w2))))" for err
    using keeps_job_failed [of ?w e j err] s keeps_finish_job by (auto split: prod.split sum.split)
  show ?thesis
  proof (cases r)
    case (Inl err)
    then show ?thesis using fin failed [of err] by (cases err) (simp_all add: run_taken_job_def b Let_def)
  qed (use fin in \<open>simp add: run_taken_job_def b Let_def\<close>)
qed

lemma keeps_process:
  assumes "handlers_keep P reg" and "both P (wk_run w)" and "I = UNIV"
  shows "both P (wk_run (snd (process_one_job e reg w)))"
proof -
  let ?q = "je_queue_env (we_job e)" and ?w0 = "update_worker_queue_snapshot e w"
  obtain r s where d: "on_queue (we_job e) (redis_dequeue ?q) (mem_dequeue (qe_now ?q)) (wk_run ?w0) = (r, s)" by fastforce
  have s: "both P s" using both_queue_result [OF d, of P] keeps_snapshot [OF assms(2)] by simp
  define w1 where "w1 = record_worker_heartbeat e True (?w0\<lparr>wk_run := s\<rparr>)"
  have w1: "both P (wk_run w1)" unfolding w1_def by (rule keeps_heartbeat) (simp add: s)
  have slot: "both P (wk_run w2)" if "acquire_slot e w1 = Some w2" for w2
    using that w1 by (auto simp: acquire_slot_def Let_def split: if_splits)
  have put: "both P (wk_run (snd (case on_queue (we_job e) (redis_enqueue ?q j) (mem_enqueue j) (wk_run w1) of
        (Inl err, s1) \<Rightarrow> (Inl (Queue_raised err), w1\<lparr>wk_run := s1\<rparr>)
      | (Inr _, s1) \<Rightarrow> (Inr Requeued, w1\<lparr>wk_run := s1\<rparr>))))" for j
    using both_queue_result [of "we_job e" "redis_enqueue ?q j" "mem_enqueue j" "wk_run w1" _ _ P] w1
    by (auto split: prod.split sum.split)
  show ?thesis
  proof (cases r)
    case (Inr taken)
    then show ?thesis unfolding process_one_job_def Let_def d Inr sum.case prod.case w1_def [symmetric]
      using w1 put slot keeps_taken [OF assms(1)] assms(3) by (auto split: option.split)
  qed (use s in \<open>simp add: process_one_job_def d Let_def\<close>)
qed

lemma keeps_requeue: "both P s \<Longrightarrow> both P (snd (requeue_letters env ds r s))"
proof (induction ds arbitrary: r s)
  case (Cons d ds)
  show ?case
  proof (cases "letter_job d")
    case (Some j)
    obtain x s1 where q: "on_queue env (redis_enqueue (je_queue_env env) j) (mem_enqueue j) s = (x, s1)" by fastforce
    have "both P s1" using both_queue_result [OF q, of P] Cons.prems by simp
    then show ?thesis by (cases x) (simp_all add: Some q Let_def Cons.IH)
  qed (simp add: Cons Let_def)
qed simp

lemma keeps_drain: "both P s \<Longrightarrow> both P (snd (drain_dead_letters env n requeue s))"
  unfolding drain_dead_letters_def Let_def
  by (intro keeps) (auto simp: both_queue split_beta intro!: both_commit keeps_emit_async keeps_requeue)

end

section \<open>The status column\<close>

definition statuses_known :: "job_db \<Rightarrow> bool" where
  "statuses_known d = (\<forall>l\<in>snd ` set (d_logs d). jl_status l \<in> set JOB_STATUSES)"

lemma values_update: "snd ` set (AList.update k v d) \<subseteq> insert v (snd ` set d)"
  by (induction d) auto

lemma statuses_update:
  assumes "statuses_known d" and "jl_status l \<in> set JOB_STATUSES"
  shows "statuses_known (d\<lparr>d_logs := AList.update i l (d_logs d)\<rparr>)"
  unfolding statuses_known_def
proof
  fix b
  assume "b \<in> snd ` set (d_logs (d\<lparr>d_logs := AList.update i l (d_logs d)\<rparr>))"
  then have "b = l \<or> b \<in> snd ` set (d_logs d)" using values_update [of i l "d_logs d"] by auto
  with assms show "jl_status b \<in> set JOB_STATUSES" by (auto simp: statuses_known_def)
qed

interpretation st: log_invariant statuses_known UNIV
proof
  fix d i and l l' :: job_log
  assume a: "statuses_known d" "map_of (d_logs d) i = Some l" "jl_status l' = jl_status l"
  then have "jl_status l' \<in> set JOB_STATUSES" by (force simp: statuses_known_def dest: map_of_SomeD)
  with a(1) show "statuses_known (d\<lparr>d_logs := AList.update i l' (d_logs d)\<rparr>)" by (rule statuses_update)
qed (simp_all add: statuses_update, simp add: statuses_known_def)

lemma cleanup_keeps_statuses: "both statuses_known s \<Longrightarrow> both statuses_known (cleanup_stale_logs env s)"
  unfolding cleanup_stale_logs_def Let_def
  by (intro both_new_session both_commit) (force simp: both_def statuses_known_def jobs JOB_STATUSES_def)

text \<open>
  Every way in which the service, the scheduler's jobs or a worker touches the table. The state is that
  of a worker process, whose run is shared with the service.
\<close>

datatype job_op =
    Op_submit job_env job_process job_request string
  | Op_autonomous job_env job_process live_decision pyval job_request string
  | Op_deferred job_env job_process "job_log \<Rightarrow> live_decision" nat
  | Op_pool job_env
  | Op_cleanup job_env
  | Op_shutdown bool
  | Op_worker worker_env
  | Op_stale worker_env time_us
  | Op_drain job_env int bool

fun apply_job_op :: "job_registry \<Rightarrow> job_op \<Rightarrow> worker \<Rightarrow> worker" where
  "apply_job_op reg (Op_submit env p a i) w = w\<lparr>wk_run := snd (submit_async_job env reg p a i (wk_run w))\<rparr>"
| "apply_job_op reg (Op_autonomous env p d au a i) w =
     w\<lparr>wk_run := snd (submit_autonomous_async_job env reg p d au a i (wk_run w))\<rparr>"
| "apply_job_op reg (Op_deferred env p ev n) w = w\<lparr>wk_run := snd (process_deferred_jobs env reg p ev n (wk_run w))\<rparr>"
| "apply_job_op reg (Op_pool env) w = w\<lparr>wk_run := run_pool_task env reg (wk_run w)\<rparr>"
| "apply_job_op reg (Op_cleanup env) w = w\<lparr>wk_run := cleanup_stale_logs env (wk_run w)\<rparr>"
| "apply_job_op reg (Op_shutdown wait) w = w\<lparr>wk_run := shutdown_async_jobs wait (wk_run w)\<rparr>"
| "apply_job_op reg (Op_worker e) w = worker_iteration e reg w"
| "apply_job_op reg (Op_stale e t) w = stale_recovery_step e t w"
| "apply_job_op reg (Op_drain env n requeue) w = w\<lparr>wk_run := snd (drain_dead_letters env n requeue (wk_run w))\<rparr>"

lemma apply_keeps_statuses:
  assumes "handlers_keep statuses_known reg" and "both statuses_known (wk_run w)"
  shows "both statuses_known (wk_run (apply_job_op reg c w))"
proof (cases c)
  case (Op_pool env)
  then show ?thesis using st.keeps_pool_task [OF assms, of env] by (auto split: pool_task.split)
next
  case (Op_worker e)
  then show ?thesis using assms st.keeps_process [OF assms(1) st.keeps_heartbeat [OF assms(2)]]
    by (simp add: worker_iteration_def)
next
  case (Op_shutdown wait)
  then show ?thesis using assms(2)
    by (simp add: shutdown_async_jobs_def stop_async_job_service_def start_async_job_service_def Let_def)
qed (use assms in \<open>simp_all add: st.keeps_submit st.keeps_autonomous st.keeps_deferred cleanup_keeps_statuses
      stale_recovery_step_def Let_def both_queue st.keeps_drain\<close>)

text \<open>
  C28. The status column has a type: whatever is submitted, deferred, run by the pool, run by workers,
  swept, shut down, requeued or drained, in any order and whatever writes fail, every stored row has one
  of the six statuses, provided the handlers respect it.
\<close>

theorem job_status_domain:
  assumes "both statuses_known (wk_run w)" and "handlers_keep statuses_known reg"
  shows "(jl_status \<circ> snd) ` set (stored_logs (wk_run (fold (apply_job_op reg) cs w))) \<subseteq> set JOB_STATUSES"
proof -
  have "both statuses_known (wk_run (fold (apply_job_op reg) cs w))"
    using assms(1) by (induction cs arbitrary: w) (simp_all add: apply_keeps_statuses [OF assms(2)])
  then show ?thesis by (auto simp: both_def statuses_known_def)
qed

definition sample_worker :: "job_run \<Rightarrow> worker" where
  "sample_worker s =
     \<lparr>wk_run = s, wk_health = fresh_health 0, wk_failures = [], wk_semaphore = None, wk_stop = False\<rparr>"

theorem job_status_domain_witness:
  "(jl_status \<circ> snd) ` set (stored_logs (wk_run (fold (apply_job_op failing_registry)
       [Op_submit quiet_env (sample_process False) (sample_request 2) ''k'', Op_pool quiet_env, Op_cleanup quiet_env]
       (sample_worker (pooled_run 2))))) \<subseteq> set JOB_STATUSES"
proof (rule job_status_domain)
  show "both statuses_known (wk_run (sample_worker (pooled_run 2)))"
    by (simp add: both_def statuses_known_def sample_worker_def pooled_run_def sample_run_def open_session_def sample_log_def
        JOB_STATUSES_def)
  show "handlers_keep statuses_known failing_registry" by (simp add: handlers_keep_def failing_registry_def)
qed

section \<open>Admission\<close>

definition grows :: "string \<Rightarrow> (string, job_log) dict \<Rightarrow> job_db \<Rightarrow> bool" where
  "grows i L d = (i \<in> fst ` set L \<or> d_logs d = L \<or> (\<exists>l. d_logs d = L @ [(i, l)]))"

lemma update_last: "i \<notin> fst ` set L \<Longrightarrow> AList.update i l (L @ [(i, l')]) = L @ [(i, l)]"
  by (induction L) auto

interpretation gr: log_invariant "grows i L" "{i}" for i L
  by unfold_locales (auto simp: grows_def update_new update_last)

text \<open>A submission stores one row or none, and none when the cap is reached.\<close>

lemma submission_grows:
  assumes "\<not> inline_enabled env p a" and "i \<notin> fst ` set (stored_logs s)"
  shows "stored_logs (snd (submit_async_job env reg p a i s)) = stored_logs s \<or>
    (\<exists>l. stored_logs (snd (submit_async_job env reg p a i s)) = stored_logs s @ [(i, l)])"
proof -
  let ?s = "if jr_accepting s then new_session s else s"
  have "snd (submit_async_job env reg p a i s) = (if jr_accepting s then snd (submit_async_job env reg p a i (new_session s)) else s)"
    by (simp add: submit_async_job_def new_session_def open_session_def)
  moreover have "both (grows i (stored_logs s)) (snd (submit_async_job env reg p a i (new_session s)))"
    by (rule gr.keeps_submit) (use assms(1) in \<open>auto simp: both_def grows_def jobs\<close>)
  ultimately show ?thesis using assms(2) by (auto simp: both_def grows_def)
qed

lemma capped_submission:
  assumes "\<not> inline_enabled env p a" and "safe_int_env (lim_global (pr_limits p)) 0 = cap" and "0 < cap"
    and "cap \<le> int (length (active_jobs (committed (jr_db s))))"
  shows "stored_logs (snd (submit_async_job env reg p a i s)) = stored_logs s"
  using assms
  by (simp add: submit_async_job_def admission_def enforce_job_admission_limits_def Let_def jobs)

fun submit_all :: "job_registry \<Rightarrow> (job_env \<times> job_process \<times> job_request \<times> string) list \<Rightarrow> job_run \<Rightarrow> job_run" where
  "submit_all reg [] s = s"
| "submit_all reg ((env, p, a, i) # rest) s = submit_all reg rest (snd (submit_async_job env reg p a i s))"



end
