(* ===== verification/Worker_Safety.thy ===== *)
theory Worker_Safety
  imports Job_Invariant Redis_Queue
begin

text \<open>
  What the worker guarantees: a claim is exclusive, a claimed job ends as it would in the thread pool,
  and what becomes of a delivery whose row is not pending.
\<close>

section \<open>Claims\<close>

definition pending_row :: "string \<Rightarrow> job_run \<Rightarrow> bool" where
  "pending_row i s = (\<exists>l. map_of (stored_logs s) i = Some l \<and> jl_status l = ''pending'')"

lemma claim_outcome:
  "if fst (try_claim_job env i s)
   then \<exists>l. map_of (stored_logs s) i = Some l \<and> jl_status l = ''pending'' \<and>
     stored_logs (snd (try_claim_job env i s)) =
       AList.update i (l\<lparr>jl_status := ''running'', jl_started_at := Some (je_now env)\<rparr>) (stored_logs s)
   else stored_logs (snd (try_claim_job env i s)) = stored_logs s"
proof -
  let ?d = "committed (jr_db s)"
  obtain ok s1 where io: "draw_io (work_on (\<lambda>d. snd (claim_log (je_now env) i d)) (new_session s)) = (ok, s1)" by fastforce
  have s1: "jr_db s1 = \<lparr>committed = ?d, working = snd (claim_log (je_now env) i ?d)\<rparr>"
    using io by (auto simp: draw_io_def work_on_def new_session_def session_defs split: list.splits)
  show ?thesis
  proof (cases ok)
    case True
    then have "try_claim_job env i s = (fst (claim_log (je_now env) i ?d), s1\<lparr>jr_db := commit_session (jr_db s1)\<rparr>)"
      by (simp add: try_claim_job_def commit_run_def io Let_def jobs)
    then show ?thesis by (auto simp: s1 session_defs claim_log_def split: option.split)
  next
    case False
    then show ?thesis by (simp add: try_claim_job_def commit_run_def io Let_def jobs s1)
  qed
qed

lemma claim_needs_pending:
  assumes "fst (try_claim_job env i s)"
  shows "pending_row i s" and "\<not> pending_row i (snd (try_claim_job env i s))"
  using claim_outcome [of env i s] assms by (auto simp: pending_row_def update_conv)

lemma claim_makes_none_pending: "\<not> pending_row i s \<Longrightarrow> \<not> pending_row i (snd (try_claim_job env i s))"
  using claim_outcome [of env i s] claim_needs_pending(1) [of env i s]
  by (cases "fst (try_claim_job env i s)") (auto simp: pending_row_def)

text \<open>Any number of workers try to claim a job, while other things happen to the data in between.\<close>

datatype claim_step = Claim job_env | Other "job_run \<Rightarrow> job_run"

fun run_claims :: "string \<Rightarrow> claim_step list \<Rightarrow> job_run \<Rightarrow> nat" where
  "run_claims i [] s = 0"
| "run_claims i (Claim env # steps) s =
     (case try_claim_job env i s of (ok, s1) \<Rightarrow> (if ok then 1 else 0) + run_claims i steps s1)"
| "run_claims i (Other f # steps) s = run_claims i steps (f s)"

lemma no_claim_unless_pending:
  assumes "\<forall>f s. Other f \<in> set steps \<longrightarrow> pending_row i (f s) \<longrightarrow> pending_row i s" and "\<not> pending_row i s"
  shows "run_claims i steps s = 0"
  using assms
proof (induction steps arbitrary: s)
  case (Cons a steps)
  have later: "\<forall>f s. Other f \<in> set steps \<longrightarrow> pending_row i (f s) \<longrightarrow> pending_row i s"
    using Cons.prems(1) by (meson list.set_intros(2))
  show ?case
  proof (cases a)
    case (Claim e)
    obtain ok s1 where c: "try_claim_job e i s = (ok, s1)" by fastforce
    have "\<not> ok" using claim_needs_pending(1) [of e i s] Cons.prems(2) by (auto simp: c)
    moreover have "\<not> pending_row i s1" using claim_makes_none_pending [OF Cons.prems(2), of e] by (simp add: c)
    ultimately show ?thesis using Cons.IH [OF later, of s1] by (simp add: Claim c)
  next
    case (Other f)
    then have "pending_row i (f s) \<longrightarrow> pending_row i s" using Cons.prems(1) by (meson list.set_intros(1))
    with Cons.prems(2) show ?thesis using Cons.IH [OF later, of "f s"] by (simp add: Other)
  qed
qed simp

lemma claimed_at_most_once:
  assumes "\<forall>f s. Other f \<in> set steps \<longrightarrow> pending_row i (f s) \<longrightarrow> pending_row i s"
  shows "run_claims i steps s \<le> 1"
  using assms
proof (induction steps arbitrary: s)
  case (Cons a steps)
  have later: "\<forall>f s. Other f \<in> set steps \<longrightarrow> pending_row i (f s) \<longrightarrow> pending_row i s"
    using Cons.prems by (meson list.set_intros(2))
  show ?case
  proof (cases a)
    case (Claim e)
    obtain ok s1 where c: "try_claim_job e i s = (ok, s1)" by fastforce
    show ?thesis
    proof (cases ok)
      case True
      then have "\<not> pending_row i s1" using claim_needs_pending(2) [of e i s] by (simp add: c)
      from no_claim_unless_pending [OF later this] show ?thesis by (simp add: Claim c)
    next
      case False
      then show ?thesis using Cons.IH [OF later, of s1] by (simp add: Claim c)
    qed
  next
    case (Other f)
    then show ?thesis using Cons.IH [OF later] by simp
  qed
qed simp

lemma durable_claim:
  assumes "durable s" and "map_of (stored_logs s) i = Some l" and "jl_status l = ''pending''"
  shows "\<exists>s'. try_claim_job env i s = (True, s') \<and> durable s' \<and> committed (jr_db s') = (committed (jr_db s))\<lparr>d_logs :=
      AList.update i (l\<lparr>jl_status := ''running'', jl_started_at := Some (je_now env)\<rparr>) (stored_logs s)\<rparr> \<and>
    jr_queue s' = jr_queue s"
  using assms by (simp add: try_claim_job_def commit_run_def draw_io_def durable_def claim_log_def Let_def jobs session_defs)

text \<open>
  C16. A job is claimed once: however many workers try to claim it and whatever happens in between,
  as long as nothing sets the row back to pending at most one claim succeeds, whatever writes fail;
  and while none fails the first claim of a pending job succeeds.
\<close>

theorem claim_exclusive:
  assumes "\<forall>f s. Other f \<in> set steps \<longrightarrow> pending_row i (f s) \<longrightarrow> pending_row i s"
  shows "run_claims i steps s \<le> 1 \<and> (durable s \<and> pending_row i s \<longrightarrow> run_claims i (Claim env # steps) s = 1)"
proof (intro conjI impI)
  assume a: "durable s \<and> pending_row i s"
  then obtain l where "map_of (stored_logs s) i = Some l" "jl_status l = ''pending''" by (auto simp: pending_row_def)
  with a obtain s' where c: "try_claim_job env i s = (True, s')" using durable_claim by blast
  then have "\<not> pending_row i s'" using claim_needs_pending(2) [of env i s] by simp
  from no_claim_unless_pending [OF assms this] show "run_claims i (Claim env # steps) s = 1" by (simp add: c)
qed (rule claimed_at_most_once [OF assms])

theorem claim_exclusive_witness:
  "run_claims ''j'' [Claim quiet_env, Other (shutdown_async_jobs False), Claim quiet_env, Claim quiet_env] (pooled_run 1) = 1"
proof -
  let ?steps = "[Other (shutdown_async_jobs False), Claim quiet_env, Claim quiet_env]"
  have "\<forall>f s. Other f \<in> set ?steps \<longrightarrow> pending_row ''j'' (f s) \<longrightarrow> pending_row ''j'' s"
    by (simp add: pending_row_def shutdown_async_jobs_def start_async_job_service_def)
  moreover have "durable (pooled_run 1)" "pending_row ''j'' (pooled_run 1)"
    by (simp_all add: durable_def pending_row_def pooled_run_def sample_run_def open_session_def sample_log_def)
  ultimately show ?thesis using claim_exclusive [of ?steps "''j''" "pooled_run 1" quiet_env] by blast
qed

section \<open>Worker and pool\<close>

lemma emit_apart_durable:
  assumes "durable s"
  shows "durable (emit_apart env required ty trace s)"
    and "stored_logs (emit_apart env required ty trace s) = stored_logs s"
    and "set (stored_events s) \<subseteq> set (stored_events (emit_apart env required ty trace s))"
    and "jr_queue (emit_apart env required ty trace s) = jr_queue s"
  using assms by (auto simp: emit_apart_def durable_emission durable_def Let_def jobs session_defs)

text \<open>An event in a session of its own changes no row, even when its writes fail.\<close>

interpretation fx: log_invariant "\<lambda>d. d_logs d = L" "{}" for L
  by unfold_locales simp_all

lemma emit_apart_rows: "stored_logs (emit_apart env required ty trace s) = stored_logs s"
  using fx.keeps_emit [of "stored_logs s" "new_session s" env required ty trace]
  by (simp add: emit_apart_def both_def Let_def jobs)

lemma queue_call_view:
  "stored_logs (snd (on_queue env f g s)) = stored_logs s" "jr_io (snd (on_queue env f g s)) = jr_io s"
  by (simp_all add: on_queue_def split: prod.split)

lemma dispatch_rows: "durable s \<Longrightarrow> stored_logs (snd (dispatch_async env u task c s)) = stored_logs s"
  by (simp add: dispatch_async_def enqueue_distributed_def Let_def queue_call_view emit_apart_durable)

lemma ack_rows: "stored_logs (snd (queue_ack env i s)) = stored_logs s"
proof -
  obtain r s1 where q: "on_queue env (redis_ack (je_queue_env env) i) (mem_ack i) s = (r, s1)" by fastforce
  then have "stored_logs s1 = stored_logs s"
    using queue_call_view(1) [of env "redis_ack (je_queue_env env) i" "mem_ack i" s] by simp
  then show ?thesis by (cases r) (simp_all add: queue_ack_def q)
qed

text \<open>What an attempt leaves in the table does not depend on where the next one is queued.\<close>

lemma exception_rows:
  assumes "durable s" and "map_of (stored_logs s) i = Some l"
  shows "stored_logs (snd (after_exception env err i task payload s)) = AList.update i
      (if jl_attempt_count l < jl_max_attempts l then l\<lparr>jl_status := ''pending'', jl_error_message := Some err\<rparr>
       else l\<lparr>jl_status := ''failed'', jl_error_message := Some err, jl_result := Some (Job_failure err),
              jl_completed_at := Some (je_now env)\<rparr>) (stored_logs s)"
proof -
  define s1 where "s1 = edit_log i (\<lambda>l. l\<lparr>jl_status := ''pending'', jl_error_message := Some err\<rparr>) (rollback_run s)"
  have d: "durable s1" "durable (rollback_run s)" using assms(1) by (simp_all add: s1_def durable_def jobs)
  have row: "log_of i (rollback_run s) = Some l" "map_of (seen_logs (rollback_run s)) i = Some l"
    using assms(2) by (simp_all add: log_of_def jobs)
  show ?thesis
  proof (cases "jl_attempt_count l < jl_max_attempts l")
    case True
    define s2 where "s2 = s1\<lparr>jr_db := commit_session (jr_db s1)\<rparr>"
    have s2: "durable s2" "stored_logs s2 = AList.update i (l\<lparr>jl_status := ''pending'', jl_error_message := Some err\<rparr>) (stored_logs s)"
      using d(1) assms(2) by (simp_all add: s2_def s1_def durable_def session_defs jobs)
    obtain r s3 where q: "dispatch_async env JOB_DISPATCH_STUB (Execute_task i task payload) (retry_context i l) s2 = (r, s3)"
      by fastforce
    have "stored_logs s3 = stored_logs s2"
      using dispatch_rows [OF s2(1), of env JOB_DISPATCH_STUB "Execute_task i task payload" "retry_context i l"] by (simp add: q)
    with True row(1) s2(2) show ?thesis
      unfolding after_exception_def Let_def s1_def [symmetric]
      by (cases r) (simp_all add: durable_commit [OF d(1)] s2_def [symmetric] q)
  next
    case False
    then show ?thesis using finish_failed_durable [OF d(2) row(2), of env err] row(1)
      by (auto simp: after_exception_def Let_def jobs)
  qed
qed

lemma execution_rows:
  assumes "job_ready i l s" and "leaves_logs h" and "reg task = Some h" and "\<forall>x. fst (h payload x) = out" and "out \<noteq> Interrupts"
  shows "stored_logs (snd (execute_job env reg i task payload s)) = AList.update i (ended_row env i out l) (stored_logs s)"
proof -
  have "settled (new_session s)" "job_ready i l (new_session s)"
    using assms(1) by (simp_all add: settled_def job_ready_def durable_def jobs)
  from handler_called [where reg = reg and task = task, OF this assms(2,3), of env payload] assms(4) obtain s3 where
    a: "attempt_begun env i l (new_session s) s3"
    and run: "execute_job_inline env reg i task payload (new_session s) = after_handler env i task payload out s3" by auto
  have s3: "durable s3" "map_of (seen_logs s3) i = Some (begun_row env l)" "map_of (stored_logs s3) i = Some (begun_row env l)"
    "stored_logs s3 = AList.update i (begun_row env l) (stored_logs s)" "seen_logs s3 = AList.update i (begun_row env l) (stored_logs s)"
    using a by (simp_all add: attempt_begun_def update_conv jobs)
  have "stored_logs (snd (after_handler env i task payload out s3)) = AList.update i (ended_row env i out l) (stored_logs s)"
  proof (cases out)
    case (Returns v)
    then show ?thesis using record_success_durable [OF s3(1,2), of True v] s3(5)
      by (simp add: after_handler_def durable_commit session_defs ended_row_def)
  next
    case (Raises e)
    then show ?thesis using exception_rows [OF s3(1,3), of env "Handler_raised e" task payload] s3(4)
      by (auto simp: after_handler_def ended_row_def retry_row_def failed_row_def begun_row_def)
  qed (use assms(5) in simp)
  then show ?thesis by (simp add: execute_job_def run split_beta jobs)
qed


definition sample_queue_job :: "string \<Rightarrow> queue_job" where
  "sample_queue_job i = queue_payload quiet_env JOB_DISPATCH_STUB (submit_context (sample_request 1) i)"


section \<open>Redelivery\<close>

lemma delete_update_same: "AList.delete k (AList.update k v d) = AList.delete k d"
  by (induction d) auto

text \<open>A process whose queue is a healthy Redis backend.\<close>

definition on_calm_redis :: "job_run \<Rightarrow> bool" where
  "on_calm_redis s =
     (qs_io (jr_queue s) = [] \<and> (\<exists>b. qs_instance (jr_queue s) = Some (Redis_queue b) \<and> rb_open_until b = 0))"

lemma calm_redis_call:
  assumes "on_calm_redis s"
    and call: "\<And>w. calm w \<Longrightarrow> rw_store w = qs_store (jr_queue s) \<Longrightarrow>
      \<exists>x w'. on_r w = (x, w') \<and> Q x \<and> calm w' \<and> rw_store w' = st"
  shows "\<exists>x s'. on_queue env on_r on_m s = (x, s') \<and> Q x \<and> on_calm_redis s' \<and> qs_store (jr_queue s') = st \<and>
    jr_db s' = jr_db s \<and> jr_io s' = jr_io s"
proof -
  obtain b where b: "qs_io (jr_queue s) = []" "qs_instance (jr_queue s) = Some (Redis_queue b)" "rb_open_until b = 0"
    using assms(1) by (auto simp: on_calm_redis_def)
  let ?w = "\<lparr>rw_backend = b, rw_store = qs_store (jr_queue s), rw_io = []\<rparr>"
  have "calm ?w" using b by (simp add: calm_def)
  from call [OF this] obtain x w' where "on_r ?w = (x, w')" "Q x" "calm w'" "rw_store w' = st" by auto
  then show ?thesis using b
    by (simp add: on_queue_def with_queue_def get_queue_def on_redis_def on_calm_redis_def calm_def)
qed

lemma metrics_calm: "calm w \<Longrightarrow> \<exists>m. redis_get_metrics env w = (Inr m, w)"
  by (simp add: calm_def redis_get_metrics_def redis_get_dlq_depth_def queue_calls)

text \<open>What a step of a worker leaves alone when it only looks at the queue.\<close>

definition same_store :: "worker \<Rightarrow> worker \<Rightarrow> bool" where
  "same_store w w' \<longleftrightarrow>
     on_calm_redis (wk_run w') \<and> qs_store (jr_queue (wk_run w')) = qs_store (jr_queue (wk_run w)) \<and>
     jr_db (wk_run w') = jr_db (wk_run w) \<and> jr_io (wk_run w') = jr_io (wk_run w)"

lemma snapshot_calm:
  assumes "on_calm_redis (wk_run w)"
  shows "same_store w (update_worker_queue_snapshot e w)"
proof -
  let ?q = "je_queue_env (we_job e)"
  obtain x s' where q: "on_queue (we_job e) (redis_get_metrics ?q) (\<lambda>m. (Inr (mem_get_metrics (qe_config ?q) m), m)) (wk_run w) = (x, s')"
    "on_calm_redis s'" "qs_store (jr_queue s') = qs_store (jr_queue (wk_run w))" "jr_db s' = jr_db (wk_run w)" "jr_io s' = jr_io (wk_run w)"
    using calm_redis_call [OF assms, where Q = "\<lambda>_. True" and on_r = "redis_get_metrics ?q"] metrics_calm by blast
  then show ?thesis by (cases x) (simp_all add: update_worker_queue_snapshot_def same_store_def Let_def)
qed

lemma heartbeat_calm: "on_calm_redis (wk_run w) \<Longrightarrow> same_store w (record_worker_heartbeat e fin w)"
  using snapshot_calm [of "w\<lparr>wk_health := h\<rparr>" e for h]
  by (simp add: record_worker_heartbeat_def same_store_def Let_def)

lemma finish_calm: "on_calm_redis (wk_run w) \<Longrightarrow> same_store w (finish_job e w)"
  using snapshot_calm [of "decrement_active_jobs w" e]
  by (simp add: finish_job_def same_store_def release_worker_slot_def decrement_active_jobs_def)

lemma dequeue_calm:
  assumes "on_calm_redis s" and "rq_main (qs_store (jr_queue s)) = pre @ [Job_text j]" and "\<forall>raw\<in>set (pre @ [Job_text j]). good_wire raw"
  shows "\<exists>s'. on_queue env (redis_dequeue q) (mem_dequeue t) s = (Inr (Some j), s') \<and> on_calm_redis s' \<and>
    qs_store (jr_queue s') = (qs_store (jr_queue s))\<lparr>rq_main := pre, rq_inflight :=
      AList.update (qj_job_id j) \<lparr>if_payload = Job_text j, if_dequeued_at = qe_now q\<rparr> (rq_inflight (qs_store (jr_queue s)))\<rparr> \<and>
    jr_db s' = jr_db s \<and> jr_io s' = jr_io s"
  using calm_redis_call [OF assms(1), where Q = "\<lambda>x. x = Inr (Some j)" and on_r = "redis_dequeue q"] assms(2,3)
  by (simp add: redis_dequeue_calm Let_def)

lemma ack_calm:
  assumes "on_calm_redis s"
  shows "\<exists>s'. queue_ack env i s = (Inr (), s') \<and> on_calm_redis s' \<and>
    qs_store (jr_queue s') = (qs_store (jr_queue s))\<lparr>rq_inflight := AList.delete i (rq_inflight (qs_store (jr_queue s)))\<rparr> \<and>
    jr_db s' = jr_db s \<and> jr_io s' = jr_io s"
proof -
  let ?st = "(qs_store (jr_queue s))\<lparr>rq_inflight := AList.delete i (rq_inflight (qs_store (jr_queue s)))\<rparr>"
  obtain s' where "on_queue env (redis_ack (je_queue_env env) i) (mem_ack i) s = (Inr (), s')" "on_calm_redis s'"
    "qs_store (jr_queue s') = ?st" "jr_db s' = jr_db s" "jr_io s' = jr_io s"
    using calm_redis_call [OF assms, where Q = "\<lambda>x. x = Inr ()" and on_r = "redis_ack (je_queue_env env) i" and st = ?st
        and env = env and on_m = "mem_ack i"]
    by (auto simp: redis_ack_calm)
  then show ?thesis by (simp add: queue_ack_def)
qed

lemma claim_queue: "jr_queue (snd (try_claim_job env i s)) = jr_queue s" "durable s \<Longrightarrow> durable (snd (try_claim_job env i s))"
  by (simp_all add: try_claim_job_def commit_run_def draw_io_def durable_def Let_def jobs split: list.split bool.split)

text \<open>A delivery whose row is not pending is acknowledged, and its handler is not called.\<close>

lemma skipped_body:
  assumes "on_calm_redis s" and "durable s" and "\<not> pending_row (qj_job_id j) s"
  shows "\<exists>s'. job_body env reg j s = (Inr (), s') \<and> on_calm_redis s' \<and> stored_logs s' = stored_logs s \<and>
    qs_store (jr_queue s') =
      (qs_store (jr_queue s))\<lparr>rq_inflight := AList.delete (qj_job_id j) (rq_inflight (qs_store (jr_queue s)))\<rparr>"
proof -
  define s1 where "s1 = emit_apart env False ''job_started'' (event_trace j) s"
  have s1: "stored_logs s1 = stored_logs s" "jr_queue s1 = jr_queue s"
    using emit_apart_durable [OF assms(2)] by (simp_all add: s1_def)
  obtain ok s2 where c: "try_claim_job env (qj_job_id j) s1 = (ok, s2)" by fastforce
  have "\<not> pending_row (qj_job_id j) s1" using assms(3) s1(1) by (simp add: pending_row_def)
  then have no: "\<not> ok" using claim_needs_pending(1) [of env "qj_job_id j" s1] by (auto simp: c)
  have s2: "stored_logs s2 = stored_logs s" "jr_queue s2 = jr_queue s"
    using claim_outcome [of env "qj_job_id j" s1] claim_queue(1) [of env "qj_job_id j" s1] no s1 by (simp_all add: c)
  have "on_calm_redis s2" using assms(1) s2(2) by (simp add: on_calm_redis_def)
  from ack_calm [OF this, of env "qj_job_id j"] show ?thesis
    using no s2 by (auto simp: job_body_def Let_def s1_def [symmetric] c)
qed

lemma redelivery_skipped:
  assumes calm: "on_calm_redis (wk_run w)" and "durable (wk_run w)" and "we_max_concurrent e \<le> 0"
    and store: "rq_main (qs_store (jr_queue (wk_run w))) = pre @ [Job_text j]" "\<forall>raw\<in>set (pre @ [Job_text j]). good_wire raw"
    and "\<not> pending_row (qj_job_id j) (wk_run w)"
  shows "\<exists>w'. process_one_job e reg w = (Inr Processed, w') \<and> stored_logs (wk_run w') = stored_logs (wk_run w) \<and>
    qs_store (jr_queue (wk_run w')) = (qs_store (jr_queue (wk_run w)))\<lparr>rq_main := pre,
      rq_inflight := AList.delete (qj_job_id j) (rq_inflight (qs_store (jr_queue (wk_run w))))\<rparr>"
proof -
  define w0 where "w0 = update_worker_queue_snapshot e w"
  have w0: "same_store w w0" unfolding w0_def by (rule snapshot_calm [OF calm])
  let ?q = "je_queue_env (we_job e)"
  obtain s where d: "on_queue (we_job e) (redis_dequeue ?q) (mem_dequeue (qe_now ?q)) (wk_run w0) = (Inr (Some j), s)"
    "on_calm_redis s" "jr_db s = jr_db (wk_run w)" "jr_io s = jr_io (wk_run w)"
    "qs_store (jr_queue s) = (qs_store (jr_queue (wk_run w)))\<lparr>rq_main := pre, rq_inflight :=
      AList.update (qj_job_id j) \<lparr>if_payload = Job_text j, if_dequeued_at = qe_now ?q\<rparr> (rq_inflight (qs_store (jr_queue (wk_run w))))\<rparr>"
    using dequeue_calm [of "wk_run w0" pre j "we_job e" ?q "qe_now ?q"] w0 store by (auto simp: same_store_def)
  define w1 where "w1 = record_worker_heartbeat e True (w0\<lparr>wk_run := s\<rparr>)"
  have w1: "same_store (w0\<lparr>wk_run := s\<rparr>) w1" unfolding w1_def by (rule heartbeat_calm) (simp add: d(2))
  have rest: "process_one_job e reg w = run_taken_job e reg j w1"
    using assms(3) by (simp add: process_one_job_def w0_def [symmetric] d(1) w1_def [symmetric] acquire_slot_def Let_def)
  have v1: "on_calm_redis (wk_run w1)" "durable (wk_run w1)" "\<not> pending_row (qj_job_id j) (wk_run w1)"
    "stored_logs (wk_run w1) = stored_logs (wk_run w)"
    using w1 d assms(2,6) by (simp_all add: same_store_def durable_def pending_row_def)
  obtain s2 where b: "job_body (restored_env (we_job e) j) reg j (wk_run w1) = (Inr (), s2)" "on_calm_redis s2"
    "stored_logs s2 = stored_logs (wk_run w)"
    "qs_store (jr_queue s2) = (qs_store (jr_queue (wk_run w1)))\<lparr>rq_inflight :=
      AList.delete (qj_job_id j) (rq_inflight (qs_store (jr_queue (wk_run w1))))\<rparr>"
    using skipped_body [OF v1(1-3), of "restored_env (we_job e) j" reg] v1(4) by auto
  let ?w2 = "(increment_active_jobs w1)\<lparr>wk_run := s2\<rparr>"
  have fin: "same_store ?w2 (finish_job e ?w2)" by (rule finish_calm) (simp add: b(2))
  have run: "run_taken_job e reg j w1 = (Inr Processed, finish_job e ?w2)"
    using b(1) by (simp add: run_taken_job_def increment_active_jobs_def Let_def)
  show ?thesis unfolding rest run using fin b(3,4) w1 d(5) by (simp add: same_store_def delete_update_same)
qed

lemma stale_step_calm:
  assumes "on_calm_redis (wk_run w)" and "store_wf (qs_store (jr_queue (wk_run w)))" and "\<not> wk_stop w"
  shows "on_calm_redis (wk_run (stale_recovery_step e t w)) \<and>
    qs_store (jr_queue (wk_run (stale_recovery_step e t w))) =
      fold requeue_one (filter (\<lambda>(_, x). t < qe_now (je_queue_env (we_job e)) - if_dequeued_at x)
        (rq_inflight (qs_store (jr_queue (wk_run w))))) (qs_store (jr_queue (wk_run w))) \<and>
    jr_db (wk_run (stale_recovery_step e t w)) = jr_db (wk_run w) \<and> jr_io (wk_run (stale_recovery_step e t w)) = jr_io (wk_run w)"
proof -
  let ?q = "je_queue_env (we_job e)" and ?S = "qs_store (jr_queue (wk_run w))"
  let ?st = "fold requeue_one (filter (\<lambda>(_, x). t < qe_now ?q - if_dequeued_at x) (rq_inflight ?S)) ?S"
  have "\<exists>x w'. redis_requeue_stale_jobs ?q t u = (x, w') \<and> True \<and> calm w' \<and> rw_store w' = ?st"
    if "calm u" "rw_store u = ?S" for u
    using redis_requeue_calm [OF that(1), of ?q t] that assms(2) by auto
  from calm_redis_call [OF assms(1), where Q = "\<lambda>_. True" and on_r = "redis_requeue_stale_jobs ?q t" and st = ?st
      and env = "we_job e" and on_m = "mem_requeue_stale_jobs (qe_now ?q) t"] this
  show ?thesis using assms(3) by (auto simp: stale_recovery_step_def Let_def)
qed

text \<open>
  The recovery of stale jobs does not recover a job whose worker died: the worker had claimed the
  row, so the copy that is put back into the queue after the visibility timeout is acknowledged by the
  next worker as already claimed. After that the job is in no structure of the queue, its handler has
  not run, and its row is left at \<open>running\<close>.
\<close>

theorem crashed_job_not_recovered:
  assumes "on_calm_redis (wk_run w)" and "durable (wk_run w)" and "we_max_concurrent e \<le> 0" and "\<not> wk_stop w"
    and "store_wf (qs_store (jr_queue (wk_run w)))" and "rq_main (qs_store (jr_queue (wk_run w))) = []"
    and "rq_inflight (qs_store (jr_queue (wk_run w))) = [(qj_job_id j, \<lparr>if_payload = Job_text j, if_dequeued_at = t0\<rparr>)]"
    and "timeout < qe_now (je_queue_env (we_job e)) - t0"
    and "map_of (stored_logs (wk_run w)) (qj_job_id j) = Some l" and "jl_status l = ''running''"
  shows "\<exists>w'. process_one_job e reg (stale_recovery_step e timeout w) = (Inr Processed, w') \<and>
    stored_logs (wk_run w') = stored_logs (wk_run w) \<and>
    qs_store (jr_queue (wk_run w')) = (qs_store (jr_queue (wk_run w)))\<lparr>rq_main := [], rq_inflight := []\<rparr>"
proof -
  define v where "v = stale_recovery_step e timeout w"
  have v: "on_calm_redis (wk_run v)" "jr_db (wk_run v) = jr_db (wk_run w)" "jr_io (wk_run v) = jr_io (wk_run w)"
    "qs_store (jr_queue (wk_run v)) = (qs_store (jr_queue (wk_run w)))\<lparr>rq_main := [Job_text j], rq_inflight := []\<rparr>"
    using stale_step_calm [OF assms(1,5,4), of e timeout] assms(6-8) by (simp_all add: v_def requeue_one_def)
  have "good_wire (Job_text j)" using assms(5,7) by (simp add: store_wf_def)
  moreover have "\<not> pending_row (qj_job_id j) (wk_run v)" using v(2) assms(9,10) by (simp add: pending_row_def)
  ultimately show ?thesis
    using redelivery_skipped [of v e "[]" j reg] v assms(2,3) by (simp add: v_def [symmetric] durable_def)
qed

definition crashed_worker :: worker where
  "crashed_worker =
     sample_worker ((sample_run [(''j'', (sample_log 3)\<lparr>jl_status := ''running''\<rparr>)] [])\<lparr>jr_queue :=
       \<lparr>qs_instance = Some (Redis_queue (new_redis_backend None (qe_config (je_queue_env quiet_env)))),
        qs_store = \<lparr>rq_main = [], rq_inflight = [(''j'', \<lparr>if_payload = Job_text (sample_queue_job ''j''), if_dequeued_at = 0\<rparr>)],
          rq_delayed = [], rq_dead = []\<rparr>, qs_io = []\<rparr>\<rparr>)"

definition sample_worker_env :: "time_us \<Rightarrow> worker_env" where
  "sample_worker_env now =
     \<lparr>we_job = quiet_env\<lparr>je_queue_env := (je_queue_env quiet_env)\<lparr>qe_now := now\<rparr>\<rparr>, we_mono = now, we_max_concurrent = 0,
      we_alert_threshold = 10, we_error_text = (\<lambda>_. [])\<rparr>"

theorem crashed_job_not_recovered_witness:
  "\<exists>w'. process_one_job (sample_worker_env 400) failing_registry (stale_recovery_step (sample_worker_env 400) 300 crashed_worker) =
      (Inr Processed, w') \<and> stored_logs (wk_run w') = stored_logs (wk_run crashed_worker) \<and>
    qs_store (jr_queue (wk_run w')) = (qs_store (jr_queue (wk_run crashed_worker)))\<lparr>rq_main := [], rq_inflight := []\<rparr>"
  by (rule crashed_job_not_recovered [where j = "sample_queue_job ''j''" and ?t0.0 = 0 and l = "(sample_log 3)\<lparr>jl_status := ''running''\<rparr>"])
    (simp_all add: crashed_worker_def sample_worker_def sample_run_def on_calm_redis_def new_redis_backend_def durable_def
      sample_worker_env_def store_wf_def open_session_def sample_queue_job_def queue_payload_def submit_context_def or_str_def
      job_post_init_def Let_def)

end
