(* ===== verification/Flow_Store.thy ===== *)
theory Flow_Store
  imports Resource_Manager Scheduler_Waits Execution_Unit Retry_Policy
begin

text \<open>
  What the flow engine (\<^verbatim>\<open>AINDY/runtime/flow_engine\<close>) works on: flow graphs and their registry, the rows of
  \<^verbatim>\<open>db/models/flow_run.py\<close> beside the execution units and the system events, the resource manager and the
  scheduler, whose models it uses; and \<^verbatim>\<open>serialization.py\<close>, which reads results and shapes responses.

  A session is the \<open>db_session\<close> of the prelude. Each write that has to become durable, a commit or an
  event, takes one entry of \<open>fl_io\<close>: \<open>False\<close> means that it raises; an exhausted list means that all goes
  well. Reads succeed. Texts of exceptions are the exceptions. Values are JSON values already, so
  \<^verbatim>\<open>_json_safe\<close> is the identity; statuses and identifiers inside them are texts.
\<close>

section \<open>Flows and rows\<close>

type_synonym flow_state = "(string, pyval) dict"

text \<open>A condition raises with \<open>None\<close>.\<close>

datatype flow_edge = Plain string | Conditional "flow_state \<Rightarrow> bool option" string

record flow_graph =
  fg_start :: string
  fg_edges :: "(string, flow_edge list) dict"
  fg_end :: "string list"
  fg_max_retries :: "(string, int option) dict"
  fg_wait_timeout_minutes :: "int option"

datatype flow_error =
    Node_raised string
  | Node_blocked string
  | Node_unknown string
  | Node_retried_out string nat
  | Node_failed "string option" string
  | Wait_without_event string
  | No_next_node string
  | Quota_refused quota_reason
  | Finalization_failed
  | Unit_missing
  | Stuck_run_recovered
  | Dead_lettered string

record flow_row =
  fw_flow_name :: string
  fw_workflow_type :: "string option"
  fw_state :: flow_state
  fw_current_node :: string
  fw_status :: string
  fw_waiting_for :: "string option"
  fw_wait_deadline :: "time_us option"
  fw_trace_id :: "string option"
  fw_user_id :: "string option"
  fw_job_log_id :: "string option"
  fw_error_message :: "flow_error option"
  fw_error_detail :: "time_us option"
  fw_completed_at :: "time_us option"
  fw_dead_letter_reason :: "string option"
  fw_dead_lettered_at :: "time_us option"

record history_row =
  fh_run_id :: string
  fh_node :: string
  fh_status :: string
  fh_input_state :: flow_state
  fh_output_patch :: flow_state
  fh_execution_time_ms :: int
  fh_error :: "string option"

record event_outcome =
  eo_event_type :: string
  eo_flow_name :: string
  eo_workflow_type :: "string option"
  eo_success :: bool
  eo_execution_time_ms :: int
  eo_user_id :: "string option"
  eo_metadata :: flow_state

record 't flow_db =
  fd_runs :: "(string, flow_row) dict"
  fd_history :: "history_row list"
  fd_outcomes :: "event_outcome list"
  fd_units :: eu_table
  fd_events :: "(string \<times> string option) list"
  fd_app :: 't

text \<open>
  \<open>fd_app\<close> are the tables nodes write through the runner's session, so that its commits and
  roll-backs are theirs. \<open>fl_signals\<close> are the events queued in the pipeline's context, \<open>fl_flows\<close> is
  \<^verbatim>\<open>FLOW_REGISTRY\<close>, and \<open>fl_ext\<close> is whatever else nodes and handlers act on.
\<close>

record ('e, 't) flow_world =
  fl_db :: "'t flow_db db_session"
  fl_io :: "bool list"
  fl_signals :: "(string \<times> string option) list"
  fl_flows :: "(string, flow_graph) dict"
  fl_rm :: resource_manager
  fl_sched :: sched_world
  fl_ext :: 'e

text \<open>What a node returns; \<open>nr_status = None\<close> is a dictionary without the key.\<close>

record node_result =
  nr_status :: "string option"
  nr_patch :: flow_state
  nr_error :: "string option"
  nr_wait_for :: "string option"
  nr_execution_time_ms :: int

text \<open>
  A node (\<^verbatim>\<open>NODE_REGISTRY\<close>), with the memory enrichment before it and the feedback after it. It is given the
  state dictionary itself, which it may change in place, its attempt number and, through
  \<^verbatim>\<open>context["db"]\<close>, the session.
\<close>

type_synonym ('e, 't) node_fn = "flow_state \<Rightarrow> nat \<Rightarrow> ('e, 't) flow_world \<Rightarrow> (node_result outcome \<times> flow_state) \<times> ('e, 't) flow_world"

text \<open>
  The surroundings of a call: clock, settings, context variables, what applications registered, and
  whether the unit service and the memory capture succeed. \<open>fe_hook\<close> runs the handlers applications
  registered for an event; their exceptions are swallowed where they are called.
\<close>

record ('e, 't) flow_env =
  fe_now :: time_us
  fe_rm :: rm_env
  fe_sched :: sched_env
  fe_pipeline :: bool
  fe_fail_closed :: bool
  fe_units_ok :: bool
  fe_capture_ok :: bool
  fe_nodes :: "string \<Rightarrow> ('e, 't) node_fn option"
  fe_hook :: "string \<Rightarrow> 'e \<Rightarrow> 'e"
  fe_blocked_nodes :: "string list"
  fe_FLOW_WAIT_TIMEOUT_MINUTES :: int
  fe_result_extractor :: "string \<Rightarrow> (flow_state \<Rightarrow> pyval outcome) option"
  fe_result_key :: "string \<Rightarrow> string option"
  fe_ctx_trace_id :: "string option"
  fe_fresh_trace_id :: string
  fe_fresh_run_id :: string
  fe_fresh_unit_id :: string
  fe_fresh_event_id :: string

record flow_runner =
  rn_flow :: flow_graph
  rn_user_id :: "string option"
  rn_workflow_type :: "string option"
  rn_job_log_id :: "string option"
  rn_priority :: string
  rn_eu_id :: "string option"
  rn_tenant_id :: "string option"

datatype flow_exception =
    Commit_raised
  | Emission_raised
  | Unit_creation_failed
  | Result_without_status
  | Edge_not_a_dict
  | Condition_raised
  | Node_interrupted
  | Empty_plan
  | Flow_not_registered string
  | Engine_boundary
  | Dispatch_failed string

datatype flow_result =
    Flow_value pyval
  | Flow_failure flow_error string
  | Flow_waiting string "quota_reason option"
  | Run_not_found
  | Run_disappeared
  | Claim_commit_failed
  | Already_claimed

record flow_response =
  rsp_status :: string
  rsp_trace_id :: string
  rsp_result :: flow_result
  rsp_events :: "history_row list"
  rsp_next_action :: "pyval option"
  rsp_state :: "flow_state option"

section \<open>Sessions\<close>

definition fl_draw :: "('e, 't) flow_world \<Rightarrow> bool \<times> ('e, 't) flow_world" where
  "fl_draw w = (case fl_io w of [] \<Rightarrow> (True, w) | ok # rest \<Rightarrow> (ok, w\<lparr>fl_io := rest\<rparr>))"

definition fl_commit :: "('e, 't) flow_world \<Rightarrow> bool \<times> ('e, 't) flow_world" where
  "fl_commit w =
     (case fl_draw w of
        (True, w1) \<Rightarrow> (True, w1\<lparr>fl_db := commit_session (fl_db w1)\<rparr>)
      | (False, w1) \<Rightarrow> (False, w1))"

definition fl_rollback :: "('e, 't) flow_world \<Rightarrow> ('e, 't) flow_world" where
  "fl_rollback w = w\<lparr>fl_db := rollback_session (fl_db w)\<rparr>"

definition fl_work :: "('t flow_db \<Rightarrow> 't flow_db) \<Rightarrow> ('e, 't) flow_world \<Rightarrow> ('e, 't) flow_world" where
  "fl_work f w = w\<lparr>fl_db := flush_with f (fl_db w)\<rparr>"

definition run_of :: "string \<Rightarrow> ('e, 't) flow_world \<Rightarrow> flow_row option" where
  "run_of r w = map_of (fd_runs (working (fl_db w))) r"

definition edit_run :: "string \<Rightarrow> (flow_row \<Rightarrow> flow_row) \<Rightarrow> ('e, 't) flow_world \<Rightarrow> ('e, 't) flow_world" where
  "edit_run r f =
     fl_work (\<lambda>d. case map_of (fd_runs d) r of
                    None \<Rightarrow> d
                  | Some row \<Rightarrow> d\<lparr>fd_runs := AList.update r (f row) (fd_runs d)\<rparr>)"

definition run_trace :: "string \<Rightarrow> ('e, 't) flow_world \<Rightarrow> string" where
  "run_trace r w = (case run_of r w of None \<Rightarrow> r | Some row \<Rightarrow> or_str (fw_trace_id row) r)"

section \<open>Events\<close>

definition store_event :: "string \<Rightarrow> string option \<Rightarrow> ('e, 't) flow_world \<Rightarrow> bool \<times> ('e, 't) flow_world" where
  "store_event ty trace w = fl_commit (fl_work (\<lambda>d. d\<lparr>fd_events := fd_events d @ [(ty, trace)]\<rparr>) w)"

text \<open>
  A required event. Within the pipeline it is queued; otherwise it is stored, together with all that
  the session has pending, or the session is rolled back. The runner holds the asynchronous execution
  context, so no event is refused. \<open>Inr False\<close> is an emission that returned no identifier.
\<close>

definition flow_event :: "('e, 't) flow_env \<Rightarrow> string \<Rightarrow> string option \<Rightarrow> ('e, 't) flow_world \<Rightarrow> (flow_exception + bool) \<times> ('e, 't) flow_world" where
  "flow_event env ty trace w =
     (if fe_pipeline env then (Inr True, w\<lparr>fl_signals := fl_signals w @ [(ty, trace)]\<rparr>)
      else
        case store_event ty trace w of
          (True, w1) \<Rightarrow> (Inr True, w1)
        | (False, w1) \<Rightarrow>
            if fe_fail_closed env
            then (Inl Emission_raised,
                  case store_event ''error.system_event_failure'' trace (fl_rollback w1) of
                    (True, w2) \<Rightarrow> w2
                  | (False, w2) \<Rightarrow> fl_rollback w2)
            else (Inr False, fl_rollback w1))"

section \<open>Results and responses\<close>

definition serialize_flow_events :: "string \<Rightarrow> ('e, 't) flow_world \<Rightarrow> history_row list" where
  "serialize_flow_events r w = filter (\<lambda>h. fh_run_id h = r) (fd_history (working (fl_db w)))"

definition text_or :: "pyval \<Rightarrow> string \<Rightarrow> string" where
  "text_or v dflt = (case v of PStr t \<Rightarrow> or_str (Some t) dflt | _ \<Rightarrow> dflt)"

definition ascii_upper :: "string \<Rightarrow> string" where
  "ascii_upper =
     map (\<lambda>c. let n = (of_char c :: nat) in if 97 \<le> n \<and> n \<le> 122 then char_of (n - 32) else c)"

definition extract_execution_result :: "('e, 't) flow_env \<Rightarrow> string option \<Rightarrow> flow_state \<Rightarrow> pyval outcome" where
  "extract_execution_result env workflow_type st =
     (let name = or_str workflow_type [] in
      case fe_result_extractor env name of
        Some extractor \<Rightarrow> extractor st
      | None \<Rightarrow>
          (case fe_result_key env name of
             None \<Rightarrow> Returns (PDict st)
           | Some k \<Rightarrow>
               if k = [] then Returns (PDict st)
               else (case map_of st k of None \<Rightarrow> Returns (PDict st) | Some v \<Rightarrow> Returns v)))"

definition extract_next_action :: "pyval \<Rightarrow> pyval option" where
  "extract_next_action result =
     (let direct = dict_get ''next_action'' result;
          nested = dict_get ''next_action'' (dict_get ''orchestration'' result)
      in if py_truthy direct then Some direct else if py_truthy nested then Some nested else None)"

record handoff =
  ho_status :: string
  ho_job_log_id :: "string option"

definition extract_async_handoff :: "pyval \<Rightarrow> handoff option" where
  "extract_async_handoff result =
     (if \<not> is_dict result then None
      else
        let http = dict_get ''_http_response'' result;
            status = ascii_upper (text_or (dict_get ''status'' result) []);
            found = (if dict_get ''_http_status'' result = PInt 202 \<and> is_dict http
                     then Some (http, ascii_upper (text_or (dict_get ''status'' http) ''QUEUED''))
                     else if status \<in> {''QUEUED'', ''DEFERRED''} then Some (result, status)
                     else None)
        in case found of
             None \<Rightarrow> None
           | Some (response, handoff_status) \<Rightarrow>
               let data = dict_get ''data'' response;
                   job = text_or (dict_get ''job_log_id'' (dict_get ''result'' data))
                           (text_or (dict_get ''job_log_id'' data) (text_or (dict_get ''job_log_id'' response) []))
               in Some \<lparr>ho_status = handoff_status, ho_job_log_id = (if job = [] then None else Some job)\<rparr>)"

definition run_response ::
    "string \<Rightarrow> string \<Rightarrow> flow_result \<Rightarrow> pyval option \<Rightarrow> flow_state \<Rightarrow> ('e, 't) flow_world \<Rightarrow> flow_response" where
  "run_response status r result next st w =
     \<lparr>rsp_status = status, rsp_trace_id = run_trace r w, rsp_result = result, rsp_events = serialize_flow_events r w,
      rsp_next_action = next, rsp_state = Some st\<rparr>"

definition bare_response :: "string \<Rightarrow> string \<Rightarrow> flow_result \<Rightarrow> flow_response" where
  "bare_response status r result =
     \<lparr>rsp_status = status, rsp_trace_id = r, rsp_result = result, rsp_events = [], rsp_next_action = None,
      rsp_state = None\<rparr>"

end
