(* ===== verification/Flow_Engine.thy ===== *)
theory Flow_Engine
  imports Flow_Store
begin

text \<open>
  The runner of \<^verbatim>\<open>AINDY/runtime/flow_engine\<close>: \<^verbatim>\<open>node_executor.py\<close>, \<^verbatim>\<open>runner_failure.py\<close>, \<^verbatim>\<open>runner_completion.py\<close>,
  \<^verbatim>\<open>runner_steps.py\<close>, \<^verbatim>\<open>runner.py\<close>, \<^verbatim>\<open>event_router.py\<close> and the direct entry points of \<^verbatim>\<open>entrypoints.py\<close>. The
  loop of \<^verbatim>\<open>resume\<close> has no bound in the source: it is a partial function whose value is \<open>None\<close> when it
  does not end. An exception that leaves the runner is the left of a sum.
\<close>

type_synonym flow_answer = "flow_exception + flow_response"

section \<open>Units and slots\<close>

definition set_unit_status :: "('e, 't) flow_env \<Rightarrow> flow_runner \<Rightarrow> string \<Rightarrow> string \<Rightarrow> ('e, 't) flow_world \<Rightarrow> ('e, 't) flow_world" where
  "set_unit_status env rn r status =
     fl_work (\<lambda>d.
       let target = (if truthy_str (rn_eu_id rn) then rn_eu_id rn
                     else map_option fst (get_by_source (fe_units_ok env) ''flow_run'' r (fd_units d)))
       in case target of
            None \<Rightarrow> d
          | Some u \<Rightarrow> d\<lparr>fd_units := snd (update_status (fe_units_ok env) (fe_now env) (Uuid u) status (fd_units d))\<rparr>)"

definition runner_tenant :: "flow_runner \<Rightarrow> string" where
  "runner_tenant rn = (case rn_tenant_id rn of Some t \<Rightarrow> t | None \<Rightarrow> or_str (rn_user_id rn) [])"

text \<open>The resource manager announces a freed slot on the event bus and swallows what that raises.\<close>

definition release_slot :: "('e, 't) flow_env \<Rightarrow> flow_runner \<Rightarrow> ('e, 't) flow_world \<Rightarrow> ('e, 't) flow_world" where
  "release_slot env rn w =
     (case mark_completed (fe_rm env) (runner_tenant rn)
             (if truthy_str (rn_eu_id rn) then rn_eu_id rn else None) (fl_rm w) of
        (freed, rm) \<Rightarrow>
          w\<lparr>fl_rm := rm,
            fl_sched := (if freed then snd (publish_event (fe_sched env) ''resource_available'' None (fl_sched w))
                         else fl_sched w)\<rparr>)"

section \<open>Nodes and edges\<close>

datatype node_end = Ended node_result | Node_error flow_error | Node_cut

definition attempts_of :: "(string, nat) dict \<Rightarrow> string \<Rightarrow> nat" where
  "attempts_of attempts node = (case map_of attempts node of None \<Rightarrow> 0 | Some n \<Rightarrow> n)"

definition enforce_policy :: "('e, 't) flow_env \<Rightarrow> string \<Rightarrow> flow_error option" where
  "enforce_policy env node = (if node \<in> set (fe_blocked_nodes env) then Some (Node_blocked node) else None)"

definition execute_node ::
    "('e, 't) flow_env \<Rightarrow> string \<Rightarrow> flow_state \<Rightarrow> (string, nat) dict \<Rightarrow> ('e, 't) flow_world \<Rightarrow>
     node_end \<times> flow_state \<times> (string, nat) dict \<times> ('e, 't) flow_world" where
  "execute_node env node st attempts w =
     (case enforce_policy env node of
        Some e \<Rightarrow> (Node_error e, st, attempts, w)
      | None \<Rightarrow>
          (case fe_nodes env node of
             None \<Rightarrow> (Node_error (Node_unknown node), st, attempts, w)
           | Some node_fn \<Rightarrow>
               let attempt = attempts_of attempts node + 1;
                   ((out, st1), w1) = node_fn st attempt w
               in (case out of Returns res \<Rightarrow> Ended res | Raises e \<Rightarrow> Node_error (Node_raised e) | Interrupts \<Rightarrow> Node_cut,
                   st1, AList.update node attempt attempts, w1)))"

text \<open>The first entry decides the kind of the list: dictionaries are tried in order, anything else is the target.\<close>

fun first_edge :: "flow_state \<Rightarrow> flow_edge list \<Rightarrow> flow_exception + string option" where
  "first_edge st [] = Inr None"
| "first_edge st (Plain _ # _) = Inl Edge_not_a_dict"
| "first_edge st (Conditional c target # edges) =
     (case c st of None \<Rightarrow> Inl Condition_raised | Some True \<Rightarrow> Inr (Some target) | Some False \<Rightarrow> first_edge st edges)"

definition resolve_next_node :: "string \<Rightarrow> flow_state \<Rightarrow> flow_graph \<Rightarrow> flow_exception + string option" where
  "resolve_next_node node st flow =
     (case map_of (fg_edges flow) node of
        None \<Rightarrow> Inr None
      | Some [] \<Rightarrow> Inr None
      | Some (Plain target # _) \<Rightarrow> Inr (Some target)
      | Some edges \<Rightarrow> first_edge st edges)"

section \<open>Failure\<close>

definition fail_execution ::
    "('e, 't) flow_env \<Rightarrow> flow_runner \<Rightarrow> string \<Rightarrow> flow_state \<Rightarrow> flow_error \<Rightarrow> string \<Rightarrow> ('e, 't) flow_world \<Rightarrow> flow_answer \<times> ('e, 't) flow_world" where
  "fail_execution env rn r st err node w =
     (case fl_commit (edit_run r (\<lambda>row. row\<lparr>fw_status := ''failed'', fw_waiting_for := None, fw_wait_deadline := None,
                                           fw_error_message := Some err, fw_error_detail := None, fw_completed_at := Some (fe_now env)\<rparr>) w) of
        (False, w1) \<Rightarrow> (Inl Commit_raised, w1)
      | (True, w1) \<Rightarrow>
          let w2 = release_slot env rn (set_unit_status env rn r ''failed'' w1);
              w3 = w2\<lparr>fl_ext := fe_hook env ''execution.failed'' (fl_ext w2)\<rparr>
          in case flow_event env ''execution.failed'' (Some (run_trace r w3)) w3 of
               (Inl e, w4) \<Rightarrow> (Inl e, w4)
             | (Inr _, w4) \<Rightarrow>
                 (case flow_event env ''error.execution'' (Some (run_trace r w4)) w4 of
                    (Inl e, w5) \<Rightarrow> (Inl e, w5)
                  | (Inr _, w5) \<Rightarrow> (Inr (run_response ''FAILED'' r (Flow_failure err node) None st w5), w5)))"

section \<open>Completion\<close>

text \<open>
  Besides capturing a memory of the run this completes its unit and gives its slot back. A capture
  that raises is followed by a required error event, the only exception that leaves (\<open>Some\<close>).
\<close>

definition capture_flow_completion ::
    "('e, 't) flow_env \<Rightarrow> flow_runner \<Rightarrow> string \<Rightarrow> ('e, 't) flow_world \<Rightarrow> flow_exception option \<times> ('e, 't) flow_world" where
  "capture_flow_completion env rn r w =
     (if \<not> truthy_str (rn_user_id rn) \<or> \<not> truthy_str (rn_workflow_type rn) then (None, w)
      else if serialize_flow_events r w = [] then (None, w)
      else if \<not> fe_capture_ok env then
        (case flow_event env ''error.memory_capture'' (Option.bind (run_of r w) fw_trace_id) w of
           (Inl e, w1) \<Rightarrow> (Some e, w1)
         | (Inr _, w1) \<Rightarrow> (None, w1))
      else (None, release_slot env rn (set_unit_status env rn r ''completed'' w)))"

text \<open>The two endings of a run; \<open>None\<close> is an exception inside the \<^verbatim>\<open>try\<close> of \<^verbatim>\<open>maybe_finalize_completion\<close>.\<close>

definition finish_handoff ::
    "string \<Rightarrow> flow_state \<Rightarrow> string \<Rightarrow> pyval \<Rightarrow> handoff \<Rightarrow> ('e, 't) flow_world \<Rightarrow> flow_response option \<times> ('e, 't) flow_world" where
  "finish_handoff r st node result h w =
     (case run_of r w of
        None \<Rightarrow> (None, w)
      | Some _ \<Rightarrow>
          (case fl_commit (edit_run r (\<lambda>row. row\<lparr>fw_status := py_lower (ho_status h), fw_state := st, fw_current_node := node,
                   fw_waiting_for := None, fw_wait_deadline := None,
                   fw_job_log_id := (case ho_job_log_id h of None \<Rightarrow> fw_job_log_id row | Some j \<Rightarrow> Some j)\<rparr>) w) of
             (False, w1) \<Rightarrow> (None, w1)
           | (True, w1) \<Rightarrow>
               (Some (run_response (ho_status h) r (Flow_value result) (extract_next_action result) st w1), w1)))"

definition finish_success ::
    "('e, 't) flow_env \<Rightarrow> flow_runner \<Rightarrow> string \<Rightarrow> flow_state \<Rightarrow> pyval \<Rightarrow> ('e, 't) flow_world \<Rightarrow> flow_response option \<times> ('e, 't) flow_world" where
  "finish_success env rn r st result w =
     (case capture_flow_completion env rn r w of
        (Some _, w1) \<Rightarrow> (None, w1)
      | (None, w1) \<Rightarrow>
          (case fl_commit (edit_run r (\<lambda>row. row\<lparr>fw_status := ''success'', fw_state := st, fw_waiting_for := None,
                   fw_wait_deadline := None, fw_completed_at := Some (fe_now env)\<rparr>) w1) of
             (False, w2) \<Rightarrow> (None, w2)
           | (True, w2) \<Rightarrow>
               let w3 = w2\<lparr>fl_ext := fe_hook env ''execution.completed'' (fl_ext w2)\<rparr> in
               (case flow_event env ''execution.completed'' (Some (run_trace r w3)) w3 of
                  (Inl _, w4) \<Rightarrow> (None, w4)
                | (Inr _, w4) \<Rightarrow>
                    (Some (run_response ''SUCCESS'' r (Flow_value result) (extract_next_action result) st w4), w4))))"

definition finalize ::
    "('e, 't) flow_env \<Rightarrow> flow_runner \<Rightarrow> string \<Rightarrow> flow_state \<Rightarrow> string \<Rightarrow> ('e, 't) flow_world \<Rightarrow> flow_response option \<times> ('e, 't) flow_world" where
  "finalize env rn r st node w =
     (case extract_execution_result env (rn_workflow_type rn) st of
        Returns result \<Rightarrow>
          (case extract_async_handoff result of
             Some h \<Rightarrow> finish_handoff r st node result h w
           | None \<Rightarrow> finish_success env rn r st result w)
      | _ \<Rightarrow> (None, w))"

text \<open>\<open>None\<close>: not an end node, the run goes on.\<close>

definition maybe_finalize_completion ::
    "('e, 't) flow_env \<Rightarrow> flow_runner \<Rightarrow> string \<Rightarrow> flow_state \<Rightarrow> string \<Rightarrow> ('e, 't) flow_world \<Rightarrow> flow_answer option \<times> ('e, 't) flow_world" where
  "maybe_finalize_completion env rn r st node w =
     (if node \<notin> set (fg_end (rn_flow rn)) then (None, w)
      else
        case finalize env rn r st node w of
          (Some resp, w1) \<Rightarrow> (Some (Inr resp), w1)
        | (None, w1) \<Rightarrow> (case fail_execution env rn r st Finalization_failed node w1 of (x, w2) \<Rightarrow> (Some x, w2)))"

section \<open>Steps of the runner\<close>

definition get_flow_wait_timeout :: "('e, 't) flow_world \<Rightarrow> string \<Rightarrow> int option" where
  "get_flow_wait_timeout w flow_name = Option.bind (map_of (fl_flows w) flow_name) fg_wait_timeout_minutes"

definition default_wait_deadline :: "('e, 't) flow_env \<Rightarrow> int option \<Rightarrow> time_us" where
  "default_wait_deadline env timeout =
     fe_now env + (case timeout of None \<Rightarrow> fe_FLOW_WAIT_TIMEOUT_MINUTES env | Some m \<Rightarrow> m) * 60000000"

text \<open>
  The claim of a run its caller read as \<open>row\<close>: the update counts the rows that still wait. \<open>Some\<close>
  response ends the resume.
\<close>

definition claim_waiting_run :: "string \<Rightarrow> flow_row \<Rightarrow> ('e, 't) flow_world \<Rightarrow> flow_response option \<times> ('e, 't) flow_world" where
  "claim_waiting_run r row w =
     (if fw_status row \<noteq> ''waiting'' then (None, w)
      else
        let claimed = (case run_of r w of None \<Rightarrow> False | Some x \<Rightarrow> fw_status x = ''waiting'');
            w1 = (if claimed
                  then edit_run r (\<lambda>x. x\<lparr>fw_status := ''executing'', fw_waiting_for := None, fw_wait_deadline := None\<rparr>) w
                  else w)
        in case fl_commit w1 of
             (False, w2) \<Rightarrow> (Some (bare_response ''SKIPPED'' r Claim_commit_failed), fl_rollback w2)
           | (True, w2) \<Rightarrow> (if claimed then None else Some (bare_response ''SKIPPED'' r Already_claimed), w2))"

definition flow_wait_request :: "flow_runner \<Rightarrow> string \<Rightarrow> string \<Rightarrow> string \<Rightarrow> string \<Rightarrow> wait_request" where
  "flow_wait_request rn r trace event tenant =
     \<lparr>wq_run_id = r, wq_event = Some event, wq_tenant_id = tenant, wq_eu_id = or_str (rn_eu_id rn) [],
      wq_callback = Closure r, wq_priority = rn_priority rn, wq_correlation_id = Some trace, wq_trace_id = Some trace,
      wq_eu_type = ''flow'', wq_condition = (case for_event event (Some trace) of Inr c \<Rightarrow> Condition c | Inl _ \<Rightarrow> Bad_condition)\<rparr>"

text \<open>
  Parking a run, as both a refused admission and a \<^verbatim>\<open>WAIT\<close> do it: the row is committed as waiting, then
  the wait is registered. An event the condition rejects leaves the wait unregistered.
\<close>

definition park_run ::
    "('e, 't) flow_env \<Rightarrow> flow_runner \<Rightarrow> string \<Rightarrow> flow_state \<Rightarrow> string \<Rightarrow> string \<Rightarrow> string \<Rightarrow> ('e, 't) flow_world \<Rightarrow> bool \<times> ('e, 't) flow_world" where
  "park_run env rn r st node event tenant w =
     (case fl_commit (edit_run r (\<lambda>row. row\<lparr>fw_status := ''waiting'', fw_waiting_for := Some event,
              fw_wait_deadline := Some (default_wait_deadline env (get_flow_wait_timeout w (fw_flow_name row))),
              fw_state := st, fw_current_node := node\<rparr>) w) of
        (False, w1) \<Rightarrow> (False, w1)
      | (True, w1) \<Rightarrow>
          (True,
           case for_event event (Some (run_trace r w1)) of
             Inl _ \<Rightarrow> w1
           | Inr _ \<Rightarrow> w1\<lparr>fl_sched := register_wait (fe_sched env) (flow_wait_request rn r (run_trace r w1) event tenant) (fl_sched w1)\<rparr>))"

definition check_resources ::
    "('e, 't) flow_env \<Rightarrow> flow_runner \<Rightarrow> string \<Rightarrow> flow_state \<Rightarrow> string \<Rightarrow> ('e, 't) flow_world \<Rightarrow> flow_answer option \<times> ('e, 't) flow_world" where
  "check_resources env rn r st node w =
     (case can_execute (fe_rm env) (runner_tenant rn) (fl_rm w) of
        (Some reason, rm) \<Rightarrow>
          (case park_run env rn r st node ''resource_available'' (runner_tenant rn) (w\<lparr>fl_rm := rm\<rparr>) of
             (False, w1) \<Rightarrow> (Some (Inl Commit_raised), w1)
           | (True, w1) \<Rightarrow>
               (Some (Inr (run_response ''WAITING'' r (Flow_waiting ''resource_available'' (Some reason)) None st w1)), w1))
      | (None, rm) \<Rightarrow>
          (case check_quota (fe_rm env) (or_str (rn_eu_id rn) []) rm of
             (Some reason, rm1) \<Rightarrow>
               (case fail_execution env rn r st (Quota_refused reason) node (w\<lparr>fl_rm := rm1\<rparr>) of (x, w1) \<Rightarrow> (Some x, w1))
           | (None, rm1) \<Rightarrow> (None, w\<lparr>fl_rm := rm1\<rparr>)))"

definition queue_node_failure :: "('e, 't) flow_env \<Rightarrow> string \<Rightarrow> ('e, 't) flow_world \<Rightarrow> (flow_exception + bool) \<times> ('e, 't) flow_world" where
  "queue_node_failure env r w = flow_event env ''flow.node.failed'' (Some (run_trace r w)) w"

definition record_resource_usage :: "('e, 't) flow_env \<Rightarrow> flow_runner \<Rightarrow> int \<Rightarrow> ('e, 't) flow_world \<Rightarrow> ('e, 't) flow_world" where
  "record_resource_usage env rn ms w =
     (if truthy_str (rn_eu_id rn)
      then w\<lparr>fl_rm := record_usage (fe_rm env) (the (rn_eu_id rn))
               \<lparr>ur_cpu = Some ms, ur_memory = None, ur_syscalls = Some 0\<rparr> (fl_rm w)\<rparr>
      else w)"

text \<open>The left is the final response, the right what the node returned.\<close>

definition execute_current_node ::
    "('e, 't) flow_env \<Rightarrow> flow_runner \<Rightarrow> string \<Rightarrow> flow_state \<Rightarrow> (string, nat) dict \<Rightarrow> string \<Rightarrow> ('e, 't) flow_world \<Rightarrow>
     (flow_answer + node_result \<times> flow_state \<times> (string, nat) dict) \<times> ('e, 't) flow_world" where
  "execute_current_node env rn r st attempts node w =
     (case check_resources env rn r st node w of
        (Some x, w1) \<Rightarrow> (Inl x, w1)
      | (None, w1) \<Rightarrow>
          (case execute_node env node st attempts w1 of
             (Node_cut, st1, _, w2) \<Rightarrow> (Inl (Inl Node_interrupted), w2)
           | (Node_error e, st1, _, w2) \<Rightarrow>
               (case queue_node_failure env r w2 of
                  (Inl x, w3) \<Rightarrow> (Inl (Inl x), w3)
                | (Inr _, w3) \<Rightarrow> (case fail_execution env rn r st1 e node w3 of (x, w4) \<Rightarrow> (Inl x, w4)))
           | (Ended res, st1, attempts1, w2) \<Rightarrow>
               (Inr (res, st1, attempts1), record_resource_usage env rn (nr_execution_time_ms res) w2)))"

definition node_max_attempts :: "flow_graph \<Rightarrow> string \<Rightarrow> int" where
  "node_max_attempts flow node =
     max_attempts (resolve_retry_policy (Some ''flow'') None (Option.bind (map_of (fg_max_retries flow) node) id) None)"

datatype status_end = Retry_node | Respond flow_answer | Go_on

definition state_update :: "flow_state \<Rightarrow> flow_state \<Rightarrow> flow_state" where
  "state_update patch st = fold (\<lambda>(k, v). AList.update k v) patch st"

definition finalize_or_go_on ::
    "('e, 't) flow_env \<Rightarrow> flow_runner \<Rightarrow> string \<Rightarrow> flow_state \<Rightarrow> string \<Rightarrow> ('e, 't) flow_world \<Rightarrow> status_end \<times> ('e, 't) flow_world" where
  "finalize_or_go_on env rn r st node w =
     (case maybe_finalize_completion env rn r st node w of (None, w1) \<Rightarrow> (Go_on, w1) | (Some x, w1) \<Rightarrow> (Respond x, w1))"

definition fail_with ::
    "('e, 't) flow_env \<Rightarrow> flow_runner \<Rightarrow> string \<Rightarrow> flow_state \<Rightarrow> flow_error \<Rightarrow> string \<Rightarrow> ('e, 't) flow_world \<Rightarrow> status_end \<times> ('e, 't) flow_world" where
  "fail_with env rn r st err node w = (case fail_execution env rn r st err node w of (x, w1) \<Rightarrow> (Respond x, w1))"

definition wait_on_event ::
    "('e, 't) flow_env \<Rightarrow> flow_runner \<Rightarrow> string \<Rightarrow> flow_state \<Rightarrow> string \<Rightarrow> string \<Rightarrow> ('e, 't) flow_world \<Rightarrow> flow_answer \<times> ('e, 't) flow_world" where
  "wait_on_event env rn r st node event w =
     (case park_run env rn r st node event (or_str (rn_user_id rn) []) w of
        (False, w1) \<Rightarrow> (Inl Commit_raised, w1)
      | (True, w1) \<Rightarrow>
          (case flow_event env ''flow.waiting'' (Some (run_trace r w1)) w1 of
             (Inl e, w2) \<Rightarrow> (Inl e, w2)
           | (Inr _, w2) \<Rightarrow> (Inr (run_response ''WAITING'' r (Flow_waiting event None) None st w2), w2)))"

text \<open>The new state is the second component: only \<^verbatim>\<open>SUCCESS\<close> merges the patch.\<close>

definition handle_node_status ::
    "('e, 't) flow_env \<Rightarrow> flow_runner \<Rightarrow> string \<Rightarrow> flow_state \<Rightarrow> (string, nat) dict \<Rightarrow> string \<Rightarrow> node_result \<Rightarrow> string \<Rightarrow> ('e, 't) flow_world \<Rightarrow>
     status_end \<times> flow_state \<times> ('e, 't) flow_world" where
  "handle_node_status env rn r st attempts node res status w =
     (if status = ''SUCCESS'' then
        let st1 = state_update (nr_patch res) st in
        case finalize_or_go_on env rn r st1 node w of (e, w1) \<Rightarrow> (e, st1, w1)
      else if status = ''RETRY'' then
        if int (attempts_of attempts node) < node_max_attempts (rn_flow rn) node then (Retry_node, st, w)
        else (case fail_with env rn r st (Node_retried_out node (attempts_of attempts node)) node w of (e, w1) \<Rightarrow> (e, st, w1))
      else if status = ''FAILURE'' then
        (case fail_with env rn r st (Node_failed (nr_error res) node) node w of (e, w1) \<Rightarrow> (e, st, w1))
      else if status = ''WAIT'' then
        if truthy_str (nr_wait_for res)
        then (case wait_on_event env rn r st node (the (nr_wait_for res)) w of (x, w1) \<Rightarrow> (Respond x, st, w1))
        else (case fail_with env rn r st (Wait_without_event node) node w of (e, w1) \<Rightarrow> (e, st, w1))
      else (case finalize_or_go_on env rn r st node w of (e, w1) \<Rightarrow> (e, st, w1)))"

datatype loop_end = Again flow_state "(string, nat) dict" string | Finish flow_answer

text \<open>An empty target counts as none.\<close>

definition advance_to_next_node ::
    "('e, 't) flow_env \<Rightarrow> flow_runner \<Rightarrow> string \<Rightarrow> flow_state \<Rightarrow> (string, nat) dict \<Rightarrow> string \<Rightarrow> ('e, 't) flow_world \<Rightarrow> loop_end \<times> ('e, 't) flow_world" where
  "advance_to_next_node env rn r st attempts node w =
     (case resolve_next_node node st (rn_flow rn) of
        Inl e \<Rightarrow> (Finish (Inl e), w)
      | Inr next \<Rightarrow>
          if truthy_str next then
            (case fl_commit (edit_run r (\<lambda>row. row\<lparr>fw_current_node := the next, fw_state := st\<rparr>) w) of
               (False, w1) \<Rightarrow> (Finish (Inl Commit_raised), w1)
             | (True, w1) \<Rightarrow> (Again st attempts (the next), w1))
          else (case fail_execution env rn r st (No_next_node node) node w of (x, w1) \<Rightarrow> (Finish x, w1)))"

section \<open>The loop of resume\<close>

definition add_history ::
    "string \<Rightarrow> string \<Rightarrow> string \<Rightarrow> flow_state \<Rightarrow> node_result \<Rightarrow> ('e, 't) flow_world \<Rightarrow> ('e, 't) flow_world" where
  "add_history r node status snapshot res =
     fl_work (\<lambda>d. d\<lparr>fd_history := fd_history d @
       [\<lparr>fh_run_id = r, fh_node = node, fh_status = status, fh_input_state = snapshot, fh_output_patch = nr_patch res,
         fh_execution_time_ms = nr_execution_time_ms res, fh_error = nr_error res\<rparr>]\<rparr>)"

definition node_event :: "string \<Rightarrow> string" where
  "node_event status = (if status \<in> {''SUCCESS'', ''WAIT''} then ''flow.node.completed'' else ''flow.node.failed'')"

text \<open>The second half of an iteration: history, event, status, edge.\<close>

definition after_node ::
    "('e, 't) flow_env \<Rightarrow> flow_runner \<Rightarrow> string \<Rightarrow> flow_state \<Rightarrow> flow_state \<Rightarrow> (string, nat) dict \<Rightarrow> string \<Rightarrow> node_result \<Rightarrow> ('e, 't) flow_world \<Rightarrow>
     loop_end \<times> ('e, 't) flow_world" where
  "after_node env rn r snapshot st attempts node res w =
     (case nr_status res of
        None \<Rightarrow> (Finish (Inl Result_without_status), w)
      | Some status \<Rightarrow>
          (case fl_commit (add_history r node status snapshot res w) of
             (False, w1) \<Rightarrow> (Finish (Inl Commit_raised), w1)
           | (True, w1) \<Rightarrow>
               (case flow_event env (node_event status) (Some (run_trace r w1)) w1 of
                  (Inl e, w2) \<Rightarrow> (Finish (Inl e), w2)
                | (Inr _, w2) \<Rightarrow>
                    (case handle_node_status env rn r st attempts node res status w2 of
                       (Retry_node, st1, w3) \<Rightarrow> (Again st1 attempts node, w3)
                     | (Respond x, st1, w3) \<Rightarrow> (Finish x, w3)
                     | (Go_on, st1, w3) \<Rightarrow> advance_to_next_node env rn r st1 attempts node w3))))"

definition flow_iteration ::
    "('e, 't) flow_env \<Rightarrow> flow_runner \<Rightarrow> string \<Rightarrow> flow_state \<Rightarrow> (string, nat) dict \<Rightarrow> string \<Rightarrow> ('e, 't) flow_world \<Rightarrow> loop_end \<times> ('e, 't) flow_world" where
  "flow_iteration env rn r st attempts node w =
     (case run_of r w of
        None \<Rightarrow> (Finish (Inr (bare_response ''FAILED'' r Run_disappeared)), w)
      | Some _ \<Rightarrow>
          (case flow_event env ''flow.node.started'' (Some (run_trace r w)) w of
             (Inl e, w1) \<Rightarrow> (Finish (Inl e), w1)
           | (Inr _, w1) \<Rightarrow>
               (case execute_current_node env rn r st attempts node w1 of
                  (Inl x, w2) \<Rightarrow> (Finish x, w2)
                | (Inr (res, st1, attempts1), w2) \<Rightarrow>
                    (case run_of r w2 of
                       None \<Rightarrow> (Finish (Inr (bare_response ''FAILED'' r Run_disappeared)), w2)
                     | Some _ \<Rightarrow> after_node env rn r st st1 attempts1 node res w2))))"

partial_function (option) flow_loop ::
    "('e, 't) flow_env \<Rightarrow> flow_runner \<Rightarrow> string \<Rightarrow> flow_state \<Rightarrow> (string, nat) dict \<Rightarrow> string \<Rightarrow> ('e, 't) flow_world \<Rightarrow>
     (flow_answer \<times> ('e, 't) flow_world) option" where
  [code]: "flow_loop env rn r st attempts node w =
     (case flow_iteration env rn r st attempts node w of
        (Finish x, w1) \<Rightarrow> Some (x, w1)
      | (Again st1 attempts1 node1, w1) \<Rightarrow> flow_loop env rn r st1 attempts1 node1 w1)"

section \<open>Resume and start\<close>

definition has_trace :: "flow_state \<Rightarrow> bool" where
  "has_trace st = (case map_of st ''trace_id'' of None \<Rightarrow> False | Some v \<Rightarrow> py_truthy v)"

text \<open>What the loop starts from: the row as the claim left it, its state given a trace id.\<close>

definition enter_run ::
    "('e, 't) flow_env \<Rightarrow> string \<Rightarrow> flow_row \<Rightarrow> ('e, 't) flow_world \<Rightarrow> (flow_exception + flow_state) \<times> ('e, 't) flow_world" where
  "enter_run env r row w =
     (if has_trace (fw_state row) then (Inr (fw_state row), w)
      else
        let trace = or_str (fw_trace_id row) (or_str (fe_ctx_trace_id env) r);
            st = AList.update ''trace_id'' (PStr trace) (fw_state row)
        in case fl_commit (edit_run r (\<lambda>x. x\<lparr>fw_state := st, fw_trace_id := Some (or_str (fw_trace_id x) trace)\<rparr>) w) of
             (False, w1) \<Rightarrow> (Inl Commit_raised, w1)
           | (True, w1) \<Rightarrow> (Inr st, w1))"

definition resume_flow ::
    "('e, 't) flow_env \<Rightarrow> flow_runner \<Rightarrow> string \<Rightarrow> ('e, 't) flow_world \<Rightarrow> (flow_answer \<times> ('e, 't) flow_world) option" where
  "resume_flow env rn r w =
     (case run_of r w of
        None \<Rightarrow> Some (Inr (bare_response ''FAILED'' r Run_not_found), w)
      | Some row \<Rightarrow>
          (case claim_waiting_run r row w of
             (Some resp, w1) \<Rightarrow> Some (Inr resp, w1)
           | (None, w1) \<Rightarrow>
               (case enter_run env r row w1 of
                  (Inl e, w2) \<Rightarrow> Some (Inl e, w2)
                | (Inr st, w2) \<Rightarrow> flow_loop env rn r st [] (fw_current_node row) w2)))"

definition flow_unit :: "flow_runner \<Rightarrow> string \<Rightarrow> string \<Rightarrow> eu_new" where
  "flow_unit rn r flow_name =
     \<lparr>new_type = ''flow'', new_user_id = (case rn_user_id rn of None \<Rightarrow> No_ref | Some u \<Rightarrow> Uuid u),
      new_source_type = Some ''flow_run'', new_source_id = Some r, new_parent_id = No_ref, new_flow_run_id = Some r,
      new_correlation_id = None,
      new_extra = Some (PDict [(''flow_name'', PStr flow_name),
        (''workflow_type'', case rn_workflow_type rn of None \<Rightarrow> PNone | Some t \<Rightarrow> PStr t),
        (''tenant_id'', PStr (or_str (rn_user_id rn) [])), (''priority'', PStr (rn_priority rn))]),
      new_status = ''executing''\<rparr>"

text \<open>\<open>None\<close> is the \<^verbatim>\<open>RuntimeError\<close>; the commit of the failed row may itself fail unnoticed.\<close>

definition initialize_execution_unit ::
    "('e, 't) flow_env \<Rightarrow> flow_runner \<Rightarrow> string \<Rightarrow> string \<Rightarrow> ('e, 't) flow_world \<Rightarrow> flow_runner option \<times> ('e, 't) flow_world" where
  "initialize_execution_unit env rn r flow_name w =
     (let tenant = or_str (rn_user_id rn) [];
          (eu, tbl) = eu_create (fe_units_ok env) (fe_now env) (fe_fresh_unit_id env) (flow_unit rn r flow_name)
                        (fd_units (working (fl_db w)));
          w1 = fl_work (\<lambda>d. d\<lparr>fd_units := tbl\<rparr>) w
      in case eu of
           None \<Rightarrow>
             (None, snd (fl_commit (edit_run r (\<lambda>row. row\<lparr>fw_status := ''failed'', fw_error_message := Some Unit_missing\<rparr>) w1)))
         | Some u \<Rightarrow>
             (Some (rn\<lparr>rn_eu_id := Some u, rn_tenant_id := Some tenant\<rparr>),
              w1\<lparr>fl_rm := mark_started (fe_rm env) tenant (Some u) (fl_rm w1)\<rparr>))"

text \<open>\<^verbatim>\<open>ensure_trace_id\<close>: the context's trace wins over the one in the initial state.\<close>

definition start_trace :: "('e, 't) flow_env \<Rightarrow> flow_state \<Rightarrow> string" where
  "start_trace env st =
     or_str (fe_ctx_trace_id env)
       (case map_of st ''trace_id'' of None \<Rightarrow> fe_fresh_trace_id env | Some v \<Rightarrow> text_or v (fe_fresh_trace_id env))"

definition new_flow_row :: "('e, 't) flow_env \<Rightarrow> flow_runner \<Rightarrow> string \<Rightarrow> flow_state \<Rightarrow> flow_row" where
  "new_flow_row env rn flow_name st =
     \<lparr>fw_flow_name = flow_name, fw_workflow_type = rn_workflow_type rn, fw_state = st,
      fw_current_node = fg_start (rn_flow rn), fw_status = ''running'', fw_waiting_for = None, fw_wait_deadline = None,
      fw_trace_id = Some (start_trace env st), fw_user_id = rn_user_id rn, fw_job_log_id = rn_job_log_id rn,
      fw_error_message = None, fw_error_detail = None, fw_completed_at = None,
      fw_dead_letter_reason = None, fw_dead_lettered_at = None\<rparr>"

text \<open>Announcing a run: its state with a trace id, the event, and the event's id in the state when there is one.\<close>

definition announce_run ::
    "('e, 't) flow_env \<Rightarrow> string \<Rightarrow> flow_state \<Rightarrow> ('e, 't) flow_world \<Rightarrow> flow_exception option \<times> ('e, 't) flow_world" where
  "announce_run env r st w =
     (let st1 = (if has_trace st then st else AList.update ''trace_id'' (PStr (run_trace r w)) st) in
      case fl_commit (edit_run r (\<lambda>x. x\<lparr>fw_state := st1\<rparr>) w) of
        (False, w1) \<Rightarrow> (Some Commit_raised, w1)
      | (True, w1) \<Rightarrow>
          (case flow_event env ''execution.started'' (Some (run_trace r w1)) w1 of
             (Inl e, w2) \<Rightarrow> (Some e, w2)
           | (Inr False, w2) \<Rightarrow> (None, w2)
           | (Inr True, w2) \<Rightarrow>
               (case fl_commit (edit_run r (\<lambda>x. x\<lparr>fw_state := AList.update ''root_event_id'' (PStr (fe_fresh_event_id env)) st1\<rparr>) w2) of
                  (False, w3) \<Rightarrow> (Some Commit_raised, w3)
                | (True, w3) \<Rightarrow> (None, w3))))"

definition start_flow ::
    "('e, 't) flow_env \<Rightarrow> flow_runner \<Rightarrow> string \<Rightarrow> flow_state \<Rightarrow> ('e, 't) flow_world \<Rightarrow> (flow_answer \<times> ('e, 't) flow_world) option" where
  "start_flow env rn flow_name st w =
     (let r = fe_fresh_run_id env in
      case fl_commit (fl_work (\<lambda>d. d\<lparr>fd_runs := AList.update r (new_flow_row env rn flow_name st) (fd_runs d)\<rparr>) w) of
        (False, w1) \<Rightarrow> Some (Inl Commit_raised, w1)
      | (True, w1) \<Rightarrow>
          (case initialize_execution_unit env rn r flow_name w1 of
             (None, w2) \<Rightarrow> Some (Inl Unit_creation_failed, w2)
           | (Some rn1, w2) \<Rightarrow>
               (case announce_run env r st w2 of
                  (Some e, w3) \<Rightarrow> Some (Inl e, w3)
                | (None, w3) \<Rightarrow> resume_flow env rn1 r w3)))"

section \<open>Events and outcomes\<close>

definition route_event ::
    "('e, 't) flow_env \<Rightarrow> string \<Rightarrow> flow_state \<Rightarrow> ('e, 't) flow_world \<Rightarrow> string list \<times> ('e, 't) flow_world" where
  "route_event env event payload w =
     (let corr = (case map_of payload ''correlation_id'' of Some (PStr t) \<Rightarrow> or_none (Some t) | _ \<Rightarrow> None);
          ids = peek_matching_run_ids event corr (fl_sched w);
          hits = map fst (filter (\<lambda>(r, row). r \<in> set ids \<and> fw_status row = ''waiting'') (fd_runs (working (fl_db w))));
          w1 = fold (\<lambda>r. edit_run r (\<lambda>row. row\<lparr>fw_state := AList.update ''event'' (PDict payload) (fw_state row)\<rparr>)) hits w;
          w2 = snd (fl_commit w1)
      in (hits, w2\<lparr>fl_sched := snd (publish_event (fe_sched env) event corr (fl_sched w2))\<rparr>))"

definition record_outcome :: "event_outcome \<Rightarrow> ('e, 't) flow_world \<Rightarrow> ('e, 't) flow_world" where
  "record_outcome outcome w = snd (fl_commit (fl_work (\<lambda>d. d\<lparr>fd_outcomes := fd_outcomes d @ [outcome]\<rparr>) w))"

section \<open>Entry points\<close>

definition register_flow :: "string \<Rightarrow> flow_graph \<Rightarrow> ('e, 't) flow_world \<Rightarrow> ('e, 't) flow_world" where
  "register_flow name flow w = w\<lparr>fl_flows := AList.update name flow (fl_flows w)\<rparr>"

definition register_node :: "string \<Rightarrow> ('e, 't) node_fn \<Rightarrow> ('e, 't) flow_env \<Rightarrow> ('e, 't) flow_env" where
  "register_node name f env = env\<lparr>fe_nodes := (fe_nodes env)(name := Some f)\<rparr>"

text \<open>A plan is its list of steps; \<open>plans\<close> are the plans applications registered.\<close>

definition generate_plan_from_intent :: "(string \<Rightarrow> string list option) \<Rightarrow> string \<Rightarrow> string list" where
  "generate_plan_from_intent plans workflow_type =
     (case plans workflow_type of
        Some p \<Rightarrow> p
      | None \<Rightarrow> (case plans ''generic'' of Some p \<Rightarrow> p | None \<Rightarrow> [''execute'', ''store_result'']))"

fun chain_edges :: "string list \<Rightarrow> (string, flow_edge list) dict \<Rightarrow> (string, flow_edge list) dict" where
  "chain_edges (a # b # steps) edges = chain_edges (b # steps) (AList.update a [Plain b] edges)"
| "chain_edges _ edges = edges"

definition compile_plan_to_flow :: "string list \<Rightarrow> flow_exception + flow_graph" where
  "compile_plan_to_flow steps =
     (if steps = [] then Inl Empty_plan
      else Inr \<lparr>fg_start = hd steps, fg_edges = chain_edges steps [], fg_end = [last steps], fg_max_retries = [],
                fg_wait_timeout_minutes = None\<rparr>)"

definition nodus_workflow :: "string \<Rightarrow> bool" where
  "nodus_workflow label = (label = ''nodus_execute'' \<or> startswith label ''nodus'' \<or> startswith label ''memory_nodus'')"

definition new_runner :: "flow_graph \<Rightarrow> string option \<Rightarrow> string \<Rightarrow> flow_runner" where
  "new_runner flow user workflow_type =
     \<lparr>rn_flow = flow, rn_user_id = user, rn_workflow_type = Some workflow_type, rn_job_log_id = None,
      rn_priority = ''normal'', rn_eu_id = None, rn_tenant_id = None\<rparr>"

definition run_flow_direct ::
    "('e, 't) flow_env \<Rightarrow> string \<Rightarrow> flow_state \<Rightarrow> string option \<Rightarrow> ('e, 't) flow_world \<Rightarrow> (flow_answer \<times> ('e, 't) flow_world) option" where
  "run_flow_direct env flow_name st user w =
     (if nodus_workflow flow_name then Some (Inl Engine_boundary, w)
      else
        case map_of (fl_flows w) flow_name of
          None \<Rightarrow> Some (Inl (Flow_not_registered flow_name), w)
        | Some flow \<Rightarrow> start_flow env (new_runner flow user flow_name) flow_name st w)"

text \<open>\<open>strategy\<close> is the flow a registered strategy returns for the intent, if it returns one.\<close>

definition execute_intent_direct ::
    "('e, 't) flow_env \<Rightarrow> (string \<Rightarrow> string list option) \<Rightarrow> (string \<Rightarrow> flow_graph option) \<Rightarrow> flow_state \<Rightarrow> string option \<Rightarrow>
     ('e, 't) flow_world \<Rightarrow> (flow_answer \<times> ('e, 't) flow_world) option" where
  "execute_intent_direct env plans strategy intent user w =
     (let intent_type = (case map_of intent ''workflow_type'' of Some (PStr t) \<Rightarrow> t | _ \<Rightarrow> ''generic'') in
      if nodus_workflow intent_type then Some (Inl Engine_boundary, w)
      else
        let (flow, name) =
          (case strategy intent_type of
             Some flow \<Rightarrow> (Inr flow, ''registered_'' @ intent_type)
           | None \<Rightarrow> (compile_plan_to_flow (generate_plan_from_intent plans intent_type), ''generated_'' @ intent_type))
        in case flow of
             Inl e \<Rightarrow> Some (Inl e, w)
           | Inr fl \<Rightarrow> start_flow env (new_runner fl user intent_type) name intent (register_flow name fl w))"

text \<open>
  With a user the public entry points go through a syscall: \<open>dispatch\<close> is what dispatching its name with
  its arguments does, the left being the text of an error envelope.
\<close>

type_synonym ('a, 'e, 't) flow_syscall = "'a \<Rightarrow> string \<Rightarrow> ('e, 't) flow_world \<Rightarrow> ((string + flow_response) \<times> ('e, 't) flow_world) option"

definition run_flow ::
    "('e, 't) flow_env \<Rightarrow> (string \<times> flow_state, 'e, 't) flow_syscall \<Rightarrow> string \<Rightarrow> flow_state \<Rightarrow> string option \<Rightarrow> ('e, 't) flow_world \<Rightarrow>
     (flow_answer \<times> ('e, 't) flow_world) option" where
  "run_flow env dispatch flow_name st user w =
     (if nodus_workflow flow_name then Some (Inl Engine_boundary, w)
      else if \<not> truthy_str user then run_flow_direct env flow_name st user w
      else
        case dispatch (flow_name, st) (the user) w of
          None \<Rightarrow> None
        | Some (Inr resp, w1) \<Rightarrow> Some (Inr resp, w1)
        | Some (Inl msg, w1) \<Rightarrow>
            Some (Inl (if contains_sub ''not registered'' msg \<or> contains_sub ''unknown flow'' (py_lower msg)
                       then Flow_not_registered msg else Dispatch_failed msg), w1))"

definition execute_intent ::
    "('e, 't) flow_env \<Rightarrow> (string \<Rightarrow> string list option) \<Rightarrow> (string \<Rightarrow> flow_graph option) \<Rightarrow> (flow_state, 'e, 't) flow_syscall \<Rightarrow>
     flow_state \<Rightarrow> string option \<Rightarrow> ('e, 't) flow_world \<Rightarrow> (flow_answer \<times> ('e, 't) flow_world) option" where
  "execute_intent env plans strategy dispatch intent user w =
     (if nodus_workflow (case map_of intent ''workflow_type'' of Some (PStr t) \<Rightarrow> t | _ \<Rightarrow> ''generic'') then Some (Inl Engine_boundary, w)
      else if \<not> truthy_str user then execute_intent_direct env plans strategy intent user w
      else
        case dispatch intent (the user) w of
          None \<Rightarrow> None
        | Some (Inr resp, w1) \<Rightarrow> Some (Inr resp, w1)
        | Some (Inl msg, w1) \<Rightarrow> Some (Inl (Dispatch_failed msg), w1))"

end
