(* ===== verification/Flow_Samples.thy ===== *)
theory Flow_Samples
  imports Flow_Engine
begin

text \<open>
  Small runs on which the theorems about the flow engine are evaluated: nodes \<open>a\<close>, \<open>b\<close> and \<open>c\<close> that
  succeed, a flow from \<open>a\<close> to \<open>b\<close>, and a database that holds a waiting run \<open>q\<close> with some history.
\<close>

definition ok_node :: "('e, 't) node_fn" where
  "ok_node st a w =
     ((Returns \<lparr>nr_status = Some ''SUCCESS'', nr_patch = [], nr_error = None, nr_wait_for = None, nr_execution_time_ms = 7\<rparr>, st), w)"

definition sample_flow_env :: "bool \<Rightarrow> (unit, unit) flow_env" where
  "sample_flow_env testing =
     \<lparr>fe_now = 100,
      fe_rm = \<lparr>now_mono = 5, redis_url = False, ping_ok = False, call_ok = False, backend_ok = False, is_testing = testing\<rparr>,
      fe_sched = \<lparr>now_utc = 100, redis_up = False, redis_ok = False, publish_ok = True, db_up = True, wait_deadline = (\<lambda>_. None),
        builders = [], env_retries = 3, host = ''h''\<rparr>,
      fe_pipeline = False, fe_fail_closed = True, fe_units_ok = True, fe_capture_ok = True,
      fe_nodes = (\<lambda>n. if n \<in> {''a'', ''b'', ''c''} then Some ok_node else None), fe_hook = (\<lambda>_ e. e), fe_blocked_nodes = [],
      fe_FLOW_WAIT_TIMEOUT_MINUTES = 30, fe_result_extractor = (\<lambda>_. Some (\<lambda>_. Returns (PInt 1))), fe_result_key = (\<lambda>_. None),
      fe_ctx_trace_id = None, fe_fresh_trace_id = ''t'', fe_fresh_run_id = ''r'', fe_fresh_unit_id = ''u'',
      fe_fresh_event_id = ''e''\<rparr>"

lemma sample_flow_env_simps [simp]:
  "is_testing (fe_rm (sample_flow_env b)) = b" "\<not> redis_url (fe_rm (sample_flow_env b))" "fe_units_ok (sample_flow_env b)"
  "fe_capture_ok (sample_flow_env b)" "fe_fresh_run_id (sample_flow_env b) = ''r''"
  "extract_execution_result (sample_flow_env b) t st = Returns (PInt 1)"
  by (simp_all add: sample_flow_env_def extract_execution_result_def)

definition sample_flow :: flow_graph where
  "sample_flow =
     \<lparr>fg_start = ''a'', fg_edges = [(''a'', [Plain ''b''])], fg_end = [''b''], fg_max_retries = [], fg_wait_timeout_minutes = None\<rparr>"

definition sample_runner :: flow_runner where
  "sample_runner = new_runner sample_flow (Some ''u1'') ''wf''"

definition sample_flow_row :: flow_row where
  "sample_flow_row =
     \<lparr>fw_flow_name = ''f'', fw_workflow_type = Some ''wf'', fw_state = [(''trace_id'', PStr ''t'')], fw_current_node = ''b'',
      fw_status = ''waiting'', fw_waiting_for = Some ''ev'', fw_wait_deadline = Some 50, fw_trace_id = Some ''t'',
      fw_user_id = Some ''u1'', fw_job_log_id = None, fw_error_message = None, fw_error_detail = None, fw_completed_at = None,
      fw_dead_letter_reason = None, fw_dead_lettered_at = None\<rparr>"

definition sample_flow_db :: "unit flow_db" where
  "sample_flow_db =
     \<lparr>fd_runs = [(''q'', sample_flow_row)],
      fd_history = [\<lparr>fh_run_id = ''q'', fh_node = ''a'', fh_status = ''SUCCESS'', fh_input_state = [], fh_output_patch = [],
        fh_execution_time_ms = 7, fh_error = None\<rparr>],
      fd_outcomes = [], fd_units = [], fd_events = [], fd_app = ()\<rparr>"

definition sample_flow_world :: "bool list \<Rightarrow> (unit, unit) flow_world" where
  "sample_flow_world io =
     \<lparr>fl_db = open_session sample_flow_db, fl_io = io, fl_signals = [], fl_flows = [], fl_rm = new_resource_manager None,
      fl_sched = \<lparr>eng = new_scheduler, specs = [], rows = [], bus = new_event_bus ''i'' False, channel = []\<rparr>, fl_ext = ()\<rparr>"

definition sample_started :: "flow_answer \<times> (unit, unit) flow_world" where
  "sample_started = the (start_flow (sample_flow_env True) sample_runner ''f'' [] (sample_flow_world []))"

lemma sample_started:
  "start_flow (sample_flow_env True) sample_runner ''f'' [] (sample_flow_world []) = Some (fst sample_started, snd sample_started)"
proof -
  have "start_flow (sample_flow_env True) sample_runner ''f'' [] (sample_flow_world []) \<noteq> None" by code_simp
  then show ?thesis by (auto simp: sample_started_def)
qed

definition sample_resumed :: "flow_answer \<times> (unit, unit) flow_world" where
  "sample_resumed = the (resume_flow (sample_flow_env True) sample_runner ''q'' (sample_flow_world []))"

lemma sample_resumed:
  "\<exists>rsp. resume_flow (sample_flow_env True) sample_runner ''q'' (sample_flow_world []) = Some (Inr rsp, snd sample_resumed) \<and>
     rsp_status rsp = ''SUCCESS''"
proof -
  have "map_option (\<lambda>(x, w). case x of Inl _ \<Rightarrow> [] | Inr rsp \<Rightarrow> rsp_status rsp)
      (resume_flow (sample_flow_env True) sample_runner ''q'' (sample_flow_world [])) = Some ''SUCCESS''" by code_simp
  then obtain x w where "resume_flow (sample_flow_env True) sample_runner ''q'' (sample_flow_world []) = Some (x, w)"
    and "(case x of Inl _ \<Rightarrow> [] | Inr rsp \<Rightarrow> rsp_status rsp) = ''SUCCESS''" by auto
  then show ?thesis by (cases x) (simp_all add: sample_resumed_def)
qed

text \<open>The run \<open>q\<close> while it executes, and the tenant of the samples with a number of executions.\<close>

definition running_flow_world :: "(unit, unit) flow_world" where
  "running_flow_world = (sample_flow_world [])\<lparr>fl_db := open_session (sample_flow_db\<lparr>fd_runs :=
     [(''q'', sample_flow_row\<lparr>fw_status := ''running'', fw_current_node := ''a''\<rparr>)]\<rparr>)\<rparr>"

definition busy_flow_world :: "bool list \<Rightarrow> int \<Rightarrow> (unit, unit) flow_world" where
  "busy_flow_world io k = (sample_flow_world io)\<lparr>fl_rm := (new_resource_manager None)\<lparr>active_counts := [(''u1'', k)]\<rparr>\<rparr>"

end
