(* ===== verification/Flow_Runs.thy ===== *)
theory Flow_Runs
  imports Flow_Samples
begin

text \<open>
  What a run of the flow engine does to the tables. The loop is related to the closure of its
  iteration; the locale \<open>flow_frame\<close> collects what every step of the runner keeps of a property of the
  database, and is interpreted for the run's own row and for the rows of the other runs.
\<close>

section \<open>Steps of a run\<close>

type_synonym ('e, 't) flow_config = "flow_state \<times> (string, nat) dict \<times> string \<times> ('e, 't) flow_world"

inductive flow_reaches :: "('e, 't) flow_env \<Rightarrow> flow_runner \<Rightarrow> string \<Rightarrow> ('e, 't) flow_config \<Rightarrow> ('e, 't) flow_config \<Rightarrow> bool"
  for env rn r where
  here: "flow_reaches env rn r c c"
| onwards: "flow_iteration env rn r st at n w = (Again st1 at1 n1, w1) \<Longrightarrow>
    flow_reaches env rn r (st1, at1, n1, w1) c \<Longrightarrow> flow_reaches env rn r (st, at, n, w) c"

text \<open>The loop returns exactly when an iteration it reaches finishes.\<close>

lemma loop_reaches:
  assumes "flow_loop env rn r st at n w = Some y"
  shows "\<exists>st1 at1 n1 w1. flow_reaches env rn r (st, at, n, w) (st1, at1, n1, w1) \<and>
    flow_iteration env rn r st1 at1 n1 w1 = (Finish (fst y), snd y)"
proof (rule flow_loop.raw_induct [where P = "\<lambda>env rn r st at n w y. \<exists>st1 at1 n1 w1.
      flow_reaches env rn r (st, at, n, w) (st1, at1, n1, w1) \<and>
      flow_iteration env rn r st1 at1 n1 w1 = (Finish (fst y), snd y)", OF _ assms])
  fix f :: "('a, 'b) flow_env \<Rightarrow> flow_runner \<Rightarrow> string \<Rightarrow> flow_state \<Rightarrow> (string, nat) dict \<Rightarrow> string \<Rightarrow> ('a, 'b) flow_world \<Rightarrow>
      (flow_answer \<times> ('a, 'b) flow_world) option" and env rn r st at n w y
  assume IH: "\<And>env rn r st at n w y. f env rn r st at n w = Some y \<Longrightarrow>
      \<exists>st1 at1 n1 w1. flow_reaches env rn r (st, at, n, w) (st1, at1, n1, w1) \<and>
        flow_iteration env rn r st1 at1 n1 w1 = (Finish (fst y), snd y)"
    and eq: "(case flow_iteration env rn r st at n w of
        (Again st1 at1 n1, w1) \<Rightarrow> f env rn r st1 at1 n1 w1 | (Finish x, w1) \<Rightarrow> Some (x, w1)) = Some y"
  obtain e w1 where it: "flow_iteration env rn r st at n w = (e, w1)" by fastforce
  show "\<exists>st1 at1 n1 w1. flow_reaches env rn r (st, at, n, w) (st1, at1, n1, w1) \<and>
      flow_iteration env rn r st1 at1 n1 w1 = (Finish (fst y), snd y)"
  proof (cases e)
    case (Again st1 at1 n1)
    then have "f env rn r st1 at1 n1 w1 = Some y" using eq it by simp
    from IH [OF this] show ?thesis using it Again by (blast intro: onwards)
  next
    case (Finish x)
    then have "flow_iteration env rn r st at n w = (Finish (fst y), snd y)" using eq it by auto
    then show ?thesis by (blast intro: here)
  qed
qed

lemma reaches_loop:
  assumes "flow_reaches env rn r c c'" and "c = (st, at, n, w)" and "c' = (st1, at1, n1, w1)"
  shows "flow_loop env rn r st at n w = flow_loop env rn r st1 at1 n1 w1"
  using assms
proof (induction arbitrary: st at n w)
  case (onwards st0 at0 n0 w0 st2 at2 n2 w2 c)
  then show ?case by (simp add: flow_loop.simps [of env rn r st at n w])
qed simp

section \<open>What steps keep\<close>

definition both_fl :: "('t flow_db \<Rightarrow> bool) \<Rightarrow> ('e, 't) flow_world \<Rightarrow> bool" where
  "both_fl P w = (P (committed (fl_db w)) \<and> P (working (fl_db w)))"

definition nodes_keep :: "('t flow_db \<Rightarrow> bool) \<Rightarrow> ('e, 't) flow_env \<Rightarrow> bool" where
  "nodes_keep P env = (\<forall>n f st a w. fe_nodes env n = Some f \<longrightarrow> both_fl P w \<longrightarrow> both_fl P (snd (f st a w)))"

lemma fl_work_db [simp]: "fl_db (fl_work f w) = flush_with f (fl_db w)"
  by (simp add: fl_work_def)

lemma release_slot_db [simp]: "fl_db (release_slot env rn w) = fl_db w" "fl_io (release_slot env rn w) = fl_io w"
  by (simp_all add: release_slot_def split: prod.split)

lemma record_resource_usage_db [simp]:
  "fl_db (record_resource_usage env rn ms w) = fl_db w" "fl_io (record_resource_usage env rn ms w) = fl_io w"
  by (simp_all add: record_resource_usage_def)

lemma commit_cases:
  assumes "fl_commit w = (b, w1)"
  shows "fl_db w1 = (if b then commit_session (fl_db w) else fl_db w)"
    and "fl_rm w1 = fl_rm w" "fl_sched w1 = fl_sched w" "fl_ext w1 = fl_ext w" "fl_flows w1 = fl_flows w"
  using assms by (auto simp: fl_commit_def fl_draw_def split: list.splits bool.splits)

text \<open>
  Properties of the database by what they survive: moving units and storing events; besides, rewriting
  the run's row; besides, appending to its history. The last kind survives every operation of the
  runner, whichever writes fail.
\<close>

locale flow_records =
  fixes P :: "'t flow_db \<Rightarrow> bool"
  assumes units: "P d \<Longrightarrow> P (d\<lparr>fd_units := u\<rparr>)"
    and events: "P d \<Longrightarrow> P (d\<lparr>fd_events := e\<rparr>)"
begin

lemma keeps_work: "both_fl P w \<Longrightarrow> (\<And>d. P d \<Longrightarrow> P (f d)) \<Longrightarrow> both_fl P (fl_work f w)"
  by (simp add: both_fl_def flush_with_def)

lemma keeps_commit: "fl_commit w = (b, w1) \<Longrightarrow> both_fl P w \<Longrightarrow> both_fl P w1"
  by (auto simp: both_fl_def commit_cases(1) commit_session_def)

lemma keeps_rollback: "both_fl P w \<Longrightarrow> both_fl P (fl_rollback w)"
  by (simp add: both_fl_def fl_rollback_def rollback_session_def)

lemma keeps_store: "store_event ty trace w = (b, w1) \<Longrightarrow> both_fl P w \<Longrightarrow> both_fl P w1"
  unfolding store_event_def by (erule keeps_commit) (rule keeps_work, assumption, rule events)

lemma keeps_event: "flow_event env ty trace w = (x, w1) \<Longrightarrow> both_fl P w \<Longrightarrow> both_fl P w1"
  by (auto simp: flow_event_def both_fl_def [of _ "_\<lparr>fl_signals := _\<rparr>"] split: if_splits prod.splits bool.splits
      intro: keeps_rollback dest: keeps_store)
     (auto simp: both_fl_def)

lemma keeps_unit: "both_fl P w \<Longrightarrow> both_fl P (set_unit_status env rn r st w)"
  unfolding set_unit_status_def by (rule keeps_work) (auto simp: Let_def split: option.split intro: units)

lemma keeps_other:
  "both_fl P (release_slot env rn w) = both_fl P w" "both_fl P (record_resource_usage env rn ms w) = both_fl P w"
  "both_fl P (w\<lparr>fl_ext := e\<rparr>) = both_fl P w" "both_fl P (w\<lparr>fl_rm := m\<rparr>) = both_fl P w" "both_fl P (w\<lparr>fl_sched := s\<rparr>) = both_fl P w"
  by (simp_all add: both_fl_def)

lemma keeps_capture: "capture_flow_completion env rn r w = (x, w1) \<Longrightarrow> both_fl P w \<Longrightarrow> both_fl P w1"
  by (auto simp: capture_flow_completion_def keeps_other split: if_splits prod.splits sum.splits
      dest: keeps_event intro: keeps_unit)

lemma keeps_node:
  "nodes_keep P env \<Longrightarrow> execute_node env n st at w = (e, st1, at1, w1) \<Longrightarrow> both_fl P w \<Longrightarrow> both_fl P w1"
  by (auto simp: execute_node_def nodes_keep_def Let_def split: option.splits prod.splits) (metis snd_conv)

end

locale flow_rows = flow_records +
  fixes r :: string
  assumes run: "P d \<Longrightarrow> P (d\<lparr>fd_runs := AList.update r row (fd_runs d)\<rparr>)"
begin

lemma keeps_edit: "both_fl P w \<Longrightarrow> both_fl P (edit_run r f w)"
  unfolding edit_run_def by (rule keeps_work) (auto split: option.split intro: run)

lemma keeps_fail: "fail_execution env rn r st err n w = (x, w1) \<Longrightarrow> both_fl P w \<Longrightarrow> both_fl P w1"
  by (auto simp: fail_execution_def Let_def keeps_other split: prod.splits bool.splits sum.splits
      dest!: keeps_commit keeps_event intro!: keeps_edit keeps_unit)

lemma keeps_handoff: "finish_handoff r st n v h w = (x, w1) \<Longrightarrow> both_fl P w \<Longrightarrow> both_fl P w1"
  by (auto simp: finish_handoff_def split: option.splits prod.splits bool.splits dest!: keeps_commit intro: keeps_edit)

lemma keeps_success: "finish_success env rn r st v w = (x, w1) \<Longrightarrow> both_fl P w \<Longrightarrow> both_fl P w1"
  by (auto simp: finish_success_def Let_def keeps_other split: option.splits prod.splits bool.splits sum.splits
      dest!: keeps_commit keeps_event keeps_capture intro!: keeps_edit)

lemma keeps_finalize: "finalize env rn r st n w = (x, w1) \<Longrightarrow> both_fl P w \<Longrightarrow> both_fl P w1"
  by (auto simp: finalize_def split: outcome.splits option.splits dest: keeps_handoff keeps_success)

lemma keeps_completion: "maybe_finalize_completion env rn r st n w = (x, w1) \<Longrightarrow> both_fl P w \<Longrightarrow> both_fl P w1"
  by (auto simp: maybe_finalize_completion_def split: if_splits option.splits prod.splits dest: keeps_finalize keeps_fail)

lemma keeps_park: "park_run env rn r st n ev t w = (b, w1) \<Longrightarrow> both_fl P w \<Longrightarrow> both_fl P w1"
  by (auto simp: park_run_def keeps_other split: prod.splits bool.splits sum.splits dest!: keeps_commit intro: keeps_edit)

lemma keeps_check: "check_resources env rn r st n w = (x, w1) \<Longrightarrow> both_fl P w \<Longrightarrow> both_fl P w1"
  by (auto simp: check_resources_def keeps_other split: prod.splits bool.splits option.splits
      dest!: keeps_park keeps_fail)

lemma keeps_current:
  "nodes_keep P env \<Longrightarrow> execute_current_node env rn r st at n w = (x, w1) \<Longrightarrow> both_fl P w \<Longrightarrow> both_fl P w1"
  by (auto simp: execute_current_node_def queue_node_failure_def keeps_other split: prod.splits option.splits node_end.splits sum.splits
      dest!: keeps_check keeps_node keeps_event keeps_fail)

lemma keeps_status:
  "handle_node_status env rn r st at n res status w = (e, st1, w1) \<Longrightarrow> both_fl P w \<Longrightarrow> both_fl P w1"
  by (auto simp: handle_node_status_def Let_def finalize_or_go_on_def fail_with_def wait_on_event_def
      split: if_splits prod.splits option.splits sum.splits bool.splits dest!: keeps_completion keeps_fail keeps_park keeps_event)

lemma keeps_advance: "advance_to_next_node env rn r st at n w = (e, w1) \<Longrightarrow> both_fl P w \<Longrightarrow> both_fl P w1"
  by (auto simp: advance_to_next_node_def split: sum.splits if_splits prod.splits bool.splits
      dest!: keeps_commit keeps_fail intro: keeps_edit)

lemma keeps_claim: "claim_waiting_run r row w = (x, w1) \<Longrightarrow> both_fl P w \<Longrightarrow> both_fl P w1"
  by (auto simp: claim_waiting_run_def Let_def split: if_splits prod.splits bool.splits
      dest!: keeps_commit intro: keeps_edit keeps_rollback)

lemma keeps_enter: "enter_run env r row w = (x, w1) \<Longrightarrow> both_fl P w \<Longrightarrow> both_fl P w1"
  by (auto simp: enter_run_def Let_def split: if_splits prod.splits bool.splits dest!: keeps_commit intro: keeps_edit)

lemma keeps_new: "both_fl P w \<Longrightarrow> both_fl P (fl_work (\<lambda>d. d\<lparr>fd_runs := AList.update r row (fd_runs d)\<rparr>) w)"
  by (rule keeps_work) (auto intro: run)

lemma keeps_initialize: "initialize_execution_unit env rn r name w = (x, w1) \<Longrightarrow> both_fl P w \<Longrightarrow> both_fl P w1"
  by (auto simp: initialize_execution_unit_def Let_def keeps_other split: prod.splits option.splits
      intro!: keeps_work units)
     (metis keeps_commit keeps_edit keeps_work prod.collapse units)

lemma keeps_announce: "announce_run env r st w = (x, w1) \<Longrightarrow> both_fl P w \<Longrightarrow> both_fl P w1"
  by (auto simp: announce_run_def Let_def split: prod.splits bool.splits sum.splits
      dest!: keeps_commit keeps_event intro!: keeps_edit)

end

locale flow_frame = flow_rows +
  assumes history: "P d \<Longrightarrow> fh_run_id h = r \<Longrightarrow> P (d\<lparr>fd_history := fd_history d @ [h]\<rparr>)"
begin

lemma keeps_after: "after_node env rn r snap st at n res w = (e, w1) \<Longrightarrow> both_fl P w \<Longrightarrow> both_fl P w1"
  by (auto simp: after_node_def add_history_def split: option.splits prod.splits bool.splits sum.splits status_end.splits
      dest!: keeps_commit keeps_event keeps_status keeps_advance intro!: keeps_work history)

lemma keeps_iteration:
  assumes "nodes_keep P env" and "both_fl P w" and "flow_iteration env rn r st at n w = (e, w1)"
  shows "both_fl P w1"
  using assms
  by (auto simp: flow_iteration_def split: option.splits prod.splits sum.splits
      dest!: keeps_event keeps_current [OF assms(1)] keeps_after)

lemma keeps_reaches:
  assumes "flow_reaches env rn r c c1" and "nodes_keep P env" and "both_fl P (snd (snd (snd c)))"
  shows "both_fl P (snd (snd (snd c1)))"
  using assms by (induction rule: flow_reaches.induct) (auto dest: keeps_iteration)

lemma keeps_loop:
  assumes "nodes_keep P env" and "both_fl P w" and "flow_loop env rn r st at n w = Some (x, w1)"
  shows "both_fl P w1"
proof -
  obtain st2 at2 n2 w2 where "flow_reaches env rn r (st, at, n, w) (st2, at2, n2, w2)"
    and "flow_iteration env rn r st2 at2 n2 w2 = (Finish x, w1)"
    using loop_reaches [OF assms(3)] by auto
  moreover from this(1) have "both_fl P w2" using keeps_reaches [OF _ assms(1)] assms(2) by fastforce
  ultimately show ?thesis using assms(1) by (blast intro: keeps_iteration)
qed

lemma keeps_resume:
  assumes "nodes_keep P env" and "both_fl P w" and "resume_flow env rn r w = Some (x, w1)"
  shows "both_fl P w1"
  using assms
  by (auto simp: resume_flow_def split: option.splits prod.splits sum.splits dest!: keeps_claim keeps_enter keeps_loop [OF assms(1), rotated])

lemma keeps_start:
  assumes "nodes_keep P env" and "both_fl P w" and "r = fe_fresh_run_id env" and "start_flow env rn name st w = Some (x, w1)"
  shows "both_fl P w1"
  using assms(2,4)
  by (auto simp: start_flow_def Let_def assms(3) [symmetric] split: option.splits prod.splits bool.splits
      dest!: keeps_commit keeps_initialize keeps_announce keeps_resume [OF assms(1), rotated] intro: keeps_new)

end

section \<open>Other runs\<close>

definition run_history :: "string \<Rightarrow> 't flow_db \<Rightarrow> history_row list" where
  "run_history q d = filter (\<lambda>h. fh_run_id h = q) (fd_history d)"

definition apart :: "string \<Rightarrow> string \<Rightarrow> flow_row option \<Rightarrow> history_row list \<Rightarrow> 't flow_db \<Rightarrow> bool" where
  "apart r q row hs d = (q = r \<or> map_of (fd_runs d) q = row \<and> run_history q d = hs)"

interpretation ap: flow_frame "apart r q row hs" r for r q row hs
  by unfold_locales (auto simp: apart_def run_history_def update_conv')

text \<open>
  C30. Runs are isolated: starting and executing one run, through every node, failure, wait and failed
  write, leaves the stored row and the stored history of every other run as they are, provided the
  nodes do.
\<close>

theorem flow_runs_isolated:
  assumes "q \<noteq> fe_fresh_run_id env" and "working (fl_db w) = committed (fl_db w)"
    and "\<And>row hs. nodes_keep (apart (fe_fresh_run_id env) q row hs) env"
    and "start_flow env rn name st w = Some (x, w1)"
  shows "map_of (fd_runs (committed (fl_db w1))) q = map_of (fd_runs (committed (fl_db w))) q \<and>
    run_history q (committed (fl_db w1)) = run_history q (committed (fl_db w))"
proof -
  let ?P = "apart (fe_fresh_run_id env) q (map_of (fd_runs (committed (fl_db w))) q) (run_history q (committed (fl_db w)))"
  have "both_fl ?P w" using assms(2) by (simp add: both_fl_def apart_def)
  from ap.keeps_start [OF assms(3) this refl assms(4)] assms(1)
  show ?thesis by (simp add: both_fl_def apart_def)
qed

lemma sample_nodes_keep: "nodes_keep P (sample_flow_env b)"
  by (simp add: nodes_keep_def sample_flow_env_def ok_node_def)

theorem flow_runs_isolated_witness:
  "map_of (fd_runs (committed (fl_db (snd sample_started)))) ''q'' = Some sample_flow_row \<and>
   run_history ''q'' (committed (fl_db (snd sample_started))) = fd_history sample_flow_db"
proof -
  have "map_of (fd_runs (committed (fl_db (snd sample_started)))) ''q'' = map_of (fd_runs (committed (fl_db (sample_flow_world [])))) ''q'' \<and>
    run_history ''q'' (committed (fl_db (snd sample_started))) = run_history ''q'' (committed (fl_db (sample_flow_world [])))"
    by (rule flow_runs_isolated [OF _ _ sample_nodes_keep sample_started])
       (simp_all add: sample_flow_world_def open_session_def)
  then show ?thesis by (simp add: sample_flow_world_def open_session_def sample_flow_db_def run_history_def)
qed

section \<open>The row of a run\<close>

definition run_is :: "string \<Rightarrow> (flow_row \<Rightarrow> bool) \<Rightarrow> 't flow_db \<Rightarrow> bool" where
  "run_is r Q d = (case map_of (fd_runs d) r of None \<Rightarrow> False | Some row \<Rightarrow> Q row)"

interpretation ri: flow_records "run_is r Q" for r Q
  by unfold_locales (auto simp: run_is_def)

abbreviation has_run :: "string \<Rightarrow> 't flow_db \<Rightarrow> bool" where
  "has_run r \<equiv> run_is r (\<lambda>_. True)"

interpretation hr: flow_frame "has_run r" r for r
  by unfold_locales (auto simp: run_is_def update_conv' split: option.splits)

lemma run_is_seen: "both_fl (run_is r Q) w \<Longrightarrow> \<exists>row. run_of r w = Some row \<and> Q row"
  by (auto simp: both_fl_def run_is_def run_of_def split: option.splits)

lemma commit_edited:
  assumes "fl_commit (edit_run r f w) = (True, w1)" and "both_fl (has_run r) w" and "\<And>row. Q (f row)"
  shows "both_fl (run_is r Q) w1"
  using assms
  by (auto simp: both_fl_def run_is_def commit_cases(1) commit_session_def edit_run_def flush_with_def update_conv'
      split: option.splits)

definition answered :: "string \<Rightarrow> flow_response \<Rightarrow> ('e, 't) flow_world \<Rightarrow> bool" where
  "answered r rsp = both_fl (run_is r (\<lambda>row. fw_status row = py_lower (rsp_status rsp)))"

lemma lower_statuses:
  "py_lower ''FAILED'' = ''failed''" "py_lower ''SUCCESS'' = ''success''" "py_lower ''WAITING'' = ''waiting''"
  by code_simp+

lemma fail_answered:
  assumes "fail_execution env rn r st err n w = (Inr rsp, w1)" and "both_fl (has_run r) w"
  shows "answered r rsp w1"
proof -
  define Q where "Q = (\<lambda>row :: flow_row. fw_status row = ''failed'')"
  have edit: "fl_commit (edit_run r (\<lambda>row. row\<lparr>fw_status := ''failed'', fw_waiting_for := None, fw_wait_deadline := None,
      fw_error_message := Some err, fw_error_detail := None, fw_completed_at := Some (fe_now env)\<rparr>) w) = (True, w2) \<Longrightarrow> both_fl (run_is r Q) w2" for w2
    by (erule commit_edited [OF _ assms(2)]) (simp add: Q_def)
  have "both_fl (run_is r Q) w1 \<and> rsp_status rsp = ''FAILED''"
    using assms(1)
    by (auto simp: fail_execution_def Let_def ri.keeps_other run_response_def split: prod.splits bool.splits sum.splits
        dest!: edit ri.keeps_event intro!: ri.keeps_unit)
  then show ?thesis by (simp add: answered_def Q_def lower_statuses)
qed

lemma handoff_answered:
  assumes "finish_handoff r st n v h w = (Some rsp, w1)" and "both_fl (has_run r) w"
  shows "answered r rsp w1"
  using assms
  by (auto simp: finish_handoff_def answered_def run_response_def split: option.splits prod.splits bool.splits
      elim!: commit_edited)

lemma success_answered:
  assumes "finish_success env rn r st v w = (Some rsp, w1)" and "both_fl (has_run r) w"
  shows "answered r rsp w1"
proof -
  define Q where "Q = (\<lambda>row :: flow_row. fw_status row = ''success'')"
  have edit: "fl_commit (edit_run r (\<lambda>row. row\<lparr>fw_status := ''success'', fw_state := st, fw_waiting_for := None,
      fw_wait_deadline := None, fw_completed_at := Some (fe_now env)\<rparr>) w2) = (True, w3) \<Longrightarrow> both_fl (has_run r) w2 \<Longrightarrow>
      both_fl (run_is r Q) w3" for w2 w3 :: "('a, 'b) flow_world"
    by (erule commit_edited) (simp_all add: Q_def)
  have "both_fl (run_is r Q) w1 \<and> rsp_status rsp = ''SUCCESS''"
    using assms
    by (auto simp: finish_success_def Let_def ri.keeps_other run_response_def split: option.splits prod.splits bool.splits sum.splits
        dest!: edit ri.keeps_event ri.keeps_capture)
  then show ?thesis by (simp add: answered_def Q_def lower_statuses)
qed

lemma completion_answered:
  assumes "maybe_finalize_completion env rn r st n w = (Some (Inr rsp), w1)" and "both_fl (has_run r) w"
  shows "answered r rsp w1"
  using assms
  by (auto simp: maybe_finalize_completion_def finalize_def
      split: if_splits option.splits prod.splits outcome.splits
      dest!: fail_answered handoff_answered success_answered
      intro: hr.keeps_handoff hr.keeps_success)

lemma park_answered:
  assumes "park_run env rn r st n ev t w = (True, w1)" and "both_fl (has_run r) w"
  shows "both_fl (run_is r (\<lambda>row. fw_status row = ''waiting'')) w1"
  using assms
  by (auto simp: park_run_def ri.keeps_other split: prod.splits bool.splits sum.splits elim!: commit_edited)

lemma check_answered:
  assumes "check_resources env rn r st n w = (Some (Inr rsp), w1)" and "both_fl (has_run r) w"
  shows "answered r rsp w1"
  using assms
  by (auto simp: check_resources_def ri.keeps_other answered_def run_response_def lower_statuses
      split: prod.splits option.splits bool.splits
      dest!: fail_answered park_answered)

lemma current_answered:
  assumes "execute_current_node env rn r st at n w = (Inl (Inr rsp), w1)" and "both_fl (has_run r) w"
    and "nodes_keep (has_run r) env"
  shows "answered r rsp w1"
  using assms(1,2)
  by (auto simp: execute_current_node_def queue_node_failure_def split: prod.splits option.splits node_end.splits sum.splits
      dest: check_answered hr.keeps_check
      dest!: ri.keeps_node [OF assms(3)] ri.keeps_event fail_answered)

lemma wait_answered:
  assumes "wait_on_event env rn r st n ev w = (Inr rsp, w1)" and "both_fl (has_run r) w"
  shows "answered r rsp w1"
  using assms
  by (auto simp: wait_on_event_def answered_def run_response_def lower_statuses split: prod.splits bool.splits sum.splits
      dest!: park_answered ri.keeps_event)

lemma status_answered:
  assumes "handle_node_status env rn r st at n res status w = (Respond (Inr rsp), st1, w1)" and "both_fl (has_run r) w"
  shows "answered r rsp w1"
  using assms
  by (auto simp: handle_node_status_def Let_def finalize_or_go_on_def fail_with_def
      split: if_splits prod.splits option.splits dest: completion_answered fail_answered wait_answered)

lemma advance_answered:
  assumes "advance_to_next_node env rn r st at n w = (Finish (Inr rsp), w1)" and "both_fl (has_run r) w"
  shows "answered r rsp w1"
  using assms
  by (auto simp: advance_to_next_node_def split: sum.splits if_splits prod.splits bool.splits dest: fail_answered)

lemma keeps_add_history: "both_fl (has_run r) w \<Longrightarrow> both_fl (has_run r) (add_history r n status snap res w)"
  unfolding add_history_def by (rule ri.keeps_work) (auto simp: run_is_def)

lemma after_answered:
  assumes "after_node env rn r snap st at n res w = (Finish (Inr rsp), w1)" and "both_fl (has_run r) w"
  shows "answered r rsp w1"
  using assms
  by (auto simp: after_node_def split: option.splits prod.splits bool.splits sum.splits status_end.splits
      dest!: ri.keeps_commit ri.keeps_event
      dest: status_answered advance_answered hr.keeps_status intro: keeps_add_history)

lemma iteration_answered:
  assumes "flow_iteration env rn r st at n w = (Finish (Inr rsp), w1)" and "both_fl (has_run r) w"
    and "nodes_keep (has_run r) env"
  shows "answered r rsp w1"
proof -
  have seen: "both_fl (has_run r) v \<Longrightarrow> run_of r v \<noteq> None" for v :: "('a, 'b) flow_world"
    by (auto dest: run_is_seen)
  have current: "execute_current_node env rn r st at n v = (y, v1) \<Longrightarrow> both_fl (has_run r) v \<Longrightarrow> both_fl (has_run r) v1" for v y v1
    by (rule hr.keeps_current [OF assms(3)])
  show ?thesis
    using assms(1,2)
    by (auto simp: flow_iteration_def split: option.splits prod.splits sum.splits
        dest!: ri.keeps_event dest: seen current_answered [OF _ _ assms(3)] current after_answered)
qed

lemma loop_answered:
  assumes "flow_loop env rn r st at n w = Some (Inr rsp, w1)" and "both_fl (has_run r) w" and "nodes_keep (has_run r) env"
  shows "answered r rsp w1"
proof -
  obtain st2 at2 n2 w2 where reach: "flow_reaches env rn r (st, at, n, w) (st2, at2, n2, w2)"
    and last: "flow_iteration env rn r st2 at2 n2 w2 = (Finish (Inr rsp), w1)"
    using loop_reaches [OF assms(1)] by auto
  have "both_fl (has_run r) w2" using hr.keeps_reaches [OF reach assms(3)] assms(2) by simp
  from iteration_answered [OF last this assms(3)] show ?thesis .
qed

text \<open>
  C7. A response and the stored row agree: whenever a resumed run answers, and it was not skipped because
  its claim failed, its committed status is the status of the response in lower case, whichever writes
  and emissions failed on the way, provided no node deletes the row.
\<close>

theorem response_matches_row:
  assumes "resume_flow env rn r w = Some (Inr rsp, w1)" and "rsp_status rsp \<noteq> ''SKIPPED''"
    and "both_fl (has_run r) w" and "nodes_keep (has_run r) env"
  shows "map_option fw_status (map_of (fd_runs (committed (fl_db w1))) r) = Some (py_lower (rsp_status rsp))"
proof -
  have "run_of r w \<noteq> None" using run_is_seen [OF assms(3)] by auto
  then have "answered r rsp w1"
    using assms(1-3)
    by (auto simp: resume_flow_def split: option.splits prod.splits sum.splits
        dest: loop_answered [OF _ _ assms(4)] hr.keeps_claim hr.keeps_enter)
       (auto simp: claim_waiting_run_def Let_def bare_response_def split: if_splits prod.splits bool.splits)
  then show ?thesis by (auto simp: answered_def both_fl_def run_is_def split: option.splits)
qed

theorem response_matches_row_witness:
  "map_option fw_status (map_of (fd_runs (committed (fl_db (snd sample_resumed)))) ''q'') = Some ''success''"
proof -
  obtain rsp where "resume_flow (sample_flow_env True) sample_runner ''q'' (sample_flow_world []) = Some (Inr rsp, snd sample_resumed)"
    and "rsp_status rsp = ''SUCCESS''" using sample_resumed by blast
  then show ?thesis
    using response_matches_row [OF _ _ _ sample_nodes_keep, of True sample_runner "''q''" "sample_flow_world []" rsp "snd sample_resumed"]
    by (simp add: both_fl_def run_is_def sample_flow_world_def open_session_def sample_flow_db_def lower_statuses)
qed

text \<open>
  Of two instances that both read a run as waiting, one claims it: once a claim has succeeded, every
  other claim is answered \<open>SKIPPED\<close>, whatever its commit does.
\<close>

theorem resume_claim_exclusive:
  assumes "fw_status row = ''waiting''" and "fw_status row' = ''waiting''" and "claim_waiting_run r row w = (None, w1)"
  shows "map_option rsp_status (fst (claim_waiting_run r row' w1)) = Some ''SKIPPED'' \<and>
    map_option fw_status (run_of r w1) = Some ''executing''"
proof -
  have "map_option fw_status (run_of r w1) = Some ''executing''"
    using assms(1,3)
    by (auto simp: claim_waiting_run_def Let_def run_of_def commit_cases(1) edit_run_def commit_session_def flush_with_def
        update_conv' split: if_splits prod.splits bool.splits option.splits)
  then show ?thesis
    using assms(2) by (auto simp: claim_waiting_run_def bare_response_def split: option.splits prod.splits bool.splits)
qed

end
