(* ===== verification/Flow_Progress.thy ===== *)
theory Flow_Progress
  imports Flow_Runs
begin

text \<open>
  Where a run goes: along the edges of its graph, a checkpoint at each, to an end if the graph has no
  cycle. The attempts of a node are counted for the whole resume, and nothing else bounds the loop.
\<close>

section \<open>One iteration\<close>

definition edge_target :: "flow_edge \<Rightarrow> string" where
  "edge_target e = (case e of Plain t \<Rightarrow> t | Conditional _ t \<Rightarrow> t)"

definition targets :: "flow_graph \<Rightarrow> string \<Rightarrow> string list" where
  "targets g n = (case map_of (fg_edges g) n of None \<Rightarrow> [] | Some es \<Rightarrow> map edge_target es)"

lemma first_edge_target: "first_edge st es = Inr (Some m) \<Longrightarrow> m \<in> edge_target ` set es"
  by (induction st es rule: first_edge.induct) (auto simp: edge_target_def split: option.splits bool.splits)

lemma resolve_target: "resolve_next_node n st g = Inr (Some m) \<Longrightarrow> m \<in> set (targets g n)"
  by (auto simp: resolve_next_node_def targets_def edge_target_def [abs_def] dest: first_edge_target [unfolded edge_target_def [abs_def]]
      split: option.splits list.splits flow_edge.splits bool.splits)

lemma status_goes_on:
  assumes "handle_node_status env rn r st at n res status w = (e, st1, w1)"
  shows "e = Retry_node \<Longrightarrow> status = ''RETRY'' \<and> st1 = st \<and> w1 = w \<and> int (attempts_of at n) < node_max_attempts (rn_flow rn) n"
    and "e = Go_on \<Longrightarrow> status \<noteq> ''RETRY'' \<and> w1 = w \<and> n \<notin> set (fg_end (rn_flow rn))"
  using assms
  by (auto simp: handle_node_status_def Let_def finalize_or_go_on_def fail_with_def maybe_finalize_completion_def
      split: if_splits prod.splits option.splits)

lemma advance_again:
  assumes "advance_to_next_node env rn r st at n w = (Again st1 at1 n1, w1)"
  shows "st1 = st" "at1 = at" "n1 \<in> set (targets (rn_flow rn) n)"
    and "fl_commit (edit_run r (\<lambda>row. row\<lparr>fw_current_node := n1, fw_state := st\<rparr>) w) = (True, w1)"
  using assms
  by (auto simp: advance_to_next_node_def truthy_str_def dest: resolve_target
      split: sum.splits if_splits prod.splits bool.splits option.splits)

lemma node_counts:
  "execute_node env n st at w = (Ended res, st1, at1, w1) \<Longrightarrow> at1 = AList.update n (Suc (attempts_of at n)) at"
  by (auto simp: execute_node_def Let_def split: option.splits prod.splits)

lemma current_counts:
  "execute_current_node env rn r st at n w = (Inr (res, st1, at1), w1) \<Longrightarrow> at1 = AList.update n (Suc (attempts_of at n)) at"
  by (auto simp: execute_current_node_def split: option.splits prod.splits node_end.splits sum.splits dest: node_counts)

text \<open>An iteration that does not end the loop retries its node, within its attempts, or follows an edge.\<close>

lemma after_again:
  assumes "after_node env rn r snap st at n res w = (Again st1 at1 n1, w1)"
  obtains (retry) "nr_status res = Some ''RETRY''" "n1 = n" "at1 = at" "int (attempts_of at n) < node_max_attempts (rn_flow rn) n"
  | (edge) w2 status where "nr_status res = Some status" "status \<noteq> ''RETRY''" "at1 = at" "n1 \<in> set (targets (rn_flow rn) n)"
      "fl_commit (edit_run r (\<lambda>row. row\<lparr>fw_current_node := n1, fw_state := st1\<rparr>) w2) = (True, w1)"
  using assms
  by (auto simp: after_node_def split: option.splits prod.splits bool.splits sum.splits status_end.splits
      dest: status_goes_on advance_again)

lemma iteration_parts:
  assumes "flow_iteration env rn r st at n w = (Again st1 at1 n1, w1)"
  obtains res st2 w2 where "after_node env rn r st st2 (AList.update n (Suc (attempts_of at n)) at) n res w2 = (Again st1 at1 n1, w1)"
    and "run_of r w2 \<noteq> None"
  using assms
  by (auto simp: flow_iteration_def split: option.splits prod.splits sum.splits dest: current_counts)

lemma attempts_update [simp]: "attempts_of (AList.update n k at) m = (if m = n then k else attempts_of at m)"
  by (simp add: attempts_of_def update_conv')

lemma iteration_moves:
  assumes "flow_iteration env rn r st at n w = (Again st1 at1 n1, w1)"
  shows "n1 = n \<and> attempts_of at1 n = Suc (attempts_of at n) \<and> int (attempts_of at1 n) < node_max_attempts (rn_flow rn) n \<or>
    n1 \<in> set (targets (rn_flow rn) n)"
  using assms by (elim iteration_parts) (erule after_again, auto)

section \<open>Termination\<close>

definition graph_edges :: "flow_graph \<Rightarrow> (string \<times> string) set" where
  "graph_edges g = set (concat (map (\<lambda>(n, _). map (Pair n) (targets g n)) (fg_edges g)))"

lemma target_edge:
  assumes "m \<in> set (targets g n)"
  shows "(n, m) \<in> graph_edges g"
proof -
  obtain es where "map_of (fg_edges g) n = Some es"
    using assms by (cases "map_of (fg_edges g) n") (simp_all add: targets_def)
  then have "(n, es) \<in> set (fg_edges g)" by (rule map_of_SomeD)
  moreover have "(n, m) \<in> set ((\<lambda>(n, _). map (Pair n) (targets g n)) (n, es))" using assms by simp
  ultimately show ?thesis unfolding graph_edges_def set_concat set_map by blast
qed

lemma loop_returns:
  assumes "acyclic (graph_edges (rn_flow rn))"
  shows "\<exists>y. flow_loop env rn r st at n w = Some y"
proof -
  have "wf ((graph_edges (rn_flow rn))\<inverse>)"
    by (rule finite_acyclic_wf_converse [OF _ assms]) (simp only: graph_edges_def finite_set)
  then show ?thesis
  proof (induction n arbitrary: st at w rule: wf_induct_rule)
    case (less n)
    show ?case
    proof (induction "nat (node_max_attempts (rn_flow rn) n) - attempts_of at n" arbitrary: st at w rule: less_induct)
      case inner: less
      obtain e w1 where it: "flow_iteration env rn r st at n w = (e, w1)" by fastforce
      show ?case
      proof (cases e)
        case (Again st1 at1 n1)
        have "\<exists>y. flow_loop env rn r st1 at1 n1 w1 = Some y"
          using iteration_moves [OF it [unfolded Again]]
        proof
          assume "n1 \<in> set (targets (rn_flow rn) n)"
          then have "(n1, n) \<in> (graph_edges (rn_flow rn))\<inverse>" by (blast intro: target_edge)
          then show ?thesis by (rule less)
        next
          assume "n1 = n \<and> attempts_of at1 n = Suc (attempts_of at n) \<and>
            int (attempts_of at1 n) < node_max_attempts (rn_flow rn) n"
          then have "n1 = n" and "nat (node_max_attempts (rn_flow rn) n) - attempts_of at1 n <
              nat (node_max_attempts (rn_flow rn) n) - attempts_of at n" by auto
          then show ?thesis using inner by blast
        qed
        then show ?thesis using it Again by (simp add: flow_loop.simps [of env rn r st at n w])
      next
        case (Finish x)
        then show ?thesis using it by (simp add: flow_loop.simps)
      qed
    qed
  qed
qed

text \<open>
  C9. A flow whose graph has no cycle always comes to an end, whatever its nodes return, raise or do to
  the world, whichever writes fail, and from every state: a start answers or raises.
\<close>

theorem acyclic_flow_returns:
  assumes "acyclic (graph_edges (rn_flow rn))"
  shows "\<exists>y. start_flow env rn name st w = Some y"
proof -
  have resume: "\<exists>y. resume_flow env rn' r w = Some y" if "rn_flow rn' = rn_flow rn" for rn' r w
    using loop_returns [of rn'] assms that
    by (auto simp: resume_flow_def split: option.splits prod.splits sum.splits)
  have "initialize_execution_unit env rn r name w1 = (Some rn1, w2) \<Longrightarrow> rn_flow rn1 = rn_flow rn" for r w1 rn1 w2
    by (auto simp: initialize_execution_unit_def Let_def split: prod.splits option.splits)
  then show ?thesis using resume by (auto simp: start_flow_def Let_def split: prod.splits bool.splits option.splits)
qed

theorem acyclic_flow_returns_witness:
  "\<exists>y. start_flow (sample_flow_env False) sample_runner ''f'' [] (sample_flow_world [True, False]) = Some y"
proof (rule acyclic_flow_returns)
  have "graph_edges (rn_flow sample_runner) = {(''a'', ''b'')}"
    by (simp add: sample_runner_def new_runner_def sample_flow_def graph_edges_def targets_def edge_target_def)
  then show "acyclic (graph_edges (rn_flow sample_runner))" by (auto intro: acyclicI_order [where f = "\<lambda>n. if n = ''a'' then 1 else 0 :: nat"])
qed

section \<open>Checkpoints\<close>

lemma commit_has_run:
  assumes "fl_commit (add_history r n status snap res w) = (True, w1)" and "run_of r w \<noteq> None"
  shows "both_fl (has_run r) w1"
  using assms
  by (auto simp: both_fl_def run_is_def run_of_def commit_cases(1) commit_session_def add_history_def flush_with_def split: option.splits)

lemma after_checkpoint:
  assumes "after_node env rn r snap st at n res w = (Again st1 at1 n1, w1)" and "run_of r w \<noteq> None" and "n1 \<noteq> n"
  shows "both_fl (run_is r (\<lambda>row. fw_current_node row = n1 \<and> fw_state row = st1)) w1"
proof -
  obtain w2 where "fl_commit (edit_run r (\<lambda>row. row\<lparr>fw_current_node := n1, fw_state := st1\<rparr>) w2) = (True, w1)"
    and "both_fl (has_run r) w2"
    using assms
    by (auto simp: after_node_def split: option.splits prod.splits bool.splits sum.splits status_end.splits
        dest!: commit_has_run ri.keeps_event dest: status_goes_on advance_again)
  then show ?thesis by (rule commit_edited) simp
qed

text \<open>
  C3. Checkpoints are enough to go on: when an iteration has moved to another node, every process that
  opens the database later, with whatever runner, settings and memory, resumes the run at that node
  and with that state. Nothing before is repeated and nothing is lost but the attempt counts.
\<close>

theorem checkpoint_resumes:
  assumes "flow_iteration env rn r st at n w = (Again st1 at1 n1, w1)" and "n1 \<noteq> n"
    and "fl_db w2 = open_session (committed (fl_db w1))"
    and "map_option fw_status (run_of r w2) \<noteq> Some ''waiting''" and "has_trace st1"
  shows "resume_flow env' rn' r w2 = flow_loop env' rn' r st1 [] n1 w2"
proof -
  have "both_fl (run_is r (\<lambda>row. fw_current_node row = n1 \<and> fw_state row = st1)) w1"
    using assms(1) by (elim iteration_parts) (rule after_checkpoint [OF _ _ assms(2)])
  then obtain row where "run_of r w2 = Some row" and "fw_current_node row = n1" and "fw_state row = st1"
    using assms(3) by (auto simp: both_fl_def run_is_def run_of_def open_session_def split: option.splits)
  then show ?thesis using assms(4,5) by (simp add: resume_flow_def claim_waiting_run_def enter_run_def)
qed

definition sample_iteration :: "loop_end \<times> (unit, unit) flow_world" where
  "sample_iteration = flow_iteration (sample_flow_env True) sample_runner ''q'' [(''trace_id'', PStr ''t'')] [] ''a'' running_flow_world"

definition sample_crashed :: "(unit, unit) flow_world" where
  "sample_crashed = (sample_flow_world [])\<lparr>fl_db := open_session (committed (fl_db (snd sample_iteration)))\<rparr>"

theorem checkpoint_resumes_witness:
  "resume_flow (sample_flow_env False) sample_runner ''q'' sample_crashed =
   flow_loop (sample_flow_env False) sample_runner ''q'' [(''trace_id'', PStr ''t'')] [] ''b'' sample_crashed"
proof (rule checkpoint_resumes)
  have "fst sample_iteration = Again [(''trace_id'', PStr ''t'')] [(''a'', 1)] ''b''" by code_simp
  then show "flow_iteration (sample_flow_env True) sample_runner ''q'' [(''trace_id'', PStr ''t'')] [] ''a'' running_flow_world =
      (Again [(''trace_id'', PStr ''t'')] [(''a'', 1)] ''b'', snd sample_iteration)"
    unfolding sample_iteration_def by (metis prod.collapse)
  show "fl_db sample_crashed = open_session (committed (fl_db (snd sample_iteration)))" by (simp add: sample_crashed_def)
  show "map_option fw_status (run_of ''q'' sample_crashed) \<noteq> Some ''waiting''" by code_simp
qed (simp_all add: has_trace_def py_truthy_def)

section \<open>The way through the graph\<close>

definition trail :: "string \<Rightarrow> 't flow_db \<Rightarrow> (string \<times> string) list" where
  "trail r d = map (\<lambda>h. (fh_node h, fh_status h)) (run_history r d)"

definition trail_is :: "string \<Rightarrow> (string \<times> string) list \<Rightarrow> 't flow_db \<Rightarrow> bool" where
  "trail_is r tr d = (trail r d = tr)"

interpretation tr: flow_rows "trail_is r tr" r for r tr
  by unfold_locales (auto simp: trail_is_def trail_def run_history_def)

definition may_follow :: "flow_graph \<Rightarrow> string \<times> string \<Rightarrow> string \<Rightarrow> bool" where
  "may_follow g p m = (if snd p = ''RETRY'' then m = fst p else m \<in> set (targets g (fst p)))"

fun follows :: "flow_graph \<Rightarrow> string \<Rightarrow> (string \<times> string) list \<Rightarrow> bool" where
  "follows g n [] = True"
| "follows g n [p] = (fst p = n)"
| "follows g n (p # q # ps) = (fst p = n \<and> may_follow g p (fst q) \<and> follows g (fst q) (q # ps))"

definition arrives :: "flow_graph \<Rightarrow> string \<Rightarrow> (string \<times> string) list \<Rightarrow> string \<Rightarrow> bool" where
  "arrives g n ps m = (follows g n ps \<and> (if ps = [] then m = n else may_follow g (last ps) m))"

lemma follows_snoc: "arrives g n ps (fst p) \<Longrightarrow> follows g n (ps @ [p])"
  by (induction g n ps rule: follows.induct) (auto simp: arrives_def split: if_splits)

lemma history_committed:
  assumes "fl_commit (add_history r n status snap res w) = (b, w1)" and "both_fl (trail_is r tr) w"
  shows "if b then both_fl (trail_is r (tr @ [(n, status)])) w1 else trail r (committed (fl_db w1)) = tr"
  using assms
  by (auto simp: both_fl_def trail_is_def trail_def run_history_def commit_cases(1) commit_session_def add_history_def flush_with_def)

lemma both_committed: "both_fl (trail_is r tr) w \<Longrightarrow> trail r (committed (fl_db w)) = tr"
  by (simp add: both_fl_def trail_is_def)

lemma after_trail:
  assumes "after_node env rn r snap st at n res w = (e, w1)" and "both_fl (trail_is r tr) w"
  shows "trail r (committed (fl_db w1)) = tr \<or> (\<exists>s. trail r (committed (fl_db w1)) = tr @ [(n, s)])"
    and "e = Again st1 at1 n1 \<Longrightarrow> \<exists>s. both_fl (trail_is r (tr @ [(n, s)])) w1 \<and> may_follow (rn_flow rn) (n, s) n1"
proof -
  have "(case nr_status res of None \<Rightarrow> w1 = w \<and> (\<exists>x. e = Finish x)
    | Some s \<Rightarrow> trail r (committed (fl_db w1)) = tr \<and> (\<exists>x. e = Finish x) \<or> both_fl (trail_is r (tr @ [(n, s)])) w1)"
    using assms
    by (auto simp: after_node_def split: option.splits prod.splits bool.splits sum.splits status_end.splits
        dest!: history_committed tr.keeps_event tr.keeps_status tr.keeps_advance)
  note * = this
  from * assms(2) show "trail r (committed (fl_db w1)) = tr \<or> (\<exists>s. trail r (committed (fl_db w1)) = tr @ [(n, s)])"
    by (auto split: option.splits dest: both_committed)
  assume e: "e = Again st1 at1 n1"
  from assms(1) [unfolded e] show "\<exists>s. both_fl (trail_is r (tr @ [(n, s)])) w1 \<and> may_follow (rn_flow rn) (n, s) n1"
    by (rule after_again) (use * e in \<open>auto simp: may_follow_def\<close>)
qed

lemma iteration_trail:
  assumes "flow_iteration env rn r st at n w = (e, w1)" and "both_fl (trail_is r tr) w" and "nodes_keep (trail_is r tr) env"
  shows "trail r (committed (fl_db w1)) = tr \<or> (\<exists>s. trail r (committed (fl_db w1)) = tr @ [(n, s)])"
    and "e = Again st1 at1 n1 \<Longrightarrow> \<exists>s. both_fl (trail_is r (tr @ [(n, s)])) w1 \<and> may_follow (rn_flow rn) (n, s) n1"
proof -
  have current: "execute_current_node env rn r st at n v = (y, v1) \<Longrightarrow> both_fl (trail_is r tr) v \<Longrightarrow> both_fl (trail_is r tr) v1" for v y v1
    by (rule tr.keeps_current [OF assms(3)])
  have "both_fl (trail_is r tr) w1 \<and> (\<exists>x. e = Finish x) \<or>
    (\<exists>st2 at2 res w2. after_node env rn r st st2 at2 n res w2 = (e, w1) \<and> both_fl (trail_is r tr) w2)"
    using assms(1,2)
    by (auto simp: flow_iteration_def split: option.splits prod.splits sum.splits dest!: tr.keeps_event dest: current)
  note * = this
  from * show "trail r (committed (fl_db w1)) = tr \<or> (\<exists>s. trail r (committed (fl_db w1)) = tr @ [(n, s)])"
    by (auto dest: both_committed after_trail(1))
  assume "e = Again st1 at1 n1"
  with * show "\<exists>s. both_fl (trail_is r (tr @ [(n, s)])) w1 \<and> may_follow (rn_flow rn) (n, s) n1"
    by (auto dest: after_trail(2))
qed

lemma reaches_trail:
  assumes "flow_reaches env rn r (st, at, n, w) (st1, at1, n1, w1)" and "\<And>tr. nodes_keep (trail_is r tr) env"
    and "both_fl (trail_is r tr) w" and "arrives (rn_flow rn) s tr n"
  shows "\<exists>tr1. both_fl (trail_is r tr1) w1 \<and> arrives (rn_flow rn) s tr1 n1"
  using assms(1,3,4)
proof (induction "(st, at, n, w)" "(st1, at1, n1, w1)" arbitrary: st at n w tr rule: flow_reaches.induct)
  case (onwards st at n w st2 at2 n2 w2)
  obtain t where t: "both_fl (trail_is r (tr @ [(n, t)])) w2" "may_follow (rn_flow rn) (n, t) n2"
    using iteration_trail(2) [OF onwards.hyps(1) onwards.prems(1) assms(2)] by blast
  have "follows (rn_flow rn) s (tr @ [(n, t)])" using follows_snoc [of "rn_flow rn" s tr "(n, t)"] onwards.prems(2) by simp
  then have "arrives (rn_flow rn) s (tr @ [(n, t)]) n2" using t(2) by (simp add: arrives_def)
  with t(1) show ?case by (rule onwards.hyps(3))
qed blast

lemma loop_trail:
  assumes "flow_loop env rn r st at n w = Some (x, w1)" and "\<And>tr. nodes_keep (trail_is r tr) env" and "both_fl (trail_is r []) w"
  shows "follows (rn_flow rn) n (trail r (committed (fl_db w1)))"
proof -
  obtain st2 at2 n2 w2 where reach: "flow_reaches env rn r (st, at, n, w) (st2, at2, n2, w2)"
    and last: "flow_iteration env rn r st2 at2 n2 w2 = (Finish x, w1)"
    using loop_reaches [OF assms(1)] by auto
  obtain tr1 where t: "both_fl (trail_is r tr1) w2" and a: "arrives (rn_flow rn) n tr1 n2"
    using reaches_trail [OF reach assms(2,3)] by (auto simp: arrives_def [of _ _ "[]"])
  have "follows (rn_flow rn) n (tr1 @ [(n2, s)])" for s using follows_snoc [of _ _ _ "(n2, s)"] a by simp
  moreover have "follows (rn_flow rn) n tr1" using a by (simp add: arrives_def)
  ultimately show ?thesis using iteration_trail(1) [OF last t assms(2)] by auto
qed

lemma resume_trail:
  assumes "resume_flow env rn r w = Some (x, w1)" and "\<And>tr. nodes_keep (trail_is r tr) env" and "both_fl (trail_is r []) w"
    and "run_of r w = Some row"
  shows "follows (rn_flow rn) (fw_current_node row) (trail r (committed (fl_db w1)))"
  using assms(1,3,4)
  by (auto simp: resume_flow_def split: option.splits prod.splits sum.splits
      dest!: tr.keeps_claim tr.keeps_enter dest: loop_trail [OF _ assms(2)] both_committed)

lemma edit_keeps_run:
  "both_fl (run_is r Q) w \<Longrightarrow> (\<And>row. Q row \<Longrightarrow> Q (f row)) \<Longrightarrow> both_fl (run_is r Q) (edit_run r f w)"
  by (auto simp: both_fl_def run_is_def edit_run_def flush_with_def update_conv' split: option.splits)

lemma announce_keeps_run:
  assumes "announce_run env r st w = (x, w1)" and "both_fl (run_is r Q) w" and "\<And>row s. Q row \<Longrightarrow> Q (row\<lparr>fw_state := s\<rparr>)"
  shows "both_fl (run_is r Q) w1"
  using assms
  by (auto simp: announce_run_def Let_def split: prod.splits bool.splits sum.splits
      dest!: ri.keeps_commit ri.keeps_event intro!: edit_keeps_run)

lemma initialize_keeps_run:
  assumes "initialize_execution_unit env rn r name w = (Some rn1, w1)" and "both_fl (run_is r Q) w"
  shows "both_fl (run_is r Q) w1" and "rn_flow rn1 = rn_flow rn" and "rn_user_id rn1 = rn_user_id rn"
    and "rn_workflow_type rn1 = rn_workflow_type rn"
  using assms
  by (auto simp: initialize_execution_unit_def Let_def ri.keeps_other split: prod.splits option.splits
      intro!: ri.keeps_work ri.units)

lemma new_row_committed:
  assumes "fl_commit (fl_work (\<lambda>d. d\<lparr>fd_runs := AList.update r row (fd_runs d)\<rparr>) w) = (True, w1)" and "Q row"
  shows "both_fl (run_is r Q) w1"
  using assms by (auto simp: both_fl_def run_is_def commit_cases(1) commit_session_def flush_with_def update_conv')

text \<open>A start raises, or it reaches its resume with a row that is the new one but for its state.\<close>

context flow_rows
begin

lemma start_parts:
  assumes "start_flow env rn name st w = Some y" and "both_fl P w" and "r = fe_fresh_run_id env"
  obtains (raised) e where "y = (Inl e, snd y)" "both_fl P (snd y)"
  | (resumed) rn1 w1 where "both_fl P w1" 
      "resume_flow env rn1 (fe_fresh_run_id env) w1 = Some y" "rn_flow rn1 = rn_flow rn"
      "rn_user_id rn1 = rn_user_id rn" "rn_workflow_type rn1 = rn_workflow_type rn"
      "both_fl (run_is (fe_fresh_run_id env) (\<lambda>row. fw_current_node row = fg_start (rn_flow rn) \<and> fw_status row = ''running'')) w1"
proof -
  let ?r = "fe_fresh_run_id env"
  let ?Q = "\<lambda>row. fw_current_node row = fg_start (rn_flow rn) \<and> fw_status row = ''running''"
  obtain b w1 where c: "fl_commit (fl_work (\<lambda>d. d\<lparr>fd_runs := AList.update ?r (new_flow_row env rn name st) (fd_runs d)\<rparr>) w) = (b, w1)"
    by fastforce
  obtain u w2 where i: "initialize_execution_unit env rn ?r name w1 = (u, w2)" by fastforce
  obtain p w3 where a: "announce_run env ?r st w2 = (p, w3)" by fastforce
  have y: "Some y = (if \<not> b then Some (Inl Commit_raised, w1) else case u of None \<Rightarrow> Some (Inl Unit_creation_failed, w2)
      | Some rn1 \<Rightarrow> (case p of None \<Rightarrow> resume_flow env rn1 ?r w3 | Some e \<Rightarrow> Some (Inl e, w3)))"
    using assms(1) c i a by (simp add: start_flow_def Let_def split: bool.splits option.splits)
  have P1: "both_fl P w1" using keeps_commit [OF c] keeps_new [OF assms(2)] assms(3) by simp
  have P2: "both_fl P w2" using keeps_initialize i P1 assms(3) by blast
  have P3: "both_fl P w3" using keeps_announce a P2 assms(3) by blast
  show thesis
  proof (cases "b \<and> u \<noteq> None \<and> p = None")
    case True
    then obtain rn1 where u: "u = Some rn1" and r: "resume_flow env rn1 ?r w3 = Some y" using y by auto
    have "both_fl (run_is ?r ?Q) w1" by (rule new_row_committed) (use c True in \<open>auto simp: new_flow_row_def\<close>)
    note k = initialize_keeps_run [OF i [unfolded u] this]
    have "both_fl (run_is ?r ?Q) w3" by (rule announce_keeps_run [OF a k(1)]) simp
    from resumed [OF P3 r k(2-4) this] show thesis .
  next
    case False
    then have "\<exists>e. y = (Inl e, snd y) \<and> both_fl P (snd y)" using y P1 P2 P3 by (auto split: option.splits if_splits)
    then show thesis using raised by blast
  qed
qed

end



end
