(* ===== verification/Flow_Plans.thy ===== *)
theory Flow_Plans
  imports Flow_Progress
begin

text \<open>
  Whole runs on a database that accepts every write: a compiled plan executes its steps in order, a
  cycle of successful nodes never ends, and what a run does with the slot of its tenant.
\<close>

section \<open>Iterations when nothing fails\<close>

definition succeeds :: "('e, 't) flow_env \<Rightarrow> string \<Rightarrow> bool" where
  "succeeds env n = (n \<notin> set (fe_blocked_nodes env) \<and>
     (\<exists>f. fe_nodes env n = Some f \<and>
       (\<forall>st a w. \<exists>res st1. f st a w = ((Returns res, st1), w) \<and> nr_status res = Some ''SUCCESS'')))"

definition calm :: "string \<Rightarrow> ('e, 't) flow_world \<Rightarrow> bool" where
  "calm r w = (fl_io w = [] \<and> run_of r w \<noteq> None)"

lemma calm_commit: "fl_io w = [] \<Longrightarrow> fl_commit w = (True, w\<lparr>fl_db := commit_session (fl_db w)\<rparr>)"
  by (simp add: fl_commit_def fl_draw_def)

lemma calm_commit_run: "calm r w \<Longrightarrow> \<exists>w1. fl_commit w = (True, w1) \<and> calm r w1"
  by (simp add: calm_def calm_commit run_of_def commit_session_def)

lemma calm_event: "calm r w \<Longrightarrow> \<exists>w1. flow_event env ty trace w = (Inr True, w1) \<and> calm r w1"
  by (simp add: flow_event_def store_event_def calm_commit calm_def run_of_def commit_session_def flush_with_def fl_work_def)

lemma calm_keeps [simp]:
  "calm r (edit_run r f w) = calm r w" "calm r (add_history r n s snap res w) = calm r w"
  "calm r (w\<lparr>fl_rm := m\<rparr>) = calm r w" "calm r (w\<lparr>fl_ext := e\<rparr>) = calm r w"
  "calm r (release_slot env rn w) = calm r w" "calm r (set_unit_status env rn r s w) = calm r w"
  "calm r (record_resource_usage env rn ms w) = calm r w"
  by (auto simp: calm_def run_of_def edit_run_def add_history_def fl_work_def flush_with_def set_unit_status_def Let_def
      update_conv' split: option.splits)

lemma calm_check:
  assumes "is_testing (fe_rm env)" and "calm r w"
  shows "\<exists>w1. check_resources env rn r st n w = (None, w1) \<and> calm r w1"
  using assms by (simp add: check_resources_def can_execute_def check_quota_def)

lemma calm_node:
  assumes "is_testing (fe_rm env)" and "calm r w" and "succeeds env n"
    and "both_fl (trail_is r tr) w"
  shows "\<exists>res st1 at1 w1. execute_current_node env rn r st at n w = (Inr (res, st1, at1), w1) \<and> calm r w1 \<and>
    nr_status res = Some ''SUCCESS'' \<and> both_fl (trail_is r tr) w1"
proof -
  obtain w1 where w1: "check_resources env rn r st n w = (None, w1)" "calm r w1" using calm_check [OF assms(1,2)] by blast
  have "both_fl (trail_is r tr) w1" by (rule tr.keeps_check [OF w1(1) assms(4)])
  obtain f where f: "fe_nodes env n = Some f" "n \<notin> set (fe_blocked_nodes env)"
    and out: "\<And>st a w. \<exists>res st1. f st a w = ((Returns res, st1), w) \<and> nr_status res = Some ''SUCCESS''"
    using assms(3) unfolding succeeds_def by blast
  obtain res st1 where "f st (attempts_of at n + 1) w1 = ((Returns res, st1), w1)" "nr_status res = Some ''SUCCESS''"
    using out by blast
  with \<open>both_fl (trail_is r tr) w1\<close> show ?thesis
    using w1 f by (simp add: execute_current_node_def execute_node_def enforce_policy_def tr.keeps_other)
qed

text \<open>The first half of an iteration, up to the handling of the status.\<close>

lemma calm_first_half:
  assumes "is_testing (fe_rm env)" and "calm r w" and "succeeds env n" and "both_fl (trail_is r tr) w"
  shows "\<exists>res st1 at1 w1. calm r w1 \<and> both_fl (trail_is r (tr @ [(n, ''SUCCESS'')])) w1 \<and> flow_iteration env rn r st at n w =
    (case handle_node_status env rn r st1 at1 n res ''SUCCESS'' w1 of
       (Retry_node, st2, w2) \<Rightarrow> (Again st2 at1 n, w2)
     | (Respond x, st2, w2) \<Rightarrow> (Finish x, w2)
     | (Go_on, st2, w2) \<Rightarrow> advance_to_next_node env rn r st2 at1 n w2)"
proof -
  obtain w1 where w1: "flow_event env ''flow.node.started'' (Some (run_trace r w)) w = (Inr True, w1)" "calm r w1"
    using calm_event [OF assms(2)] by blast
  obtain res st1 at1 w2 where w2: "execute_current_node env rn r st at n w1 = (Inr (res, st1, at1), w2)" "calm r w2"
    and res: "nr_status res = Some ''SUCCESS''" and t2: "both_fl (trail_is r tr) w2"
    using calm_node [OF assms(1) w1(2) assms(3) tr.keeps_event [OF w1(1) assms(4)]] by blast
  obtain w3 where w3: "fl_commit (add_history r n ''SUCCESS'' st res w2) = (True, w3)" "calm r w3"
    using calm_commit_run [of r "add_history r n ''SUCCESS'' st res w2"] w2(2) by auto
  obtain w4 where w4: "flow_event env (node_event ''SUCCESS'') (Some (run_trace r w3)) w3 = (Inr True, w4)" "calm r w4"
    using calm_event [OF w3(2)] by blast
  have "run_of r w \<noteq> None" "run_of r w2 \<noteq> None" using assms(2) w2(2) by (simp_all add: calm_def)
  then have "flow_iteration env rn r st at n w =
    (case handle_node_status env rn r st1 at1 n res ''SUCCESS'' w4 of
       (Retry_node, st2, w5) \<Rightarrow> (Again st2 at1 n, w5)
     | (Respond x, st2, w5) \<Rightarrow> (Finish x, w5)
     | (Go_on, st2, w5) \<Rightarrow> advance_to_next_node env rn r st2 at1 n w5)"
    by (auto simp: flow_iteration_def after_node_def w1(1) w2(1) w3(1) w4(1) res)
  moreover have "both_fl (trail_is r (tr @ [(n, ''SUCCESS'')])) w4"
    using tr.keeps_event [OF w4(1)] history_committed [OF w3(1) t2] by simp
  ultimately show ?thesis using w4(2) by blast
qed

lemma calm_step:
  assumes "is_testing (fe_rm env)" and "calm r w" and "succeeds env n" and "n \<notin> set (fg_end (rn_flow rn))"
    and "map_of (fg_edges (rn_flow rn)) n = Some (Plain m # es)" and "m \<noteq> []" and "both_fl (trail_is r tr) w"
  shows "\<exists>st1 at1 w1. flow_iteration env rn r st at n w = (Again st1 at1 m, w1) \<and> calm r w1 \<and>
    both_fl (trail_is r (tr @ [(n, ''SUCCESS'')])) w1"
proof -
  obtain res st1 at1 w1 where w1: "calm r w1" and t1: "both_fl (trail_is r (tr @ [(n, ''SUCCESS'')])) w1" and it: "flow_iteration env rn r st at n w =
    (case handle_node_status env rn r st1 at1 n res ''SUCCESS'' w1 of
       (Retry_node, st2, w2) \<Rightarrow> (Again st2 at1 n, w2)
     | (Respond x, st2, w2) \<Rightarrow> (Finish x, w2)
     | (Go_on, st2, w2) \<Rightarrow> advance_to_next_node env rn r st2 at1 n w2)"
    using calm_first_half [OF assms(1-3,7)] by blast
  define st2 where "st2 = state_update (nr_patch res) st1"
  obtain w2 where w2: "fl_commit (edit_run r (\<lambda>row. row\<lparr>fw_current_node := m, fw_state := st2\<rparr>) w1) = (True, w2)" "calm r w2"
    using calm_commit_run [of r "edit_run r (\<lambda>row. row\<lparr>fw_current_node := m, fw_state := st2\<rparr>) w1"] w1 by auto
  have "handle_node_status env rn r st1 at1 n res ''SUCCESS'' w1 = (Go_on, st2, w1)"
    using assms(4) by (simp add: handle_node_status_def finalize_or_go_on_def maybe_finalize_completion_def st2_def Let_def)
  then have "flow_iteration env rn r st at n w = (Again st2 at1 m, w2)"
    using it w2(1) assms(5,6) by (simp add: advance_to_next_node_def resolve_next_node_def truthy_str_def)
  moreover have "both_fl (trail_is r (tr @ [(n, ''SUCCESS'')])) w2" by (rule tr.keeps_commit [OF w2(1) tr.keeps_edit [OF t1]])
  ultimately show ?thesis using w2(2) by blast
qed

section \<open>Cycles\<close>

definition closed_cycle :: "('e, 't) flow_env \<Rightarrow> flow_graph \<Rightarrow> string set \<Rightarrow> bool" where
  "closed_cycle env g C = (\<forall>n\<in>C. succeeds env n \<and> n \<notin> set (fg_end g) \<and>
     (\<exists>m es. m \<in> C \<and> m \<noteq> [] \<and> map_of (fg_edges g) n = Some (Plain m # es)))"

text \<open>
  Nothing but its graph bounds a run: among nodes that succeed, are no end nodes and lead to each
  other the loop goes on for ever. The policy's limit on the duration of a flow is not read.
\<close>

theorem cyclic_flow_never_returns:
  assumes "is_testing (fe_rm env)" and "closed_cycle env (rn_flow rn) C" and "n \<in> C" and "calm r w"
    and "working (fl_db w) = committed (fl_db w)"
  shows "flow_loop env rn r st at n w = None"
proof (rule ccontr)
  assume "flow_loop env rn r st at n w \<noteq> None"
  then obtain x w1 where "flow_loop env rn r st at n w = Some (x, w1)" by auto
  then obtain st2 at2 n2 w2 where reach: "flow_reaches env rn r (st, at, n, w) (st2, at2, n2, w2)"
    and last: "flow_iteration env rn r st2 at2 n2 w2 = (Finish x, w1)"
    using loop_reaches by fastforce
  have step: "\<exists>st1 at1 n1 w1. flow_iteration env rn r st at n w = (Again st1 at1 n1, w1) \<and> n1 \<in> C \<and> calm r w1 \<and>
      (\<exists>tr. both_fl (trail_is r tr) w1)"
    if "n \<in> C" and "calm r w" and "both_fl (trail_is r tr) w" for st at n w tr
    using that(1) assms(2) calm_step [OF assms(1) that(2) _ _ _ _ that(3)] unfolding closed_cycle_def by metis
  have "\<exists>tr. both_fl (trail_is r tr) w" using assms(5) by (simp add: both_fl_def trail_is_def)
  with reach assms(3,4) have "n2 \<in> C \<and> calm r w2 \<and> (\<exists>tr. both_fl (trail_is r tr) w2)"
  proof (induction "(st, at, n, w)" "(st2, at2, n2, w2)" arbitrary: st at n w rule: flow_reaches.induct)
    case (onwards st at n w st1 at1 n1 w1)
    obtain tr where "both_fl (trail_is r tr) w" using onwards.prems(3) by blast
    from step [OF onwards.prems(1,2) this, of st at] onwards.hyps(1)
    have "n1 \<in> C" "calm r w1" "\<exists>tr. both_fl (trail_is r tr) w1" by auto
    then show ?case by (rule onwards.hyps(3))
  qed blast
  then show False using step [of n2 w2 _ st2 at2] last by fastforce
qed

lemma sample_succeeds: "n \<in> {''a'', ''b'', ''c''} \<Longrightarrow> succeeds (sample_flow_env b) n"
  by (auto simp: succeeds_def sample_flow_env_def ok_node_def)

theorem cyclic_flow_never_returns_witness:
  "flow_loop (sample_flow_env True) (new_runner (sample_flow\<lparr>fg_edges := [(''a'', [Plain ''b'']), (''b'', [Plain ''a''])], fg_end := []\<rparr>)
     (Some ''u1'') ''wf'') ''q'' [] [] ''a'' running_flow_world = None"
  by (rule cyclic_flow_never_returns [where C = "{''a'', ''b''}"])
     (simp_all add: closed_cycle_def sample_succeeds new_runner_def sample_flow_def calm_def run_of_def running_flow_world_def
       sample_flow_world_def open_session_def)

section \<open>Plans\<close>

lemma chain_edges_other: "a \<notin> set (butlast steps) \<Longrightarrow> map_of (chain_edges steps es) a = map_of es a"
  by (induction steps es rule: chain_edges.induct) (auto simp: update_conv')

lemma chain_edges_next:
  assumes "distinct (pre @ a # b # post)"
  shows "map_of (chain_edges (pre @ a # b # post) es) a = Some [Plain b]"
  using assms
proof (induction pre arbitrary: es)
  case Nil
  have "a \<notin> set (butlast (b # post))" using Nil in_set_butlastD [of a "b # post"] by auto
  then show ?case by (simp add: chain_edges_other update_conv')
next
  case (Cons p pre)
  then show ?case by (cases pre) simp_all
qed

lemma calm_capture:
  assumes "calm r w"
  shows "\<exists>w1. capture_flow_completion env rn r w = (None, w1) \<and> calm r w1"
proof -
  obtain w1 where "flow_event env ''error.memory_capture'' (Option.bind (run_of r w) fw_trace_id) w = (Inr True, w1)" "calm r w1"
    using calm_event [OF assms] by blast
  then show ?thesis using assms by (simp add: capture_flow_completion_def)
qed

lemma calm_end:
  assumes "is_testing (fe_rm env)" and "calm r w" and "succeeds env n" and "n \<in> set (fg_end (rn_flow rn))"
    and "\<And>st. \<exists>v. extract_execution_result env (rn_workflow_type rn) st = Returns v \<and> extract_async_handoff v = None"
    and "both_fl (trail_is r tr) w"
  shows "\<exists>rsp w1. flow_iteration env rn r st at n w = (Finish (Inr rsp), w1) \<and> rsp_status rsp = ''SUCCESS'' \<and>
    both_fl (trail_is r (tr @ [(n, ''SUCCESS'')])) w1"
proof -
  obtain res st1 at1 w1 where w1: "calm r w1" and t1: "both_fl (trail_is r (tr @ [(n, ''SUCCESS'')])) w1" and it: "flow_iteration env rn r st at n w =
    (case handle_node_status env rn r st1 at1 n res ''SUCCESS'' w1 of
       (Retry_node, st2, w2) \<Rightarrow> (Again st2 at1 n, w2)
     | (Respond x, st2, w2) \<Rightarrow> (Finish x, w2)
     | (Go_on, st2, w2) \<Rightarrow> advance_to_next_node env rn r st2 at1 n w2)"
    using calm_first_half [OF assms(1-3,6)] by blast
  define st2 where "st2 = state_update (nr_patch res) st1"
  obtain v where v: "extract_execution_result env (rn_workflow_type rn) st2 = Returns v" "extract_async_handoff v = None"
    using assms(5) by blast
  obtain w2 where w2: "capture_flow_completion env rn r w1 = (None, w2)" "calm r w2"
    using calm_capture [OF w1] by blast
  obtain w3 where w3: "fl_commit (edit_run r (\<lambda>row. row\<lparr>fw_status := ''success'', fw_state := st2, fw_waiting_for := None,
      fw_wait_deadline := None, fw_completed_at := Some (fe_now env)\<rparr>) w2) = (True, w3)" "calm r w3"
    using calm_commit_run w2(2) calm_keeps(1) by metis
  define w4 where "w4 = w3\<lparr>fl_ext := fe_hook env ''execution.completed'' (fl_ext w3)\<rparr>"
  obtain w5 where w5: "flow_event env ''execution.completed'' (Some (run_trace r w4)) w4 = (Inr True, w5)"
  proof -
    have "calm r w4" using w3(2) by (simp add: w4_def)
    from calm_event [OF this] show thesis using that by blast
  qed
  have "\<exists>rsp. finalize env rn r st2 n w1 = (Some rsp, w5) \<and> rsp_status rsp = ''SUCCESS''"
    using w5 by (simp add: finalize_def v finish_success_def w2(1) w3(1) w4_def run_response_def)
  then obtain rsp where "handle_node_status env rn r st1 at1 n res ''SUCCESS'' w1 = (Respond (Inr rsp), st2, w5)"
    and "rsp_status rsp = ''SUCCESS''"
    using assms(4) by (auto simp: handle_node_status_def finalize_or_go_on_def maybe_finalize_completion_def Let_def st2_def)
  then show ?thesis using it tr.keeps_status [OF _ t1] by auto
qed

lemma plan_suffix:
  assumes "is_testing (fe_rm env)"
    and "\<And>st. \<exists>v. extract_execution_result env (rn_workflow_type rn) st = Returns v \<and> extract_async_handoff v = None"
    and "compile_plan_to_flow (pre @ post) = Inr (rn_flow rn)" and "distinct (pre @ post)" and "post \<noteq> []"
    and "\<And>s. s \<in> set post \<Longrightarrow> s \<noteq> [] \<and> succeeds env s" and "calm r w" and "both_fl (trail_is r tr) w"
  shows "\<exists>rsp w1. flow_loop env rn r st at (hd post) w = Some (Inr rsp, w1) \<and> rsp_status rsp = ''SUCCESS'' \<and>
    both_fl (trail_is r (tr @ map (\<lambda>s. (s, ''SUCCESS'')) post)) w1"
  using assms(3-8)
proof (induction post arbitrary: pre tr st at w)
  case (Cons a post)
  have flow: "fg_end (rn_flow rn) = [last (pre @ a # post)]" "fg_edges (rn_flow rn) = chain_edges (pre @ a # post) []"
    using Cons.prems(1) by (auto simp: compile_plan_to_flow_def split: if_splits dest!: sym [of _ "rn_flow rn"])
  have a: "succeeds env a" using Cons.prems(4) by simp
  show ?case
  proof (cases post)
    case Nil
    obtain rsp w1 where "flow_iteration env rn r st at a w = (Finish (Inr rsp), w1)" "rsp_status rsp = ''SUCCESS''"
      "both_fl (trail_is r (tr @ [(a, ''SUCCESS'')])) w1"
    proof -
      have "a \<in> set (fg_end (rn_flow rn))" using flow(1) Nil by simp
      from calm_end [OF assms(1) Cons.prems(5) a this assms(2) Cons.prems(6)] show thesis using that by blast
    qed
    then show ?thesis using Nil by (simp add: flow_loop.simps)
  next
    case post: (Cons b rest)
    have edge: "map_of (fg_edges (rn_flow rn)) a = Some [Plain b]"
      using chain_edges_next [of pre a b rest "[]"] Cons.prems(2) post flow(2) by simp
    have inner: "a \<notin> set (fg_end (rn_flow rn))"
      using flow(1) Cons.prems(2) post last_in_set [of "b # rest"] by (auto split: if_splits)
    have "b \<noteq> []" using Cons.prems(4) [of b] post by simp
    from calm_step [OF assms(1) Cons.prems(5) a inner edge this Cons.prems(6)]
    obtain st1 at1 w1 where it: "flow_iteration env rn r st at a w = (Again st1 at1 b, w1)" and w1: "calm r w1"
      "both_fl (trail_is r (tr @ [(a, ''SUCCESS'')])) w1" by blast
    have "\<exists>rsp w2. flow_loop env rn r st1 at1 (hd post) w1 = Some (Inr rsp, w2) \<and> rsp_status rsp = ''SUCCESS'' \<and>
        both_fl (trail_is r ((tr @ [(a, ''SUCCESS'')]) @ map (\<lambda>s. (s, ''SUCCESS'')) post)) w2"
      by (rule Cons.IH [of "pre @ [a]", OF _ _ _ _ w1]) (use Cons.prems(1,2,4) post in auto)
    then show ?thesis using it post by (simp add: flow_loop.simps [of env rn r st at a w])
  qed
qed simp

section \<open>Starts\<close>

text \<open>A write of a calm world, keeping the resource manager and the scheduler.\<close>

definition calm_like :: "string \<Rightarrow> ('e, 't) flow_world \<Rightarrow> ('e, 't) flow_world \<Rightarrow> bool" where
  "calm_like r w w1 = (calm r w1 \<and> fl_rm w1 = fl_rm w \<and> fl_sched w1 = fl_sched w)"

lemma like_commit_edit:
  assumes "calm r w"
  shows "\<exists>w1. fl_commit (edit_run r f w) = (True, w1) \<and> calm_like r w w1"
proof -
  obtain w1 where w1: "fl_commit (edit_run r f w) = (True, w1)" "calm r w1"
    using calm_commit_run [of r "edit_run r f w"] assms by auto
  moreover have "fl_rm (edit_run r f w) = fl_rm w" "fl_sched (edit_run r f w) = fl_sched w"
    by (simp_all add: edit_run_def fl_work_def)
  ultimately show ?thesis using commit_cases(2,3) [OF w1(1)] by (simp add: calm_like_def)
qed

lemma like_event: "calm r w \<Longrightarrow> \<exists>w1. flow_event env ty trace w = (Inr True, w1) \<and> calm_like r w w1"
  by (simp add: flow_event_def store_event_def calm_commit calm_def calm_like_def run_of_def commit_session_def flush_with_def fl_work_def)

lemma like_trans: "calm_like r w w1 \<Longrightarrow> calm_like r w1 w2 \<Longrightarrow> calm_like r w w2"
  by (simp add: calm_like_def)

lemma calm_announce:
  assumes "calm r w"
  shows "\<exists>w1. announce_run env r st w = (None, w1) \<and> calm_like r w w1"
proof -
  let ?st = "if has_trace st then st else AList.update ''trace_id'' (PStr (run_trace r w)) st"
  obtain w1 where w1: "fl_commit (edit_run r (\<lambda>x. x\<lparr>fw_state := ?st\<rparr>) w) = (True, w1)" "calm_like r w w1"
    using like_commit_edit [OF assms] by blast
  obtain w2 where w2: "flow_event env ''execution.started'' (Some (run_trace r w1)) w1 = (Inr True, w2)" "calm_like r w1 w2"
    using like_event w1(2) unfolding calm_like_def by blast
  obtain w3 where w3: "fl_commit (edit_run r (\<lambda>x. x\<lparr>fw_state := AList.update ''root_event_id'' (PStr (fe_fresh_event_id env)) ?st\<rparr>) w2) = (True, w3)"
    "calm_like r w2 w3"
    using like_commit_edit w2(2) unfolding calm_like_def by blast
  have "announce_run env r st w = (None, w3)"
    by (simp add: announce_run_def Let_def w1(1) w2(1) w3(1) del: if_split)
  moreover have "calm_like r w w3" using w1(2) w2(2) w3(2) by (blast intro: like_trans)
  ultimately show ?thesis by blast
qed

lemma calm_enter:
  assumes "calm r w"
  shows "\<exists>st w1. enter_run env r row w = (Inr st, w1) \<and> calm_like r w w1"
proof (cases "has_trace (fw_state row)")
  case True
  then show ?thesis using assms by (simp add: enter_run_def calm_like_def)
next
  case False
  let ?t = "or_str (fw_trace_id row) (or_str (fe_ctx_trace_id env) r)"
  obtain w1 where "fl_commit (edit_run r (\<lambda>x. x\<lparr>fw_state := AList.update ''trace_id'' (PStr ?t) (fw_state row),
      fw_trace_id := Some (or_str (fw_trace_id x) ?t)\<rparr>) w) = (True, w1)" "calm_like r w w1"
    using like_commit_edit [OF assms] by blast
  with False show ?thesis by (simp add: enter_run_def Let_def)
qed

lemma calm_resume:
  assumes "calm r w" and "run_of r w = Some row" and "fw_status row \<noteq> ''waiting''" and "both_fl (trail_is r tr) w"
  shows "\<exists>st w1. resume_flow env rn r w = flow_loop env rn r st [] (fw_current_node row) w1 \<and> calm_like r w w1 \<and>
    both_fl (trail_is r tr) w1"
proof -
  obtain st w1 where "enter_run env r row w = (Inr st, w1)" "calm_like r w w1" using calm_enter [OF assms(1)] by blast
  with tr.keeps_enter [OF this(1) assms(4)] show ?thesis using assms(2,3) by (auto simp: resume_flow_def claim_waiting_run_def)
qed

definition started_runner :: "('e, 't) flow_env \<Rightarrow> flow_runner \<Rightarrow> flow_runner" where
  "started_runner env rn = rn\<lparr>rn_eu_id := Some (fe_fresh_unit_id env), rn_tenant_id := Some (or_str (rn_user_id rn) [])\<rparr>"

text \<open>A start on a database that accepts every write enters the loop with its slot counted.\<close>

lemma calm_start:
  assumes "fl_io w = []" and "fe_units_ok env" and "both_fl (trail_is (fe_fresh_run_id env) tr) w"
  shows "\<exists>st1 w1. start_flow env rn name st w =
      flow_loop env (started_runner env rn) (fe_fresh_run_id env) st1 [] (fg_start (rn_flow rn)) w1 \<and>
    calm (fe_fresh_run_id env) w1 \<and> both_fl (trail_is (fe_fresh_run_id env) tr) w1 \<and> fl_sched w1 = fl_sched w \<and>
    fl_rm w1 = mark_started (fe_rm env) (or_str (rn_user_id rn) []) (Some (fe_fresh_unit_id env)) (fl_rm w)"
proof -
  let ?r = "fe_fresh_run_id env"
  let ?Q = "\<lambda>row. fw_current_node row = fg_start (rn_flow rn) \<and> fw_status row = ''running''"
  define w0 where "w0 = fl_work (\<lambda>d. d\<lparr>fd_runs := AList.update ?r (new_flow_row env rn name st) (fd_runs d)\<rparr>) w"
  define w1 where "w1 = w0\<lparr>fl_db := commit_session (fl_db w0)\<rparr>"
  have c: "fl_commit w0 = (True, w1)" using assms(1) by (simp add: calm_commit w1_def w0_def fl_work_def)
  have Q1: "both_fl (run_is ?r ?Q) w1"
    by (rule new_row_committed [OF c [unfolded w0_def]]) (simp add: new_flow_row_def)
  obtain w2 where i: "initialize_execution_unit env rn ?r name w1 = (Some (started_runner env rn), w2)"
    and rm: "fl_rm w2 = mark_started (fe_rm env) (or_str (rn_user_id rn) []) (Some (fe_fresh_unit_id env)) (fl_rm w)"
    and sc: "fl_sched w2 = fl_sched w" and io: "fl_io w2 = []"
    using assms(1,2) by (simp add: initialize_execution_unit_def Let_def eu_create_def started_runner_def w1_def w0_def fl_work_def)
  have Q2: "both_fl (run_is ?r ?Q) w2" by (rule initialize_keeps_run(1) [OF i Q1])
  have c2: "calm ?r w2" using io run_is_seen [OF Q2] by (auto simp: calm_def)
  obtain w3 where a: "announce_run env ?r st w2 = (None, w3)" and l3: "calm_like ?r w2 w3" using calm_announce [OF c2] by blast
  have "both_fl (run_is ?r ?Q) w3" by (rule announce_keeps_run [OF a Q2]) simp
  then obtain row where row: "run_of ?r w3 = Some row" "fw_current_node row = fg_start (rn_flow rn)" "fw_status row = ''running''"
    using run_is_seen by blast
  have t3: "both_fl (trail_is ?r tr) w3"
    using assms(3) c i a by (auto simp: w0_def dest!: tr.keeps_commit tr.keeps_initialize tr.keeps_announce intro: tr.keeps_new)
  have c3: "calm ?r w3" using l3 by (simp add: calm_like_def)
  obtain st4 w4 where "resume_flow env (started_runner env rn) ?r w3 =
      flow_loop env (started_runner env rn) ?r st4 [] (fw_current_node row) w4" "calm_like ?r w3 w4" "both_fl (trail_is ?r tr) w4"
    using calm_resume [OF c3 row(1) _ t3] row(3) by fastforce
  moreover have "start_flow env rn name st w = resume_flow env (started_runner env rn) ?r w3"
    using c i a by (simp add: start_flow_def Let_def w0_def)
  ultimately show ?thesis using row(2) rm sc l3 by (auto simp: calm_like_def)
qed


definition sample_plan_runner :: flow_runner where
  "sample_plan_runner = (case compile_plan_to_flow [''a'', ''b'', ''c''] of Inr g \<Rightarrow> new_runner g (Some ''u1'') ''wf'')"


end
