(* ===== verification/Flow_Slots.thy ===== *)
theory Flow_Slots
  imports Flow_Plans
begin

text \<open>
  The slot of a run. A start counts the run among its tenant's executions before the first admission
  test; the slot is given back by the failure path and by the capture of a completed run's memory. What
  that means: the run that takes the last slot parks itself, a run without a user or a workflow type
  keeps its slot for ever, and a completion that fails half-way gives two slots back.
\<close>

section \<open>What the counters see\<close>

abbreviation actives :: "('e, 't) flow_world \<Rightarrow> (string, int) dict" where
  "actives w \<equiv> active_counts (fl_rm w)"

lemma get_redis_active: "get_redis env rm = (b, rm1) \<Longrightarrow> active_counts rm1 = active_counts rm"
  by (auto simp: get_redis_def Let_def split: if_splits)

lemma can_execute_active: "can_execute env t rm = (x, rm1) \<Longrightarrow> active_counts rm1 = active_counts rm"
  by (auto simp: can_execute_def get_tenant_active_def drop_redis_client_def Let_def dest!: get_redis_active
      split: if_splits prod.splits bool.splits)

lemma check_quota_active: "check_quota env e rm = (x, rm1) \<Longrightarrow> active_counts rm1 = active_counts rm"
  by (auto simp: check_quota_def Let_def dest!: can_execute_active split: if_splits prod.splits option.splits)

lemma backend_write_active [simp]: "active_counts (backend_write env f rm) = active_counts rm"
  by (simp add: backend_write_def split: option.split)

lemma backend_writes_active [simp]: "active_counts ((backend_write env f ^^ n) rm) = active_counts rm"
  by (induction n) simp_all

lemma record_usage_active [simp]: "active_counts (record_usage env e u rm) = active_counts rm"
  by (simp add: record_usage_def record_syscall_def record_memory_def record_cpu_def with_snapshot_def Let_def)

lemma rm_kept [simp]:
  "fl_rm (fl_work f w) = fl_rm w" "fl_rm (edit_run r g w) = fl_rm w" "fl_rm (fl_rollback w) = fl_rm w"
  "fl_rm (add_history r n s snap res w) = fl_rm w" "fl_rm (set_unit_status env rn r s w) = fl_rm w"
  by (simp_all add: fl_work_def edit_run_def fl_rollback_def add_history_def set_unit_status_def)

lemma commit_rm: "fl_commit w = (b, w1) \<Longrightarrow> fl_rm w1 = fl_rm w"
  by (rule commit_cases(2))

lemma event_rm: "flow_event env ty trace w = (x, w1) \<Longrightarrow> fl_rm w1 = fl_rm w"
  by (auto simp: flow_event_def store_event_def split: if_splits prod.splits bool.splits dest!: commit_rm)

lemma park_rm: "park_run env rn r st n ev t w = (b, w1) \<Longrightarrow> fl_rm w1 = fl_rm w"
  by (auto simp: park_run_def split: prod.splits bool.splits sum.splits dest!: commit_rm)

lemma fail_status: "fail_execution env rn r st err n w = (Inr rsp, w1) \<Longrightarrow> rsp_status rsp = ''FAILED''"
  by (auto simp: fail_execution_def Let_def run_response_def split: prod.splits bool.splits sum.splits)

section \<open>Runs that keep their slot\<close>

definition anonymous :: "flow_runner \<Rightarrow> bool" where
  "anonymous rn = (\<not> truthy_str (rn_user_id rn) \<or> \<not> truthy_str (rn_workflow_type rn))"

definition nodes_keep_slots :: "('e, 't) flow_env \<Rightarrow> bool" where
  "nodes_keep_slots env = (\<forall>n f st a w. fe_nodes env n = Some f \<longrightarrow> actives (snd (f st a w)) = actives w)"

lemma finalize_slots:
  assumes "finalize env rn r st n w = (Some rsp, w1)" and "anonymous rn"
  shows "actives w1 = actives w"
  using assms
  by (auto simp: finalize_def finish_handoff_def finish_success_def capture_flow_completion_def anonymous_def Let_def
      split: outcome.splits option.splits prod.splits bool.splits sum.splits if_splits dest!: commit_rm event_rm)

lemma completion_slots:
  assumes "maybe_finalize_completion env rn r st n w = (x, w1)" and "anonymous rn"
  shows "x = None \<Longrightarrow> actives w1 = actives w"
    and "x = Some (Inr rsp) \<Longrightarrow> rsp_status rsp \<noteq> ''FAILED'' \<Longrightarrow> actives w1 = actives w"
  using assms
  by (auto simp: maybe_finalize_completion_def split: if_splits prod.splits option.splits dest: finalize_slots fail_status)

lemma check_slots:
  assumes "check_resources env rn r st n w = (x, w1)"
  shows "x = None \<Longrightarrow> actives w1 = actives w"
    and "x = Some (Inr rsp) \<Longrightarrow> rsp_status rsp \<noteq> ''FAILED'' \<Longrightarrow> actives w1 = actives w"
  using assms
  by (auto simp: check_resources_def split: prod.splits option.splits bool.splits
      dest: fail_status dest!: can_execute_active check_quota_active park_rm)

lemma current_slots:
  assumes "execute_current_node env rn r st at n w = (x, w1)" and "nodes_keep_slots env"
  shows "x = Inr y \<Longrightarrow> actives w1 = actives w"
    and "x = Inl (Inr rsp) \<Longrightarrow> rsp_status rsp \<noteq> ''FAILED'' \<Longrightarrow> actives w1 = actives w"
proof -
  have node: "execute_node env n st at v = (e, st1, at1, v1) \<Longrightarrow> actives v1 = actives v" for v e st1 at1 v1
    using assms(2) by (auto simp: execute_node_def nodes_keep_slots_def Let_def split: option.splits prod.splits) (metis snd_conv)
  show "x = Inr y \<Longrightarrow> actives w1 = actives w"
    using assms(1)
    by (auto simp: execute_current_node_def record_resource_usage_def split: prod.splits option.splits node_end.splits sum.splits
        dest!: node dest: check_slots)
  show "x = Inl (Inr rsp) \<Longrightarrow> rsp_status rsp \<noteq> ''FAILED'' \<Longrightarrow> actives w1 = actives w"
    using assms(1)
    by (auto simp: execute_current_node_def split: prod.splits option.splits node_end.splits sum.splits
        dest: check_slots fail_status)
qed

definition slot_kept :: "loop_end \<Rightarrow> bool" where
  "slot_kept e = (case e of Again _ _ _ \<Rightarrow> True | Finish (Inr rsp) \<Rightarrow> rsp_status rsp \<noteq> ''FAILED'' | Finish (Inl _) \<Rightarrow> False)"

lemma respond_slots:
  assumes "handle_node_status env rn r st at n res status w = (Respond x, st1, w1)" and "anonymous rn" and "slot_kept (Finish x)"
  shows "actives w1 = actives w"
  using assms
  by (auto simp: handle_node_status_def Let_def finalize_or_go_on_def fail_with_def wait_on_event_def slot_kept_def
      split: if_splits prod.splits option.splits bool.splits sum.splits
      dest: completion_slots fail_status dest!: park_rm event_rm)

lemma fail_not_kept: "fail_execution env rn r st err n w = (x, w1) \<Longrightarrow> \<not> slot_kept (Finish x)"
  by (cases x) (auto simp: slot_kept_def dest: fail_status)

lemma advance_slots:
  assumes "advance_to_next_node env rn r st at n w = (e, w1)" and "slot_kept e"
  shows "actives w1 = actives w"
  using assms
  by (auto simp: advance_to_next_node_def slot_kept_def [of "Finish (Inl _)"]
      split: sum.splits if_splits prod.splits bool.splits dest: fail_not_kept dest!: commit_rm)

lemma after_slots:
  assumes "after_node env rn r snap st at n res w = (e, w1)" and "anonymous rn" and "slot_kept e"
  shows "actives w1 = actives w"
proof (cases "nr_status res")
  case None
  then show ?thesis using assms(1,3) by (auto simp: after_node_def)
next
  case (Some status)
  obtain b w2 where w2: "fl_commit (add_history r n status snap res w) = (b, w2)" by fastforce
  obtain y w3 where w3: "flow_event env (node_event status) (Some (run_trace r w2)) w2 = (y, w3)" by fastforce
  obtain e4 st4 w4 where w4: "handle_node_status env rn r st at n res status w3 = (e4, st4, w4)" using prod_cases3 by blast
  have rm: "fl_rm w3 = fl_rm w" using commit_rm [OF w2] event_rm [OF w3] by simp
  have "b" "\<exists>v. y = Inr v" using assms(1,3) Some w2 w3 by (auto simp: after_node_def slot_kept_def split: sum.splits bool.splits)
  then have e: "(e, w1) = (case e4 of Retry_node \<Rightarrow> (Again st4 at n, w4) | Respond x \<Rightarrow> (Finish x, w4)
      | Go_on \<Rightarrow> advance_to_next_node env rn r st4 at n w4)"
    using assms(1) Some w2 w3 w4 by (auto simp: after_node_def split: status_end.splits)
  show ?thesis
  proof (cases e4)
    case Retry_node
    then show ?thesis using e rm status_goes_on(1) [OF w4] by simp
  next
    case (Respond x)
    then show ?thesis using e rm respond_slots [OF w4 [unfolded Respond] assms(2)] assms(3) by simp
  next
    case Go_on
    then show ?thesis using e rm status_goes_on(2) [OF w4] advance_slots [of env rn r st4 at n w4 e w1] assms(3) by simp
  qed
qed

lemma iteration_slots:
  assumes "flow_iteration env rn r st at n w = (e, w1)" and "anonymous rn" and "nodes_keep_slots env" and "slot_kept e"
  shows "actives w1 = actives w"
proof (cases "run_of r w")
  case None
  then show ?thesis using assms(1) by (auto simp: flow_iteration_def)
next
  case (Some row)
  obtain y w2 where w2: "flow_event env ''flow.node.started'' (Some (run_trace r w)) w = (y, w2)" by fastforce
  obtain z w3 where w3: "execute_current_node env rn r st at n w2 = (z, w3)" by fastforce
  have rm: "fl_rm w2 = fl_rm w" by (rule event_rm [OF w2])
  have "\<exists>v. y = Inr v" using assms(1,4) Some w2 by (auto simp: flow_iteration_def slot_kept_def split: sum.splits)
  then have e: "(e, w1) = (case z of Inl x \<Rightarrow> (Finish x, w3)
      | Inr (res, st1, at1) \<Rightarrow> (case run_of r w3 of None \<Rightarrow> (Finish (Inr (bare_response ''FAILED'' r Run_disappeared)), w3)
          | Some _ \<Rightarrow> after_node env rn r st st1 at1 n res w3))"
    using assms(1) Some w2 w3 by (auto simp: flow_iteration_def split: sum.splits)
  show ?thesis
  proof (cases z)
    case (Inl x)
    then obtain rsp where "x = Inr rsp" "rsp_status rsp \<noteq> ''FAILED''"
      using e assms(4) by (auto simp: slot_kept_def split: sum.splits)
    then show ?thesis using e rm Inl current_slots(2) [OF w3 assms(3)] by simp
  next
    case (Inr v)
    have "actives w3 = actives w" using current_slots(1) [OF w3 assms(3) Inr] rm by simp
    moreover obtain res st1 at1 where "v = (res, st1, at1)" by (metis prod_cases3)
    ultimately show ?thesis
      using e Inr after_slots [OF _ assms(2,4), of env r st st1 at1 n res w3 w1] by (cases "run_of r w3") auto
  qed
qed

lemma loop_slots:
  assumes "flow_loop env rn r st at n w = Some (Inr rsp, w1)" and "anonymous rn" and "nodes_keep_slots env"
    and "rsp_status rsp \<noteq> ''FAILED''"
  shows "actives w1 = actives w"
proof -
  obtain st2 at2 n2 w2 where reach: "flow_reaches env rn r (st, at, n, w) (st2, at2, n2, w2)"
    and last: "flow_iteration env rn r st2 at2 n2 w2 = (Finish (Inr rsp), w1)"
    using loop_reaches [OF assms(1)] by auto
  from reach have "actives w2 = actives w"
  proof (induction "(st, at, n, w)" "(st2, at2, n2, w2)" arbitrary: st at n w rule: flow_reaches.induct)
    case (onwards st at n w st1 at1 n1 w1)
    then show ?case using iteration_slots [OF onwards.hyps(1) assms(2,3)] by (simp add: slot_kept_def)
  qed simp
  then show ?thesis using iteration_slots [OF last assms(2,3)] assms(4) by (simp add: slot_kept_def)
qed

text \<open>
  A run without a user or a workflow type never gives its slot back unless it fails: when it has
  answered, with success or otherwise, its tenant counts one execution more than before it started.
\<close>

theorem anonymous_run_keeps_slot:
  assumes "start_flow env rn name st w = Some (Inr rsp, w1)" and "anonymous rn" and "nodes_keep_slots env"
    and "rsp_status rsp \<noteq> ''FAILED''" and "fl_io w = []" and "fe_units_ok env"
    and "working (fl_db w) = committed (fl_db w)" and "\<not> redis_url (fe_rm env)" and "\<not> redis_client (fl_rm w)"
  shows "local_active (fl_rm w1) (or_str (rn_user_id rn) []) = local_active (fl_rm w) (or_str (rn_user_id rn) []) + 1"
proof -
  have "both_fl (trail_is (fe_fresh_run_id env) (trail (fe_fresh_run_id env) (committed (fl_db w)))) w"
    using assms(7) by (simp add: both_fl_def trail_is_def)
  from calm_start [OF assms(5,6) this] obtain st2 w2 where
    start: "start_flow env rn name st w = flow_loop env (started_runner env rn) (fe_fresh_run_id env) st2 [] (fg_start (rn_flow rn)) w2"
    and rm: "fl_rm w2 = mark_started (fe_rm env) (or_str (rn_user_id rn) []) (Some (fe_fresh_unit_id env)) (fl_rm w)"
    by blast
  have "anonymous (started_runner env rn)" using assms(2) by (simp add: anonymous_def started_runner_def)
  from loop_slots [OF assms(1) [unfolded start] this assms(3,4)]
  have "local_active (fl_rm w1) t = local_active (fl_rm w2) t" for t by (rule local_active_cong)
  then show ?thesis using assms(8,9) by (simp add: rm local_active_def count_start_local local_increment_def)
qed

theorem anonymous_run_keeps_slot_witness:
  "\<exists>w1. local_active (fl_rm w1) [] = 1 \<and>
     map_option snd (start_flow (sample_flow_env True) (sample_runner\<lparr>rn_user_id := None\<rparr>) ''f'' [] (sample_flow_world [])) = Some w1"
proof -
  have "map_option (\<lambda>(x, w). case x of Inl _ \<Rightarrow> [] | Inr rsp \<Rightarrow> rsp_status rsp)
      (start_flow (sample_flow_env True) (sample_runner\<lparr>rn_user_id := None\<rparr>) ''f'' [] (sample_flow_world [])) = Some ''SUCCESS''"
    by code_simp
  then obtain x w1 where "start_flow (sample_flow_env True) (sample_runner\<lparr>rn_user_id := None\<rparr>) ''f'' [] (sample_flow_world []) = Some (x, w1)"
    and "(case x of Inl _ \<Rightarrow> [] | Inr rsp \<Rightarrow> rsp_status rsp) = ''SUCCESS''" by auto
  then obtain rsp where
    start: "start_flow (sample_flow_env True) (sample_runner\<lparr>rn_user_id := None\<rparr>) ''f'' [] (sample_flow_world []) = Some (Inr rsp, w1)"
    and "rsp_status rsp = ''SUCCESS''" by (cases x) simp_all
  then have "local_active (fl_rm w1) [] = local_active (fl_rm (sample_flow_world [])) [] + 1"
    using anonymous_run_keeps_slot [OF start]
    by (simp add: anonymous_def truthy_str_def or_str_def nodes_keep_slots_def sample_flow_env_def ok_node_def sample_flow_world_def
        open_session_def new_resource_manager_def)
  then show ?thesis using start by (simp add: sample_flow_world_def new_resource_manager_def local_active_def counter_def)
qed

section \<open>The last slot\<close>

lemma full_check:
  assumes "calm r w" and "\<not> redis_url (fe_rm env)" and "\<not> is_testing (fe_rm env)" and "\<not> redis_client (fl_rm w)"
    and "max_concurrent (fl_rm w) \<le> local_active (fl_rm w) (runner_tenant rn)"
  shows "\<exists>rsp w1. check_resources env rn r st n w = (Some (Inr rsp), w1) \<and> rsp_status rsp = ''WAITING'' \<and>
    actives w1 = actives w"
proof -
  obtain reason rm where rm: "can_execute (fe_rm env) (runner_tenant rn) (fl_rm w) = (Some reason, rm)"
    using can_execute_local [of "(fe_rm env, None)" "fl_rm w" "runner_tenant rn"] assms(2-5) by (simp add: local_env_def Let_def)
  obtain b w1 where park: "park_run env rn r st n ''resource_available'' (runner_tenant rn) (w\<lparr>fl_rm := rm\<rparr>) = (b, w1)" by fastforce
  have b using park like_commit_edit [of r "w\<lparr>fl_rm := rm\<rparr>"] assms(1)
    by (auto simp: park_run_def calm_commit calm_def edit_run_def fl_work_def)
  moreover have "actives w1 = actives w" using park_rm [OF park] can_execute_active [OF rm] by simp
  ultimately show ?thesis using rm park by (simp add: check_resources_def run_response_def)
qed

text \<open>
  C33. The run that takes its tenant's last slot does not run: the start has counted it before the
  admission test, so it parks itself until a slot is free while it holds one, and executes no node. A
  limit of \<open>k\<close> admits \<open>k - 1\<close> running flows, and \<open>k\<close> flows that start together all wait for each other.
\<close>

theorem last_slot_parks:
  assumes "fl_io w = []" and "fe_units_ok env" and "working (fl_db w) = committed (fl_db w)"
    and "\<not> redis_url (fe_rm env)" and "\<not> is_testing (fe_rm env)" and "\<not> redis_client (fl_rm w)"
    and "max_concurrent (fl_rm w) \<le> local_active (fl_rm w) (or_str (rn_user_id rn) []) + 1"
    and "trail (fe_fresh_run_id env) (committed (fl_db w)) = []"
  shows "\<exists>rsp w1. start_flow env rn name st w = Some (Inr rsp, w1) \<and> rsp_status rsp = ''WAITING'' \<and>
    trail (fe_fresh_run_id env) (committed (fl_db w1)) = [] \<and>
    local_active (fl_rm w1) (or_str (rn_user_id rn) []) = local_active (fl_rm w) (or_str (rn_user_id rn) []) + 1"
proof -
  let ?r = "fe_fresh_run_id env" and ?t = "or_str (rn_user_id rn) []" and ?rn = "started_runner env rn"
  have "both_fl (trail_is ?r []) w" using assms(3,8) by (simp add: both_fl_def trail_is_def)
  from calm_start [OF assms(1,2) this] obtain st1 w1 where
    start: "start_flow env rn name st w = flow_loop env ?rn ?r st1 [] (fg_start (rn_flow rn)) w1"
    and w1: "calm ?r w1" "both_fl (trail_is ?r []) w1"
    and rm: "fl_rm w1 = mark_started (fe_rm env) ?t (Some (fe_fresh_unit_id env)) (fl_rm w)"
    by blast
  have active: "local_active (fl_rm w1) ?t = local_active (fl_rm w) ?t + 1" "\<not> redis_client (fl_rm w1)"
    "max_concurrent (fl_rm w1) = max_concurrent (fl_rm w)"
    using assms(4,6) by (simp_all add: rm local_active_def count_start_local local_increment_def mark_started_limit)
  obtain w2 where w2: "flow_event env ''flow.node.started'' (Some (run_trace ?r w1)) w1 = (Inr True, w2)" "calm_like ?r w1 w2"
    using like_event [OF w1(1)] by blast
  have rm2: "fl_rm w2 = fl_rm w1" and c2: "calm ?r w2" using w2(2) by (simp_all add: calm_like_def)
  have t: "runner_tenant ?rn = ?t" by (simp add: runner_tenant_def started_runner_def)
  obtain rsp w3 where w3: "check_resources env ?rn ?r st1 (fg_start (rn_flow rn)) w2 = (Some (Inr rsp), w3)"
    "rsp_status rsp = ''WAITING''" "actives w3 = actives w2"
  proof -
    have "\<not> redis_client (fl_rm w2)" "max_concurrent (fl_rm w2) \<le> local_active (fl_rm w2) (runner_tenant ?rn)"
      using active rm2 t assms(7) by simp_all
    from full_check [OF c2 assms(4,5) this] show thesis using that by blast
  qed
  have "flow_loop env ?rn ?r st1 [] (fg_start (rn_flow rn)) w1 = Some (Inr rsp, w3)"
    using w1(1) by (auto simp: flow_loop.simps flow_iteration_def calm_def execute_current_node_def w2(1) w3(1))
  moreover have "trail ?r (committed (fl_db w3)) = []"
    using both_committed [OF tr.keeps_check [OF w3(1) tr.keeps_event [OF w2(1) w1(2)]]] .
  moreover have "local_active (fl_rm w3) ?t = local_active (fl_rm w) ?t + 1"
    using local_active_cong [OF w3(3)] rm2 active(1) by simp
  ultimately show ?thesis using start w3(2) by auto
qed

theorem last_slot_parks_witness:
  "\<exists>rsp w1. start_flow (sample_flow_env False) sample_runner ''f'' [] (busy_flow_world [] 4) = Some (Inr rsp, w1) \<and>
     rsp_status rsp = ''WAITING'' \<and> trail ''r'' (committed (fl_db w1)) = [] \<and> local_active (fl_rm w1) ''u1'' = 5"
proof -
  have defs: "or_str (rn_user_id sample_runner) [] = ''u1''"
    "local_active (fl_rm (busy_flow_world [] 4)) ''u1'' = 4"
    by (simp_all add: sample_runner_def new_runner_def or_str_def busy_flow_world_def local_active_def counter_def)
  have "\<exists>rsp w1. start_flow (sample_flow_env False) sample_runner ''f'' [] (busy_flow_world [] 4) = Some (Inr rsp, w1) \<and>
     rsp_status rsp = ''WAITING'' \<and> trail (fe_fresh_run_id (sample_flow_env False)) (committed (fl_db w1)) = [] \<and>
     local_active (fl_rm w1) (or_str (rn_user_id sample_runner) []) =
       local_active (fl_rm (busy_flow_world [] 4)) (or_str (rn_user_id sample_runner) []) + 1"
    by (rule last_slot_parks)
       (simp_all add: defs, simp_all add: busy_flow_world_def sample_flow_world_def open_session_def
         new_resource_manager_def sample_flow_db_def trail_def run_history_def)
  then show ?thesis by (simp add: defs)
qed

section \<open>Two releases\<close>

lemma release_local:
  assumes "\<not> redis_url (fe_rm env)" and "\<not> redis_client (fl_rm w)" and "0 \<le> local_active (fl_rm w) (runner_tenant rn)"
  shows "local_active (fl_rm (release_slot env rn w)) (runner_tenant rn) = max 0 (local_active (fl_rm w) (runner_tenant rn) - 1)"
    and "\<not> redis_client (fl_rm (release_slot env rn w))"
  using assms
  by (auto simp: release_slot_def count_completion_local local_decrement_def local_active_def mark_completed_def Let_def split: prod.splits)

lemma run_kept:
  "run_of r (set_unit_status env rn r s w) = run_of r w" "run_of r (release_slot env rn w) = run_of r w"
  "(run_of r (edit_run r f w) = None) = (run_of r w = None)" "run_of r (w\<lparr>fl_io := io\<rparr>) = run_of r w"
  by (auto simp: run_of_def set_unit_status_def edit_run_def flush_with_def Let_def update_conv' split: option.splits)

lemma calm_fail:
  assumes "calm r w" and "\<not> redis_url (fe_rm env)" and "\<not> redis_client (fl_rm w)" and "0 \<le> local_active (fl_rm w) (runner_tenant rn)"
  shows "\<exists>rsp w1. fail_execution env rn r st err n w = (Inr rsp, w1) \<and> rsp_status rsp = ''FAILED'' \<and>
    local_active (fl_rm w1) (runner_tenant rn) = max 0 (local_active (fl_rm w) (runner_tenant rn) - 1)"
proof -
  obtain w1 where w1: "fl_commit (edit_run r (\<lambda>row. row\<lparr>fw_status := ''failed'', fw_waiting_for := None, fw_wait_deadline := None,
      fw_error_message := Some err, fw_error_detail := None, fw_completed_at := Some (fe_now env)\<rparr>) w) = (True, w1)" "calm_like r w w1"
    using like_commit_edit [OF assms(1)] by blast
  define w2 where "w2 = release_slot env rn (set_unit_status env rn r ''failed'' w1)"
  define w3 where "w3 = w2\<lparr>fl_ext := fe_hook env ''execution.failed'' (fl_ext w2)\<rparr>"
  have "calm r w3" using w1(2) by (simp add: w3_def w2_def calm_like_def)
  then obtain w4 where w4: "flow_event env ''execution.failed'' (Some (run_trace r w3)) w3 = (Inr True, w4)" "calm_like r w3 w4"
    using like_event by blast
  then obtain w5 where w5: "flow_event env ''error.execution'' (Some (run_trace r w4)) w4 = (Inr True, w5)" "calm_like r w4 w5"
    using like_event unfolding calm_like_def by blast
  have "fl_rm w1 = fl_rm w" using w1(2) by (simp add: calm_like_def)
  then have "local_active (fl_rm w2) (runner_tenant rn) = max 0 (local_active (fl_rm w) (runner_tenant rn) - 1)"
    using release_local(1) [of env "set_unit_status env rn r ''failed'' w1" rn] assms(2-4) by (simp add: w2_def)
  moreover have "fl_rm w5 = fl_rm w2" using w4(2) w5(2) by (simp add: calm_like_def w3_def)
  ultimately show ?thesis using w4(1) w5(1) by (simp add: fail_execution_def Let_def w1(1) w2_def w3_def run_response_def)
qed

text \<open>
  A completion that loses its last write gives back two slots: the capture has released one when the
  commit of the success raises, and the failure path that follows releases another, so a slot that a
  different run of the tenant holds is free for admission.
\<close>

theorem failed_completion_releases_twice:
  assumes "n \<in> set (fg_end (rn_flow rn))" and "extract_execution_result env (rn_workflow_type rn) st = Returns v"
    and "extract_async_handoff v = None" and "\<not> anonymous rn" and "fe_capture_ok env" and "serialize_flow_events r w \<noteq> []"
    and "fl_io w = [False]" and "run_of r w \<noteq> None" and "\<not> redis_url (fe_rm env)" and "\<not> redis_client (fl_rm w)"
    and "2 \<le> local_active (fl_rm w) (runner_tenant rn)"
  shows "\<exists>rsp w1. maybe_finalize_completion env rn r st n w = (Some (Inr rsp), w1) \<and> rsp_status rsp = ''FAILED'' \<and>
    local_active (fl_rm w1) (runner_tenant rn) = local_active (fl_rm w) (runner_tenant rn) - 2"
proof -
  define w1 where "w1 = release_slot env rn (set_unit_status env rn r ''completed'' w)"
  define w2 where "w2 = edit_run r (\<lambda>row. row\<lparr>fw_status := ''success'', fw_state := st, fw_waiting_for := None,
      fw_wait_deadline := None, fw_completed_at := Some (fe_now env)\<rparr>) w1"
  define w3 where "w3 = w2\<lparr>fl_io := []\<rparr>"
  have capture: "capture_flow_completion env rn r w = (None, w1)"
    using assms(4-6) by (simp add: capture_flow_completion_def anonymous_def w1_def)
  have "fl_io w2 = [False]" using assms(7) by (simp add: w2_def w1_def edit_run_def fl_work_def set_unit_status_def)
  then have "fl_commit w2 = (False, w3)" by (simp add: fl_commit_def fl_draw_def w3_def)
  then have fin: "finalize env rn r st n w = (None, w3)"
    by (simp add: finalize_def assms(2,3) finish_success_def capture w2_def)
  have calm: "calm r w3" using assms(8) by (simp add: calm_def w3_def w2_def w1_def run_kept)
  have one: "local_active (fl_rm w3) (runner_tenant rn) = local_active (fl_rm w) (runner_tenant rn) - 1"
    "\<not> redis_client (fl_rm w3)"
    using release_local [of env "set_unit_status env rn r ''completed'' w" rn] assms(9-11) by (simp_all add: w3_def w2_def w1_def)
  have "0 \<le> local_active (fl_rm w3) (runner_tenant rn)" using one(1) assms(11) by simp
  from calm_fail [OF calm assms(9) one(2) this]
  obtain rsp w4 where "fail_execution env rn r st Finalization_failed n w3 = (Inr rsp, w4)" "rsp_status rsp = ''FAILED''"
    "local_active (fl_rm w4) (runner_tenant rn) = max 0 (local_active (fl_rm w3) (runner_tenant rn) - 1)" by blast
  then show ?thesis using assms(1,11) fin one(1) by (simp add: maybe_finalize_completion_def)
qed

theorem failed_completion_releases_twice_witness:
  "\<exists>rsp w1. maybe_finalize_completion (sample_flow_env False) sample_runner ''q'' [] ''b'' (busy_flow_world [False] 2) = (Some (Inr rsp), w1) \<and>
     rsp_status rsp = ''FAILED'' \<and> local_active (fl_rm w1) ''u1'' = 0"
proof -
  have defs: "runner_tenant sample_runner = ''u1''" "local_active (fl_rm (busy_flow_world [False] 2)) ''u1'' = 2"
    by (simp_all add: sample_runner_def new_runner_def runner_tenant_def or_str_def busy_flow_world_def local_active_def counter_def)
  have "\<exists>rsp w1. maybe_finalize_completion (sample_flow_env False) sample_runner ''q'' [] ''b'' (busy_flow_world [False] 2) = (Some (Inr rsp), w1) \<and>
     rsp_status rsp = ''FAILED'' \<and> local_active (fl_rm w1) (runner_tenant sample_runner) =
       local_active (fl_rm (busy_flow_world [False] 2)) (runner_tenant sample_runner) - 2"
    by (rule failed_completion_releases_twice [where v = "PInt 1"])
       (simp_all add: defs, simp_all add: sample_runner_def new_runner_def sample_flow_def extract_async_handoff_def is_dict_def anonymous_def truthy_str_def serialize_flow_events_def busy_flow_world_def
         sample_flow_world_def open_session_def sample_flow_db_def run_of_def new_resource_manager_def)
  then show ?thesis by (simp add: defs)
qed

end
