(* ===== verification/Capability_Registry.thy ===== *)
theory Capability_Registry
  imports Prelude "HOL-Library.List_Lexorder" "HOL-Library.Char_ord"
begin

text \<open>
  What applications register for agents: the tools of \<^verbatim>\<open>AINDY/agents/tool_registry.py\<close> and, in
  \<^verbatim>\<open>AINDY/platform_layer/registry.py\<close>, the capability definitions, the capabilities of tools and
  agents and the restricted tools, with the contracts of \<^verbatim>\<open>registry_contracts.py\<close> that guard them, the
  providers that deliver them in bundles, and the bundle of \<^verbatim>\<open>runtime_agent_defaults.py\<close>.

  Every lookup applies all providers again. \<open>provider_loading_idempotent\<close> shows that this changes
  nothing after the first time, so that a lookup can be read on the loaded registry. Of a definition's
  metadata only the two keys that are read are kept.
\<close>

section \<open>Sorted sets of texts\<close>

text \<open>Python's \<open>sorted\<close> of a set of texts.\<close>

definition sorted_set :: "string list \<Rightarrow> string list" where
  "sorted_set xs = sort (remdups xs)"

lemma set_sorted_set [simp]: "set (sorted_set xs) = set xs"
  by (simp add: sorted_set_def)

lemma distinct_sorted_set [simp]: "distinct (sorted_set xs)"
  by (simp add: sorted_set_def)

lemma sorted_sorted_set [simp]: "sorted (sorted_set xs)"
  by (simp add: sorted_set_def)

lemma sorted_set_canonical: "set xs = set ys \<Longrightarrow> sorted_set xs = sorted_set ys"
  by (rule sorted_distinct_set_unique) simp_all

lemma sorted_set_stable [simp]: "sorted xs \<Longrightarrow> distinct xs \<Longrightarrow> sorted_set xs = xs"
  by (simp add: sorted_set_def distinct_remdups_id sorted_sort_id)

lemma sorted_set_empty [simp]: "sorted_set xs = [] \<longleftrightarrow> xs = []"
proof -
  have "sorted_set xs = [] \<longleftrightarrow> set (sorted_set xs) = {}"
    by (simp only: set_empty)
  thus ?thesis
    by simp
qed

lemma sorted_set_empty' [simp]: "[] = sorted_set xs \<longleftrightarrow> xs = []"
  by (metis sorted_set_empty)

section \<open>Contracts\<close>

definition texts_of :: "pyval list \<Rightarrow> string list" where
  "texts_of vs = concat (map (\<lambda>v. case v of PStr s \<Rightarrow> [s] | _ \<Rightarrow> []) vs)"

definition non_empty_text :: "pyval \<Rightarrow> bool" where
  "non_empty_text v = (case v of PStr s \<Rightarrow> py_strip s \<noteq> [] | _ \<Rightarrow> False)"

definition RISK_LEVELS :: "string list" where
  "RISK_LEVELS = [''low'', ''medium'', ''high'']"

record cap_meta =
  cm_description :: string
  cm_risk_level :: string

definition validate_capability_definition :: "string \<Rightarrow> pyval \<Rightarrow> cap_meta option" where
  "validate_capability_definition name meta =
     (if py_strip name = [] then None
      else
        case meta of
          PDict d \<Rightarrow>
            (case (map_of d ''description'', map_of d ''risk_level'') of
               (Some (PStr description), Some (PStr risk)) \<Rightarrow>
                 if py_strip description \<noteq> [] \<and> risk \<in> set RISK_LEVELS
                 then Some \<lparr>cm_description = description, cm_risk_level = risk\<rparr>
                 else None
             | _ \<Rightarrow> None)
        | _ \<Rightarrow> None)"

definition validate_capability_names :: "pyval \<Rightarrow> string list option" where
  "validate_capability_names v =
     (case v of
        PList names \<Rightarrow> if names \<noteq> [] \<and> list_all non_empty_text names then Some (texts_of names) else None
      | _ \<Rightarrow> None)"

definition validate_restricted_tool :: "pyval \<Rightarrow> string option" where
  "validate_restricted_tool v = (case v of PStr s \<Rightarrow> if py_strip s \<noteq> [] then Some s else None | _ \<Rightarrow> None)"

section \<open>Registration\<close>

record cap_registry =
  cr_definitions :: "(string, cap_meta) dict"
  cr_tool_capabilities :: "(string, string list) dict"
  cr_agent_capabilities :: "(string, string list) dict"
  cr_restricted_tools :: "string list"

definition empty_cap_registry :: cap_registry where
  "empty_cap_registry =
     \<lparr>cr_definitions = [], cr_tool_capabilities = [], cr_agent_capabilities = [], cr_restricted_tools = []\<rparr>"

text \<open>A registration that its contract rejects raises: \<open>None\<close>.\<close>

definition register_capability_definition :: "string \<Rightarrow> pyval \<Rightarrow> cap_registry \<Rightarrow> cap_registry option" where
  "register_capability_definition name meta r =
     (case validate_capability_definition name meta of
        None \<Rightarrow> None
      | Some m \<Rightarrow> Some (r\<lparr>cr_definitions := AList.update name m (cr_definitions r)\<rparr>))"

definition register_tool_capabilities :: "string \<Rightarrow> pyval \<Rightarrow> cap_registry \<Rightarrow> cap_registry option" where
  "register_tool_capabilities tool names r =
     (case validate_capability_names names of
        None \<Rightarrow> None
      | Some ns \<Rightarrow> Some (r\<lparr>cr_tool_capabilities := AList.update tool (sorted_set ns) (cr_tool_capabilities r)\<rparr>))"

definition register_agent_capabilities :: "string \<Rightarrow> pyval \<Rightarrow> cap_registry \<Rightarrow> cap_registry option" where
  "register_agent_capabilities agent names r =
     (case validate_capability_names names of
        None \<Rightarrow> None
      | Some ns \<Rightarrow> Some (r\<lparr>cr_agent_capabilities := AList.update agent (sorted_set ns) (cr_agent_capabilities r)\<rparr>))"

definition register_restricted_tool :: "pyval \<Rightarrow> cap_registry \<Rightarrow> cap_registry option" where
  "register_restricted_tool tool r =
     (case validate_restricted_tool tool of
        None \<Rightarrow> None
      | Some t \<Rightarrow> Some (r\<lparr>cr_restricted_tools := List.insert t (cr_restricted_tools r)\<rparr>))"

section \<open>Providers\<close>

text \<open>A key of the bundle that is absent, or whose value is false, is the empty collection.\<close>

record cap_bundle =
  cb_definitions :: "(string, pyval) dict"
  cb_tool_capabilities :: "(string, pyval) dict"
  cb_agent_capabilities :: "(string, pyval) dict"
  cb_restricted_tools :: "pyval list"

datatype registration =
    Reg_definition string pyval
  | Reg_tool string pyval
  | Reg_agent string pyval
  | Reg_restricted pyval

fun register_one :: "registration \<Rightarrow> cap_registry \<Rightarrow> cap_registry option" where
  "register_one (Reg_definition n m) r = register_capability_definition n m r"
| "register_one (Reg_tool t ns) r = register_tool_capabilities t ns r"
| "register_one (Reg_agent a ns) r = register_agent_capabilities a ns r"
| "register_one (Reg_restricted t) r = register_restricted_tool t r"

definition bundle_registrations :: "cap_bundle \<Rightarrow> registration list" where
  "bundle_registrations b =
     map (\<lambda>(n, m). Reg_definition n m) (cb_definitions b)
     @ map (\<lambda>(t, ns). Reg_tool t ns) (cb_tool_capabilities b)
     @ map (\<lambda>(a, ns). Reg_agent a ns) (cb_agent_capabilities b)
     @ map Reg_restricted (cb_restricted_tools b)"

text \<open>The loops stop at the registration that raises; what was registered before it stays.\<close>

fun run_registrations :: "registration list \<Rightarrow> cap_registry \<Rightarrow> cap_registry" where
  "run_registrations [] r = r"
| "run_registrations (g # gs) r = (case register_one g r of None \<Rightarrow> r | Some r' \<Rightarrow> run_registrations gs r')"

text \<open>A provider raises, or returns something that is no dictionary, with \<open>None\<close>.\<close>

definition apply_capability_provider_bundle :: "cap_bundle option \<Rightarrow> cap_registry \<Rightarrow> cap_registry" where
  "apply_capability_provider_bundle p r = (case p of None \<Rightarrow> r | Some b \<Rightarrow> run_registrations (bundle_registrations b) r)"

definition load_capability_definition_providers :: "cap_bundle option list \<Rightarrow> cap_registry \<Rightarrow> cap_registry" where
  "load_capability_definition_providers ps r = fold apply_capability_provider_bundle ps r"

definition runtime_capability_bundle :: cap_bundle where
  "runtime_capability_bundle =
     \<lparr>cb_definitions =
        [(''execute_flow'', PDict [(''description'', PStr ''Start and continue a scoped workflow execution.''), (''risk_level'', PStr ''low'')]),
         (''read_memory'', PDict [(''description'', PStr ''Read memory and recall prior context.''), (''risk_level'', PStr ''low'')]),
         (''write_memory'', PDict [(''description'', PStr ''Create or update durable memory.''), (''risk_level'', PStr ''low'')])],
      cb_tool_capabilities = [(''memory.recall'', PList [PStr ''read_memory'']), (''memory.write'', PList [PStr ''write_memory''])],
      cb_agent_capabilities = [(''default'', PList [PStr ''execute_flow''])],
      cb_restricted_tools = []\<rparr>"

section \<open>Loading the providers twice\<close>

fun registration_valid :: "registration \<Rightarrow> bool" where
  "registration_valid (Reg_definition n m) = (validate_capability_definition n m \<noteq> None)"
| "registration_valid (Reg_tool t ns) = (validate_capability_names ns \<noteq> None)"
| "registration_valid (Reg_agent a ns) = (validate_capability_names ns \<noteq> None)"
| "registration_valid (Reg_restricted t) = (validate_restricted_tool t \<noteq> None)"

definition registered :: "registration \<Rightarrow> cap_registry \<Rightarrow> cap_registry" where
  "registered g r = (case register_one g r of None \<Rightarrow> r | Some r' \<Rightarrow> r')"

lemmas register_defs =
  register_capability_definition_def register_tool_capabilities_def register_agent_capabilities_def
  register_restricted_tool_def

lemma register_one_valid: "register_one g r = (if registration_valid g then Some (registered g r) else None)"
  by (cases g) (simp_all add: registered_def register_defs split: option.splits)

lemma run_registrations_fold:
  "run_registrations gs r = fold registered (takeWhile registration_valid gs) r"
  by (induction gs arbitrary: r) (simp_all add: register_one_valid)

definition provider_steps :: "cap_bundle option \<Rightarrow> registration list" where
  "provider_steps p = (case p of None \<Rightarrow> [] | Some b \<Rightarrow> takeWhile registration_valid (bundle_registrations b))"

lemma provider_fold: "apply_capability_provider_bundle p r = fold registered (provider_steps p) r"
  by (cases p) (simp_all add: apply_capability_provider_bundle_def provider_steps_def run_registrations_fold)

lemma load_fold: "load_capability_definition_providers ps r = fold registered (concat (map provider_steps ps)) r"
  unfolding load_capability_definition_providers_def
  by (induction ps arbitrary: r) (simp_all add: provider_fold)

text \<open>A registry whose dictionaries have no key twice is determined by its keys and its values.\<close>

definition cap_registry_wf :: "cap_registry \<Rightarrow> bool" where
  "cap_registry_wf r =
     (distinct (map fst (cr_definitions r)) \<and> distinct (map fst (cr_tool_capabilities r))
      \<and> distinct (map fst (cr_agent_capabilities r)) \<and> distinct (cr_restricted_tools r))"

lemma empty_cap_registry_wf [simp]: "cap_registry_wf empty_cap_registry"
  by (simp add: cap_registry_wf_def empty_cap_registry_def)

lemma registered_wf: "cap_registry_wf r \<Longrightarrow> cap_registry_wf (registered g r)"
  by (cases g) (simp_all add: registered_def register_defs cap_registry_wf_def distinct_update split: option.splits)

lemma fold_registered_wf: "cap_registry_wf r \<Longrightarrow> cap_registry_wf (fold registered gs r)"
  by (induction gs arbitrary: r) (simp_all add: registered_wf)

definition dict_writes :: "('k \<times> 'v) list \<Rightarrow> ('k, 'v) dict \<Rightarrow> ('k, 'v) dict" where
  "dict_writes us d = fold (\<lambda>(k, v). AList.update k v) us d"

lemma dict_writes_simps [simp]:
  "dict_writes [] d = d"
  "dict_writes ((k, v) # us) d = dict_writes us (AList.update k v d)"
  by (simp_all add: dict_writes_def)

lemma map_of_dict_writes: "map_of (dict_writes us d) = map_of d ++ map_of (rev us)"
proof (induction us arbitrary: d)
  case (Cons u us)
  thus ?case
    by (cases u) (auto simp: update_conv' map_add_def fun_eq_iff split: option.splits)
qed simp

lemma update_keys_present: "k \<in> fst ` set d \<Longrightarrow> map fst (AList.update k v d) = map fst d"
  by (induction d) auto

lemma dict_writes_keys_present: "fst ` set us \<subseteq> fst ` set d \<Longrightarrow> map fst (dict_writes us d) = map fst d"
proof (induction us arbitrary: d)
  case (Cons u us)
  hence keys: "map fst (AList.update (fst u) (snd u) d) = map fst d"
    by (simp add: update_keys_present)
  hence "fst ` set (AList.update (fst u) (snd u) d) = fst ` set d"
    by (metis list.set_map)
  with Cons keys show ?case
    by (cases u) simp
qed simp

lemma dict_writes_keys: "fst ` set (dict_writes us d) = fst ` set us \<union> fst ` set d"
proof -
  have "fst ` set (dict_writes us d) = dom (map_of d ++ map_of (rev us))"
    by (simp only: dom_map_of_conv_image_fst [symmetric] map_of_dict_writes)
  thus ?thesis
    by (simp only: dom_map_add dom_map_of_conv_image_fst set_rev)
qed

lemma dict_eqI:
  assumes "map fst d = map fst e" "distinct (map fst d)" "map_of d = map_of e"
  shows "d = e"
proof (rule nth_equalityI)
  show len: "length d = length e"
    using assms(1) map_eq_imp_length_eq by blast
  fix i
  assume i: "i < length d"
  have "map fst d ! i = map fst e ! i"
    by (simp only: assms(1))
  hence key: "fst (d ! i) = fst (e ! i)"
    using i len by simp
  have "(fst (d ! i), snd (d ! i)) \<in> set d" "(fst (e ! i), snd (e ! i)) \<in> set e"
    using i len by simp_all
  hence "map_of d (fst (d ! i)) = Some (snd (d ! i))" "map_of e (fst (e ! i)) = Some (snd (e ! i))"
    using assms(2) assms(2) [unfolded assms(1)] by (blast intro: map_of_is_SomeI)+
  with assms(3) key show "d ! i = e ! i"
    by (simp add: prod_eq_iff)
qed

lemma dict_writes_distinct: "distinct (map fst d) \<Longrightarrow> distinct (map fst (dict_writes us d))"
  by (induction us arbitrary: d) (auto simp: distinct_update)

lemma dict_writes_idem:
  assumes "distinct (map fst d)"
  shows "dict_writes us (dict_writes us d) = dict_writes us d"
proof (rule dict_eqI)
  show keys: "map fst (dict_writes us (dict_writes us d)) = map fst (dict_writes us d)"
    by (rule dict_writes_keys_present) (simp add: dict_writes_keys)
  show "distinct (map fst (dict_writes us (dict_writes us d)))"
    by (simp add: keys dict_writes_distinct assms)
qed (simp add: map_of_dict_writes fun_eq_iff map_add_def split: option.split)

text \<open>What a sequence of registrations writes into each dictionary.\<close>

fun definition_writes :: "registration \<Rightarrow> (string \<times> cap_meta) list" where
  "definition_writes (Reg_definition n m) = (case validate_capability_definition n m of None \<Rightarrow> [] | Some c \<Rightarrow> [(n, c)])"
| "definition_writes _ = []"

fun tool_writes :: "registration \<Rightarrow> (string \<times> string list) list" where
  "tool_writes (Reg_tool t ns) = (case validate_capability_names ns of None \<Rightarrow> [] | Some xs \<Rightarrow> [(t, sorted_set xs)])"
| "tool_writes _ = []"

fun agent_writes :: "registration \<Rightarrow> (string \<times> string list) list" where
  "agent_writes (Reg_agent a ns) = (case validate_capability_names ns of None \<Rightarrow> [] | Some xs \<Rightarrow> [(a, sorted_set xs)])"
| "agent_writes _ = []"

fun restricted_writes :: "registration \<Rightarrow> string list" where
  "restricted_writes (Reg_restricted t) = (case validate_restricted_tool t of None \<Rightarrow> [] | Some s \<Rightarrow> [s])"
| "restricted_writes _ = []"

lemma registered_writes:
  "registered (Reg_definition n m) r =
     (case validate_capability_definition n m of None \<Rightarrow> r | Some c \<Rightarrow> r\<lparr>cr_definitions := AList.update n c (cr_definitions r)\<rparr>)"
  "registered (Reg_tool t ns) r =
     (case validate_capability_names ns of
        None \<Rightarrow> r | Some xs \<Rightarrow> r\<lparr>cr_tool_capabilities := AList.update t (sorted_set xs) (cr_tool_capabilities r)\<rparr>)"
  "registered (Reg_agent t ns) r =
     (case validate_capability_names ns of
        None \<Rightarrow> r | Some xs \<Rightarrow> r\<lparr>cr_agent_capabilities := AList.update t (sorted_set xs) (cr_agent_capabilities r)\<rparr>)"
  "registered (Reg_restricted v) r =
     (case validate_restricted_tool v of None \<Rightarrow> r | Some s \<Rightarrow> r\<lparr>cr_restricted_tools := List.insert s (cr_restricted_tools r)\<rparr>)"
  by (simp_all add: registered_def register_defs split: option.splits)

lemma fold_registered:
  "fold registered gs r =
     r\<lparr>cr_definitions := dict_writes (concat (map definition_writes gs)) (cr_definitions r),
       cr_tool_capabilities := dict_writes (concat (map tool_writes gs)) (cr_tool_capabilities r),
       cr_agent_capabilities := dict_writes (concat (map agent_writes gs)) (cr_agent_capabilities r),
       cr_restricted_tools := fold List.insert (concat (map restricted_writes gs)) (cr_restricted_tools r)\<rparr>"
proof (induction gs arbitrary: r)
  case (Cons g gs)
  show ?case
    by (cases g) (simp_all add: Cons registered_writes split: option.splits)
qed simp

lemma fold_insert_set: "set (fold List.insert xs ys) = set xs \<union> set ys"
  by (induction xs arbitrary: ys) auto

lemma fold_insert_present: "set xs \<subseteq> set ys \<Longrightarrow> fold List.insert xs ys = ys"
  by (induction xs) auto

text \<open>Applying every provider a second time leaves the registry as it is.\<close>

theorem provider_loading_idempotent:
  assumes "cap_registry_wf r"
  shows "load_capability_definition_providers ps (load_capability_definition_providers ps r) =
         load_capability_definition_providers ps r"
  using assms
  by (simp add: load_fold fold_registered cap_registry_wf_def dict_writes_idem fold_insert_present fold_insert_set)

end
