(* ===== verification/Agent_Store.thy ===== *)
theory Agent_Store
  imports Flow_Engine Capability_Registry
begin

text \<open>
  What the agent runtime works on. The tables of \<^verbatim>\<open>AINDY/db/models/agent_run.py\<close>, \<^verbatim>\<open>capability.py\<close> and
  \<^verbatim>\<open>agent_event.py\<close> are the application tables of the flow engine's database, because an agent run
  executes inside a flow that shares its session. Plans and tokens are JSON values: a planner writes
  the first and any caller may present the second.

  \<open>agent_env\<close> is what surrounds a call: the flow engine's environment, \<^verbatim>\<open>TOOL_REGISTRY\<close>, the loaded
  capability registry (\<open>None\<close> when its lookup raises), and the library functions on texts. Of those,
  \<open>ae_sha256\<close> is the hexadecimal digest, \<open>ae_isoformat\<close> and \<open>ae_fromisoformat\<close> print and read an aware
  time, \<open>ae_uuid\<close> is the canonical text of a UUID (\<open>None\<close> when \<^verbatim>\<open>uuid.UUID\<close> raises) and \<open>ae_str\<close> is \<open>str\<close> of
  a value that is neither a text nor \<open>None\<close> nor a truth value. \<open>ae_node_ms\<close> is the time a node takes and
  \<open>ae_completed_hooks\<close> runs the handlers applications registered for a completed execution.
\<close>

section \<open>Rows\<close>

record capability_row =
  cp_id :: string
  cp_description :: string
  cp_risk_level :: string

record capability_mapping =
  mp_capability_id :: string
  mp_agent_type :: "string option"
  mp_agent_run_id :: "string option"

record trust_row =
  tr_auto_execute_low :: bool
  tr_auto_execute_medium :: bool
  tr_allowed_auto_grant_tools :: pyval

record agent_run =
  ar_user_id :: string
  ar_agent_type :: string
  ar_flow_run_id :: "string option"
  ar_replayed_from_run_id :: "string option"
  ar_correlation_id :: "string option"
  ar_trace_id :: "string option"
  ar_goal :: string
  ar_plan :: pyval
  ar_executive_summary :: pyval
  ar_overall_risk :: pyval
  ar_status :: string
  ar_steps_total :: int
  ar_steps_completed :: int
  ar_current_step :: int
  ar_result :: pyval
  ar_error_message :: pyval
  ar_execution_token :: pyval
  ar_capability_token :: pyval
  ar_approved_at :: "time_us option"
  ar_started_at :: "time_us option"
  ar_completed_at :: "time_us option"
  ar_parent_run_id :: "string option"
  ar_spawned_by_agent_id :: "string option"
  ar_coordination_role :: "string option"

record agent_step =
  as_run_id :: string
  as_step_index :: int
  as_tool_name :: pyval
  as_status :: string
  as_result :: pyval
  as_error_message :: pyval

record agent_tables =
  at_capabilities :: "(string, capability_row) dict"
  at_mappings :: "capability_mapping list"
  at_trust :: "(string, trust_row) dict"
  at_runs :: "(string, agent_run) dict"
  at_steps :: "agent_step list"
  at_events :: "(string \<times> string) list"

text \<open>\<open>ax_calls\<close> records every call of a tool's function: the tool, its arguments and the user.\<close>

record agent_ext =
  ax_calls :: "(string \<times> pyval \<times> string) list"

type_synonym agent_world = "(agent_ext, agent_tables) flow_world"

type_synonym agent_flow_env = "(agent_ext, agent_tables) flow_env"

section \<open>Surroundings\<close>

record tool_entry =
  te_fn :: "pyval \<Rightarrow> string \<Rightarrow> agent_world \<Rightarrow> pyval outcome \<times> agent_world"
  te_risk :: string
  te_required_capability :: string

record agent_env =
  ae_flow :: agent_flow_env
  ae_tools :: "(string, tool_entry) dict"
  ae_registry :: "cap_registry option"
  ae_sha256 :: "string \<Rightarrow> string"
  ae_isoformat :: "time_us \<Rightarrow> string"
  ae_fromisoformat :: "string \<Rightarrow> py_datetime option"
  ae_uuid :: "string \<Rightarrow> string option"
  ae_str :: "pyval \<Rightarrow> string"
  ae_row_id :: "string \<Rightarrow> string"
  ae_fresh_token :: string
  ae_node_ms :: int
  ae_completed_hooks :: "pyval list \<Rightarrow> agent_world \<Rightarrow> pyval list outcome \<times> agent_world"

definition ae_now :: "agent_env \<Rightarrow> time_us" where
  "ae_now env = fe_now (ae_flow env)"

definition register_tool :: "string \<Rightarrow> tool_entry \<Rightarrow> (string, tool_entry) dict \<Rightarrow> (string, tool_entry) dict" where
  "register_tool name entry reg = AList.update name entry reg"

definition str_of :: "agent_env \<Rightarrow> pyval \<Rightarrow> string" where
  "str_of env v =
     (case v of
        PStr s \<Rightarrow> s
      | PNone \<Rightarrow> ''None''
      | PBool b \<Rightarrow> if b then ''True'' else ''False''
      | _ \<Rightarrow> ae_str env v)"

lemma str_of_text [simp]: "str_of env (PStr s) = s"
  by (simp add: str_of_def)

lemma py_truthy_text [simp]: "py_truthy (PStr s) \<longleftrightarrow> s \<noteq> []"
  by (simp add: py_truthy_def)

section \<open>Tables\<close>

definition tables :: "agent_world \<Rightarrow> agent_tables" where
  "tables w = fd_app (working (fl_db w))"

definition edit_tables :: "(agent_tables \<Rightarrow> agent_tables) \<Rightarrow> agent_world \<Rightarrow> agent_world" where
  "edit_tables f = fl_work (\<lambda>d. d\<lparr>fd_app := f (fd_app d)\<rparr>)"

text \<open>A session with nothing pending.\<close>

abbreviation stored :: "agent_world \<Rightarrow> bool" where
  "stored w \<equiv> working (fl_db w) = committed (fl_db w)"

definition agent_run_of :: "string \<Rightarrow> agent_world \<Rightarrow> agent_run option" where
  "agent_run_of r w = map_of (at_runs (tables w)) r"

definition edit_agent_run :: "string \<Rightarrow> (agent_run \<Rightarrow> agent_run) \<Rightarrow> agent_world \<Rightarrow> agent_world" where
  "edit_agent_run r f =
     edit_tables (\<lambda>t. case map_of (at_runs t) r of
                        None \<Rightarrow> t
                      | Some row \<Rightarrow> t\<lparr>at_runs := AList.update r (f row) (at_runs t)\<rparr>)"

section \<open>Identifiers\<close>

definition parse_user_id :: "agent_env \<Rightarrow> string \<Rightarrow> string option" where
  "parse_user_id env s = (if s = [] then None else ae_uuid env s)"

definition db_id :: "agent_env \<Rightarrow> string \<Rightarrow> string" where
  "db_id env s = (case parse_user_id env s of None \<Rightarrow> s | Some u \<Rightarrow> u)"

definition user_matches :: "agent_env \<Rightarrow> string \<Rightarrow> string \<Rightarrow> bool" where
  "user_matches env left right =
     (case (parse_user_id env left, parse_user_id env right) of
        (Some l, Some r) \<Rightarrow> l = r
      | _ \<Rightarrow> left = right)"

section \<open>Agent events\<close>

text \<open>
  \<^verbatim>\<open>emit_event\<close> of \<^verbatim>\<open>agent_event_service.py\<close> with \<^verbatim>\<open>required=True\<close>: the system event \<^verbatim>\<open>agent.<type>\<close>, then
  the row of \<^verbatim>\<open>agent_events\<close> with its own commit. \<open>False\<close> is the exception. The runs' users and
  identifiers are UUIDs, so nothing else raises.
\<close>

definition record_agent_event :: "agent_env \<Rightarrow> string \<Rightarrow> string \<Rightarrow> string option \<Rightarrow> agent_world \<Rightarrow> bool \<times> agent_world" where
  "record_agent_event env r ty trace w =
     (case flow_event (ae_flow env) (''agent.'' @ py_lower ty) trace w of
        (Inl _, w1) \<Rightarrow> (False, w1)
      | (Inr _, w1) \<Rightarrow> fl_commit (edit_tables (\<lambda>t. t\<lparr>at_events := at_events t @ [(r, ty)]\<rparr>) w1))"

end
