(* ===== verification/Capability_Service.thy ===== *)
theory Capability_Service
  imports Agent_Store
begin

text \<open>
  \<^verbatim>\<open>AINDY/agents/capability_service.py\<close>: which tools a run may be granted, the scoped token that is
  minted for it, and the checks every tool call goes through; and \<^verbatim>\<open>execute_tool\<close> of
  \<^verbatim>\<open>tool_registry.py\<close>, the boundary that enforces them.

  Every function of the source that catches all exceptions returns its fall-back value here. A
  verdict is its error (\<open>None\<close> for \<^verbatim>\<open>"ok": True\<close>) with the two lists it carries.
\<close>

section \<open>Lookups\<close>

definition TOKEN_TTL_US :: time_us where
  "TOKEN_TTL_US = 24 * 3600 * 1000000"

definition DEFAULT_AGENT_TYPE :: string where
  "DEFAULT_AGENT_TYPE = ''default''"

definition RISK_POLICY :: "(string, string) dict" where
  "RISK_POLICY = [(''low'', ''auto_allowed''), (''medium'', ''requires_approval''), (''high'', ''gated'')]"

definition tool_known :: "agent_env \<Rightarrow> string \<Rightarrow> bool" where
  "tool_known env t = (map_of (ae_tools env) t \<noteq> None)"

definition get_capability_definitions :: "agent_env \<Rightarrow> (string, cap_meta) dict" where
  "get_capability_definitions env = (case ae_registry env of None \<Rightarrow> [] | Some r \<Rightarrow> cr_definitions r)"

definition capability_known :: "agent_env \<Rightarrow> string \<Rightarrow> bool" where
  "capability_known env c = (map_of (get_capability_definitions env) c \<noteq> None)"

definition normalize_tool_list :: "agent_env \<Rightarrow> pyval \<Rightarrow> string list" where
  "normalize_tool_list env v =
     (case v of PList xs \<Rightarrow> sorted_set (filter (tool_known env) (texts_of xs)) | _ \<Rightarrow> [])"

definition normalize_capability_list :: "agent_env \<Rightarrow> pyval \<Rightarrow> string list" where
  "normalize_capability_list env v =
     (case v of PList xs \<Rightarrow> sorted_set (filter (capability_known env) (texts_of xs)) | _ \<Rightarrow> [])"

definition lookup_list :: "(string, string list) dict \<Rightarrow> string \<Rightarrow> string list" where
  "lookup_list d k = (case map_of d k of None \<Rightarrow> [] | Some xs \<Rightarrow> xs)"

definition get_capabilities_for_tool :: "agent_env \<Rightarrow> string \<Rightarrow> string list" where
  "get_capabilities_for_tool env t =
     (case ae_registry env of
        None \<Rightarrow> []
      | Some r \<Rightarrow> filter (capability_known env) (lookup_list (cr_tool_capabilities r) t))"

definition get_capabilities_for_agent :: "agent_env \<Rightarrow> string \<Rightarrow> string list" where
  "get_capabilities_for_agent env a =
     (case ae_registry env of
        None \<Rightarrow> []
      | Some r \<Rightarrow>
          (let own = lookup_list (cr_agent_capabilities r) a;
               caps = (if own = [] \<and> a \<noteq> DEFAULT_AGENT_TYPE
                       then lookup_list (cr_agent_capabilities r) DEFAULT_AGENT_TYPE else own)
           in filter (capability_known env) caps))"

definition get_restricted_tools :: "agent_env \<Rightarrow> string list" where
  "get_restricted_tools env = (case ae_registry env of None \<Rightarrow> [] | Some r \<Rightarrow> cr_restricted_tools r)"

definition get_policy_for_risk :: "string \<Rightarrow> string" where
  "get_policy_for_risk risk = (case map_of RISK_POLICY (py_lower risk) of None \<Rightarrow> ''gated'' | Some p \<Rightarrow> p)"

definition tool_policy :: "agent_env \<Rightarrow> string \<Rightarrow> string" where
  "tool_policy env t = get_policy_for_risk (case map_of (ae_tools env) t of None \<Rightarrow> [] | Some e \<Rightarrow> te_risk e)"

definition get_tool_required_capability :: "agent_env \<Rightarrow> string \<Rightarrow> string option" where
  "get_tool_required_capability env t =
     (case get_capabilities_for_tool env t of [] \<Rightarrow> None | c # _ \<Rightarrow> Some c)"

section \<open>Plans\<close>

text \<open>
  The steps of a plan. \<open>None\<close> is an exception: the steps are no list, or a non-empty text or
  dictionary, whose elements have no \<open>get\<close>.
\<close>

definition plan_steps :: "pyval \<Rightarrow> pyval list option" where
  "plan_steps plan =
     (if \<not> py_truthy plan then Some []
      else
        case plan of
          PDict d \<Rightarrow>
            (case map_of d ''steps'' of
               None \<Rightarrow> Some []
             | Some (PList xs) \<Rightarrow> Some xs
             | Some (PStr s) \<Rightarrow> if s = [] then Some [] else None
             | Some (PDict e) \<Rightarrow> if e = [] then Some [] else None
             | Some _ \<Rightarrow> None)
        | _ \<Rightarrow> None)"

fun steps_required_capabilities :: "agent_env \<Rightarrow> pyval list \<Rightarrow> string list \<Rightarrow> string list option" where
  "steps_required_capabilities env [] acc = Some (sorted_set acc)"
| "steps_required_capabilities env (step # rest) acc =
     (if \<not> is_dict step then None
      else
        case dict_get ''tool'' step of
          PStr t \<Rightarrow>
            (let caps = get_capabilities_for_tool env t
             in if caps = [] then Some [] else steps_required_capabilities env rest (acc @ caps))
        | _ \<Rightarrow> steps_required_capabilities env rest acc)"

definition get_plan_required_capabilities :: "agent_env \<Rightarrow> pyval \<Rightarrow> string \<Rightarrow> string list option" where
  "get_plan_required_capabilities env plan agent_type =
     (case plan_steps plan of
        None \<Rightarrow> None
      | Some steps \<Rightarrow> steps_required_capabilities env steps (get_capabilities_for_agent env agent_type))"

fun plan_tools :: "agent_env \<Rightarrow> pyval list \<Rightarrow> string list option" where
  "plan_tools env [] = Some []"
| "plan_tools env (step # rest) =
     (case dict_get ''tool'' step of
        PStr t \<Rightarrow> if tool_known env t then map_option ((#) t) (plan_tools env rest) else None
      | _ \<Rightarrow> None)"

section \<open>The catalogue\<close>

fun sync_rows ::
    "agent_env \<Rightarrow> (string, cap_meta) dict \<Rightarrow> bool \<times> (string, capability_row) dict \<Rightarrow> bool \<times> (string, capability_row) dict" where
  "sync_rows env [] acc = acc"
| "sync_rows env ((name, meta) # rest) (changed, tbl) =
     sync_rows env rest
       (case map_of tbl name of
          None \<Rightarrow>
            (True, AList.update name
                     \<lparr>cp_id = ae_row_id env name, cp_description = cm_description meta, cp_risk_level = cm_risk_level meta\<rparr> tbl)
        | Some row \<Rightarrow>
            if cp_description row \<noteq> cm_description meta \<or> cp_risk_level row \<noteq> cm_risk_level meta
            then (True, AList.update name
                          (row\<lparr>cp_description := cm_description meta, cp_risk_level := cm_risk_level meta\<rparr>) tbl)
            else (changed, tbl))"

definition sync_capability_catalog :: "agent_env \<Rightarrow> agent_world \<Rightarrow> agent_world" where
  "sync_capability_catalog env w =
     (let (changed, tbl) = sync_rows env (get_capability_definitions env) (False, at_capabilities (tables w));
          w1 = edit_tables (\<lambda>t. t\<lparr>at_capabilities := tbl\<rparr>) w
      in if changed then snd (fl_commit w1) else w1)"

definition mapping_key :: "capability_mapping \<Rightarrow> string \<times> string \<times> string" where
  "mapping_key m = (mp_capability_id m, or_str (mp_agent_type m) [], or_str (mp_agent_run_id m) [])"

definition add_mapping ::
    "bool \<Rightarrow> string \<times> string \<times> string \<Rightarrow> capability_mapping \<Rightarrow> (string \<times> string \<times> string) list \<times> capability_mapping list \<Rightarrow>
     (string \<times> string \<times> string) list \<times> capability_mapping list" where
  "add_mapping wanted key m = (\<lambda>(keys, ms). if wanted \<and> key \<notin> set keys then (key # keys, ms @ [m]) else (keys, ms))"

fun add_run_mappings ::
    "agent_env \<Rightarrow> (string, capability_row) dict \<Rightarrow> string \<Rightarrow> string \<Rightarrow> string list \<Rightarrow>
     (string \<times> string \<times> string) list \<times> capability_mapping list \<Rightarrow> (string \<times> string \<times> string) list \<times> capability_mapping list" where
  "add_run_mappings env tbl run_id agent_type [] acc = acc"
| "add_run_mappings env tbl run_id agent_type (c # cs) acc =
     add_run_mappings env tbl run_id agent_type cs
       (case map_of tbl c of
          None \<Rightarrow> acc
        | Some row \<Rightarrow>
            add_mapping (run_id \<noteq> []) (cp_id row, [], run_id)
              \<lparr>mp_capability_id = cp_id row, mp_agent_type = None, mp_agent_run_id = Some (db_id env run_id)\<rparr>
              (add_mapping (agent_type \<noteq> []) (cp_id row, agent_type, [])
                 \<lparr>mp_capability_id = cp_id row, mp_agent_type = Some agent_type, mp_agent_run_id = None\<rparr> acc))"

definition create_run_capability_mappings :: "agent_env \<Rightarrow> string \<Rightarrow> string \<Rightarrow> string list \<Rightarrow> agent_world \<Rightarrow> agent_world" where
  "create_run_capability_mappings env run_id agent_type names w =
     (let w1 = sync_capability_catalog env w;
          tbl = at_capabilities (tables w1);
          ms = at_mappings (tables w1)
      in if tbl = [] then w1
         else edit_tables (\<lambda>t. t\<lparr>at_mappings := snd (add_run_mappings env tbl run_id agent_type names (map mapping_key ms, ms))\<rparr>) w1)"

section \<open>Granting\<close>

definition get_trust :: "agent_env \<Rightarrow> string \<Rightarrow> agent_world \<Rightarrow> trust_row option" where
  "get_trust env user_id w =
     (case parse_user_id env user_id of None \<Rightarrow> None | Some u \<Rightarrow> map_of (at_trust (tables w)) u)"

definition legacy_grantable :: "trust_row \<Rightarrow> string list \<Rightarrow> string \<times> tool_entry \<Rightarrow> bool" where
  "legacy_grantable trust restricted = (\<lambda>(t, e).
     t \<notin> set restricted
     \<and> (te_risk e = ''low'' \<and> tr_auto_execute_low trust \<or> te_risk e = ''medium'' \<and> tr_auto_execute_medium trust))"

definition get_auto_grantable_tools :: "agent_env \<Rightarrow> string \<Rightarrow> agent_world \<Rightarrow> string list" where
  "get_auto_grantable_tools env user_id w =
     (case get_trust env user_id w of
        None \<Rightarrow> []
      | Some trust \<Rightarrow>
          (let restricted = get_restricted_tools env;
               explicit = normalize_tool_list env (tr_allowed_auto_grant_tools trust)
           in if explicit \<noteq> []
              then filter (\<lambda>t. t \<notin> set restricted \<and> tool_policy env t = ''auto_allowed'') explicit
              else sort (map fst (filter (legacy_grantable trust restricted) (ae_tools env)))))"

definition get_grantable_tools :: "agent_env \<Rightarrow> pyval \<Rightarrow> string \<Rightarrow> string \<Rightarrow> agent_world \<Rightarrow> string list" where
  "get_grantable_tools env plan user_id approval_mode w =
     (case Option.bind (plan_steps plan) (plan_tools env) of
        None \<Rightarrow> []
      | Some tools \<Rightarrow>
          (let unique = sorted_set tools;
               allowed = get_auto_grantable_tools env user_id w
           in if approval_mode = ''manual'' then unique
              else if list_all (\<lambda>t. t \<in> set allowed \<and> tool_policy env t = ''auto_allowed'') unique then unique
              else []))"

section \<open>Tokens\<close>

definition token_payload ::
    "string \<Rightarrow> string \<Rightarrow> string \<Rightarrow> string \<Rightarrow> string \<Rightarrow> string \<Rightarrow> string list \<Rightarrow> string list \<Rightarrow> string" where
  "token_payload run_id user_id execution_token issued_at expires_at approval_mode granted allowed =
     join_with ''|'' [run_id, user_id, execution_token, issued_at, expires_at, approval_mode,
                      join_with '','' (sort granted), join_with '','' (sort allowed)]"

definition token_hash ::
    "agent_env \<Rightarrow> string \<Rightarrow> string \<Rightarrow> string \<Rightarrow> string \<Rightarrow> string \<Rightarrow> string \<Rightarrow> string list \<Rightarrow> string list \<Rightarrow> string" where
  "token_hash env run_id user_id execution_token issued_at expires_at approval_mode granted allowed =
     ae_sha256 env (token_payload run_id user_id execution_token issued_at expires_at approval_mode granted allowed)"

definition build_token ::
    "agent_env \<Rightarrow> string \<Rightarrow> string \<Rightarrow> string \<Rightarrow> string \<Rightarrow> string list \<Rightarrow> string list \<Rightarrow> pyval" where
  "build_token env run_id user_id agent_type approval_mode granted allowed =
     (let issued_at = ae_isoformat env (ae_now env);
          expires_at = ae_isoformat env (ae_now env + TOKEN_TTL_US)
      in PDict
           [(''run_id'', PStr run_id), (''user_id'', PStr user_id),
            (''agent_type'', PStr (or_str (Some agent_type) DEFAULT_AGENT_TYPE)),
            (''execution_token'', PStr (ae_fresh_token env)),
            (''issued_at'', PStr issued_at), (''expires_at'', PStr expires_at),
            (''granted_tools'', PList (map PStr granted)), (''allowed_capabilities'', PList (map PStr allowed)),
            (''approval_mode'', PStr approval_mode),
            (''token_hash'', PStr (token_hash env run_id user_id (ae_fresh_token env) issued_at expires_at approval_mode granted allowed))])"

definition mint_token ::
    "agent_env \<Rightarrow> string \<Rightarrow> string \<Rightarrow> pyval \<Rightarrow> string \<Rightarrow> string \<Rightarrow> agent_world \<Rightarrow> pyval option \<times> agent_world" where
  "mint_token env run_id user_id plan approval_mode agent_type w =
     (let granted = get_grantable_tools env plan user_id approval_mode w in
      case (plan_steps plan, get_plan_required_capabilities env plan agent_type) of
        (Some steps, Some allowed) \<Rightarrow>
          if granted = [] \<and> steps \<noteq> [] then (None, w)
          else if allowed = [] then (None, w)
          else if approval_mode = ''auto'' \<and> list_ex (\<lambda>t. tool_policy env t \<noteq> ''auto_allowed'') granted then (None, w)
          else (Some (build_token env run_id user_id agent_type approval_mode granted allowed),
                create_run_capability_mappings env run_id agent_type allowed w)
      | _ \<Rightarrow> (None, w))"

datatype token_error =
    Missing_token
  | Run_mismatch
  | User_mismatch
  | Missing_execution_token
  | Invalid_approval_mode
  | Incomplete_token
  | Invalid_expiry
  | Token_expired
  | Hash_mismatch
  | Validation_failed
  | Tool_not_granted string
  | Capability_not_granted string
  | No_capability_mapping string

record validated =
  vl_granted_tools :: "string list"
  vl_allowed_capabilities :: "string list"
  vl_execution_token :: string
  vl_agent_type :: string

text \<open>\<open>approval_mode in {...}\<close> raises for a value that cannot be hashed.\<close>

definition validate_token :: "agent_env \<Rightarrow> pyval \<Rightarrow> string \<Rightarrow> string \<Rightarrow> token_error + validated" where
  "validate_token env token run_id user_id =
     (case token of
        PDict d \<Rightarrow>
          (let text = (\<lambda>k. case map_of d k of None \<Rightarrow> [] | Some v \<Rightarrow> str_of env v);
               field = (\<lambda>k. dict_get k token);
               execution_token = text ''execution_token'';
               agent_type = (if py_truthy (field ''agent_type'') then str_of env (field ''agent_type'') else DEFAULT_AGENT_TYPE);
               granted = normalize_tool_list env (field ''granted_tools'');
               allowed = normalize_capability_list env (field ''allowed_capabilities'')
           in if text ''run_id'' \<noteq> run_id then Inl Run_mismatch
              else if text ''user_id'' \<noteq> user_id then Inl User_mismatch
              else if execution_token = [] then Inl Missing_execution_token
              else
                case field ''approval_mode'' of
                  PList _ \<Rightarrow> Inl Validation_failed
                | PDict _ \<Rightarrow> Inl Validation_failed
                | PStr mode \<Rightarrow>
                    if mode \<notin> {''manual'', ''auto''} then Inl Invalid_approval_mode
                    else if \<not> py_truthy (field ''issued_at'') \<or> \<not> py_truthy (field ''expires_at'') \<or> field ''token_hash'' = PNone
                    then Inl Incomplete_token
                    else
                      (case ae_fromisoformat env (str_of env (field ''expires_at'')) of
                         None \<Rightarrow> Inl Invalid_expiry
                       | Some t \<Rightarrow>
                           if instant (as_utc t) \<le> ae_now env then Inl Token_expired
                           else if PStr (token_hash env run_id user_id execution_token (str_of env (field ''issued_at''))
                                          (str_of env (field ''expires_at'')) mode granted allowed) \<noteq> field ''token_hash''
                           then Inl Hash_mismatch
                           else Inr \<lparr>vl_granted_tools = granted, vl_allowed_capabilities = allowed,
                                     vl_execution_token = execution_token, vl_agent_type = agent_type\<rparr>)
                | _ \<Rightarrow> Inl Invalid_approval_mode)
      | _ \<Rightarrow> Inl Missing_token)"

record verdict =
  vd_error :: "token_error option"
  vd_granted_tools :: "string list"
  vd_allowed_capabilities :: "string list"

definition verdict_of :: "token_error option \<Rightarrow> validated \<Rightarrow> verdict" where
  "verdict_of e v =
     \<lparr>vd_error = e, vd_granted_tools = vl_granted_tools v, vd_allowed_capabilities = vl_allowed_capabilities v\<rparr>"

definition refusal :: "token_error \<Rightarrow> verdict" where
  "refusal e = \<lparr>vd_error = Some e, vd_granted_tools = [], vd_allowed_capabilities = []\<rparr>"

definition check_execution_capability :: "agent_env \<Rightarrow> pyval \<Rightarrow> string \<Rightarrow> string \<Rightarrow> string \<Rightarrow> verdict" where
  "check_execution_capability env token run_id user_id capability =
     (case validate_token env token run_id user_id of
        Inl e \<Rightarrow> refusal e
      | Inr v \<Rightarrow>
          if capability \<notin> set (vl_allowed_capabilities v) then verdict_of (Some (Capability_not_granted capability)) v
          else verdict_of None v)"

definition check_tool_capability :: "agent_env \<Rightarrow> pyval \<Rightarrow> string \<Rightarrow> string \<Rightarrow> string \<Rightarrow> verdict" where
  "check_tool_capability env token run_id user_id tool =
     (case validate_token env token run_id user_id of
        Inl e \<Rightarrow> refusal e
      | Inr v \<Rightarrow>
          (let missing = (\<lambda>c. c \<notin> set (vl_allowed_capabilities v));
               required = get_capabilities_for_tool env tool;
               agent_caps = get_capabilities_for_agent env (or_str (Some (vl_agent_type v)) DEFAULT_AGENT_TYPE)
           in if tool \<notin> set (vl_granted_tools v) then verdict_of (Some (Tool_not_granted tool)) v
              else
                case find missing required of
                  Some c \<Rightarrow> verdict_of (Some (Capability_not_granted c)) v
                | None \<Rightarrow>
                    (case find missing agent_caps of
                       Some c \<Rightarrow> verdict_of (Some (Capability_not_granted c)) v
                     | None \<Rightarrow>
                         if required = [] \<and> tool_known env tool then verdict_of (Some (No_capability_mapping tool)) v
                         else verdict_of None v)))"

section \<open>The tool boundary\<close>

datatype tool_error =
    Tool_not_found string
  | Token_required
  | Run_required
  | Tool_denied token_error
  | Enforcement_failed
  | Tool_raised string

text \<open>
  \<open>None\<close> for the token is Python's \<open>None\<close>; \<open>run_id\<close> is a text, empty when absent. The result is the
  value or the error; \<open>None\<close> is a \<open>BaseException\<close> of the tool, which passes through.
\<close>

definition call_tool :: "tool_entry \<Rightarrow> string \<Rightarrow> pyval \<Rightarrow> string \<Rightarrow> agent_world \<Rightarrow> (tool_error + pyval) option \<times> agent_world" where
  "call_tool entry tool args user_id w =
     (case te_fn entry args user_id (w\<lparr>fl_ext := (fl_ext w)\<lparr>ax_calls := ax_calls (fl_ext w) @ [(tool, args, user_id)]\<rparr>\<rparr>) of
        (Returns v, w1) \<Rightarrow> (Some (Inr v), w1)
      | (Raises e, w1) \<Rightarrow> (Some (Inl (Tool_raised e)), w1)
      | (Interrupts, w1) \<Rightarrow> (None, w1))"

definition execute_tool ::
    "agent_env \<Rightarrow> string \<Rightarrow> pyval \<Rightarrow> string \<Rightarrow> string \<Rightarrow> pyval \<Rightarrow> agent_world \<Rightarrow> (tool_error + pyval) option \<times> agent_world" where
  "execute_tool env tool args user_id run_id token w =
     (case map_of (ae_tools env) tool of
        None \<Rightarrow> (Some (Inl (Tool_not_found tool)), w)
      | Some entry \<Rightarrow>
          if token = PNone
          then (if run_id \<noteq> [] then (Some (Inl Token_required), w) else call_tool entry tool args user_id w)
          else if run_id = [] then (Some (Inl Run_required), w)
          else
            (case vd_error (check_tool_capability env token run_id user_id tool) of
               Some e \<Rightarrow>
                 (case flow_event (ae_flow env) ''capability.denied'' (Some run_id) w of
                    (Inl _, w1) \<Rightarrow> (Some (Inl Enforcement_failed), w1)
                  | (Inr _, w1) \<Rightarrow> (Some (Inl (Tool_denied e)), w1))
             | None \<Rightarrow>
                 (case flow_event (ae_flow env) ''capability.allowed'' (Some run_id) w of
                    (Inl _, w1) \<Rightarrow> (Some (Inl Enforcement_failed), w1)
                  | (Inr _, w1) \<Rightarrow> call_tool entry tool args user_id w1)))"

definition get_tool_risk :: "agent_env \<Rightarrow> string \<Rightarrow> string" where
  "get_tool_risk env t = (case map_of (ae_tools env) t of None \<Rightarrow> ''high'' | Some e \<Rightarrow> te_risk e)"

end
