(* ===== verification/Agent_Samples.thy ===== *)
theory Agent_Samples
  imports Capability_Service
begin

text \<open>
  Surroundings on which the theorems about agents are evaluated: the runtime's two memory tools and an
  application's tool \<open>wipe\<close> of high risk, which is restricted; the registry loaded from the runtime's
  bundle and the application's; a user \<open>u1\<close> who trusts low-risk tools; a run \<open>r1\<close> that waits for approval.
\<close>

text \<open>A printer of times and its reader: a sign and the binary digits, lowest first.\<close>

function bit_text :: "int \<Rightarrow> string" where
  "bit_text n = (if n \<le> 0 then [] else (if even n then CHR ''0'' else CHR ''1'') # bit_text (n div 2))"
  by pat_completeness auto

termination bit_text
  by (relation "measure nat") auto

declare bit_text.simps [simp del]

fun read_bits :: "string \<Rightarrow> int" where
  "read_bits [] = 0"
| "read_bits (c # cs) = (if c = CHR ''1'' then 1 else 0) + 2 * read_bits cs"

lemma read_bit_text: "0 \<le> n \<Longrightarrow> read_bits (bit_text n) = n"
proof (induction n rule: bit_text.induct)
  case (1 n)
  show ?case
  proof (cases "n \<le> 0")
    case False
    with 1 have "read_bits (bit_text (n div 2)) = n div 2"
      by simp
    with False show ?thesis
      by (simp add: bit_text.simps [of n]) presburger
  qed (use 1 in \<open>simp add: bit_text.simps [of 0]\<close>)
qed

definition sample_iso :: "time_us \<Rightarrow> string" where
  "sample_iso t = (if t < 0 then CHR ''-'' else CHR ''+'') # bit_text \<bar>t\<bar>"

definition sample_of_iso :: "string \<Rightarrow> py_datetime option" where
  "sample_of_iso s =
     (case s of
        [] \<Rightarrow> None
      | c # cs \<Rightarrow> Some (Aware (if c = CHR ''-'' then - read_bits cs else read_bits cs)))"

lemma sample_iso_roundtrip [simp]: "sample_of_iso (sample_iso t) = Some (Aware t)" "sample_iso t \<noteq> []"
  by (simp_all add: sample_iso_def sample_of_iso_def read_bit_text)

definition app_bundle :: cap_bundle where
  "app_bundle =
     \<lparr>cb_definitions = [(''admin'', PDict [(''description'', PStr ''Administration.''), (''risk_level'', PStr ''high'')])],
      cb_tool_capabilities = [(''wipe'', PList [PStr ''admin''])], cb_agent_capabilities = [],
      cb_restricted_tools = [PStr ''wipe'']\<rparr>"

definition sample_registry :: cap_registry where
  "sample_registry = load_capability_definition_providers [Some runtime_capability_bundle, Some app_bundle] empty_cap_registry"

definition sample_tool :: "string \<Rightarrow> string \<Rightarrow> tool_entry" where
  "sample_tool risk cap = \<lparr>te_fn = (\<lambda>args u w. (Returns (PStr ''done''), w)), te_risk = risk, te_required_capability = cap\<rparr>"

definition sample_tools :: "(string, tool_entry) dict" where
  "sample_tools =
     register_tool ''wipe'' (sample_tool ''high'' ''admin'')
       (register_tool ''memory.write'' (sample_tool ''low'' ''write_memory'')
          (register_tool ''memory.recall'' (sample_tool ''low'' ''read_memory'') []))"

definition sample_agent_env :: agent_env where
  "sample_agent_env =
     \<lparr>ae_flow =
        \<lparr>fe_now = 100,
         fe_rm = \<lparr>now_mono = 5, redis_url = False, ping_ok = False, call_ok = False, backend_ok = False, is_testing = True\<rparr>,
         fe_sched = \<lparr>now_utc = 100, redis_up = False, redis_ok = False, publish_ok = True, db_up = True, wait_deadline = (\<lambda>_. None),
           builders = [], env_retries = 3, host = ''h''\<rparr>,
         fe_pipeline = False, fe_fail_closed = True, fe_units_ok = True, fe_capture_ok = True,
         fe_nodes = (\<lambda>_. None), fe_hook = (\<lambda>_ e. e), fe_blocked_nodes = [],
         fe_FLOW_WAIT_TIMEOUT_MINUTES = 30, fe_result_extractor = (\<lambda>_. None), fe_result_key = (\<lambda>_. None),
         fe_ctx_trace_id = None, fe_fresh_trace_id = ''t'', fe_fresh_run_id = ''f1'', fe_fresh_unit_id = ''n1'',
         fe_fresh_event_id = ''e''\<rparr>,
      ae_tools = sample_tools, ae_registry = Some sample_registry, ae_sha256 = (\<lambda>s. s),
      ae_isoformat = sample_iso, ae_fromisoformat = sample_of_iso, ae_uuid = Some, ae_str = (\<lambda>_. ''?''),
      ae_row_id = (\<lambda>n. ''cap-'' @ n), ae_fresh_token = ''x1'', ae_node_ms = 7,
      ae_completed_hooks = (\<lambda>_ w. (Returns [], w))\<rparr>"

definition sample_plan :: pyval where
  "sample_plan =
     PDict [(''executive_summary'', PStr ''Recall, then note.''),
            (''steps'', PList [PDict [(''tool'', PStr ''memory.recall''), (''risk_level'', PStr ''low'')],
                             PDict [(''tool'', PStr ''memory.write''), (''risk_level'', PStr ''low'')]]),
            (''overall_risk'', PStr ''low'')]"

definition sample_agent_run :: agent_run where
  "sample_agent_run =
     \<lparr>ar_user_id = ''u1'', ar_agent_type = ''default'', ar_flow_run_id = None, ar_replayed_from_run_id = None,
      ar_correlation_id = Some ''c1'', ar_trace_id = Some ''t1'', ar_goal = ''goal'', ar_plan = sample_plan,
      ar_executive_summary = PStr ''Recall, then note.'', ar_overall_risk = PStr ''low'', ar_status = ''pending_approval'',
      ar_steps_total = 2, ar_steps_completed = 0, ar_current_step = 0, ar_result = PNone, ar_error_message = PNone,
      ar_execution_token = PNone, ar_capability_token = PNone, ar_approved_at = None, ar_started_at = None,
      ar_completed_at = None, ar_parent_run_id = None, ar_spawned_by_agent_id = None, ar_coordination_role = None\<rparr>"

definition sample_tables :: agent_tables where
  "sample_tables =
     \<lparr>at_capabilities = [], at_mappings = [],
      at_trust = [(''u1'', \<lparr>tr_auto_execute_low = True, tr_auto_execute_medium = False, tr_allowed_auto_grant_tools = PNone\<rparr>)],
      at_runs = [(''r1'', sample_agent_run)], at_steps = [], at_events = []\<rparr>"

definition sample_agent_world :: "bool list \<Rightarrow> agent_world" where
  "sample_agent_world io =
     \<lparr>fl_db = open_session \<lparr>fd_runs = [], fd_history = [], fd_outcomes = [], fd_units = [], fd_events = [], fd_app = sample_tables\<rparr>,
      fl_io = io, fl_signals = [], fl_flows = [], fl_rm = new_resource_manager None,
      fl_sched = \<lparr>eng = new_scheduler, specs = [], rows = [], bus = new_event_bus ''i'' False, channel = []\<rparr>,
      fl_ext = \<lparr>ax_calls = []\<rparr>\<rparr>"

lemma sample_registry_simps [simp]:
  "map fst (cr_definitions sample_registry) = [''execute_flow'', ''read_memory'', ''write_memory'', ''admin'']"
  "lookup_list (cr_tool_capabilities sample_registry) ''memory.recall'' = [''read_memory'']"
  "lookup_list (cr_tool_capabilities sample_registry) ''memory.write'' = [''write_memory'']"
  "lookup_list (cr_tool_capabilities sample_registry) ''wipe'' = [''admin'']"
  "lookup_list (cr_agent_capabilities sample_registry) ''default'' = [''execute_flow'']"
  "cr_restricted_tools sample_registry = [''wipe'']"
  by code_simp+

lemma sample_agent_env_simps [simp]:
  "ae_tools sample_agent_env = sample_tools" "ae_registry sample_agent_env = Some sample_registry"
  "ae_fresh_token sample_agent_env = ''x1''" "ae_now sample_agent_env = 100" "db_id sample_agent_env s = s"
  "fe_fail_closed (ae_flow sample_agent_env)"
  by (simp_all add: sample_agent_env_def ae_now_def db_id_def parse_user_id_def)

end
