(* ===== verification/Capability_Tokens.thy ===== *)
theory Capability_Tokens
  imports Agent_Samples
begin

text \<open>
  What the capability tokens guarantee. \<open>minted_token_verdict\<close> computes the verdict on a minted token for
  every run, user, tool and time; \<open>auto_token_least_privilege\<close> bounds what an automatic approval can
  open; \<open>tool_boundary\<close> shows that a tool's function runs only behind a passed check and a recorded
  audit event. \<open>forged_token_accepted\<close> shows what they do not guarantee: the hash has no key.
\<close>

section \<open>Time\<close>

definition at_time :: "time_us \<Rightarrow> agent_env \<Rightarrow> agent_env" where
  "at_time t env = env\<lparr>ae_flow := (ae_flow env)\<lparr>fe_now := t\<rparr>\<rparr>"

lemma at_time_simps [simp]:
  "ae_now (at_time t env) = t"
  "ae_tools (at_time t env) = ae_tools env"
  "ae_registry (at_time t env) = ae_registry env"
  "ae_sha256 (at_time t env) = ae_sha256 env"
  "ae_isoformat (at_time t env) = ae_isoformat env"
  "ae_fromisoformat (at_time t env) = ae_fromisoformat env"
  "ae_fresh_token (at_time t env) = ae_fresh_token env"
  "ae_str (at_time t env) = ae_str env"
  by (simp_all add: at_time_def ae_now_def)

lemma at_time_lookups [simp]:
  "tool_known (at_time t env) = tool_known env"
  "capability_known (at_time t env) = capability_known env"
  "token_hash (at_time t env) = token_hash env"
  by (simp_all add: fun_eq_iff tool_known_def capability_known_def get_capability_definitions_def token_hash_def)

lemma at_time_capabilities [simp]:
  "get_capabilities_for_tool (at_time t env) = get_capabilities_for_tool env"
  "get_capabilities_for_agent (at_time t env) = get_capabilities_for_agent env"
  by (simp_all add: fun_eq_iff get_capabilities_for_tool_def get_capabilities_for_agent_def Let_def split: option.split)

section \<open>Plans and grants\<close>

lemma plan_tools_known: "plan_tools env steps = Some ts \<Longrightarrow> t \<in> set ts \<Longrightarrow> tool_known env t"
  by (induction steps arbitrary: ts) (auto split: pyval.splits if_splits)

lemma capabilities_known [simp]:
  "c \<in> set (get_capabilities_for_tool env t) \<Longrightarrow> capability_known env c"
  "c \<in> set (get_capabilities_for_agent env a) \<Longrightarrow> capability_known env c"
  by (auto simp: get_capabilities_for_tool_def get_capabilities_for_agent_def Let_def split: option.splits)

lemma steps_required_cover:
  assumes "plan_tools env steps = Some ts" "steps_required_capabilities env steps acc = Some allowed" "allowed \<noteq> []"
  shows "set allowed = set acc \<union> \<Union>(set ` get_capabilities_for_tool env ` set ts)
         \<and> (\<forall>t \<in> set ts. get_capabilities_for_tool env t \<noteq> []) \<and> sorted allowed \<and> distinct allowed"
  using assms
proof (induction steps arbitrary: ts acc)
  case (Cons step rest)
  then obtain t where t: "dict_get ''tool'' step = PStr t" "tool_known env t"
    by (auto split: pyval.splits if_splits)
  with Cons.prems obtain ts' where ts: "plan_tools env rest = Some ts'" "ts = t # ts'"
    by auto
  have "is_dict step" "get_capabilities_for_tool env t \<noteq> []"
    "steps_required_capabilities env rest (acc @ get_capabilities_for_tool env t) = Some allowed"
    using Cons.prems t by (auto simp: Let_def split: if_splits)
  with Cons.IH [OF ts(1) _ Cons.prems(3)] ts(2) show ?case
    by (simp add: Un_assoc)
qed auto

lemma steps_required_known:
  assumes "steps_required_capabilities env steps acc = Some allowed" "\<forall>c \<in> set acc. capability_known env c"
  shows "\<forall>c \<in> set allowed. capability_known env c"
  using assms
  by (induction steps arbitrary: acc) (fastforce simp: Let_def split: pyval.splits if_splits)+

text \<open>What minting decides, as one lemma for all that follows.\<close>

lemma mint_token_cases:
  assumes "mint_token env r u plan mode a w = (Some tok, w1)"
  obtains steps tools allowed where
    "plan_steps plan = Some steps" "plan_tools env steps = Some tools"
    "get_grantable_tools env plan u mode w = sorted_set tools"
    "steps_required_capabilities env steps (get_capabilities_for_agent env a) = Some allowed" "allowed \<noteq> []"
    "tok = build_token env r u a mode (sorted_set tools) allowed"
    "w1 = create_run_capability_mappings env r a allowed w"
proof -
  obtain steps allowed where s: "plan_steps plan = Some steps"
    "get_plan_required_capabilities env plan a = Some allowed" "allowed \<noteq> []"
    "\<not> (get_grantable_tools env plan u mode w = [] \<and> steps \<noteq> [])"
    "tok = build_token env r u a mode (get_grantable_tools env plan u mode w) allowed"
    "w1 = create_run_capability_mappings env r a allowed w"
    using assms by (auto simp: mint_token_def Let_def split: option.splits if_splits)
  show ?thesis
  proof (cases "plan_tools env steps")
    case None
    hence "get_grantable_tools env plan u mode w = []" "steps \<noteq> []"
      using s(1) by (auto simp: get_grantable_tools_def)
    with s(4) show ?thesis
      by simp
  next
    case (Some tools)
    have "get_grantable_tools env plan u mode w = sorted_set tools"
      using s(1, 4) Some by (auto simp: get_grantable_tools_def Let_def split: if_splits)
    with s Some that show ?thesis
      by (simp add: get_plan_required_capabilities_def)
  qed
qed

section \<open>Validation\<close>

lemma texts_of_map [simp]: "texts_of (map PStr xs) = xs"
  by (induction xs) (simp_all add: texts_of_def)

lemma normalize_tools_stable:
  "\<forall>t \<in> set ts. tool_known env t \<Longrightarrow> sorted ts \<Longrightarrow> distinct ts \<Longrightarrow> normalize_tool_list env (PList (map PStr ts)) = ts"
  by (simp add: normalize_tool_list_def)

lemma normalize_capabilities_stable:
  "\<forall>c \<in> set cs. capability_known env c \<Longrightarrow> sorted cs \<Longrightarrow> distinct cs \<Longrightarrow> normalize_capability_list env (PList (map PStr cs)) = cs"
  by (simp add: normalize_capability_list_def)

lemma at_time_normalize [simp]:
  "normalize_tool_list (at_time t env) = normalize_tool_list env"
  "normalize_capability_list (at_time t env) = normalize_capability_list env"
  by (simp_all add: fun_eq_iff normalize_tool_list_def normalize_capability_list_def split: pyval.split)

text \<open>The documented round trip of \<open>isoformat\<close> and \<open>fromisoformat\<close> on aware times; no such text is empty.\<close>

definition iso_times :: "agent_env \<Rightarrow> bool" where
  "iso_times env = (\<forall>t. ae_fromisoformat env (ae_isoformat env t) = Some (Aware t) \<and> ae_isoformat env t \<noteq> [])"

lemma validate_built_token:
  assumes "iso_times env" "ae_fresh_token env \<noteq> []" "mode \<in> {''manual'', ''auto''}" "a \<noteq> []"
    and "normalize_tool_list env (PList (map PStr ts)) = ts" "normalize_capability_list env (PList (map PStr cs)) = cs"
  shows "validate_token (at_time t env) (build_token env r u a mode ts cs) r' u' =
    (if r' \<noteq> r then Inl Run_mismatch else if u' \<noteq> u then Inl User_mismatch
     else if t < ae_now env + TOKEN_TTL_US
     then Inr \<lparr>vl_granted_tools = ts, vl_allowed_capabilities = cs, vl_execution_token = ae_fresh_token env, vl_agent_type = a\<rparr>
     else Inl Token_expired)"
proof -
  have iso: "ae_fromisoformat env (ae_isoformat env s) = Some (Aware s)" "ae_isoformat env s \<noteq> []" for s
    using assms(1) by (simp_all add: iso_times_def)
  show ?thesis
    using assms(2-6)
    by (auto simp: validate_token_def build_token_def Let_def dict_get_def str_of_def py_truthy_def or_str_def iso)
qed

lemma check_tool_verdict:
  assumes "validate_token env tok r u = Inr v" "vl_agent_type v \<noteq> []"
    "set (get_capabilities_for_agent env (vl_agent_type v)) \<subseteq> set (vl_allowed_capabilities v)"
    "tool \<in> set (vl_granted_tools v) \<Longrightarrow>
       get_capabilities_for_tool env tool \<noteq> [] \<and> set (get_capabilities_for_tool env tool) \<subseteq> set (vl_allowed_capabilities v)"
  shows "vd_error (check_tool_capability env tok r u tool) =
         (if tool \<in> set (vl_granted_tools v) then None else Some (Tool_not_granted tool))"
proof -
  have "find (\<lambda>c. c \<notin> set (vl_allowed_capabilities v)) cs = None" if "set cs \<subseteq> set (vl_allowed_capabilities v)" for cs
    using that by (auto simp: find_None_iff)
  with assms show ?thesis
    by (auto simp: check_tool_capability_def verdict_of_def Let_def or_str_def)
qed

lemma minted_verdict:
  assumes mint: "mint_token env r u plan mode a w = (Some tok, w1)"
    and "plan_steps plan = Some steps" "plan_tools env steps = Some tools"
    and "iso_times env" "ae_fresh_token env \<noteq> []" "mode \<in> {''manual'', ''auto''}" "a \<noteq> []"
  shows "vd_error (check_tool_capability (at_time t env) tok r' u' tool) =
    (if r' \<noteq> r then Some Run_mismatch else if u' \<noteq> u then Some User_mismatch
     else if ae_now env + TOKEN_TTL_US \<le> t then Some Token_expired
     else if tool \<in> set tools then None else Some (Tool_not_granted tool))"
proof -
  obtain allowed where m: "steps_required_capabilities env steps (get_capabilities_for_agent env a) = Some allowed"
    "allowed \<noteq> []" "tok = build_token env r u a mode (sorted_set tools) allowed"
    using assms(2, 3) by (auto intro: mint_token_cases [OF mint])
  note cover = steps_required_cover [OF assms(3) m(1, 2)]
  have known: "normalize_tool_list env (PList (map PStr (sorted_set tools))) = sorted_set tools"
    "normalize_capability_list env (PList (map PStr allowed)) = allowed"
    using plan_tools_known [OF assms(3)] steps_required_known [OF m(1)] cover
    by (simp_all add: normalize_tools_stable normalize_capabilities_stable)
  let ?v = "\<lparr>vl_granted_tools = sorted_set tools, vl_allowed_capabilities = allowed,
             vl_execution_token = ae_fresh_token env, vl_agent_type = a\<rparr>"
  note validate = validate_built_token [OF assms(4-7) known, of t r u r' u', folded m(3)]
  show ?thesis
  proof (cases "r' = r \<and> u' = u \<and> t < ae_now env + TOKEN_TTL_US")
    case True
    with validate have "validate_token (at_time t env) tok r' u' = Inr ?v"
      by simp
    moreover have "set (get_capabilities_for_tool env tool) \<subseteq> set allowed" if "tool \<in> set tools"
      using cover that by blast
    ultimately show ?thesis
      using check_tool_verdict [of "at_time t env" tok r' u' ?v tool] True assms(7) cover by auto
  next
    case False
    with validate show ?thesis
      by (auto simp: check_tool_capability_def refusal_def)
  qed
qed

text \<open>
  C10. A minted token opens, for the run and the user it was minted for and during the 24 hours after
  minting, exactly the tools of the plan; every other presentation is refused with the reason given.
\<close>

theorem minted_token_verdict:
  assumes mint: "mint_token env r u plan mode a w = (Some tok, w1)"
    and "plan_steps plan = Some steps" "plan_tools env steps = Some tools"
    and "iso_times env" "ae_fresh_token env \<noteq> []" "mode \<in> {''manual'', ''auto''}" "a \<noteq> []"
  shows "vd_error (check_tool_capability (at_time t env) tok r' u' tool) =
    (if r' \<noteq> r then Some Run_mismatch else if u' \<noteq> u then Some User_mismatch
     else if ae_now env + TOKEN_TTL_US \<le> t then Some Token_expired
     else if tool \<in> set tools then None else Some (Tool_not_granted tool))"
  using assms by (rule minted_verdict)

lemma sample_iso_times [simp]: "iso_times sample_agent_env"
  by (simp add: iso_times_def sample_agent_env_def)

definition sample_minted :: "string \<Rightarrow> pyval" where
  "sample_minted mode = the (fst (mint_token sample_agent_env ''r1'' ''u1'' sample_plan mode ''default'' (sample_agent_world [])))"

lemma sample_minted:
  assumes "mode \<in> {''manual'', ''auto''}"
  obtains w where "mint_token sample_agent_env ''r1'' ''u1'' sample_plan mode ''default'' (sample_agent_world []) = (Some (sample_minted mode), w)"
proof -
  have "fst (mint_token sample_agent_env ''r1'' ''u1'' sample_plan ''manual'' ''default'' (sample_agent_world [])) \<noteq> None"
    "fst (mint_token sample_agent_env ''r1'' ''u1'' sample_plan ''auto'' ''default'' (sample_agent_world [])) \<noteq> None"
    by code_simp+
  with assms that show ?thesis
    by (cases "mint_token sample_agent_env ''r1'' ''u1'' sample_plan mode ''default'' (sample_agent_world [])") (auto simp: sample_minted_def)
qed

lemma sample_plan_tools:
  "Option.bind (plan_steps sample_plan) (plan_tools sample_agent_env) = Some [''memory.recall'', ''memory.write'']"
  by code_simp

theorem minted_token_verdict_witness:
  "vd_error (check_tool_capability (at_time 200 sample_agent_env) (sample_minted ''manual'') ''r1'' ''u1'' ''memory.write'') = None \<and>
   vd_error (check_tool_capability (at_time 200 sample_agent_env) (sample_minted ''manual'') ''r1'' ''u1'' ''wipe'') = Some (Tool_not_granted ''wipe'') \<and>
   vd_error (check_tool_capability (at_time 86400000100 sample_agent_env) (sample_minted ''manual'') ''r1'' ''u1'' ''memory.write'') = Some Token_expired \<and>
   vd_error (check_tool_capability (at_time 200 sample_agent_env) (sample_minted ''manual'') ''r2'' ''u1'' ''memory.write'') = Some Run_mismatch"
proof -
  obtain w where mint: "mint_token sample_agent_env ''r1'' ''u1'' sample_plan ''manual'' ''default'' (sample_agent_world []) = (Some (sample_minted ''manual''), w)"
    by (rule sample_minted [of "''manual''"]) auto
  obtain steps where steps: "plan_steps sample_plan = Some steps" "plan_tools sample_agent_env steps = Some [''memory.recall'', ''memory.write'']"
    using sample_plan_tools by (cases "plan_steps sample_plan") auto
  show ?thesis
    using minted_token_verdict [OF mint steps] by (simp add: TOKEN_TTL_US_def)
qed

section \<open>Automatic approval\<close>

lemma auto_grantable_safe:
  assumes "t \<in> set (get_auto_grantable_tools env u w)"
  obtains trust where "get_trust env u w = Some trust" "t \<notin> set (get_restricted_tools env)"
    "t \<in> set (normalize_tool_list env (tr_allowed_auto_grant_tools trust))
     \<or> normalize_tool_list env (tr_allowed_auto_grant_tools trust) = []
       \<and> (\<exists>e. (t, e) \<in> set (ae_tools env) \<and> legacy_grantable trust (get_restricted_tools env) (t, e))"
proof -
  obtain trust where trust: "get_trust env u w = Some trust"
    using assms by (cases "get_trust env u w") (simp_all add: get_auto_grantable_tools_def)
  show ?thesis
  proof (cases "normalize_tool_list env (tr_allowed_auto_grant_tools trust) = []")
    case True
    with assms trust obtain e where "(t, e) \<in> set (ae_tools env)" "legacy_grantable trust (get_restricted_tools env) (t, e)"
      by (auto simp: get_auto_grantable_tools_def)
    with True trust that show ?thesis
      by (auto simp: legacy_grantable_def)
  next
    case False
    with assms trust that show ?thesis
      by (simp add: get_auto_grantable_tools_def Let_def)
  qed
qed

lemma granted_by_built_token:
  assumes "vd_error (check_tool_capability env' (build_token env r u a mode ts cs) r' u' tool) = None"
  shows "tool \<in> set ts"
proof -
  obtain v where v: "validate_token env' (build_token env r u a mode ts cs) r' u' = Inr v" "tool \<in> set (vl_granted_tools v)"
    using assms by (auto simp: check_tool_capability_def refusal_def verdict_of_def Let_def split: sum.splits if_splits)
  have "vl_granted_tools v = normalize_tool_list env' (PList (map PStr ts))"
    using v(1) by (auto simp: validate_token_def build_token_def Let_def dict_get_def split: if_splits option.splits)
  with v(2) show ?thesis
    by (auto simp: normalize_tool_list_def)
qed

text \<open>
  C34. Whoever presents a token minted for an automatic approval, whenever and for whichever run and
  user: a tool passes the check only if it is in the plan, its registered risk is low, it is not
  restricted, and the user's trust settings admit it.
\<close>

theorem auto_token_least_privilege:
  assumes mint: "mint_token env r u plan ''auto'' a w = (Some tok, w1)" and keys: "distinct (map fst (ae_tools env))"
    and pass: "vd_error (check_tool_capability env' tok r' u' tool) = None"
  shows "\<exists>steps tools e trust.
    plan_steps plan = Some steps \<and> plan_tools env steps = Some tools \<and> tool \<in> set tools
    \<and> map_of (ae_tools env) tool = Some e \<and> py_lower (te_risk e) = ''low''
    \<and> tool \<notin> set (get_restricted_tools env) \<and> get_trust env u w = Some trust
    \<and> (tool \<in> set (normalize_tool_list env (tr_allowed_auto_grant_tools trust)) \<or> tr_auto_execute_low trust)"
proof -
  obtain steps tools allowed where m: "plan_steps plan = Some steps" "plan_tools env steps = Some tools"
    "get_grantable_tools env plan u ''auto'' w = sorted_set tools"
    "tok = build_token env r u a ''auto'' (sorted_set tools) allowed"
    by (rule mint_token_cases [OF mint]) blast
  have tool: "tool \<in> set tools"
    using granted_by_built_token [OF pass [unfolded m(4)]] by simp
  hence "tool \<in> set (get_auto_grantable_tools env u w) \<and> tool_policy env tool = ''auto_allowed''"
    using m(1-3) by (auto simp: get_grantable_tools_def Let_def list_all_iff split: if_splits)
  hence grant: "tool \<in> set (get_auto_grantable_tools env u w)" and policy: "tool_policy env tool = ''auto_allowed''"
    by simp_all
  obtain e where e: "map_of (ae_tools env) tool = Some e"
    using plan_tools_known [OF m(2) tool] by (auto simp: tool_known_def)
  have low: "py_lower (te_risk e) = ''low''"
    using policy e by (simp add: tool_policy_def get_policy_for_risk_def RISK_POLICY_def split: if_splits)
  obtain trust where trust: "get_trust env u w = Some trust" "tool \<notin> set (get_restricted_tools env)"
    "tool \<in> set (normalize_tool_list env (tr_allowed_auto_grant_tools trust))
     \<or> (\<exists>e'. (tool, e') \<in> set (ae_tools env) \<and> legacy_grantable trust (get_restricted_tools env) (tool, e'))"
    by (rule auto_grantable_safe [OF grant]) blast
  have "te_risk e \<noteq> ''medium''"
    using low by (auto simp: py_lower_def lower_char_def)
  moreover have "e' = e" if "(tool, e') \<in> set (ae_tools env)" for e'
    using map_of_is_SomeI [OF keys that] e by simp
  ultimately have "tool \<in> set (normalize_tool_list env (tr_allowed_auto_grant_tools trust)) \<or> tr_auto_execute_low trust"
    using trust(3) by (auto simp: legacy_grantable_def)
  with m(1, 2) tool e low trust(1, 2) show ?thesis
    by blast
qed

lemma sample_auto_pass:
  "vd_error (check_tool_capability sample_agent_env (sample_minted ''auto'') ''r1'' ''u1'' ''memory.write'') = None"
  by code_simp

theorem auto_token_least_privilege_witness:
  "\<exists>steps tools e trust.
    plan_steps sample_plan = Some steps \<and> plan_tools sample_agent_env steps = Some tools \<and> ''memory.write'' \<in> set tools
    \<and> map_of (ae_tools sample_agent_env) ''memory.write'' = Some e \<and> py_lower (te_risk e) = ''low''
    \<and> ''memory.write'' \<notin> set (get_restricted_tools sample_agent_env)
    \<and> get_trust sample_agent_env ''u1'' (sample_agent_world []) = Some trust
    \<and> (''memory.write'' \<in> set (normalize_tool_list sample_agent_env (tr_allowed_auto_grant_tools trust)) \<or> tr_auto_execute_low trust)"
proof -
  obtain w where mint: "mint_token sample_agent_env ''r1'' ''u1'' sample_plan ''auto'' ''default'' (sample_agent_world []) = (Some (sample_minted ''auto''), w)"
    by (rule sample_minted [of "''auto''"]) auto
  show ?thesis
    by (rule auto_token_least_privilege [OF mint _ sample_auto_pass]) (simp add: sample_tools_def register_tool_def)
qed

section \<open>The hash\<close>

text \<open>
  C36. The hash protects nothing: it has no key, so whoever knows a tool's registered capabilities
  builds a token that opens the tool for any run and user, without a plan, an approval or a grant,
  restricted or not and whatever its risk.
\<close>

theorem forged_token_accepted:
  assumes "iso_times env" "ae_fresh_token env \<noteq> []" "a \<noteq> []"
    and "tool_known env tool" "get_capabilities_for_tool env tool \<noteq> []"
  shows "vd_error (check_tool_capability env
           (build_token env r u a ''manual'' [tool]
              (sorted_set (get_capabilities_for_tool env tool @ get_capabilities_for_agent env a))) r u tool) = None"
proof -
  let ?cs = "sorted_set (get_capabilities_for_tool env tool @ get_capabilities_for_agent env a)"
  have tool: "normalize_tool_list env (PList (map PStr [tool])) = [tool]"
    by (rule normalize_tools_stable) (simp_all add: assms(4))
  have caps: "normalize_capability_list env (PList (map PStr ?cs)) = ?cs"
    by (rule normalize_capabilities_stable) auto
  have here: "at_time (ae_now env) env = env"
    by (simp add: at_time_def ae_now_def)
  have "validate_token env (build_token env r u a ''manual'' [tool] ?cs) r u =
    Inr \<lparr>vl_granted_tools = [tool], vl_allowed_capabilities = ?cs, vl_execution_token = ae_fresh_token env, vl_agent_type = a\<rparr>"
    using validate_built_token [OF assms(1, 2) _ assms(3) tool caps, of "''manual''" "ae_now env" r u r u] here
    by (simp add: TOKEN_TTL_US_def)
  from check_tool_verdict [OF this, of tool] assms(3, 5) show ?thesis
    by simp
qed

theorem forged_token_accepted_witness:
  "vd_error (check_tool_capability sample_agent_env
     (build_token sample_agent_env ''any run'' ''any user'' ''default'' ''manual'' [''wipe'']
        (sorted_set (get_capabilities_for_tool sample_agent_env ''wipe'' @ get_capabilities_for_agent sample_agent_env ''default'')))
     ''any run'' ''any user'' ''wipe'') = None \<and> ''wipe'' \<in> set (get_restricted_tools sample_agent_env)"
proof -
  have known: "tool_known sample_agent_env ''wipe''" "get_capabilities_for_tool sample_agent_env ''wipe'' \<noteq> []"
    by code_simp+
  show ?thesis
    using forged_token_accepted [OF sample_iso_times _ _ known, of "''default''" "''any run''" "''any user''"]
    by (simp add: get_restricted_tools_def)
qed

text \<open>The agent type is not hashed: replacing it in a token changes nothing but the agent type read.\<close>

lemma agent_type_not_protected:
  "validate_token env (PDict (AList.update ''agent_type'' (PStr b) d)) r u =
   map_sum id (\<lambda>v. v\<lparr>vl_agent_type := or_str (Some b) DEFAULT_AGENT_TYPE\<rparr>) (validate_token env (PDict d) r u)"
proof -
  let ?d = "AList.update ''agent_type'' (PStr b) d"
  have field: "dict_get k (PDict ?d) = (if k = ''agent_type'' then PStr b else dict_get k (PDict d))" for k
    by (simp add: dict_get_def update_conv')
  have entry: "map_of ?d k = (if k = ''agent_type'' then Some (PStr b) else map_of d k)" for k
    by (simp add: update_conv')
  show ?thesis
    unfolding validate_token_def Let_def pyval.case field entry
    by (simp add: or_str_def split: pyval.split option.split)
qed

text \<open>The joined texts are ambiguous: two different grants can have one payload, hence one hash.\<close>

lemma token_payload_ambiguous:
  "token_payload r u e i x m [''a'', ''b''] cs = token_payload r u e i x m [''a,b''] cs"
  by (simp add: token_payload_def)

section \<open>The tool boundary\<close>

text \<open>Recording the audit event changes nothing a tool acts on; when it succeeds, the event is queued or committed.\<close>

lemma flow_event_ext [simp]: "fl_ext (snd (flow_event env ty tr w)) = fl_ext w"
  by (simp add: flow_event_def store_event_def fl_commit_def fl_draw_def fl_work_def fl_rollback_def
      split: list.split bool.split)

lemma flow_event_recorded:
  assumes "flow_event env ty tr w = (Inr b, w1)" "fe_pipeline env \<or> fe_fail_closed env"
  shows "(ty, tr) \<in> set (fl_signals w1) \<or> (ty, tr) \<in> set (fd_events (committed (fl_db w1)))"
  using assms
  by (auto simp: flow_event_def store_event_def fl_commit_def fl_draw_def fl_work_def flush_with_def commit_session_def
      split: list.splits bool.splits if_splits prod.splits)



text \<open>Without a run and a token nothing is checked and nothing recorded.\<close>

lemma unscoped_call_unchecked:
  "map_of (ae_tools env) tool = Some entry \<Longrightarrow> execute_tool env tool args u [] PNone w = call_tool entry tool args u w"
  by (simp add: execute_tool_def)

text \<open>
  An allow list that is empty, or names unregistered tools only, counts as absent: the deprecated flags
  decide.
\<close>

lemma empty_allowlist_ignored:
  assumes "get_trust env u w = Some trust" "tr_allowed_auto_grant_tools trust = PList []" "tr_auto_execute_low trust"
    and "(t, e) \<in> set (ae_tools env)" "te_risk e = ''low''" "t \<notin> set (get_restricted_tools env)"
  shows "t \<in> set (get_auto_grantable_tools env u w)"
proof -
  have "legacy_grantable trust (get_restricted_tools env) (t, e)"
    using assms by (simp add: legacy_grantable_def)
  with assms show ?thesis
    by (force simp: get_auto_grantable_tools_def normalize_tool_list_def texts_of_def)
qed

section \<open>The mappings\<close>

definition row_synced :: "(string, capability_row) dict \<Rightarrow> string \<times> cap_meta \<Rightarrow> bool" where
  "row_synced tbl d = (\<exists>row. map_of tbl (fst d) = Some row \<and> cp_description row = cm_description (snd d) \<and> cp_risk_level row = cm_risk_level (snd d))"

lemma sync_rows_stable: "\<forall>d \<in> set ds. row_synced tbl d \<Longrightarrow> sync_rows env ds (b, tbl) = (b, tbl)"
  by (induction ds) (auto simp: row_synced_def)

lemma sync_one:
  assumes "sync_rows env [d] (b, tbl) = (b1, tbl1)"
  shows "row_synced tbl1 d \<and> (\<forall>k. k \<noteq> fst d \<longrightarrow> map_of tbl1 k = map_of tbl k)"
  using assms by (cases d) (auto simp: row_synced_def update_conv' split: option.splits if_splits)

lemma sync_rows_synced:
  assumes "sync_rows env ds (b, tbl) = (b', tbl')" "distinct (map fst ds)"
  shows "(\<forall>d \<in> set ds. row_synced tbl' d) \<and> (\<forall>n. n \<notin> fst ` set ds \<longrightarrow> map_of tbl' n = map_of tbl n)"
  using assms
proof (induction ds arbitrary: b tbl)
  case (Cons d ds)
  obtain b1 tbl1 where step: "sync_rows env [d] (b, tbl) = (b1, tbl1)"
    by fastforce
  hence "sync_rows env ds (b1, tbl1) = (b', tbl')"
    using Cons.prems(1) by (cases d) (auto split: option.splits if_splits)
  with Cons.IH Cons.prems(2) sync_one [OF step] show ?case
    by (fastforce simp: row_synced_def)
qed simp

lemma sync_catalog_tables:
  "tables (sync_capability_catalog env w) =
     (tables w)\<lparr>at_capabilities := snd (sync_rows env (get_capability_definitions env) (False, at_capabilities (tables w)))\<rparr>"
  by (simp add: sync_capability_catalog_def tables_def edit_tables_def fl_work_def flush_with_def fl_commit_def fl_draw_def
      commit_session_def Let_def split: prod.split list.split bool.split)

lemma edit_tables_id: "f (tables w) = tables w \<Longrightarrow> edit_tables f w = w"
  by (simp add: edit_tables_def tables_def fl_work_def flush_with_def)

lemma sync_catalog_idem:
  assumes "distinct (map fst (get_capability_definitions env))"
    "at_capabilities (tables w1) = at_capabilities (tables (sync_capability_catalog env w))"
  shows "sync_capability_catalog env w1 = w1"
proof -
  obtain b tbl where sync: "sync_rows env (get_capability_definitions env) (False, at_capabilities (tables w)) = (b, tbl)"
    by fastforce
  hence caps: "at_capabilities (tables w1) = tbl"
    by (simp add: assms(2) sync_catalog_tables)
  have "sync_rows env (get_capability_definitions env) (False, tbl) = (False, tbl)"
    using sync_rows_synced [OF sync assms(1)] by (blast intro: sync_rows_stable)
  thus ?thesis
    by (simp add: sync_capability_catalog_def caps edit_tables_id)
qed

definition mapping_keys :: "(string, capability_row) dict \<Rightarrow> string \<Rightarrow> string \<Rightarrow> string list \<Rightarrow> (string \<times> string \<times> string) set" where
  "mapping_keys tbl r a cs =
     {k. \<exists>c row. c \<in> set cs \<and> map_of tbl c = Some row \<and> (k = (cp_id row, a, []) \<and> a \<noteq> [] \<or> k = (cp_id row, [], r) \<and> r \<noteq> [])}"

lemma mapping_keys_Cons:
  "mapping_keys tbl r a (c # cs) =
     (case map_of tbl c of
        None \<Rightarrow> {}
      | Some row \<Rightarrow> {k. k = (cp_id row, a, []) \<and> a \<noteq> [] \<or> k = (cp_id row, [], r) \<and> r \<noteq> []}) \<union> mapping_keys tbl r a cs"
  by (auto simp: mapping_keys_def split: option.split)

lemma add_run_mappings_stable: "mapping_keys tbl r a cs \<subseteq> set keys \<Longrightarrow> add_run_mappings env tbl r a cs (keys, ms) = (keys, ms)"
  by (induction cs) (auto simp: mapping_keys_def add_mapping_def split: option.split)

lemma add_mapping_keys:
  assumes "add_mapping b k m (keys, ms) = (keys1, ms1)" "set keys = mapping_key ` set ms" "mapping_key m = k"
  shows "set keys1 = mapping_key ` set ms1 \<and> set keys \<subseteq> set keys1 \<and> (b \<longrightarrow> k \<in> set keys1)"
  using assms by (auto simp: add_mapping_def split: if_splits)

lemma add_run_mappings_keys:
  assumes "add_run_mappings env tbl r a cs (keys, ms) = (keys1, ms1)" "set keys = mapping_key ` set ms" "db_id env r = r"
  shows "set keys1 = mapping_key ` set ms1 \<and> set keys \<subseteq> set keys1 \<and> mapping_keys tbl r a cs \<subseteq> set keys1"
  using assms
proof (induction cs arbitrary: keys ms)
  case (Cons c cs)
  show ?case
  proof (cases "map_of tbl c")
    case None
    with Cons.IH [OF _ Cons.prems(2, 3)] Cons.prems(1) show ?thesis
      by (auto simp: mapping_keys_Cons)
  next
    case (Some row)
    obtain keys2 ms2 where first: "add_mapping (a \<noteq> []) (cp_id row, a, [])
      \<lparr>mp_capability_id = cp_id row, mp_agent_type = Some a, mp_agent_run_id = None\<rparr> (keys, ms) = (keys2, ms2)"
      by fastforce
    obtain keys3 ms3 where second: "add_mapping (r \<noteq> []) (cp_id row, [], r)
      \<lparr>mp_capability_id = cp_id row, mp_agent_type = None, mp_agent_run_id = Some r\<rparr> (keys2, ms2) = (keys3, ms3)"
      by fastforce
    have key: "mapping_key \<lparr>mp_capability_id = i, mp_agent_type = x, mp_agent_run_id = y\<rparr> = (i, or_str x [], or_str y [])"
      "or_str (Some t) [] = t" "or_str None [] = []" for i x y t
      by (simp_all add: mapping_key_def or_str_def)
    have k2: "set keys2 = mapping_key ` set ms2" "set keys \<subseteq> set keys2" "a \<noteq> [] \<longrightarrow> (cp_id row, a, []) \<in> set keys2"
      using add_mapping_keys [OF first Cons.prems(2)] by (auto simp: key)
    have k3: "set keys3 = mapping_key ` set ms3" "set keys2 \<subseteq> set keys3" "r \<noteq> [] \<longrightarrow> (cp_id row, [], r) \<in> set keys3"
      using add_mapping_keys [OF second k2(1)] by (auto simp: key)
    have "add_run_mappings env tbl r a cs (keys3, ms3) = (keys1, ms1)"
      using Cons.prems(1, 3) Some first second by simp
    note rest = Cons.IH [OF this k3(1) Cons.prems(3)]
    have "mapping_keys tbl r a (c # cs) \<subseteq> set keys3 \<union> set keys1"
      using rest k2(3) k3(2, 3) Some unfolding mapping_keys_Cons by auto
    with rest k2(2) k3(2) show ?thesis
      by blast
  qed
qed (simp add: mapping_keys_def)

text \<open>
  Recording the capabilities of a run is idempotent: repeating it changes neither the catalogue nor
  the mappings, and writes nothing.
\<close>

theorem mappings_idempotent:
  assumes "distinct (map fst (get_capability_definitions env))" "db_id env r = r"
  shows "create_run_capability_mappings env r a cs (create_run_capability_mappings env r a cs w) =
         create_run_capability_mappings env r a cs w"
proof -
  define w1 where "w1 = sync_capability_catalog env w"
  define tbl where "tbl = at_capabilities (tables w1)"
  define ms where "ms = at_mappings (tables w1)"
  obtain keys' ms' where add: "add_run_mappings env tbl r a cs (map mapping_key ms, ms) = (keys', ms')"
    by fastforce
  define w2 where "w2 = (if tbl = [] then w1 else edit_tables (\<lambda>t. t\<lparr>at_mappings := ms'\<rparr>) w1)"
  have result: "create_run_capability_mappings env r a cs w = w2"
    using add by (simp add: create_run_capability_mappings_def w2_def tbl_def ms_def w1_def Let_def)
  have view: "at_capabilities (tables w2) = tbl" "tbl \<noteq> [] \<Longrightarrow> at_mappings (tables w2) = ms'"
    by (simp_all add: w2_def tbl_def tables_def edit_tables_def fl_work_def flush_with_def)
  have sync: "sync_capability_catalog env w2 = w2"
    using view(1) by (intro sync_catalog_idem [OF assms(1), of _ w]) (simp add: tbl_def w1_def)
  have "add_run_mappings env tbl r a cs (map mapping_key ms', ms') = (map mapping_key ms', ms')"
    using add_run_mappings_keys [OF add _ assms(2)] by (intro add_run_mappings_stable) auto
  hence "create_run_capability_mappings env r a cs w2 = w2"
    using view by (simp add: create_run_capability_mappings_def sync Let_def edit_tables_id)
  with result show ?thesis
    by simp
qed

theorem mappings_idempotent_witness:
  "create_run_capability_mappings sample_agent_env ''r1'' ''default'' [''read_memory'']
     (create_run_capability_mappings sample_agent_env ''r1'' ''default'' [''read_memory''] (sample_agent_world [])) =
   create_run_capability_mappings sample_agent_env ''r1'' ''default'' [''read_memory''] (sample_agent_world []) \<and>
   length (at_mappings (tables (create_run_capability_mappings sample_agent_env ''r1'' ''default'' [''read_memory''] (sample_agent_world [])))) = 2"
proof -
  have "length (at_mappings (tables (create_run_capability_mappings sample_agent_env ''r1'' ''default'' [''read_memory''] (sample_agent_world [])))) = 2"
    by code_simp
  thus ?thesis
    using mappings_idempotent [of sample_agent_env "''r1''" "''default''" "[''read_memory'']" "sample_agent_world []"]
    by (simp add: get_capability_definitions_def)
qed

end
