(* ===== verification/Agent_Flow.thy ===== *)
theory Agent_Flow
  imports Capability_Service
begin

text \<open>
  The execution of an agent's plan: the three nodes and the graph of \<^verbatim>\<open>AINDY/runtime/nodus_adapter.py\<close>, which
  the flow engine runs, and \<^verbatim>\<open>execute_agent_flow_orchestration\<close> of \<^verbatim>\<open>nodus_execution_service.py\<close> around them.

  The state of the flow is the dictionary the nodes read and patch. Its step index and results are
  written by the nodes only, so the index is never negative and the results are a list; the identifiers
  of the run and the user are texts. The trace of the context is the one the runner left in the state.
  The memories recalled for a tool only enrich the context, which no tool is given.
\<close>

section \<open>Messages\<close>

definition quoted :: "string \<Rightarrow> string" where
  "quoted t = CHR 0x27 # t @ [CHR 0x27]"

fun token_error_text :: "token_error \<Rightarrow> string" where
  "token_error_text Missing_token = ''missing capability token''"
| "token_error_text Run_mismatch = ''token run mismatch''"
| "token_error_text User_mismatch = ''token user mismatch''"
| "token_error_text Missing_execution_token = ''missing execution token''"
| "token_error_text Invalid_approval_mode = ''invalid approval mode''"
| "token_error_text Incomplete_token = ''incomplete capability token''"
| "token_error_text Invalid_expiry = ''invalid token expiry''"
| "token_error_text Token_expired = ''capability token expired''"
| "token_error_text Hash_mismatch = ''capability token hash mismatch''"
| "token_error_text Validation_failed = ''token validation failed''"
| "token_error_text (Tool_not_granted t) = ''tool '' @ quoted t @ '' not granted by capability token''"
| "token_error_text (Capability_not_granted c) = ''capability '' @ quoted c @ '' not granted by execution token''"
| "token_error_text (No_capability_mapping t) = ''tool '' @ quoted t @ '' has no registered capability mapping''"

fun tool_error_text :: "tool_error \<Rightarrow> string" where
  "tool_error_text (Tool_not_found t) = ''Tool '' @ quoted t @ '' not found in registry''"
| "tool_error_text Token_required = ''capability token is required for agent run tool execution''"
| "tool_error_text Run_required = ''run_id is required when execution_token is supplied''"
| "tool_error_text (Tool_denied e) = token_error_text e"
| "tool_error_text Enforcement_failed = ''capability enforcement failed''"
| "tool_error_text (Tool_raised e) = e"

section \<open>Reading the state\<close>

text \<open>
  The value whose \<open>len\<close> is taken and whose elements are steps; \<open>None\<close> when \<open>len\<close> raises. An element of a
  text is a text and a dictionary has no key that is a number: neither is a step.
\<close>

definition elements :: "pyval \<Rightarrow> pyval list option" where
  "elements v =
     (case v of
        PList xs \<Rightarrow> Some xs
      | PStr s \<Rightarrow> Some (map (\<lambda>c. PStr [c]) s)
      | PDict d \<Rightarrow> Some (map (\<lambda>_. PNone) d)
      | _ \<Rightarrow> None)"

definition state_get :: "string \<Rightarrow> pyval \<Rightarrow> flow_state \<Rightarrow> pyval" where
  "state_get k dflt st = (case map_of st k of None \<Rightarrow> dflt | Some v \<Rightarrow> v)"

definition state_steps :: "flow_state \<Rightarrow> pyval list option" where
  "state_steps st = elements (state_get ''steps'' (PList []) st)"

definition state_index :: "flow_state \<Rightarrow> nat option" where
  "state_index st = (case state_get ''current_step_index'' (PInt 0) st of PInt i \<Rightarrow> Some (nat i) | _ \<Rightarrow> None)"

definition state_text :: "string \<Rightarrow> flow_state \<Rightarrow> string" where
  "state_text k st = text_or (state_get k PNone st) []"

definition state_results :: "flow_state \<Rightarrow> pyval list" where
  "state_results st = (case state_get ''step_results'' (PList []) st of PList xs \<Rightarrow> xs | _ \<Rightarrow> [])"

definition state_token :: "flow_state \<Rightarrow> pyval" where
  "state_token st =
     (let token = state_get ''execution_token'' PNone st
      in if py_truthy token then token else state_get ''capability_token'' PNone st)"

text \<open>The trace of a step's events, and that of an agent event, which prefers the context's.\<close>

definition state_trace :: "flow_state \<Rightarrow> string option" where
  "state_trace st = or_none (Some (text_or (state_get ''correlation_id'' PNone st) (state_text ''trace_id'' st)))"

definition agent_event_trace :: "string option \<Rightarrow> string option \<Rightarrow> string \<Rightarrow> string option" where
  "agent_event_trace ctx corr r = Some (or_str ctx (or_str corr r))"

definition state_event_trace :: "flow_state \<Rightarrow> string option" where
  "state_event_trace st =
     agent_event_trace (Some (state_text ''trace_id'' st)) (Some (state_text ''correlation_id'' st)) (state_text ''agent_run_id'' st)"

definition step_field :: "agent_env \<Rightarrow> string \<Rightarrow> string \<Rightarrow> pyval \<Rightarrow> string" where
  "step_field env k dflt step =
     (case step of PDict d \<Rightarrow> (case map_of d k of None \<Rightarrow> dflt | Some v \<Rightarrow> str_of env v) | _ \<Rightarrow> dflt)"

definition step_args :: "pyval \<Rightarrow> pyval" where
  "step_args step = (case step of PDict d \<Rightarrow> (case map_of d ''args'' of None \<Rightarrow> PDict [] | Some v \<Rightarrow> v) | _ \<Rightarrow> PDict [])"

section \<open>Nodes\<close>

definition node_done :: "agent_env \<Rightarrow> string \<Rightarrow> string option \<Rightarrow> flow_state \<Rightarrow> node_result" where
  "node_done env status err patch =
     \<lparr>nr_status = Some status, nr_patch = patch, nr_error = err, nr_wait_for = None, nr_execution_time_ms = ae_node_ms env\<rparr>"

definition agent_validate_steps :: "agent_env \<Rightarrow> (agent_ext, agent_tables) node_fn" where
  "agent_validate_steps env st a w =
     ((Returns
         (if \<not> py_truthy (state_get ''steps'' (PList []) st)
          then node_done env ''FAILURE'' (Some ''Plan has no steps to execute'') []
          else node_done env ''SUCCESS'' None [(''current_step_index'', PInt 0), (''step_results'', PList [])]), st), w)"

definition step_result :: "nat \<Rightarrow> string \<Rightarrow> string \<Rightarrow> pyval \<Rightarrow> pyval \<Rightarrow> pyval" where
  "step_result idx tool status result err =
     PDict [(''step_index'', PInt (int idx)), (''tool'', PStr tool), (''status'', PStr status), (''result'', result), (''error'', err)]"

text \<open>The audit row of a step and the progress of its run, in one commit; \<open>False\<close> is the exception.\<close>

definition record_agent_step :: "string \<Rightarrow> nat \<Rightarrow> string \<Rightarrow> string \<Rightarrow> pyval \<Rightarrow> pyval \<Rightarrow> agent_world \<Rightarrow> bool \<times> agent_world" where
  "record_agent_step r idx tool status result err w =
     fl_commit
       (edit_agent_run r (\<lambda>row. row\<lparr>ar_steps_completed := int idx + 1, ar_current_step := int idx + 1\<rparr>)
         (edit_tables (\<lambda>t. t\<lparr>at_steps := at_steps t @
            [\<lparr>as_run_id = r, as_step_index = int idx, as_tool_name = PStr tool, as_status = status,
              as_result = result, as_error_message = err\<rparr>]\<rparr>) w))"

fun emit_events :: "agent_env \<Rightarrow> string list \<Rightarrow> string option \<Rightarrow> agent_world \<Rightarrow> bool \<times> agent_world" where
  "emit_events env [] trace w = (True, w)"
| "emit_events env (ty # tys) trace w =
     (case flow_event (ae_flow env) ty trace w of
        (Inl _, w1) \<Rightarrow> (False, w1)
      | (Inr _, w1) \<Rightarrow> emit_events env tys trace w1)"

definition raised :: "flow_state \<Rightarrow> agent_world \<Rightarrow> (node_result outcome \<times> flow_state) \<times> agent_world" where
  "raised st w = ((Raises ''step could not be recorded'', st), w)"

definition step_denied ::
    "agent_env \<Rightarrow> flow_state \<Rightarrow> nat \<Rightarrow> string \<Rightarrow> token_error \<Rightarrow> agent_world \<Rightarrow> (node_result outcome \<times> flow_state) \<times> agent_world" where
  "step_denied env st idx tool e w =
     (let r = state_text ''agent_run_id'' st;
          msg = ''Capability denied for step '' @ str_of env (PInt (int idx)) @ '' ('' @ tool @ ''): '' @ token_error_text e
      in case record_agent_step (db_id env r) idx tool ''failed'' PNone (PStr msg) w of
           (False, w1) \<Rightarrow> raised st w1
         | (True, w1) \<Rightarrow>
             (case record_agent_event env r ''CAPABILITY_DENIED'' (state_event_trace st) w1 of
                (False, w2) \<Rightarrow> raised st w2
              | (True, w2) \<Rightarrow>
                  (case emit_events env [''agent.step'', ''agent.step.failed''] (state_trace st) w2 of
                     (False, w3) \<Rightarrow> raised st w3
                   | (True, w3) \<Rightarrow>
                       ((Returns (node_done env ''FAILURE'' (Some msg)
                           [(''step_results'', PList (state_results st @ [step_result idx tool ''failed'' PNone (PStr msg)]))]), st), w3))))"

text \<open>The attempts of one step: a failed one is repeated while any are left, unless the risk is high.\<close>

fun attempt_tool ::
    "agent_env \<Rightarrow> retry_policy \<Rightarrow> string \<Rightarrow> pyval \<Rightarrow> string \<Rightarrow> string \<Rightarrow> pyval \<Rightarrow> nat \<Rightarrow> agent_world \<Rightarrow>
     (tool_error + pyval) option \<times> agent_world" where
  "attempt_tool env policy tool args u r token 0 w = execute_tool env tool args u r token w"
| "attempt_tool env policy tool args u r token (Suc left) w =
     (case execute_tool env tool args u r token w of
        (Some (Inl e), w1) \<Rightarrow>
          if high_risk_immediate_fail policy then (Some (Inl e), w1)
          else attempt_tool env policy tool args u r token left w1
      | (res, w1) \<Rightarrow> (res, w1))"

definition step_failure_text :: "agent_env \<Rightarrow> nat \<Rightarrow> string \<Rightarrow> string \<Rightarrow> int \<Rightarrow> string \<Rightarrow> string" where
  "step_failure_text env idx tool risk attempts msg =
     ''Step '' @ str_of env (PInt (int idx)) @ '' ('' @ tool @ '', '' @ risk @ '') failed''
     @ (if risk = ''high'' then [] else '' after '' @ str_of env (PInt attempts) @ '' attempt(s)'') @ '': '' @ msg"

definition step_executed ::
    "agent_env \<Rightarrow> flow_state \<Rightarrow> nat \<Rightarrow> string \<Rightarrow> string \<Rightarrow> int \<Rightarrow> tool_error + pyval \<Rightarrow> agent_world \<Rightarrow>
     (node_result outcome \<times> flow_state) \<times> agent_world" where
  "step_executed env st idx tool risk attempts res w =
     (let (status, result, err) =
        (case res of Inr v \<Rightarrow> (''success'', v, PNone) | Inl e \<Rightarrow> (''failed'', PNone, PStr (tool_error_text e)));
          results = PList (state_results st @ [step_result idx tool status result err])
      in case record_agent_step (db_id env (state_text ''agent_run_id'' st)) idx tool status result err w of
           (False, w1) \<Rightarrow> raised st w1
         | (True, w1) \<Rightarrow>
             (case emit_events env [''agent.step'', if status = ''success'' then ''agent.step.completed'' else ''agent.step.failed'']
                     (state_trace st) w1 of
                (False, w2) \<Rightarrow> raised st w2
              | (True, w2) \<Rightarrow>
                  ((Returns
                      (case res of
                         Inr _ \<Rightarrow> node_done env ''SUCCESS'' None
                                   [(''current_step_index'', PInt (int idx + 1)), (''step_results'', results)]
                       | Inl e \<Rightarrow> node_done env ''FAILURE'' (Some (step_failure_text env idx tool risk attempts (tool_error_text e)))
                                   [(''step_results'', results)]), st), w2)))"

text \<open>Without a token in the state the check is skipped here and repeated by \<^verbatim>\<open>execute_tool\<close>.\<close>

definition step_verdict :: "agent_env \<Rightarrow> flow_state \<Rightarrow> string \<Rightarrow> token_error option" where
  "step_verdict env st tool =
     (if map_of st ''execution_token'' = None \<and> map_of st ''capability_token'' = None then None
      else vd_error (check_tool_capability env (state_token st) (state_text ''agent_run_id'' st)
                       (state_text ''user_id'' st) tool))"

definition run_step :: "agent_env \<Rightarrow> flow_state \<Rightarrow> nat \<Rightarrow> pyval \<Rightarrow> agent_world \<Rightarrow> (node_result outcome \<times> flow_state) \<times> agent_world" where
  "run_step env st idx step w =
     (let tool = step_field env ''tool'' [] step;
          risk = step_field env ''risk_level'' ''high'' step;
          policy = resolve_retry_policy (Some ''agent'') (Some risk) None None
      in case step_verdict env st tool of
           Some e \<Rightarrow> step_denied env st idx tool e w
         | None \<Rightarrow>
             (case attempt_tool env policy tool (step_args step) (state_text ''user_id'' st)
                     (state_text ''agent_run_id'' st) (state_token st) (nat (max_attempts policy - 1)) w of
                (None, w1) \<Rightarrow> ((Interrupts, st), w1)
              | (Some res, w1) \<Rightarrow> step_executed env st idx tool risk (max_attempts policy) res w1))"

definition agent_execute_step :: "agent_env \<Rightarrow> (agent_ext, agent_tables) node_fn" where
  "agent_execute_step env st a w =
     (case (state_steps st, state_index st) of
        (Some steps, Some idx) \<Rightarrow>
          if length steps \<le> idx then ((Returns (node_done env ''SUCCESS'' None []), st), w)
          else if \<not> is_dict (steps ! idx) then ((Raises ''step is no dictionary'', st), w)
          else if map_of st ''agent_run_id'' = None \<or> map_of st ''user_id'' = None then ((Raises ''missing key'', st), w)
          else run_step env st idx (steps ! idx) w
      | _ \<Rightarrow> ((Raises ''malformed state'', st), w))"

definition completed_result :: "pyval list \<Rightarrow> pyval list \<Rightarrow> pyval" where
  "completed_result results hooks =
     PDict [(''steps'', PList results), (''loop_enforced'', PBool (hooks \<noteq> [])),
            (''next_action'', case find is_dict hooks of None \<Rightarrow> PNone | Some d \<Rightarrow> dict_get ''next_action'' d)]"

text \<open>The row, when the query before the handlers found it, then the event; a handler that raises fails the node.\<close>

definition finish_agent_run ::
    "agent_env \<Rightarrow> flow_state \<Rightarrow> bool \<Rightarrow> pyval \<Rightarrow> agent_world \<Rightarrow> (node_result outcome \<times> flow_state) \<times> agent_world" where
  "finish_agent_run env st found payload w =
     (let r = state_text ''agent_run_id'' st;
          w0 = edit_agent_run (db_id env r)
                 (\<lambda>row. row\<lparr>ar_status := ''completed'', ar_completed_at := Some (ae_now env), ar_result := payload\<rparr>) w
      in case (if found then fl_commit w0 else (True, w)) of
           (False, w1) \<Rightarrow> raised st w1
         | (True, w1) \<Rightarrow>
             (case record_agent_event env r ''COMPLETED'' (state_event_trace st) w1 of
                (False, w2) \<Rightarrow> raised st w2
              | (True, w2) \<Rightarrow> ((Returns (node_done env ''SUCCESS'' None [(''finalized'', PBool True)]), st), w2)))"

definition agent_finalize_run :: "agent_env \<Rightarrow> (agent_ext, agent_tables) node_fn" where
  "agent_finalize_run env st a w =
     (let results = state_results st;
          found = (agent_run_of (db_id env (state_text ''agent_run_id'' st)) w \<noteq> None)
      in if map_of st ''agent_run_id'' = None then ((Raises ''missing key'', st), w)
         else if found \<and> state_text ''user_id'' st \<noteq> []
         then (case ae_completed_hooks env results w of
                 (Returns hooks, w1) \<Rightarrow> finish_agent_run env st found (completed_result results hooks) w1
               | (Raises e, w1) \<Rightarrow> ((Raises e, st), w1)
               | (Interrupts, w1) \<Rightarrow> ((Interrupts, st), w1))
         else finish_agent_run env st found (PDict [(''steps'', PList results)]) w)"

section \<open>The graph\<close>

definition more_steps :: "flow_state \<Rightarrow> bool option" where
  "more_steps st =
     (case (state_steps st, state_index st) of (Some steps, Some idx) \<Rightarrow> Some (idx < length steps) | _ \<Rightarrow> None)"

definition AGENT_FLOW :: flow_graph where
  "AGENT_FLOW =
     \<lparr>fg_start = ''agent_validate_steps'',
      fg_edges = [(''agent_validate_steps'', [Plain ''agent_execute_step'']),
                  (''agent_execute_step'', [Conditional more_steps ''agent_execute_step'', Conditional (\<lambda>_. Some True) ''agent_finalize_run'']),
                  (''agent_finalize_run'', [])],
      fg_end = [''agent_finalize_run''], fg_max_retries = [], fg_wait_timeout_minutes = None\<rparr>"

definition agent_nodes_env :: "agent_env \<Rightarrow> agent_flow_env" where
  "agent_nodes_env env =
     register_node ''agent_finalize_run'' (agent_finalize_run env)
       (register_node ''agent_execute_step'' (agent_execute_step env)
         (register_node ''agent_validate_steps'' (agent_validate_steps env) (ae_flow env)))"

section \<open>Orchestration\<close>

definition stored_step_results :: "string \<Rightarrow> agent_world \<Rightarrow> pyval list" where
  "stored_step_results r w =
     map (\<lambda>s. PDict [(''step_index'', PInt (as_step_index s)), (''tool'', as_tool_name s), (''status'', PStr (as_status s)),
                     (''result'', as_result s), (''error'', as_error_message s)])
       (sort_key as_step_index (filter (\<lambda>s. as_run_id s = r) (at_steps (tables w))))"

definition fail_executing ::
    "agent_env \<Rightarrow> pyval \<Rightarrow> pyval list \<Rightarrow> agent_run \<Rightarrow> agent_run" where
  "fail_executing env msg results row =
     (if ar_status row = ''executing''
      then row\<lparr>ar_status := ''failed'', ar_completed_at := Some (ae_now env), ar_error_message := msg,
               ar_result := PDict [(''steps'', PList results)]\<rparr>
      else row)"

text \<open>\<^verbatim>\<open>(plan or {}).get(key, default)\<close>; \<open>None\<close> when the plan has no \<open>get\<close>.\<close>

definition plan_get :: "string \<Rightarrow> pyval \<Rightarrow> pyval \<Rightarrow> pyval option" where
  "plan_get k dflt plan =
     (if \<not> py_truthy plan then Some dflt
      else case plan of PDict d \<Rightarrow> Some (state_get k dflt d) | _ \<Rightarrow> None)"

definition agent_initial_state :: "string \<Rightarrow> string \<Rightarrow> pyval \<Rightarrow> pyval \<Rightarrow> string option \<Rightarrow> pyval \<Rightarrow> flow_state" where
  "agent_initial_state r u steps memory corr token =
     [(''agent_run_id'', PStr r), (''user_id'', PStr u), (''steps'', steps), (''memory_context'', memory),
      (''current_step_index'', PInt 0), (''step_results'', PList []),
      (''correlation_id'', case corr of None \<Rightarrow> PNone | Some c \<Rightarrow> PStr c), (''execution_token'', token)]"

definition agent_runner :: "string \<Rightarrow> flow_runner" where
  "agent_runner u = new_runner AGENT_FLOW (Some u) ''agent_execution''"

text \<open>The end of the orchestration: the status it answers, or a \<open>BaseException\<close> that passes through.\<close>

datatype orchestration_end = Orchestrated string | Orchestration_cut

definition link_agent_flow :: "agent_env \<Rightarrow> string \<Rightarrow> agent_world \<Rightarrow> bool \<times> agent_world" where
  "link_agent_flow env i w =
     (if agent_run_of i w = None then (True, w)
      else fl_commit (edit_agent_run i (\<lambda>row. row\<lparr>ar_flow_run_id := Some (fe_fresh_run_id (ae_flow env))\<rparr>) w))"

definition fail_agent_run :: "agent_env \<Rightarrow> string \<Rightarrow> agent_world \<Rightarrow> bool \<times> agent_world" where
  "fail_agent_run env i w =
     (case agent_run_of i w of
        None \<Rightarrow> (True, w)
      | Some row \<Rightarrow>
          if ar_status row = ''executing''
          then fl_commit (edit_agent_run i (fail_executing env (PStr ''Flow execution failed'') (stored_step_results i w)) w)
          else (True, w))"

text \<open>
  After the flow: the link from the agent's run to the flow's, then, unless the flow answered success,
  the failure of the run. A response of the flow engine has no key \<^verbatim>\<open>error\<close>, so the message is the
  default of the \<open>get\<close>. An exception makes the status \<^verbatim>\<open>FAILED\<close> and leaves the run as it is.
\<close>

definition close_orchestration :: "agent_env \<Rightarrow> string \<Rightarrow> string \<Rightarrow> agent_world \<Rightarrow> orchestration_end \<times> agent_world" where
  "close_orchestration env r status w =
     (case link_agent_flow env (db_id env r) w of
        (False, w1) \<Rightarrow> (Orchestrated ''FAILED'', w1)
      | (True, w1) \<Rightarrow>
          if status = ''SUCCESS'' then (Orchestrated status, w1)
          else (case fail_agent_run env (db_id env r) w1 of
                  (ok, w2) \<Rightarrow> (Orchestrated (if ok then status else ''FAILED''), w2)))"

text \<open>The refusal: the failure of the run is stored by the commits of the events.\<close>

definition deny_orchestration ::
    "agent_env \<Rightarrow> string \<Rightarrow> string option \<Rightarrow> string \<Rightarrow> agent_world \<Rightarrow> orchestration_end \<times> agent_world" where
  "deny_orchestration env r corr msg w =
     (case flow_event (ae_flow env) ''capability.denied'' corr
             (edit_agent_run (db_id env r) (fail_executing env (PStr msg) []) w) of
        (Inl _, w1) \<Rightarrow> (Orchestrated ''FAILED'', w1)
      | (Inr _, w1) \<Rightarrow>
          (Orchestrated ''FAILED'',
           snd (record_agent_event env r ''CAPABILITY_DENIED'' (agent_event_trace (fe_ctx_trace_id (ae_flow env)) corr r) w1)))"

definition run_agent_flow ::
    "agent_env \<Rightarrow> string \<Rightarrow> string \<Rightarrow> flow_state \<Rightarrow> agent_world \<Rightarrow> (orchestration_end \<times> agent_world) option" where
  "run_agent_flow env r u st w =
     (case start_flow (agent_nodes_env env) (agent_runner u) ''agent_execution'' st w of
        None \<Rightarrow> None
      | Some (Inr rsp, w1) \<Rightarrow> Some (close_orchestration env r (rsp_status rsp) w1)
      | Some (Inl x, w1) \<Rightarrow>
          Some (if x = Node_interrupted then Orchestration_cut else Orchestrated ''FAILED'', w1))"

definition flow_refusal :: "agent_env \<Rightarrow> string \<Rightarrow> string \<Rightarrow> pyval \<Rightarrow> string option" where
  "flow_refusal env r u token =
     (if token = PNone then Some ''missing scoped capability token''
      else map_option token_error_text (vd_error (check_execution_capability env token r u ''execute_flow'')))"

definition execute_agent_flow_orchestration ::
    "agent_env \<Rightarrow> string \<Rightarrow> pyval \<Rightarrow> string \<Rightarrow> string option \<Rightarrow> pyval \<Rightarrow> pyval \<Rightarrow> agent_world \<Rightarrow>
     (orchestration_end \<times> agent_world) option" where
  "execute_agent_flow_orchestration env r plan u corr execution_token capability_token w =
     (case (plan_get ''steps'' (PList []) plan, plan_get ''memory_context'' (PDict []) plan) of
        (Some steps, Some memory) \<Rightarrow>
          (let token = (if py_truthy execution_token then execution_token else capability_token)
           in case flow_refusal env r u token of
                Some msg \<Rightarrow> Some (deny_orchestration env r corr msg w)
              | None \<Rightarrow>
                  (case flow_event (ae_flow env) ''capability.allowed'' corr w of
                     (Inl _, w1) \<Rightarrow> Some (Orchestrated ''FAILED'', w1)
                   | (Inr _, w1) \<Rightarrow>
                       if elements steps = None then Some (Orchestrated ''FAILED'', w1)
                       else run_agent_flow env r u (agent_initial_state r u steps memory corr token) w1))
      | _ \<Rightarrow> Some (Orchestrated ''FAILED'', w))"

text \<open>The adapter is the compatibility wrapper, so the entry point calls the orchestration itself.\<close>

definition execute_agent_run_via_nodus ::
    "agent_env \<Rightarrow> string \<Rightarrow> pyval \<Rightarrow> string \<Rightarrow> string option \<Rightarrow> pyval \<Rightarrow> pyval \<Rightarrow> agent_world \<Rightarrow>
     (orchestration_end \<times> agent_world) option" where
  "execute_agent_run_via_nodus = execute_agent_flow_orchestration"

end
