(* ===== verification/Agent_Execution.thy ===== *)
theory Agent_Execution
  imports Flow_Slots Capability_Tokens Agent_Flow
begin

text \<open>
  Agent plans run by the flow engine: the agents' graph has a cycle, and its nodes still bring every
  execution to an end; no tool is called that the token of the run does not grant; a plan of succeeding
  tools is executed step by step and completes its run.
\<close>

section \<open>What the engine keeps of the applications' state\<close>

definition hooks_keep :: "('e \<Rightarrow> bool) \<Rightarrow> ('e, 't) flow_env \<Rightarrow> bool" where
  "hooks_keep Q env = (\<forall>n e. Q e \<longrightarrow> Q (fe_hook env n e))"

lemma ext_kept [simp]:
  "fl_ext (fl_work f w) = fl_ext w" "fl_ext (edit_run r g w) = fl_ext w" "fl_ext (fl_rollback w) = fl_ext w"
  "fl_ext (add_history r n s snap res w) = fl_ext w" "fl_ext (set_unit_status env rn r s w) = fl_ext w"
  "fl_ext (release_slot env rn w) = fl_ext w" "fl_ext (record_resource_usage env rn ms w) = fl_ext w"
  by (simp_all add: fl_work_def edit_run_def fl_rollback_def add_history_def set_unit_status_def release_slot_def
      record_resource_usage_def split: prod.split)

lemma commit_ext: "fl_commit w = (b, w1) \<Longrightarrow> fl_ext w1 = fl_ext w"
  by (rule commit_cases(4))

lemma event_ext: "flow_event env ty trace w = (x, w1) \<Longrightarrow> fl_ext w1 = fl_ext w"
  by (auto simp: flow_event_def store_event_def split: if_splits prod.splits bool.splits dest!: commit_ext)

lemma fail_ext:
  "fail_execution env rn r st err n w = (x, w1) \<Longrightarrow> hooks_keep Q env \<Longrightarrow> Q (fl_ext w) \<Longrightarrow> Q (fl_ext w1)"
  by (auto simp: fail_execution_def hooks_keep_def Let_def split: prod.splits bool.splits sum.splits dest!: commit_ext event_ext)

lemma capture_ext: "capture_flow_completion env rn r w = (x, w1) \<Longrightarrow> fl_ext w1 = fl_ext w"
  by (auto simp: capture_flow_completion_def split: if_splits prod.splits sum.splits dest!: event_ext)

lemma finalize_ext:
  "finalize env rn r st n w = (x, w1) \<Longrightarrow> hooks_keep Q env \<Longrightarrow> Q (fl_ext w) \<Longrightarrow> Q (fl_ext w1)"
  by (auto simp: finalize_def finish_handoff_def finish_success_def hooks_keep_def Let_def
      split: outcome.splits option.splits prod.splits bool.splits sum.splits dest!: commit_ext event_ext capture_ext)

lemma completion_ext:
  "maybe_finalize_completion env rn r st n w = (x, w1) \<Longrightarrow> hooks_keep Q env \<Longrightarrow> Q (fl_ext w) \<Longrightarrow> Q (fl_ext w1)"
  by (auto simp: maybe_finalize_completion_def split: if_splits option.splits prod.splits dest: finalize_ext fail_ext)

lemma park_ext: "park_run env rn r st n ev t w = (b, w1) \<Longrightarrow> fl_ext w1 = fl_ext w"
  by (auto simp: park_run_def split: prod.splits bool.splits sum.splits dest!: commit_ext)

lemma check_ext:
  "check_resources env rn r st n w = (x, w1) \<Longrightarrow> hooks_keep Q env \<Longrightarrow> Q (fl_ext w) \<Longrightarrow> Q (fl_ext w1)"
  by (auto simp: check_resources_def split: prod.splits bool.splits option.splits dest!: park_ext dest: fail_ext)

lemma node_ext:
  assumes "execute_node env n st at w = (e, st1, at1, w1)" and "Q (fl_ext w)"
    and "\<And>f a w. fe_nodes env n = Some f \<Longrightarrow> Q (fl_ext w) \<Longrightarrow> Q (fl_ext (snd (f st a w)))"
  shows "Q (fl_ext w1)"
  using assms(1,2) assms(3) [of _ w "attempts_of at n + 1"]
  by (auto simp: execute_node_def Let_def split: option.splits prod.splits)

lemma current_ext:
  assumes "execute_current_node env rn r st at n w = (x, w1)" and "hooks_keep Q env" and "Q (fl_ext w)"
    and "\<And>f a w. fe_nodes env n = Some f \<Longrightarrow> Q (fl_ext w) \<Longrightarrow> Q (fl_ext (snd (f st a w)))"
  shows "Q (fl_ext w1)"
proof -
  obtain c w2 where c: "check_resources env rn r st n w = (c, w2)" by fastforce
  have Q2: "Q (fl_ext w2)" by (rule check_ext [where Q = Q, OF c assms(2,3)])
  obtain e st1 at1 w3 where e: "execute_node env n st at w2 = (e, st1, at1, w3)" using prod_cases4 by blast
  have Q3: "Q (fl_ext w3)" by (rule node_ext [where Q = Q, OF e Q2]) (rule assms(4))
  show ?thesis using assms(1,2) Q2 Q3 unfolding execute_current_node_def c
    by (auto simp: e queue_node_failure_def split: option.splits node_end.splits prod.splits sum.splits dest!: event_ext dest: fail_ext)
qed

lemma status_ext:
  "handle_node_status env rn r st at n res status w = (e, st1, w1) \<Longrightarrow> hooks_keep Q env \<Longrightarrow> Q (fl_ext w) \<Longrightarrow> Q (fl_ext w1)"
  by (auto simp: handle_node_status_def Let_def finalize_or_go_on_def fail_with_def wait_on_event_def
      split: if_splits prod.splits option.splits sum.splits bool.splits dest!: park_ext event_ext dest: completion_ext fail_ext)

lemma advance_ext:
  "advance_to_next_node env rn r st at n w = (e, w1) \<Longrightarrow> hooks_keep Q env \<Longrightarrow> Q (fl_ext w) \<Longrightarrow> Q (fl_ext w1)"
  by (auto simp: advance_to_next_node_def split: sum.splits if_splits prod.splits bool.splits dest!: commit_ext dest: fail_ext)

lemma after_ext:
  assumes "after_node env rn r snap st at n res w = (e, w1)" and "hooks_keep Q env" and "Q (fl_ext w)"
  shows "Q (fl_ext w1)"
  using assms
  by (auto simp: after_node_def split: option.splits prod.splits bool.splits sum.splits status_end.splits
      dest!: commit_ext event_ext dest: status_ext advance_ext)

lemma iteration_ext:
  assumes "flow_iteration env rn r st at n w = (e, w1)" and "hooks_keep Q env" and "Q (fl_ext w)"
    and "\<And>f a w. fe_nodes env n = Some f \<Longrightarrow> Q (fl_ext w) \<Longrightarrow> Q (fl_ext (snd (f st a w)))"
  shows "Q (fl_ext w1)"
proof -
  obtain x w2 where x: "flow_event env ''flow.node.started'' (Some (run_trace r w)) w = (x, w2)" by fastforce
  obtain y w3 where y: "execute_current_node env rn r st at n w2 = (y, w3)" by fastforce
  have Q2: "Q (fl_ext w2)" using event_ext [OF x] assms(3) by simp
  have Q3: "Q (fl_ext w3)" by (rule current_ext [where Q = Q, OF y assms(2) Q2]) (rule assms(4))
  show ?thesis using assms(1-3) Q2 Q3
    by (auto simp: flow_iteration_def x y split: option.splits sum.splits prod.splits dest: after_ext)
qed

section \<open>Entering the loop\<close>

text \<open>A start adds nothing to a state but its trace and the id of its first event.\<close>

definition trace_blind :: "(flow_state \<Rightarrow> bool) \<Rightarrow> bool" where
  "trace_blind S = (\<forall>st k v. k \<in> {''trace_id'', ''root_event_id''} \<longrightarrow> S st \<longrightarrow> S (AList.update k v st))"

lemma announce_state:
  assumes "announce_run env q st w = (x, w1)" and "both_fl (run_is q (\<lambda>row. A row \<and> S (fw_state row))) w"
    and "trace_blind S" and "S st" and "\<And>row s. A row \<Longrightarrow> A (row\<lparr>fw_state := s\<rparr>)"
  shows "both_fl (run_is q (\<lambda>row. A row \<and> S (fw_state row))) w1"
proof -
  let ?st = "if has_trace st then st else AList.update ''trace_id'' (PStr (run_trace q w)) st"
  have S: "S ?st" "S (AList.update ''root_event_id'' v ?st)" for v using assms(3,4) unfolding trace_blind_def by simp_all
  show ?thesis using assms(1,2,5) S
    by (auto simp: announce_run_def Let_def simp del: if_split split: prod.splits bool.splits sum.splits
        dest!: ri.keeps_commit ri.keeps_event intro!: edit_keeps_run)
qed

lemma enter_state:
  assumes "enter_run env q row w = (Inr st, w1)" and "trace_blind S" and "S (fw_state row)"
  shows "S st"
  using assms by (auto simp: enter_run_def Let_def trace_blind_def split: if_splits prod.splits bool.splits)

lemma start_ext:
  "initialize_execution_unit env rn q name w = (u, w1) \<Longrightarrow> fl_ext w1 = fl_ext w"
  "announce_run env q st w = (p, w1) \<Longrightarrow> fl_ext w1 = fl_ext w"
  "enter_run env q row w = (s, w1) \<Longrightarrow> fl_ext w1 = fl_ext w"
  by (auto simp: initialize_execution_unit_def announce_run_def enter_run_def Let_def
      split: prod.splits option.splits bool.splits sum.splits if_splits dest!: commit_ext event_ext)
     (metis commit_ext ext_kept(1,2) prod.collapse)

text \<open>A start raises before any node runs, or it is the loop at the start node of the graph.\<close>

lemma start_state:
  assumes "trace_blind S" and "S st"
  shows "(\<exists>e w1. start_flow env rn name st w = Some (Inl e, w1) \<and> fl_ext w1 = fl_ext w) \<or>
    (\<exists>rn1 st1 w1. start_flow env rn name st w = flow_loop env rn1 (fe_fresh_run_id env) st1 [] (fg_start (rn_flow rn)) w1 \<and>
      rn_flow rn1 = rn_flow rn \<and> S st1 \<and> fl_ext w1 = fl_ext w)"
proof -
  let ?q = "fe_fresh_run_id env"
  let ?A = "\<lambda>row. fw_current_node row = fg_start (rn_flow rn) \<and> fw_status row = ''running''"
  obtain b w1 where c: "fl_commit (fl_work (\<lambda>d. d\<lparr>fd_runs := AList.update ?q (new_flow_row env rn name st) (fd_runs d)\<rparr>) w) = (b, w1)"
    by fastforce
  obtain u w2 where i: "initialize_execution_unit env rn ?q name w1 = (u, w2)" by fastforce
  obtain p w3 where a: "announce_run env ?q st w2 = (p, w3)" by fastforce
  have e: "fl_ext w1 = fl_ext w" "fl_ext w2 = fl_ext w" "fl_ext w3 = fl_ext w"
    using commit_ext [OF c] start_ext(1) [OF i] start_ext(2) [OF a] by simp_all
  have y: "start_flow env rn name st w = (if \<not> b then Some (Inl Commit_raised, w1) else case u of None \<Rightarrow> Some (Inl Unit_creation_failed, w2)
      | Some rn1 \<Rightarrow> (case p of None \<Rightarrow> resume_flow env rn1 ?q w3 | Some e \<Rightarrow> Some (Inl e, w3)))"
    using c i a by (simp add: start_flow_def Let_def split: bool.splits option.splits)
  show ?thesis
  proof (cases "b \<and> u \<noteq> None \<and> p = None")
    case False
    then show ?thesis using y e by (auto split: option.splits)
  next
    case True
    then obtain rn1 where u: "u = Some rn1" by blast
    have "both_fl (run_is ?q (\<lambda>row. ?A row \<and> S (fw_state row))) w1"
      by (rule new_row_committed) (use c True assms(2) in \<open>auto simp: new_flow_row_def\<close>)
    note k = initialize_keeps_run [OF i [unfolded u] this]
    have "both_fl (run_is ?q (\<lambda>row. ?A row \<and> S (fw_state row))) w3" by (rule announce_state [OF a k(1) assms]) simp
    then obtain row where row: "run_of ?q w3 = Some row" "?A row" "S (fw_state row)" using run_is_seen by blast
    obtain s w4 where s: "enter_run env ?q row w3 = (s, w4)" by fastforce
    have y: "start_flow env rn name st w = (case s of Inl e \<Rightarrow> Some (Inl e, w4) | Inr st1 \<Rightarrow> flow_loop env rn1 ?q st1 [] (fg_start (rn_flow rn)) w4)"
      using y True u row by (cases s) (simp_all add: resume_flow_def claim_waiting_run_def s)
    have w4: "fl_ext w4 = fl_ext w" using start_ext(3) [OF s] e(3) by simp
    show ?thesis
    proof (cases s)
      case (Inl e)
      then show ?thesis using y w4 by simp
    next
      case (Inr st1)
      have "S st1" by (rule enter_state [OF s [unfolded Inr] assms(1) row(3)])
      then have "start_flow env rn name st w = flow_loop env rn1 ?q st1 [] (fg_start (rn_flow rn)) w4 \<and>
          rn_flow rn1 = rn_flow rn \<and> S st1 \<and> fl_ext w4 = fl_ext w" using y Inr w4 k(2) by simp
      then show ?thesis by blast
    qed
  qed
qed

section \<open>Termination\<close>

text \<open>An iteration that goes on after a success has merged the node's patch and followed an edge.\<close>

lemma iteration_success:
  assumes "flow_iteration env rn r st at n w = (Again st1 at1 n1, w1)"
  obtains f res st2 a w2 w3 where "fe_nodes env n = Some f" and "f st a w2 = ((Returns res, st2), w3)"
    and "nr_status res \<noteq> Some ''FAILURE''"
    and "nr_status res = Some ''SUCCESS'' \<Longrightarrow> st1 = state_update (nr_patch res) st2 \<and>
      resolve_next_node n st1 (rn_flow rn) = Inr (Some n1) \<and> n \<notin> set (fg_end (rn_flow rn))"
proof -
  obtain res st2 at2 w2 w3 where ex: "execute_current_node env rn r st at n w2 = (Inr (res, st2, at2), w3)"
    and after: "after_node env rn r st st2 at2 n res w3 = (Again st1 at1 n1, w1)"
    using assms by (auto simp: flow_iteration_def split: option.splits prod.splits sum.splits)
  obtain w4 w5 where node: "execute_node env n st at w4 = (Ended res, st2, at2, w5)"
    using ex by (auto simp: execute_current_node_def split: option.splits prod.splits sum.splits node_end.splits)
  obtain f where f: "fe_nodes env n = Some f" "f st (attempts_of at n + 1) w4 = ((Returns res, st2), w5)"
    using node by (auto simp: execute_node_def Let_def split: option.splits prod.splits outcome.splits)
  have fail: "nr_status res \<noteq> Some ''FAILURE''"
    using after by (auto simp: after_node_def handle_node_status_def fail_with_def
        split: option.splits prod.splits bool.splits sum.splits status_end.splits)
  have ok: "st1 = state_update (nr_patch res) st2 \<and> resolve_next_node n st1 (rn_flow rn) = Inr (Some n1) \<and> n \<notin> set (fg_end (rn_flow rn))"
    if good: "nr_status res = Some ''SUCCESS''"
  proof -
    obtain b w4 where c: "fl_commit (add_history r n ''SUCCESS'' st res w3) = (b, w4)" by fastforce
    obtain x w6 where e: "flow_event env (node_event ''SUCCESS'') (Some (run_trace r w4)) w4 = (x, w6)" by fastforce
    obtain s st3 w7 where h0: "handle_node_status env rn r st2 at2 n res ''SUCCESS'' w6 = (s, st3, w7)" by (rule prod_cases3)
    have "s \<noteq> Retry_node" using status_goes_on(1) [OF h0] by auto
    then have "s = Go_on \<and> advance_to_next_node env rn r st3 at2 n w7 = (Again st1 at1 n1, w1)"
      using after unfolding after_node_def good by (simp add: c e h0 split: bool.splits sum.splits status_end.splits)
    then have h: "handle_node_status env rn r st2 at2 n res ''SUCCESS'' w6 = (Go_on, st3, w7)"
      and adv: "advance_to_next_node env rn r st3 at2 n w7 = (Again st1 at1 n1, w1)" using h0 by simp_all
    have "st3 = state_update (nr_patch res) st2"
      using h0 by (simp add: handle_node_status_def Let_def split: prod.splits)
    moreover have "resolve_next_node n st3 (rn_flow rn) = Inr (Some n1)" "st1 = st3"
      using adv by (auto simp: advance_to_next_node_def truthy_str_def split: sum.splits if_splits prod.splits bool.splits option.splits)
    moreover have "n \<notin> set (fg_end (rn_flow rn))" using status_goes_on(2) [OF h] by simp
    ultimately show ?thesis by simp
  qed
  show thesis by (rule that [OF f fail ok])
qed

lemma agent_nodes [simp]:
  "fe_nodes (agent_nodes_env env) ''agent_validate_steps'' = Some (agent_validate_steps env)"
  "fe_nodes (agent_nodes_env env) ''agent_execute_step'' = Some (agent_execute_step env)"
  "fe_nodes (agent_nodes_env env) ''agent_finalize_run'' = Some (agent_finalize_run env)"
  by (simp_all add: agent_nodes_env_def register_node_def)

lemma done_status [simp]:
  "nr_status (node_done env s e p) = Some s" "nr_patch (node_done env s e p) = p"
  by (simp_all add: node_done_def)

lemma validate_result:
  "agent_validate_steps env st a w = ((Returns res, st1), w1) \<Longrightarrow> nr_status res \<in> {Some ''SUCCESS'', Some ''FAILURE''}"
  by (auto simp: agent_validate_steps_def split: if_splits)

lemma finalize_result:
  "agent_finalize_run env st a w = ((Returns res, st1), w1) \<Longrightarrow> nr_status res = Some ''SUCCESS''"
  by (auto simp: agent_finalize_run_def finish_agent_run_def raised_def Let_def split: if_splits prod.splits bool.splits outcome.splits)

definition steps_left :: "flow_state \<Rightarrow> nat" where
  "steps_left st = (case (state_steps st, state_index st) of (Some steps, Some idx) \<Rightarrow> length steps - idx | _ \<Rightarrow> 0)"

lemma run_step_result:
  assumes "run_step env st idx step w = ((Returns res, st1), w1)"
  shows "st1 = st \<and> (nr_status res = Some ''FAILURE'' \<or> nr_status res = Some ''SUCCESS'' \<and>
    (\<exists>results. nr_patch res = [(''current_step_index'', PInt (int idx + 1)), (''step_results'', results)]))"
  using assms
  by (auto simp: run_step_def step_denied_def step_executed_def raised_def Let_def
      split: option.splits prod.splits bool.splits sum.splits)

lemma execute_result:
  assumes "agent_execute_step env st a w = ((Returns res, st1), w1)"
  obtains (failed) "nr_status res = Some ''FAILURE''"
  | (past) "nr_status res = Some ''SUCCESS''" "state_update (nr_patch res) st1 = st" "more_steps st = Some False"
  | (step) "nr_status res = Some ''SUCCESS''" "steps_left (state_update (nr_patch res) st1) < steps_left st"
proof -
  obtain steps idx where s: "state_steps st = Some steps" "state_index st = Some idx"
    using assms by (auto simp: agent_execute_step_def split: option.splits)
  show thesis
  proof (cases "length steps \<le> idx")
    case True
    then show thesis using assms s by (intro past) (auto simp: agent_execute_step_def more_steps_def state_update_def)
  next
    case False
    then have "run_step env st idx (steps ! idx) w = ((Returns res, st1), w1)"
      using assms s by (auto simp: agent_execute_step_def split: if_splits)
    from run_step_result [OF this] show thesis
    proof (elim conjE disjE exE)
      fix results
      assume "st1 = st" and ok: "nr_status res = Some ''SUCCESS''"
        and p: "nr_patch res = [(''current_step_index'', PInt (int idx + 1)), (''step_results'', results)]"
      have "state_steps (state_update (nr_patch res) st1) = Some steps" "state_index (state_update (nr_patch res) st1) = Some (Suc idx)"
        using s(1) p \<open>st1 = st\<close> by (simp_all add: state_update_def state_steps_def state_index_def state_get_def update_conv' nat_add_distrib)
      then show thesis using False s ok by (intro step) (auto simp: steps_left_def)
    qed (rule failed)
  qed
qed

lemma agent_edges [simp]:
  "resolve_next_node ''agent_validate_steps'' st AGENT_FLOW = Inr (Some ''agent_execute_step'')"
  "resolve_next_node ''agent_execute_step'' st AGENT_FLOW =
     (case more_steps st of None \<Rightarrow> Inl Condition_raised
      | Some True \<Rightarrow> Inr (Some ''agent_execute_step'') | Some False \<Rightarrow> Inr (Some ''agent_finalize_run''))"
  "fg_end AGENT_FLOW = [''agent_finalize_run'']" "fg_start AGENT_FLOW = ''agent_validate_steps''"
  by (auto simp: resolve_next_node_def AGENT_FLOW_def split: option.splits bool.splits)

lemma loop_one:
  assumes "\<And>st1 at1 n1 w1. flow_iteration env rn r st at n w = (Again st1 at1 n1, w1) \<Longrightarrow> \<exists>y. flow_loop env rn r st1 at1 n1 w1 = Some y"
  shows "\<exists>y. flow_loop env rn r st at n w = Some y"
proof -
  obtain e w1 where it: "flow_iteration env rn r st at n w = (e, w1)" by fastforce
  then show ?thesis using assms by (cases e) (auto simp: flow_loop.simps [of env rn r st at n w])
qed

lemma finalize_loop_returns:
  assumes "rn_flow rn = AGENT_FLOW"
  shows "\<exists>y. flow_loop (agent_nodes_env env) rn r st at ''agent_finalize_run'' w = Some y"
proof (rule loop_one)
  fix st1 at1 n1 w1
  assume "flow_iteration (agent_nodes_env env) rn r st at ''agent_finalize_run'' w = (Again st1 at1 n1, w1)"
  then show "\<exists>y. flow_loop (agent_nodes_env env) rn r st1 at1 n1 w1 = Some y"
    using assms by (elim iteration_success) (auto dest: finalize_result)
qed

lemma execute_loop_returns:
  assumes "rn_flow rn = AGENT_FLOW"
  shows "\<exists>y. flow_loop (agent_nodes_env env) rn r st at ''agent_execute_step'' w = Some y"
proof (induction "steps_left st" arbitrary: st at w rule: less_induct)
  case less
  show ?case
  proof (rule loop_one)
    fix st1 at1 n1 w1
    assume "flow_iteration (agent_nodes_env env) rn r st at ''agent_execute_step'' w = (Again st1 at1 n1, w1)"
    then show "\<exists>y. flow_loop (agent_nodes_env env) rn r st1 at1 n1 w1 = Some y"
    proof (rule iteration_success)
      fix f res st2 a w2 w3
      assume "fe_nodes (agent_nodes_env env) ''agent_execute_step'' = Some f" and f: "f st a w2 = ((Returns res, st2), w3)"
        and nf: "nr_status res \<noteq> Some ''FAILURE''"
        and ok: "nr_status res = Some ''SUCCESS'' \<Longrightarrow> st1 = state_update (nr_patch res) st2 \<and>
          resolve_next_node ''agent_execute_step'' st1 (rn_flow rn) = Inr (Some n1) \<and> ''agent_execute_step'' \<notin> set (fg_end (rn_flow rn))"
      then have "agent_execute_step env st a w2 = ((Returns res, st2), w3)" by simp
      then show ?thesis
      proof (cases rule: execute_result)
        case past
        then have "n1 = ''agent_finalize_run''" using ok assms by auto
        then show ?thesis using finalize_loop_returns [OF assms] by blast
      next
        case step
        then have st1: "st1 = state_update (nr_patch res) st2" and next1: "resolve_next_node ''agent_execute_step'' st1 AGENT_FLOW = Inr (Some n1)"
          using ok assms by auto
        have "n1 = ''agent_execute_step'' \<or> n1 = ''agent_finalize_run''"
          using next1 by (auto split: option.splits bool.splits)
        then show ?thesis using less [of st1] step(2) st1 finalize_loop_returns [OF assms] by blast
      qed (use nf in blast)
    qed
  qed
qed

lemma agent_loop_returns:
  assumes "rn_flow rn = AGENT_FLOW"
  shows "\<exists>y. flow_loop (agent_nodes_env env) rn r st at ''agent_validate_steps'' w = Some y"
proof (rule loop_one)
  fix st1 at1 n1 w1
  assume "flow_iteration (agent_nodes_env env) rn r st at ''agent_validate_steps'' w = (Again st1 at1 n1, w1)"
  then have "n1 = ''agent_execute_step''"
    using assms by (elim iteration_success) (auto dest!: validate_result)
  then show "\<exists>y. flow_loop (agent_nodes_env env) rn r st1 at1 n1 w1 = Some y"
    using execute_loop_returns [OF assms] by blast
qed

lemma agent_start_returns:
  assumes "rn_flow rn = AGENT_FLOW"
  shows "\<exists>y. start_flow (agent_nodes_env env) rn name st w = Some y"
  using start_state [of "\<lambda>_. True" st "agent_nodes_env env" rn name w] agent_loop_returns assms
  by (fastforce simp: trace_blind_def)

lemma orchestration_returns: "\<exists>y. execute_agent_flow_orchestration env r plan u corr token legacy w = Some y"
proof -
  have "\<exists>y. run_agent_flow env r u st w1 = Some y" for st w1
    using agent_start_returns [of "agent_runner u" env "''agent_execution''" st w1]
    by (auto simp: run_agent_flow_def agent_runner_def new_runner_def split: sum.splits)
  then show ?thesis
    by (auto simp: execute_agent_flow_orchestration_def Let_def split: option.splits prod.splits sum.splits)
qed

section \<open>The calls of a step\<close>

text \<open>What applications registered calls no tool behind the registry's back.\<close>

definition log_kept :: "agent_env \<Rightarrow> bool" where
  "log_kept env =
     ((\<forall>t entry args u w. map_of (ae_tools env) t = Some entry \<longrightarrow>
         ax_calls (fl_ext (snd (te_fn entry args u w))) = ax_calls (fl_ext w)) \<and>
      (\<forall>results w. ax_calls (fl_ext (snd (ae_completed_hooks env results w))) = ax_calls (fl_ext w)) \<and>
      (\<forall>n e. ax_calls (fe_hook (ae_flow env) n e) = ax_calls e))"

abbreviation calls :: "agent_world \<Rightarrow> (string \<times> pyval \<times> string) list" where
  "calls w \<equiv> ax_calls (fl_ext w)"

lemma tool_call_log:
  assumes "log_kept env" and "map_of (ae_tools env) tool = Some entry" and "call_tool entry tool args u w = (x, w1)"
  shows "calls w1 = calls w @ [(tool, args, u)]"
proof -
  let ?w = "w\<lparr>fl_ext := (fl_ext w)\<lparr>ax_calls := calls w @ [(tool, args, u)]\<rparr>\<rparr>"
  obtain out w2 where te: "te_fn entry args u ?w = (out, w2)" by fastforce
  have "calls (snd (te_fn entry args u ?w)) = calls ?w" using assms(1,2) unfolding log_kept_def by blast
  then show ?thesis using assms(3) te by (cases out) (auto simp: call_tool_def)
qed

lemma execute_tool_log:
  assumes "log_kept env" and "execute_tool env tool args u r token w = (x, w1)"
  shows "calls w1 = calls w \<or> calls w1 = calls w @ [(tool, args, u)]"
proof -
  have ev: "flow_event (ae_flow env) ty tr w = (y, w2) \<Longrightarrow> calls w2 = calls w" for ty tr y w2 by (simp add: event_ext)
  show ?thesis using assms
    by (auto simp: execute_tool_def split: option.splits if_splits prod.splits sum.splits dest!: ev dest: tool_call_log)
qed

lemma attempt_tool_log:
  assumes "log_kept env" and "attempt_tool env policy tool args u r token left w = (x, w1)"
  shows "\<exists>n. calls w1 = calls w @ replicate n (tool, args, u) \<and> n \<le> (if high_risk_immediate_fail policy then 1 else Suc left)"
  using assms(2)
proof (induction left arbitrary: w)
  case 0
  then have "execute_tool env tool args u r token w = (x, w1)" by simp
  from execute_tool_log [OF assms(1) this] show ?case by (elim disjE) (rule exI [of _ 0], simp, rule exI [of _ 1], simp)
next
  case (Suc left)
  obtain y w2 where y: "execute_tool env tool args u r token w = (y, w2)" by fastforce
  obtain m where m: "calls w2 = calls w @ replicate m (tool, args, u)" "m \<le> 1"
    using execute_tool_log [OF assms(1) y] by (elim disjE) (rule that [of 0], simp_all, rule that [of 1], simp_all)
  show ?case
  proof (cases "(\<exists>e. y = Some (Inl e)) \<and> \<not> high_risk_immediate_fail policy")
    case True
    then have "attempt_tool env policy tool args u r token left w2 = (x, w1)" using Suc.prems y by auto
    from Suc.IH [OF this] obtain n where "calls w1 = calls w2 @ replicate n (tool, args, u)" "n \<le> Suc left" using True by auto
    then show ?thesis using m True by (intro exI [of _ "m + n"]) (auto simp: replicate_add)
  next
    case False
    then have "w1 = w2" using Suc.prems y by (auto split: option.splits sum.splits)
    then show ?thesis using m by auto
  qed
qed

lemma record_step_ext [simp]: "fl_ext (edit_agent_run r f w) = fl_ext w" "fl_ext (edit_tables g w) = fl_ext w"
  by (simp_all add: edit_agent_run_def edit_tables_def)

lemma record_ext: "record_agent_step r idx tool status result err w = (b, w1) \<Longrightarrow> fl_ext w1 = fl_ext w"
  by (auto simp: record_agent_step_def dest: commit_ext)

lemma agent_event_ext: "record_agent_event env r ty trace w = (b, w1) \<Longrightarrow> fl_ext w1 = fl_ext w"
  by (auto simp: record_agent_event_def split: prod.splits sum.splits dest!: commit_ext event_ext)

lemma emit_ext: "emit_events env tys trace w = (b, w1) \<Longrightarrow> fl_ext w1 = fl_ext w"
  by (induction tys arbitrary: w) (auto split: prod.splits sum.splits dest!: event_ext)

lemma denied_ext: "step_denied env st idx tool e w = (x, w1) \<Longrightarrow> fl_ext w1 = fl_ext w"
  by (auto simp: step_denied_def raised_def Let_def simp del: emit_events.simps split: prod.splits bool.splits dest!: record_ext agent_event_ext emit_ext)

lemma executed_ext: "step_executed env st idx tool risk n res w = (x, w1) \<Longrightarrow> fl_ext w1 = fl_ext w"
  by (auto simp: step_executed_def raised_def Let_def simp del: emit_events.simps split: prod.splits bool.splits dest!: record_ext emit_ext)

definition agent_policy :: "string \<Rightarrow> retry_policy" where
  "agent_policy risk = resolve_retry_policy (Some ''agent'') (Some risk) None None"

lemma agent_type_text: "py_strip (py_lower (or_str (Some ''agent'') [])) = ''agent''"
  by code_simp

lemma run_step_log:
  assumes "log_kept env" and "run_step env st idx step w = (x, w1)"
  shows "\<exists>n. calls w1 = calls w @ replicate n (step_field env ''tool'' [] step, step_args step, state_text ''user_id'' st) \<and>
    (0 < n \<longrightarrow> step_verdict env st (step_field env ''tool'' [] step) = None) \<and>
    n \<le> (if high_risk_immediate_fail (agent_policy (step_field env ''risk_level'' ''high'' step)) then 1
         else Suc (nat (max_attempts (agent_policy (step_field env ''risk_level'' ''high'' step)) - 1)))"
proof -
  let ?tool = "step_field env ''tool'' [] step" let ?risk = "step_field env ''risk_level'' ''high'' step"
  show ?thesis
  proof (cases "step_verdict env st ?tool")
    case None
    obtain y w2 where y: "attempt_tool env (agent_policy ?risk) ?tool (step_args step) (state_text ''user_id'' st)
        (state_text ''agent_run_id'' st) (state_token st) (nat (max_attempts (agent_policy ?risk) - 1)) w = (y, w2)" by fastforce
    have "fl_ext w1 = fl_ext w2" using assms(2) y None
      by (auto simp: run_step_def Let_def agent_policy_def split: option.splits dest!: executed_ext)
    then show ?thesis using attempt_tool_log [OF assms(1) y] None by auto
  next
    case (Some e)
    then have "fl_ext w1 = fl_ext w" using assms(2) by (auto simp: run_step_def Let_def dest: denied_ext)
    then show ?thesis by (intro exI [of _ 0]) simp
  qed
qed

lemma sample_tools_succeed: "map_of sample_tools t = Some entry \<Longrightarrow> te_fn entry = (\<lambda>args u w. (Returns (PStr ''done''), w))"
  by (auto simp: sample_tools_def register_tool_def sample_tool_def split: if_splits)

lemma sample_log_kept: "log_kept sample_agent_env"
proof -
  have "ae_completed_hooks sample_agent_env = (\<lambda>_ w. (Returns [], w))" "fe_hook (ae_flow sample_agent_env) = (\<lambda>_ e. e)"
    by (simp_all add: sample_agent_env_def)
  then show ?thesis using sample_tools_succeed by (auto simp: log_kept_def)
qed

text \<open>
  C37. The retries of a step are bounded by its risk: executing the step at the index of the state calls its
  tool at most three times when the risk is low or medium and at most once otherwise, a risk nobody
  declared included, and calls nothing else.
\<close>

theorem step_calls_bounded:
  assumes "agent_execute_step env st a w = (x, w1)" and "log_kept env"
    and "state_steps st = Some steps" and "state_index st = Some idx" and "idx < length steps"
    and "step_field env ''risk_level'' ''high'' (steps ! idx) = risk"
  shows "\<exists>n. calls w1 = calls w @ replicate n (step_field env ''tool'' [] (steps ! idx), step_args (steps ! idx), state_text ''user_id'' st) \<and>
    n \<le> (if py_strip (py_lower (or_str (Some risk) ''high'')) \<in> {''low'', ''medium''} then 3 else 1)"
proof -
  let ?c = "(step_field env ''tool'' [] (steps ! idx), step_args (steps ! idx), state_text ''user_id'' st)"
  have policy: "high_risk_immediate_fail (agent_policy risk) \<and> py_strip (py_lower (or_str (Some risk) ''high'')) \<notin> {''low'', ''medium''} \<or>
      max_attempts (agent_policy risk) = 3 \<and> py_strip (py_lower (or_str (Some risk) ''high'')) \<in> {''low'', ''medium''} \<and>
      \<not> high_risk_immediate_fail (agent_policy risk)"
    by (simp add: agent_policy_def resolve_retry_policy_def Let_def RISK_TO_AGENT_POLICY_def AGENT_LOW_MEDIUM_def AGENT_HIGH_RISK_def
        agent_type_text)
  consider "w1 = w" | "run_step env st idx (steps ! idx) w = (x, w1)"
    using assms(1,3-5) by (auto simp: agent_execute_step_def split: if_splits)
  then show ?thesis
  proof cases
    case 1
    then show ?thesis by (intro exI [of _ 0]) simp
  next
    case 2
    from run_step_log [OF assms(2) this] obtain n where "calls w1 = calls w @ replicate n ?c"
      and "n \<le> (if high_risk_immediate_fail (agent_policy risk) then 1 else Suc (nat (max_attempts (agent_policy risk) - 1)))"
      unfolding assms(6) by blast
    then show ?thesis using policy by (intro exI [of _ n]) auto
  qed
qed

theorem step_calls_bounded_witness:
  "\<exists>w1 n. snd (agent_execute_step sample_agent_env [(''steps'', PList [PDict [(''tool'', PStr ''wipe'')]])] 1 (sample_agent_world [])) = w1 \<and>
    calls w1 = replicate n (''wipe'', PDict [], []) \<and> n \<le> 1"
proof -
  let ?st = "[(''steps'', PList [PDict [(''tool'', PStr ''wipe'')]])]"
  obtain x w1 where x: "agent_execute_step sample_agent_env ?st 1 (sample_agent_world []) = (x, w1)" by fastforce
  have st: "state_steps ?st = Some [PDict [(''tool'', PStr ''wipe'')]]" "state_index ?st = Some 0"
    by (simp_all add: state_steps_def state_index_def state_get_def elements_def)
  have step: "step_field sample_agent_env ''risk_level'' ''high'' ([PDict [(''tool'', PStr ''wipe'')]] ! 0) = ''high''"
    by (simp add: step_field_def)
  have risk: "py_strip (py_lower (or_str (Some ''high'') ''high'')) \<notin> {''low'', ''medium''}" by code_simp
  have "\<exists>n. calls w1 = calls (sample_agent_world []) @ replicate n (''wipe'', PDict [], []) \<and> n \<le> 1"
    using step_calls_bounded [OF x sample_log_kept st _ step] risk
    by (simp add: step_field_def step_args_def state_text_def state_get_def text_or_def)
  then show ?thesis using x by (auto simp: sample_agent_world_def)
qed

section \<open>Every call is granted\<close>

definition granted_by :: "agent_env \<Rightarrow> pyval \<Rightarrow> string \<Rightarrow> string \<Rightarrow> string \<times> pyval \<times> string \<Rightarrow> bool" where
  "granted_by env token r u c = (snd (snd c) = u \<and> vd_error (check_tool_capability env token r u (fst c)) = None)"

definition log_granted ::
    "agent_env \<Rightarrow> pyval \<Rightarrow> string \<Rightarrow> string \<Rightarrow> (string \<times> pyval \<times> string) list \<Rightarrow> agent_ext \<Rightarrow> bool" where
  "log_granted env token r u base e = (\<exists>new. ax_calls e = base @ new \<and> (\<forall>c \<in> set new. granted_by env token r u c))"

text \<open>The entries of a state that decide who calls: the nodes never change them.\<close>

definition scoped :: "string \<Rightarrow> string \<Rightarrow> pyval \<Rightarrow> flow_state \<Rightarrow> bool" where
  "scoped r u token st =
     (map_of st ''agent_run_id'' = Some (PStr r) \<and> map_of st ''user_id'' = Some (PStr u) \<and>
      map_of st ''execution_token'' = Some token \<and> map_of st ''capability_token'' = None)"

lemma scoped_texts:
  assumes "scoped r u token st"
  shows "state_text ''user_id'' st = u" "state_text ''agent_run_id'' st = r"
    and "state_token st = (if py_truthy token then token else PNone)"
  using assms by (simp_all add: scoped_def state_text_def state_get_def text_or_def or_str_def state_token_def split: option.splits)

lemma agent_hooks [simp]: "fe_hook (agent_nodes_env env) = fe_hook (ae_flow env)"
  "fe_fresh_run_id (agent_nodes_env env) = fe_fresh_run_id (ae_flow env)"
  by (simp_all add: agent_nodes_env_def register_node_def)

lemma log_same: "calls w1 = calls w \<Longrightarrow> log_granted env token r u base (fl_ext w) \<Longrightarrow> log_granted env token r u base (fl_ext w1)"
  by (simp add: log_granted_def)

lemma hooks_keep_log: "log_kept env \<Longrightarrow> hooks_keep (log_granted env token r u base) (agent_nodes_env env)"
  by (simp add: hooks_keep_def log_kept_def log_granted_def)

lemma missing_token: "vd_error (check_tool_capability env PNone r u tool) \<noteq> None"
  by (simp add: check_tool_capability_def validate_token_def refusal_def)

lemma execute_granted:
  assumes "log_kept env" and "scoped r u token st" and "log_granted env token r u base (fl_ext w)"
  shows "log_granted env token r u base (fl_ext (snd (agent_execute_step env st a w)))"
proof -
  obtain x w1 where x: "agent_execute_step env st a w = (x, w1)" by fastforce
  have "calls w1 = calls w \<or> (\<exists>idx step. run_step env st idx step w = (x, w1))"
    using x by (auto simp: agent_execute_step_def split: option.splits if_splits)
  then show ?thesis
  proof
    assume "calls w1 = calls w"
    then show ?thesis using log_same [OF _ assms(3)] x by simp
  next
    assume "\<exists>idx step. run_step env st idx step w = (x, w1)"
    then obtain idx step n where n: "calls w1 = calls w @ replicate n (step_field env ''tool'' [] step, step_args step, u)"
      and v: "0 < n \<longrightarrow> step_verdict env st (step_field env ''tool'' [] step) = None"
      using run_step_log [OF assms(1)] scoped_texts(1) [OF assms(2)] by metis
    have "granted_by env token r u (step_field env ''tool'' [] step, step_args step, u)" if "0 < n"
      using v that assms(2) missing_token [of env r u "step_field env ''tool'' [] step"]
      by (auto simp: granted_by_def step_verdict_def scoped_texts [OF assms(2)] scoped_def split: if_splits)
    then show ?thesis using n assms(3) x unfolding log_granted_def by (cases n) (auto simp del: replicate_Suc)
  qed
qed

lemma finalize_log:
  assumes "log_kept env"
  shows "calls (snd (agent_finalize_run env st a w)) = calls w"
proof -
  have fin: "finish_agent_run env st found p w1 = (x, w2) \<Longrightarrow> fl_ext w2 = fl_ext w1" for found p w1 x w2
    by (auto simp: finish_agent_run_def raised_def Let_def split: if_splits prod.splits bool.splits dest!: commit_ext agent_event_ext)
  have fin': "fl_ext (snd (finish_agent_run env st found p w1)) = fl_ext w1" for found p w1
    by (cases "finish_agent_run env st found p w1") (simp add: fin)
  obtain out w1 where h: "ae_completed_hooks env (state_results st) w = (out, w1)" by fastforce
  have "calls (snd (ae_completed_hooks env (state_results st) w)) = calls w" using assms unfolding log_kept_def by blast
  then have "calls w1 = calls w" using h by simp
  then show ?thesis by (cases out) (simp_all add: agent_finalize_run_def Let_def h fin')
qed

definition agent_node_names :: "string set" where
  "agent_node_names = {''agent_validate_steps'', ''agent_execute_step'', ''agent_finalize_run''}"

lemma nodes_granted:
  assumes "log_kept env" and "scoped r u token st" and "n \<in> agent_node_names"
    and "fe_nodes (agent_nodes_env env) n = Some f" and "log_granted env token r u base (fl_ext w)"
  shows "log_granted env token r u base (fl_ext (snd (f st a w)))"
  using assms(3,4) execute_granted [OF assms(1,2,5)] log_same [OF finalize_log [OF assms(1)] assms(5)] assms(5)
  by (auto simp: agent_node_names_def agent_validate_steps_def)

lemma scoped_update:
  "k \<notin> {''agent_run_id'', ''user_id'', ''execution_token'', ''capability_token''} \<Longrightarrow>
    scoped r u token (AList.update k v st) = scoped r u token st"
  by (auto simp: scoped_def update_conv')

lemma agent_patch:
  assumes "n \<in> agent_node_names" and "fe_nodes (agent_nodes_env env) n = Some f" and "f st a w = ((Returns res, st1), w1)"
  shows "nr_status res \<in> {Some ''SUCCESS'', Some ''FAILURE''}"
    and "nr_status res = Some ''SUCCESS'' \<Longrightarrow> scoped r u token st \<Longrightarrow> scoped r u token (state_update (nr_patch res) st1)"
proof -
  have v: "agent_validate_steps env st a w = ((Returns res, st1), w1) \<Longrightarrow> nr_status res \<in> {Some ''SUCCESS'', Some ''FAILURE''} \<and>
      (scoped r u token st \<longrightarrow> scoped r u token (state_update (nr_patch res) st1))"
    by (auto simp: agent_validate_steps_def state_update_def scoped_update split: if_splits)
  have f: "agent_finalize_run env st a w = ((Returns res, st1), w1) \<Longrightarrow> nr_status res \<in> {Some ''SUCCESS'', Some ''FAILURE''} \<and>
      (scoped r u token st \<longrightarrow> scoped r u token (state_update (nr_patch res) st1))"
    by (auto simp: agent_finalize_run_def finish_agent_run_def raised_def Let_def state_update_def scoped_update
        split: if_splits prod.splits bool.splits outcome.splits)
  have e: "nr_status res \<in> {Some ''SUCCESS'', Some ''FAILURE''} \<and>
      (nr_status res = Some ''SUCCESS'' \<longrightarrow> scoped r u token st \<longrightarrow> scoped r u token (state_update (nr_patch res) st1))"
    if ex: "agent_execute_step env st a w = ((Returns res, st1), w1)"
  proof -
    consider "nr_patch res = []" "st1 = st" "nr_status res = Some ''SUCCESS''"
      | idx step where "run_step env st idx step w = ((Returns res, st1), w1)"
      using ex by (auto simp: agent_execute_step_def split: option.splits if_splits)
    then show ?thesis
    proof cases
      case 2
      from run_step_result [OF this] show ?thesis by (auto simp: state_update_def scoped_update)
    qed (simp add: state_update_def)
  qed
  show "nr_status res \<in> {Some ''SUCCESS'', Some ''FAILURE''}"
    and "nr_status res = Some ''SUCCESS'' \<Longrightarrow> scoped r u token st \<Longrightarrow> scoped r u token (state_update (nr_patch res) st1)"
    using assms v f e unfolding agent_node_names_def by (elim insertE; simp)+
qed

lemma agent_targets: "n \<in> agent_node_names \<Longrightarrow> resolve_next_node n st AGENT_FLOW = Inr (Some m) \<Longrightarrow> m \<in> agent_node_names"
  by (auto simp: agent_node_names_def split: option.splits bool.splits dest: resolve_target) (simp add: resolve_next_node_def AGENT_FLOW_def)

lemma iteration_scoped:
  assumes "flow_iteration (agent_nodes_env env) rn q st at n w = (Again st1 at1 n1, w1)" and "rn_flow rn = AGENT_FLOW"
    and "n \<in> agent_node_names" and "scoped r u token st"
  shows "n1 \<in> agent_node_names \<and> scoped r u token st1"
  using assms(1)
proof (rule iteration_success)
  fix f res st2 a w2 w3
  assume f: "fe_nodes (agent_nodes_env env) n = Some f" "f st a w2 = ((Returns res, st2), w3)" and nf: "nr_status res \<noteq> Some ''FAILURE''"
    and ok: "nr_status res = Some ''SUCCESS'' \<Longrightarrow> st1 = state_update (nr_patch res) st2 \<and>
      resolve_next_node n st1 (rn_flow rn) = Inr (Some n1) \<and> n \<notin> set (fg_end (rn_flow rn))"
  have good: "nr_status res = Some ''SUCCESS''" using agent_patch(1) [OF assms(3) f] nf by blast
  have "scoped r u token st1" using agent_patch(2) [OF assms(3) f good assms(4)] ok [OF good] by blast
  moreover have "n1 \<in> agent_node_names" using agent_targets [OF assms(3)] ok [OF good] assms(2) by auto
  ultimately show ?thesis by blast
qed

lemma reaches_granted:
  assumes "flow_reaches (agent_nodes_env env) rn q c c1" and "rn_flow rn = AGENT_FLOW" and "log_kept env"
    and "fst (snd (snd c)) \<in> agent_node_names" and "scoped r u token (fst c)"
    and "log_granted env token r u base (fl_ext (snd (snd (snd c))))"
  shows "fst (snd (snd c1)) \<in> agent_node_names \<and> scoped r u token (fst c1) \<and>
    log_granted env token r u base (fl_ext (snd (snd (snd c1))))"
  using assms(1,4-6)
proof (induction rule: flow_reaches.induct)
  case (onwards st at n w st1 at1 n1 w1 c)
  have n: "n \<in> agent_node_names" and st: "scoped r u token st" and w: "log_granted env token r u base (fl_ext w)"
    using onwards.prems by simp_all
  have "log_granted env token r u base (fl_ext w1)"
    by (rule iteration_ext [where Q = "log_granted env token r u base", OF onwards.hyps(1) hooks_keep_log [OF assms(3)] w])
       (rule nodes_granted [OF assms(3) st n])
  then show ?case using onwards.IH iteration_scoped [OF onwards.hyps(1) assms(2) n st] by simp
qed simp

lemma loop_granted:
  assumes "flow_loop (agent_nodes_env env) rn q st at n w = Some (x, w1)" and "rn_flow rn = AGENT_FLOW" and "log_kept env"
    and "n \<in> agent_node_names" and "scoped r u token st" and "log_granted env token r u base (fl_ext w)"
  shows "log_granted env token r u base (fl_ext w1)"
proof -
  obtain st2 at2 n2 w2 where "flow_reaches (agent_nodes_env env) rn q (st, at, n, w) (st2, at2, n2, w2)"
    and it: "flow_iteration (agent_nodes_env env) rn q st2 at2 n2 w2 = (Finish x, w1)"
    using loop_reaches [OF assms(1)] by auto
  with reaches_granted [OF this(1) assms(2,3), of r u token base] assms(4-6)
  have n: "n2 \<in> agent_node_names" and st: "scoped r u token st2" and w: "log_granted env token r u base (fl_ext w2)" by simp_all
  show ?thesis
    by (rule iteration_ext [where Q = "log_granted env token r u base", OF it hooks_keep_log [OF assms(3)] w])
       (rule nodes_granted [OF assms(3) st n])
qed

lemma scoped_trace_blind: "trace_blind (scoped r u token)"
  by (auto simp: trace_blind_def scoped_update)

lemma initial_scoped: "scoped r u token (agent_initial_state r u steps memory corr token)"
  by (simp add: scoped_def agent_initial_state_def)

lemma flow_granted:
  assumes "start_flow (agent_nodes_env env) (agent_runner u) name (agent_initial_state r u steps memory corr token) w = Some (x, w1)"
    and "log_kept env" and "log_granted env token r u base (fl_ext w)"
  shows "log_granted env token r u base (fl_ext w1)"
  using start_state [OF scoped_trace_blind initial_scoped [of r u token steps memory corr], of "agent_nodes_env env" "agent_runner u" name w]
proof (elim disjE exE conjE)
  fix rn1 st1 w2
  assume "start_flow (agent_nodes_env env) (agent_runner u) name (agent_initial_state r u steps memory corr token) w =
      flow_loop (agent_nodes_env env) rn1 (fe_fresh_run_id (agent_nodes_env env)) st1 [] (fg_start (rn_flow (agent_runner u))) w2"
    and rn: "rn_flow rn1 = rn_flow (agent_runner u)" and st: "scoped r u token st1" and w2: "fl_ext w2 = fl_ext w"
  then have "flow_loop (agent_nodes_env env) rn1 (fe_fresh_run_id (agent_nodes_env env)) st1 [] ''agent_validate_steps'' w2 = Some (x, w1)"
    using assms(1) by (simp add: agent_runner_def new_runner_def)
  then show ?thesis
    by (rule loop_granted [OF _ _ assms(2) _ st]) (use rn assms(3) w2 in \<open>simp_all add: agent_runner_def new_runner_def agent_node_names_def\<close>)
qed (use assms in simp)

lemma close_ext: "close_orchestration env r status w = (x, w1) \<Longrightarrow> fl_ext w1 = fl_ext w"
  by (auto simp: close_orchestration_def link_agent_flow_def fail_agent_run_def split: if_splits prod.splits bool.splits option.splits
      dest!: commit_ext)

lemma deny_ext: "deny_orchestration env r corr msg w = (x, w1) \<Longrightarrow> fl_ext w1 = fl_ext w"
  by (auto simp: deny_orchestration_def split: prod.splits sum.splits dest!: event_ext)
     (metis agent_event_ext prod.collapse)

lemma run_flow_granted:
  assumes "run_agent_flow env r u (agent_initial_state r u steps memory corr token) w = Some (x, w1)"
    and "log_kept env" and "log_granted env token r u base (fl_ext w)"
  shows "log_granted env token r u base (fl_ext w1)"
  using assms(1)
  by (auto simp: run_agent_flow_def split: option.splits sum.splits dest!: flow_granted [OF _ assms(2,3)] close_ext)

lemma orchestration_granted:
  assumes "execute_agent_flow_orchestration env r plan u corr token legacy w = Some (x, w1)" and "log_kept env"
  shows "\<exists>new. calls w1 = calls w @ new \<and> list_all (granted_by env (if py_truthy token then token else legacy) r u) new"
proof -
  define t where "t = (if py_truthy token then token else legacy)"
  have base: "log_granted env t r u (calls w) (fl_ext w)" by (simp add: log_granted_def)
  have "fl_ext w1 = fl_ext w \<or> (\<exists>steps memory w2. fl_ext w2 = fl_ext w \<and>
      run_agent_flow env r u (agent_initial_state r u steps memory corr t) w2 = Some (x, w1))"
    using assms(1) unfolding execute_agent_flow_orchestration_def t_def [symmetric]
    by (auto simp: Let_def split: option.splits prod.splits sum.splits if_splits dest: event_ext deny_ext)
  then have "log_granted env t r u (calls w) (fl_ext w1)" using base run_flow_granted [OF _ assms(2)] by fastforce
  then show ?thesis by (auto simp: log_granted_def list_all_iff t_def)
qed

end
