(* ===== verification/Agent_Completion.thy ===== *)
theory Agent_Completion
  imports Agent_Execution
begin

text \<open>
  Agent runs on a database that accepts every write: a granted plan of succeeding tools calls them in
  order, once each, and completes its run; a run whose flow is parked for want of a slot is marked failed
  although its flow will go on.
\<close>

section \<open>Iterations that keep the application's tables\<close>

text \<open>
  A world in which every write succeeds and the flow's row exists, with a property of the application's
  tables that holds of what is stored and of what is pending, and one of the state outside the database.
\<close>

definition steady :: "string \<Rightarrow> ('t \<Rightarrow> bool) \<Rightarrow> ('e \<Rightarrow> bool) \<Rightarrow> ('e, 't) flow_world \<Rightarrow> bool" where
  "steady q R Q w = (calm q w \<and> both_fl (\<lambda>d. R (fd_app d)) w \<and> Q (fl_ext w))"

interpretation apt: flow_frame "\<lambda>d. R (fd_app d)" q for R q
  by unfold_locales simp_all

lemma settled_event:
  assumes "steady q R Q w"
  shows "\<exists>w1. flow_event env ty trace w = (Inr True, w1) \<and> steady q R Q w1"
proof -
  obtain w1 where w1: "flow_event env ty trace w = (Inr True, w1)" "calm q w1"
    using calm_event assms unfolding steady_def by blast
  then show ?thesis using assms apt.keeps_event [OF w1(1)] event_ext [OF w1(1)] by (auto simp: steady_def)
qed

lemma settled_commit:
  assumes "steady q R Q w"
  shows "\<exists>w1. fl_commit w = (True, w1) \<and> steady q R Q w1"
proof -
  obtain w1 where w1: "fl_commit w = (True, w1)" "calm q w1"
    using calm_commit_run assms unfolding steady_def by blast
  then show ?thesis using assms apt.keeps_commit [OF w1(1)] commit_ext [OF w1(1)] by (auto simp: steady_def)
qed

lemma settled_keeps:
  assumes "steady q R Q w"
  shows "steady q R Q (edit_run q f w)" "steady q R Q (add_history q n s snap res w)" "steady q R Q (w\<lparr>fl_rm := m\<rparr>)"
    "steady q R Q (record_resource_usage env rn ms w)" "steady q R Q (release_slot env rn w)"
    "steady q R Q (set_unit_status env rn q s w)"
proof -
  have "both_fl (\<lambda>d. R (fd_app d)) (add_history q n s snap res w)"
    using assms unfolding steady_def add_history_def by (intro apt.keeps_work) simp_all
  then show "steady q R Q (edit_run q f w)" "steady q R Q (add_history q n s snap res w)" "steady q R Q (w\<lparr>fl_rm := m\<rparr>)"
    "steady q R Q (record_resource_usage env rn ms w)" "steady q R Q (release_slot env rn w)"
    "steady q R Q (set_unit_status env rn q s w)"
    using assms by (auto simp: steady_def apt.keeps_other intro: apt.keeps_edit apt.keeps_unit)
qed

lemma settled_edit_commit:
  "steady q R Q w \<Longrightarrow> \<exists>w1. fl_commit (edit_run q f w) = (True, w1) \<and> steady q R Q w1"
  by (rule settled_commit) (rule settled_keeps(1))

lemma settled_check:
  assumes "is_testing (fe_rm env)" and "steady q R Q w"
  shows "\<exists>w1. check_resources env rn q st n w = (None, w1) \<and> steady q R Q w1"
  using assms settled_keeps(3) [OF assms(2)] by (simp add: check_resources_def can_execute_def check_quota_def)

text \<open>What a node makes of a steady world: it succeeds, keeps the state, and its patch leads to a state with \<open>S\<close>.\<close>

definition node_settles ::
    "('e, 't) flow_env \<Rightarrow> string \<Rightarrow> string \<Rightarrow> flow_state \<Rightarrow> ('t \<Rightarrow> bool) \<Rightarrow> ('e \<Rightarrow> bool) \<Rightarrow> ('t \<Rightarrow> bool) \<Rightarrow> ('e \<Rightarrow> bool) \<Rightarrow> (flow_state \<Rightarrow> bool) \<Rightarrow> bool" where
  "node_settles env q n st R Q R' Q' S =
     (n \<notin> set (fe_blocked_nodes env) \<and>
      (\<exists>f. fe_nodes env n = Some f \<and>
        (\<forall>a w. steady q R Q w \<longrightarrow>
          (\<exists>res w1. f st a w = ((Returns res, st), w1) \<and> steady q R' Q' w1 \<and> nr_status res = Some ''SUCCESS'' \<and>
            S (state_update (nr_patch res) st)))))"

lemma settled_node:
  assumes "is_testing (fe_rm env)" and "steady q R Q w" and "node_settles env q n st R Q R' Q' S"
  shows "\<exists>res at1 w1. execute_current_node env rn q st at n w = (Inr (res, st, at1), w1) \<and> steady q R' Q' w1 \<and>
    nr_status res = Some ''SUCCESS'' \<and> S (state_update (nr_patch res) st)"
proof -
  obtain w1 where w1: "check_resources env rn q st n w = (None, w1)" "steady q R Q w1" using settled_check [OF assms(1,2)] by blast
  obtain f where f: "fe_nodes env n = Some f" "n \<notin> set (fe_blocked_nodes env)"
    and out: "\<And>a w. steady q R Q w \<Longrightarrow> \<exists>res w1. f st a w = ((Returns res, st), w1) \<and> steady q R' Q' w1 \<and>
      nr_status res = Some ''SUCCESS'' \<and> S (state_update (nr_patch res) st)"
    using assms(3) unfolding node_settles_def by blast
  obtain res w2 where "f st (attempts_of at n + 1) w1 = ((Returns res, st), w2)" "steady q R' Q' w2" "nr_status res = Some ''SUCCESS''"
    "S (state_update (nr_patch res) st)"
    using out [OF w1(2)] by blast
  then show ?thesis
    using w1(1) f settled_keeps(4) by (simp add: execute_current_node_def execute_node_def enforce_policy_def)
qed

lemma settled_first_half:
  assumes "is_testing (fe_rm env)" and "steady q R Q w" and "node_settles env q n st R Q R' Q' S"
  shows "\<exists>res at1 w1. steady q R' Q' w1 \<and> S (state_update (nr_patch res) st) \<and> flow_iteration env rn q st at n w =
    (case handle_node_status env rn q st at1 n res ''SUCCESS'' w1 of
       (Retry_node, st2, w2) \<Rightarrow> (Again st2 at1 n, w2)
     | (Respond x, st2, w2) \<Rightarrow> (Finish x, w2)
     | (Go_on, st2, w2) \<Rightarrow> advance_to_next_node env rn q st2 at1 n w2)"
proof -
  obtain w1 where w1: "flow_event env ''flow.node.started'' (Some (run_trace q w)) w = (Inr True, w1)" "steady q R Q w1"
    using settled_event [OF assms(2)] by blast
  obtain res at1 w2 where w2: "execute_current_node env rn q st at n w1 = (Inr (res, st, at1), w2)" "steady q R' Q' w2"
    and res: "nr_status res = Some ''SUCCESS''" and S: "S (state_update (nr_patch res) st)"
    using settled_node [OF assms(1) w1(2) assms(3)] by blast
  obtain w3 where w3: "fl_commit (add_history q n ''SUCCESS'' st res w2) = (True, w3)" "steady q R' Q' w3"
    using settled_commit [OF settled_keeps(2) [OF w2(2)]] by blast
  obtain w4 where w4: "flow_event env (node_event ''SUCCESS'') (Some (run_trace q w3)) w3 = (Inr True, w4)" "steady q R' Q' w4"
    using settled_event [OF w3(2)] by blast
  have "run_of q w \<noteq> None" "run_of q w2 \<noteq> None" using assms(2) w2(2) by (simp_all add: steady_def calm_def)
  then have "flow_iteration env rn q st at n w =
    (case handle_node_status env rn q st at1 n res ''SUCCESS'' w4 of
       (Retry_node, st2, w5) \<Rightarrow> (Again st2 at1 n, w5)
     | (Respond x, st2, w5) \<Rightarrow> (Finish x, w5)
     | (Go_on, st2, w5) \<Rightarrow> advance_to_next_node env rn q st2 at1 n w5)"
    by (auto simp: flow_iteration_def after_node_def w1(1) w2(1) w3(1) w4(1) res)
  then show ?thesis using w4(2) S by blast
qed

lemma settled_step:
  assumes "is_testing (fe_rm env)" and "steady q R Q w" and "node_settles env q n st R Q R' Q' S"
    and "n \<notin> set (fg_end (rn_flow rn))" and "\<And>st1. S st1 \<Longrightarrow> resolve_next_node n st1 (rn_flow rn) = Inr (Some m)" and "m \<noteq> []"
  shows "\<exists>st1 at1 w1. flow_loop env rn q st at n w = flow_loop env rn q st1 at1 m w1 \<and> S st1 \<and> steady q R' Q' w1"
proof -
  obtain res at1 w1 where w1: "steady q R' Q' w1" and S: "S (state_update (nr_patch res) st)" and it: "flow_iteration env rn q st at n w =
    (case handle_node_status env rn q st at1 n res ''SUCCESS'' w1 of
       (Retry_node, st2, w2) \<Rightarrow> (Again st2 at1 n, w2)
     | (Respond x, st2, w2) \<Rightarrow> (Finish x, w2)
     | (Go_on, st2, w2) \<Rightarrow> advance_to_next_node env rn q st2 at1 n w2)"
    using settled_first_half [OF assms(1-3)] by blast
  define st2 where "st2 = state_update (nr_patch res) st"
  obtain w2 where w2: "fl_commit (edit_run q (\<lambda>row. row\<lparr>fw_current_node := m, fw_state := st2\<rparr>) w1) = (True, w2)" "steady q R' Q' w2"
    using settled_edit_commit [OF w1] by blast
  have "handle_node_status env rn q st at1 n res ''SUCCESS'' w1 = (Go_on, st2, w1)"
    using assms(4) by (simp add: handle_node_status_def finalize_or_go_on_def maybe_finalize_completion_def st2_def Let_def)
  then have "flow_iteration env rn q st at n w = (Again st2 at1 m, w2)"
    using it w2(1) assms(5) [OF S] assms(6) by (simp add: advance_to_next_node_def truthy_str_def st2_def)
  then have "flow_loop env rn q st at n w = flow_loop env rn q st2 at1 m w2" by (simp add: flow_loop.simps [of env rn q st at n w])
  then show ?thesis using w2(2) S unfolding st2_def by blast
qed

lemma settled_capture:
  assumes "steady q R Q w"
  shows "\<exists>w1. capture_flow_completion env rn q w = (None, w1) \<and> steady q R Q w1"
proof -
  obtain w1 where "flow_event env ''error.memory_capture'' (Option.bind (run_of q w) fw_trace_id) w = (Inr True, w1)" "steady q R Q w1"
    using settled_event [OF assms] by blast
  then show ?thesis using assms settled_keeps(5) [OF settled_keeps(6) [OF assms]] by (simp add: capture_flow_completion_def)
qed

lemma settled_end:
  assumes "is_testing (fe_rm env)" and "steady q R Q w" and "node_settles env q n st R Q R' Q' S"
    and "n \<in> set (fg_end (rn_flow rn))" and "hooks_keep Q' env"
    and "\<And>st1. S st1 \<Longrightarrow> \<exists>v. extract_execution_result env (rn_workflow_type rn) st1 = Returns v \<and> extract_async_handoff v = None"
  shows "\<exists>rsp w1. flow_loop env rn q st at n w = Some (Inr rsp, w1) \<and> rsp_status rsp = ''SUCCESS'' \<and> steady q R' Q' w1"
proof -
  obtain res at1 w1 where w1: "steady q R' Q' w1" and S: "S (state_update (nr_patch res) st)" and it: "flow_iteration env rn q st at n w =
    (case handle_node_status env rn q st at1 n res ''SUCCESS'' w1 of
       (Retry_node, st2, w2) \<Rightarrow> (Again st2 at1 n, w2)
     | (Respond x, st2, w2) \<Rightarrow> (Finish x, w2)
     | (Go_on, st2, w2) \<Rightarrow> advance_to_next_node env rn q st2 at1 n w2)"
    using settled_first_half [OF assms(1-3)] by blast
  define st2 where "st2 = state_update (nr_patch res) st"
  obtain v where v: "extract_execution_result env (rn_workflow_type rn) st2 = Returns v" "extract_async_handoff v = None"
    using assms(6) S unfolding st2_def by blast
  obtain w2 where w2: "capture_flow_completion env rn q w1 = (None, w2)" "steady q R' Q' w2"
    using settled_capture [OF w1] by blast
  obtain w3 where w3: "fl_commit (edit_run q (\<lambda>row. row\<lparr>fw_status := ''success'', fw_state := st2, fw_waiting_for := None,
      fw_wait_deadline := None, fw_completed_at := Some (fe_now env)\<rparr>) w2) = (True, w3)" "steady q R' Q' w3"
    using settled_edit_commit [OF w2(2)] by blast
  define w4 where "w4 = w3\<lparr>fl_ext := fe_hook env ''execution.completed'' (fl_ext w3)\<rparr>"
  have "steady q R' Q' w4" using w3(2) assms(5) by (simp add: steady_def w4_def apt.keeps_other hooks_keep_def)
  then obtain w5 where w5: "flow_event env ''execution.completed'' (Some (run_trace q w4)) w4 = (Inr True, w5)" "steady q R' Q' w5"
    using settled_event by blast
  have "\<exists>rsp. finalize env rn q st2 n w1 = (Some rsp, w5) \<and> rsp_status rsp = ''SUCCESS''"
    using w5(1) by (simp add: finalize_def v finish_success_def w2(1) w3(1) w4_def run_response_def)
  then obtain rsp where "handle_node_status env rn q st at1 n res ''SUCCESS'' w1 = (Respond (Inr rsp), st2, w5)"
    and "rsp_status rsp = ''SUCCESS''"
    using assms(4) by (auto simp: handle_node_status_def finalize_or_go_on_def maybe_finalize_completion_def Let_def st2_def)
  then show ?thesis using it w5(2) by (simp add: flow_loop.simps [of env rn q st at n w])
qed

lemma settled_start:
  assumes "fl_io w = []" and "fe_units_ok env" and "both_fl (\<lambda>d. R (fd_app d)) w" and "Q (fl_ext w)" and "trace_blind S" and "S st"
  shows "\<exists>st1 w1. start_flow env rn name st w =
      flow_loop env (started_runner env rn) (fe_fresh_run_id env) st1 [] (fg_start (rn_flow rn)) w1 \<and> S st1 \<and>
    steady (fe_fresh_run_id env) R Q w1 \<and>
    fl_rm w1 = mark_started (fe_rm env) (or_str (rn_user_id rn) []) (Some (fe_fresh_unit_id env)) (fl_rm w)"
proof -
  let ?q = "fe_fresh_run_id env"
  let ?A = "\<lambda>row. fw_current_node row = fg_start (rn_flow rn) \<and> fw_status row = ''running''"
  define w0 where "w0 = fl_work (\<lambda>d. d\<lparr>fd_runs := AList.update ?q (new_flow_row env rn name st) (fd_runs d)\<rparr>) w"
  define w1 where "w1 = w0\<lparr>fl_db := commit_session (fl_db w0)\<rparr>"
  have c: "fl_commit w0 = (True, w1)" using assms(1) by (simp add: calm_commit w1_def w0_def fl_work_def)
  have k1: "both_fl (run_is ?q (\<lambda>row. ?A row \<and> S (fw_state row))) w1"
    by (rule new_row_committed [OF c [unfolded w0_def]]) (simp add: new_flow_row_def assms(6))
  obtain w2 where i: "initialize_execution_unit env rn ?q name w1 = (Some (started_runner env rn), w2)"
    and rm: "fl_rm w2 = mark_started (fe_rm env) (or_str (rn_user_id rn) []) (Some (fe_fresh_unit_id env)) (fl_rm w)"
    and io: "fl_io w2 = []"
    using assms(1,2) by (simp add: initialize_execution_unit_def Let_def eu_create_def started_runner_def w1_def w0_def fl_work_def)
  have k2: "both_fl (run_is ?q (\<lambda>row. ?A row \<and> S (fw_state row))) w2" by (rule initialize_keeps_run(1) [OF i k1])
  have "calm ?q w2" using io run_is_seen [OF k2] by (auto simp: calm_def)
  then obtain w3 where a: "announce_run env ?q st w2 = (None, w3)" and l3: "calm_like ?q w2 w3" using calm_announce by blast
  have "both_fl (run_is ?q (\<lambda>row. ?A row \<and> S (fw_state row))) w3" by (rule announce_state [OF a k2 assms(5,6)]) simp
  then obtain row where row: "run_of ?q w3 = Some row" "?A row" "S (fw_state row)" using run_is_seen by blast
  obtain st4 w4 where e: "enter_run env ?q row w3 = (Inr st4, w4)" and l4: "calm_like ?q w3 w4"
    using calm_enter [of ?q w3] l3 unfolding calm_like_def by blast
  have "both_fl (\<lambda>d. R (fd_app d)) w4"
    using assms(3) apt.keeps_commit [OF c] apt.keeps_initialize [OF i] apt.keeps_announce [OF a] apt.keeps_enter [OF e]
    unfolding w0_def by (blast intro: apt.keeps_new)
  moreover have "fl_ext w4 = fl_ext w"
    using commit_ext [OF c] start_ext(1) [OF i] start_ext(2) [OF a] start_ext(3) [OF e] by (simp add: w0_def)
  ultimately have "steady ?q R Q w4" using l4 assms(4) by (simp add: steady_def calm_like_def)
  moreover have "start_flow env rn name st w = flow_loop env (started_runner env rn) ?q st4 [] (fg_start (rn_flow rn)) w4"
    using c i a e row by (simp add: start_flow_def Let_def w0_def resume_flow_def claim_waiting_run_def)
  moreover have "S st4" by (rule enter_state [OF e assms(5) row(3)])
  moreover have "fl_rm w4 = fl_rm w2" using l3 l4 by (simp add: calm_like_def)
  ultimately show ?thesis using rm by metis
qed

section \<open>The nodes of an agent\<close>

text \<open>
  A plan whose steps the token grants and whose tools succeed without touching the session: the tool of
  a step, and the progress that \<open>k\<close> steps leave in the tables of the run \<open>i\<close>.
\<close>

abbreviation step_tool :: "agent_env \<Rightarrow> pyval \<Rightarrow> string" where
  "step_tool env \<equiv> step_field env ''tool'' []"

definition step_ready :: "agent_env \<Rightarrow> pyval \<Rightarrow> string \<Rightarrow> string \<Rightarrow> pyval \<Rightarrow> bool" where
  "step_ready env token r u step =
     (is_dict step \<and> vd_error (check_tool_capability env token r u (step_tool env step)) = None \<and>
      (\<exists>entry. map_of (ae_tools env) (step_tool env step) = Some entry \<and>
        (\<forall>args w. \<exists>v. te_fn entry args u w = (Returns v, w))))"

definition step_summary :: "agent_step \<Rightarrow> string \<times> int \<times> pyval \<times> string" where
  "step_summary s = (as_run_id s, as_step_index s, as_tool_name s, as_status s)"

definition plan_summary :: "agent_env \<Rightarrow> string \<Rightarrow> pyval list \<Rightarrow> nat \<Rightarrow> (string \<times> int \<times> pyval \<times> string) list" where
  "plan_summary env i steps k = map (\<lambda>j. (i, int j, PStr (step_tool env (steps ! j)), ''success'')) [0..<k]"

definition progressed :: "agent_env \<Rightarrow> string \<Rightarrow> pyval list \<Rightarrow> agent_step list \<Rightarrow> nat \<Rightarrow> (agent_run \<Rightarrow> bool) \<Rightarrow> agent_tables \<Rightarrow> bool" where
  "progressed env i steps before k A t =
     ((\<exists>row. map_of (at_runs t) i = Some row \<and> (0 < k \<longrightarrow> ar_steps_completed row = int k) \<and> A row) \<and>
      map step_summary (at_steps t) = map step_summary before @ plan_summary env i steps k)"

definition call_of :: "agent_env \<Rightarrow> string \<Rightarrow> pyval \<Rightarrow> string \<times> pyval \<times> string" where
  "call_of env u step = (step_tool env step, step_args step, u)"

definition called :: "agent_env \<Rightarrow> string \<Rightarrow> pyval list \<Rightarrow> (string \<times> pyval \<times> string) list \<Rightarrow> nat \<Rightarrow> agent_ext \<Rightarrow> bool" where
  "called env u steps before k e = (ax_calls e = before @ map (call_of env u) (take k steps))"

definition at_step :: "string \<Rightarrow> string \<Rightarrow> pyval \<Rightarrow> pyval list \<Rightarrow> nat \<Rightarrow> flow_state \<Rightarrow> bool" where
  "at_step r u token steps k st =
     (scoped r u token st \<and> map_of st ''steps'' = Some (PList steps) \<and> map_of st ''current_step_index'' = Some (PInt (int k)) \<and>
      map_of st ''status'' = None \<and> map_of st ''_http_status'' = None)"

lemma at_step_reads:
  assumes "at_step r u token steps k st"
  shows "state_steps st = Some steps" "state_index st = Some k" "more_steps st = Some (k < length steps)"
  using assms by (simp_all add: at_step_def state_steps_def state_index_def state_get_def elements_def more_steps_def)

lemma at_step_blind: "trace_blind (at_step r u token steps k)"
  by (auto simp: trace_blind_def at_step_def scoped_update update_conv')

lemma settled_edit_tables:
  assumes "steady q R Q w" and "\<And>t. R t \<Longrightarrow> R' (f t)"
  shows "\<exists>w1. fl_commit (edit_tables f w) = (True, w1) \<and> steady q R' Q w1"
proof -
  have "calm q (edit_tables f w)" using assms(1)
    by (simp add: steady_def calm_def edit_tables_def fl_work_def run_of_def flush_with_def)
  moreover have "R' (fd_app (working (fl_db (edit_tables f w))))"
    using assms by (simp add: steady_def both_fl_def edit_tables_def flush_with_def)
  ultimately show ?thesis using assms(1)
    by (auto simp: calm_def calm_commit steady_def both_fl_def commit_session_def run_of_def)
qed

lemma edit_tables_twice: "edit_tables g (edit_tables f w) = edit_tables (\<lambda>t. g (f t)) w"
  by (simp add: edit_tables_def fl_work_def flush_with_def)

lemma settled_emit:
  "steady q R Q w \<Longrightarrow> \<exists>w1. emit_events env tys trace w = (True, w1) \<and> steady q R Q w1"
proof (induction tys arbitrary: w)
  case (Cons ty tys)
  obtain w1 where "flow_event (ae_flow env) ty trace w = (Inr True, w1)" "steady q R Q w1" using settled_event [OF Cons.prems] by blast
  then show ?case using Cons.IH by simp
qed simp

lemma settled_agent_event:
  assumes "steady q R Q w" and "\<And>t e. R t \<Longrightarrow> R (t\<lparr>at_events := e\<rparr>)"
  shows "\<exists>w1. record_agent_event env r ty trace w = (True, w1) \<and> steady q R Q w1"
proof -
  obtain w1 where w1: "flow_event (ae_flow env) (''agent.'' @ py_lower ty) trace w = (Inr True, w1)" "steady q R Q w1"
    using settled_event [OF assms(1)] by blast
  have "\<exists>w2. fl_commit (edit_tables (\<lambda>t. t\<lparr>at_events := at_events t @ [(r, ty)]\<rparr>) w1) = (True, w2) \<and> steady q R Q w2"
    by (rule settled_edit_tables [OF w1(2)]) (rule assms(2))
  then show ?thesis using w1(1) by (auto simp: record_agent_event_def)
qed

lemma progressed_events: "progressed env i steps before k A t \<Longrightarrow> progressed env i steps before k A (t\<lparr>at_events := e\<rparr>)"
  by (simp add: progressed_def)

lemma plan_summary_Suc:
  "plan_summary env i steps (Suc k) = plan_summary env i steps k @ [(i, int k, PStr (step_tool env (steps ! k)), ''success'')]"
  by (simp add: plan_summary_def)

lemma settled_record:
  assumes "steady q (progressed env i steps before k (\<lambda>_. True)) Q w"
  shows "\<exists>w1. record_agent_step i k (step_tool env (steps ! k)) ''success'' v PNone w = (True, w1) \<and>
    steady q (progressed env i steps before (Suc k) (\<lambda>_. True)) Q w1"
  unfolding record_agent_step_def edit_agent_run_def edit_tables_twice
  by (rule settled_edit_tables [OF assms])
     (auto simp: progressed_def plan_summary_Suc step_summary_def update_conv' simp del: of_nat_Suc split: option.splits)

lemma settled_tool:
  assumes "step_ready env token r u (steps ! k)" and "token \<noteq> PNone" and "r \<noteq> []" and "k < length steps"
    and "steady q R (called env u steps before k) w"
  shows "\<exists>v w1. attempt_tool env policy (step_tool env (steps ! k)) (step_args (steps ! k)) u r token left w = (Some (Inr v), w1) \<and>
    steady q R (called env u steps before (Suc k)) w1"
proof -
  let ?tool = "step_tool env (steps ! k)" let ?args = "step_args (steps ! k)"
  obtain entry where entry: "map_of (ae_tools env) ?tool = Some entry" and fn: "\<And>args w. \<exists>v. te_fn entry args u w = (Returns v, w)"
    and ok: "vd_error (check_tool_capability env token r u ?tool) = None"
    using assms(1) unfolding step_ready_def by blast
  obtain w1 where w1: "flow_event (ae_flow env) ''capability.allowed'' (Some r) w = (Inr True, w1)" "steady q R (called env u steps before k) w1"
    using settled_event [OF assms(5)] by blast
  define w2 where "w2 = w1\<lparr>fl_ext := (fl_ext w1)\<lparr>ax_calls := calls w1 @ [(?tool, ?args, u)]\<rparr>\<rparr>"
  obtain v where "te_fn entry ?args u w2 = (Returns v, w2)" using fn by blast
  then have "execute_tool env ?tool ?args u r token w = (Some (Inr v), w2)"
    using entry ok w1(1) assms(2,3) by (simp add: execute_tool_def call_tool_def w2_def)
  then have "attempt_tool env policy ?tool ?args u r token left w = (Some (Inr v), w2)" by (cases left) simp_all
  moreover have "steady q R (called env u steps before (Suc k)) w2"
    using w1(2) assms(4) by (simp add: steady_def w2_def apt.keeps_other called_def call_of_def take_Suc_conv_app_nth)
  ultimately show ?thesis by blast
qed

lemma settled_run_step:
  assumes "at_step r u token steps k st" and "k < length steps" and "step_ready env token r u (steps ! k)"
    and "py_truthy token" and "r \<noteq> []"
    and "steady q (progressed env (db_id env r) steps before k (\<lambda>_. True)) (called env u steps prior k) w"
  shows "\<exists>res w1. run_step env st k (steps ! k) w = ((Returns res, st), w1) \<and>
    steady q (progressed env (db_id env r) steps before (Suc k) (\<lambda>_. True)) (called env u steps prior (Suc k)) w1 \<and>
    nr_status res = Some ''SUCCESS'' \<and> at_step r u token steps (Suc k) (state_update (nr_patch res) st)"
proof -
  let ?tool = "step_tool env (steps ! k)"
  let ?policy = "agent_policy (step_field env ''risk_level'' ''high'' (steps ! k))"
  have sc: "scoped r u token st" using assms(1) by (simp add: at_step_def)
  note texts = scoped_texts [OF sc]
  have token: "state_token st = token" "token \<noteq> PNone" using texts(3) assms(4) by (auto simp: py_truthy_def)
  have verdict: "step_verdict env st ?tool = None"
    using assms(3) by (simp add: step_verdict_def texts(1,2) token(1) step_ready_def)
  obtain v w1 where w1: "attempt_tool env ?policy ?tool (step_args (steps ! k)) u r token (nat (max_attempts ?policy - 1)) w = (Some (Inr v), w1)"
    "steady q (progressed env (db_id env r) steps before k (\<lambda>_. True)) (called env u steps prior (Suc k)) w1"
    using settled_tool [OF assms(3) token(2) assms(5,2,6)] by blast
  obtain w2 where w2: "record_agent_step (db_id env r) k ?tool ''success'' v PNone w1 = (True, w2)"
    "steady q (progressed env (db_id env r) steps before (Suc k) (\<lambda>_. True)) (called env u steps prior (Suc k)) w2"
    using settled_record [OF w1(2)] by blast
  obtain w3 where w3: "emit_events env [''agent.step'', ''agent.step.completed''] (state_trace st) w2 = (True, w3)"
    "steady q (progressed env (db_id env r) steps before (Suc k) (\<lambda>_. True)) (called env u steps prior (Suc k)) w3"
    using settled_emit [OF w2(2)] by blast
  let ?patch = "[(''current_step_index'', PInt (int k + 1)), (''step_results'', PList (state_results st @ [step_result k ?tool ''success'' v PNone]))]"
  have "run_step env st k (steps ! k) w = ((Returns (node_done env ''SUCCESS'' None ?patch), st), w3)"
    using w1(1) w2(1) w3(1) verdict
    by (simp add: run_step_def Let_def agent_policy_def [symmetric] texts(1,2) token(1) step_executed_def del: emit_events.simps)
  moreover have "at_step r u token steps (Suc k) (state_update ?patch st)"
    using assms(1) by (simp add: at_step_def state_update_def scoped_update update_conv')
  ultimately show ?thesis using w3(2) by auto
qed

lemma agent_fields [simp]:
  "fe_blocked_nodes (agent_nodes_env env) = fe_blocked_nodes (ae_flow env)" "fe_rm (agent_nodes_env env) = fe_rm (ae_flow env)"
  "fe_units_ok (agent_nodes_env env) = fe_units_ok (ae_flow env)"
  "extract_execution_result (agent_nodes_env env) = extract_execution_result (ae_flow env)"
  by (simp_all add: agent_nodes_env_def register_node_def extract_execution_result_def fun_eq_iff Let_def split: option.split)

lemma validate_settles:
  assumes "at_step r u token steps 0 st" and "steps \<noteq> []" and "''agent_validate_steps'' \<notin> set (fe_blocked_nodes (ae_flow env))"
  shows "node_settles (agent_nodes_env env) q ''agent_validate_steps'' st R Q R Q (at_step r u token steps 0)"
proof -
  have "at_step r u token steps 0 (state_update [(''current_step_index'', PInt 0), (''step_results'', PList [])] st)"
    using assms(1) by (simp add: at_step_def state_update_def scoped_update update_conv')
  moreover have "py_truthy (state_get ''steps'' (PList []) st)" using assms(1,2) by (simp add: at_step_def state_get_def py_truthy_def)
  ultimately show ?thesis using assms(3) by (simp add: node_settles_def agent_validate_steps_def)
qed

lemma execute_settles:
  assumes "at_step r u token steps k st" and "k < length steps" and "step_ready env token r u (steps ! k)" and "py_truthy token" and "r \<noteq> []"
    and "''agent_execute_step'' \<notin> set (fe_blocked_nodes (ae_flow env))"
  shows "node_settles (agent_nodes_env env) q ''agent_execute_step'' st
    (progressed env (db_id env r) steps before k (\<lambda>_. True)) (called env u steps prior k)
    (progressed env (db_id env r) steps before (Suc k) (\<lambda>_. True)) (called env u steps prior (Suc k)) (at_step r u token steps (Suc k))"
proof -
  have "map_of st ''agent_run_id'' \<noteq> None" "map_of st ''user_id'' \<noteq> None" using assms(1) by (simp_all add: at_step_def scoped_def)
  then have "agent_execute_step env st a w = run_step env st k (steps ! k) w" for a w
    using at_step_reads [OF assms(1)] assms(2,3) by (auto simp: agent_execute_step_def step_ready_def)
  then show ?thesis using settled_run_step [OF assms(1-5)] assms(6) by (simp add: node_settles_def)
qed

definition quiet_hooks :: "agent_env \<Rightarrow> bool" where
  "quiet_hooks env = (\<forall>results w. \<exists>hs. ae_completed_hooks env results w = (Returns hs, w))"

lemma finalize_settles:
  assumes "at_step r u token steps k st" and "quiet_hooks env" and "''agent_finalize_run'' \<notin> set (fe_blocked_nodes (ae_flow env))"
  shows "node_settles (agent_nodes_env env) q ''agent_finalize_run'' st (progressed env (db_id env r) steps before k (\<lambda>_. True)) Q
    (progressed env (db_id env r) steps before k (\<lambda>row. ar_status row = ''completed'')) Q (at_step r u token steps k)"
proof -
  let ?R = "progressed env (db_id env r) steps before k"
  have sc: "scoped r u token st" using assms(1) by (simp add: at_step_def)
  have patched: "at_step r u token steps k (state_update [(''finalized'', PBool True)] st)"
    using assms(1) by (simp add: at_step_def state_update_def scoped_update update_conv')
  have finish: "\<exists>w1. finish_agent_run env st True payload w = ((Returns (node_done env ''SUCCESS'' None [(''finalized'', PBool True)]), st), w1) \<and>
      steady q (?R (\<lambda>row. ar_status row = ''completed'')) Q w1" if w: "steady q (?R (\<lambda>_. True)) Q w" for payload w
  proof -
    obtain w1 where w1: "fl_commit (edit_agent_run (db_id env r) (\<lambda>row. row\<lparr>ar_status := ''completed'',
        ar_completed_at := Some (ae_now env), ar_result := payload\<rparr>) w) = (True, w1)"
      "steady q (?R (\<lambda>row. ar_status row = ''completed'')) Q w1"
    proof -
      have "\<exists>w1. fl_commit (edit_agent_run (db_id env r) (\<lambda>row. row\<lparr>ar_status := ''completed'',
          ar_completed_at := Some (ae_now env), ar_result := payload\<rparr>) w) = (True, w1) \<and>
        steady q (?R (\<lambda>row. ar_status row = ''completed'')) Q w1"
        unfolding edit_agent_run_def by (rule settled_edit_tables [OF w]) (auto simp: progressed_def update_conv')
      then show thesis using that by blast
    qed
    obtain w2 where "record_agent_event env r ''COMPLETED'' (state_event_trace st) w1 = (True, w2)"
      "steady q (?R (\<lambda>row. ar_status row = ''completed'')) Q w2"
      using settled_agent_event [OF w1(2)] progressed_events by blast
    then show ?thesis using w1(1) by (simp add: finish_agent_run_def scoped_texts(2) [OF sc])
  qed
  have "\<exists>res w1. agent_finalize_run env st a w = ((Returns res, st), w1) \<and> steady q (?R (\<lambda>row. ar_status row = ''completed'')) Q w1 \<and>
      nr_status res = Some ''SUCCESS'' \<and> at_step r u token steps k (state_update (nr_patch res) st)"
    if w: "steady q (?R (\<lambda>_. True)) Q w" for a w
  proof -
    obtain hs where hs: "ae_completed_hooks env (state_results st) w = (Returns hs, w)" using assms(2) unfolding quiet_hooks_def by blast
    have "agent_run_of (db_id env r) w \<noteq> None" using w by (auto simp: steady_def both_fl_def progressed_def agent_run_of_def tables_def)
    moreover have "map_of st ''agent_run_id'' \<noteq> None" using sc by (simp add: scoped_def)
    ultimately have "agent_finalize_run env st a w = finish_agent_run env st True
        (if u \<noteq> [] then completed_result (state_results st) hs else PDict [(''steps'', PList (state_results st))]) w"
      by (auto simp: agent_finalize_run_def scoped_texts(1,2) [OF sc] hs Let_def)
    with finish [OF w] patched show ?thesis by fastforce
  qed
  then show ?thesis using assms(3) by (simp add: node_settles_def)
qed

section \<open>A plan that succeeds\<close>

lemma plain_result:
  assumes "fe_result_extractor env name = None" and "fe_result_key env name = None" and "at_step r u token steps k st"
  shows "\<exists>v. extract_execution_result env (Some name) st = Returns v \<and> extract_async_handoff v = None"
  using assms
  by (cases name) (simp_all add: extract_execution_result_def or_str_def at_step_def extract_async_handoff_def dict_get_def text_or_def
      ascii_upper_def is_dict_def)

text \<open>What the surroundings must offer: every write succeeds, no node of the agents is blocked, no result is reinterpreted.\<close>

definition agents_served :: "agent_env \<Rightarrow> bool" where
  "agents_served env =
     (fe_units_ok (ae_flow env) \<and> set (fe_blocked_nodes (ae_flow env)) \<inter> agent_node_names = {} \<and>
      fe_result_extractor (ae_flow env) ''agent_execution'' = None \<and> fe_result_key (ae_flow env) ''agent_execution'' = None)"

lemma hooks_keep_called: "log_kept env \<Longrightarrow> hooks_keep (called env u steps prior k) (agent_nodes_env env)"
  by (simp add: hooks_keep_def log_kept_def called_def)

lemma steps_loop:
  assumes "at_step r u token steps k st" and "k < length steps" and "py_truthy token" and "r \<noteq> []"
    and "\<And>s. s \<in> set steps \<Longrightarrow> step_ready env token r u s"
    and "is_testing (fe_rm (ae_flow env))" and "agents_served env" and "quiet_hooks env" and "log_kept env"
    and "rn_flow rn = AGENT_FLOW" and "rn_workflow_type rn = Some ''agent_execution''"
    and "steady q (progressed env (db_id env r) steps before k (\<lambda>_. True)) (called env u steps prior k) w"
  shows "\<exists>rsp w1. flow_loop (agent_nodes_env env) rn q st at ''agent_execute_step'' w = Some (Inr rsp, w1) \<and> rsp_status rsp = ''SUCCESS'' \<and>
    steady q (progressed env (db_id env r) steps before (length steps) (\<lambda>row. ar_status row = ''completed''))
      (called env u steps prior (length steps)) w1"
  using assms(1,2,12)
proof (induction "length steps - k" arbitrary: k st at w)
  case 0
  then show ?case by simp
next
  case (Suc m)
  let ?env = "agent_nodes_env env" let ?R = "progressed env (db_id env r) steps before" let ?Q = "called env u steps prior"
  have free: "''agent_execute_step'' \<notin> set (fe_blocked_nodes (ae_flow env))" "''agent_finalize_run'' \<notin> set (fe_blocked_nodes (ae_flow env))"
    using assms(7) by (auto simp: agents_served_def agent_node_names_def)
  have ready: "step_ready env token r u (steps ! k)" using assms(5) Suc.prems(2) by simp
  note node = execute_settles [OF Suc.prems(1,2) ready assms(3,4) free(1), of q before prior]
  have test: "is_testing (fe_rm ?env)" using assms(6) by simp
  define next_node where "next_node = (if Suc k < length steps then ''agent_execute_step'' else ''agent_finalize_run'')"
  have "\<exists>st1 at1 w1. flow_loop ?env rn q st at ''agent_execute_step'' w = flow_loop ?env rn q st1 at1 next_node w1 \<and>
      at_step r u token steps (Suc k) st1 \<and> steady q (?R (Suc k) (\<lambda>_. True)) (?Q (Suc k)) w1"
    by (rule settled_step [OF test Suc.prems(3) node])
       (auto simp: assms(10) next_node_def at_step_reads split: bool.splits)
  then obtain st1 at1 w1 where it: "flow_loop ?env rn q st at ''agent_execute_step'' w = flow_loop ?env rn q st1 at1 next_node w1"
    and st1: "at_step r u token steps (Suc k) st1" and w1: "steady q (?R (Suc k) (\<lambda>_. True)) (?Q (Suc k)) w1" by blast
  show ?case
  proof (cases "Suc k < length steps")
    case True
    then show ?thesis using Suc.hyps(1) [OF _ st1 True w1, of at1] Suc.hyps(2) it by (simp add: next_node_def)
  next
    case False
    then have k: "Suc k = length steps" using Suc.prems(2) by simp
    have "\<exists>rsp w2. flow_loop ?env rn q st1 at1 ''agent_finalize_run'' w1 = Some (Inr rsp, w2) \<and> rsp_status rsp = ''SUCCESS'' \<and>
        steady q (?R (Suc k) (\<lambda>row. ar_status row = ''completed'')) (?Q (Suc k)) w2"
      by (rule settled_end [OF test w1 finalize_settles [OF st1 assms(8) free(2)]])
         (use assms(7,9-11) plain_result hooks_keep_called in \<open>auto simp: agents_served_def\<close>)
    then show ?thesis using it False by (simp add: next_node_def k)
  qed
qed

lemma free_event:
  assumes "fl_io w = []"
  shows "\<exists>w1. flow_event env ty trace w = (Inr True, w1) \<and> fl_io w1 = []"
  using assms by (simp add: flow_event_def store_event_def calm_commit fl_work_def)

lemma orchestration_enters:
  assumes "plan_get ''steps'' (PList []) plan = Some (PList steps)" and "py_truthy token" and "flow_refusal env r u token = None"
    and "fl_io w = []" and "both_fl (\<lambda>d. R (fd_app d)) w" and "Q (fl_ext w)"
  shows "\<exists>memory w1. execute_agent_flow_orchestration env r plan u corr token legacy w =
      run_agent_flow env r u (agent_initial_state r u (PList steps) memory corr token) w1 \<and>
    fl_io w1 = [] \<and> both_fl (\<lambda>d. R (fd_app d)) w1 \<and> Q (fl_ext w1) \<and> fl_rm w1 = fl_rm w"
proof -
  obtain memory where m: "plan_get ''memory_context'' (PDict []) plan = Some memory"
    using assms(1) by (auto simp: plan_get_def split: if_splits pyval.splits)
  obtain w1 where w1: "flow_event (ae_flow env) ''capability.allowed'' corr w = (Inr True, w1)" "fl_io w1 = []"
    using free_event [OF assms(4)] by blast
  have "execute_agent_flow_orchestration env r plan u corr token legacy w =
      run_agent_flow env r u (agent_initial_state r u (PList steps) memory corr token) w1"
    using assms(1-3) m w1(1) by (simp add: execute_agent_flow_orchestration_def elements_def)
  moreover have "Q (fl_ext w1)" using event_ext [OF w1(1)] assms(6) by simp
  ultimately show ?thesis using w1(2) apt.keeps_event [OF w1(1) assms(5)] event_rm [OF w1(1)] by blast
qed

lemma initial_at_step: "at_step r u token steps 0 (agent_initial_state r u (PList steps) memory corr token)"
  by (simp add: at_step_def initial_scoped) (simp add: agent_initial_state_def)

lemma settled_link:
  assumes "steady q R Q w" and "\<And>t. R t \<Longrightarrow> map_of (at_runs t) i \<noteq> None"
    and "\<And>t row. R t \<Longrightarrow> map_of (at_runs t) i = Some row \<Longrightarrow>
      R' (t\<lparr>at_runs := AList.update i (row\<lparr>ar_flow_run_id := Some (fe_fresh_run_id (ae_flow env))\<rparr>) (at_runs t)\<rparr>)"
  shows "\<exists>w1. link_agent_flow env i w = (True, w1) \<and> steady q R' Q w1"
proof -
  have "agent_run_of i w \<noteq> None" using assms(1,2) by (auto simp: steady_def both_fl_def agent_run_of_def tables_def)
  moreover have "\<exists>w1. fl_commit (edit_agent_run i (\<lambda>row. row\<lparr>ar_flow_run_id := Some (fe_fresh_run_id (ae_flow env))\<rparr>) w) = (True, w1) \<and>
      steady q R' Q w1"
    unfolding edit_agent_run_def by (rule settled_edit_tables [OF assms(1)]) (use assms(2,3) in \<open>fastforce split: option.split\<close>)
  ultimately show ?thesis by (auto simp: link_agent_flow_def)
qed

text \<open>
  On a database that accepts every write, with a token that grants the flow and every step and tools that
  succeed, the orchestration answers success, has called the tools of the plan once each, in order, with
  the plan's arguments and for the run's user, and has stored the run as completed, linked to its flow,
  with one successful step row for each step of the plan.
\<close>

lemma plan_completes:
  assumes "plan_get ''steps'' (PList []) plan = Some (PList steps)" and "steps \<noteq> []" and "py_truthy token" and "r \<noteq> []"
    and "flow_refusal env r u token = None" and "\<And>s. s \<in> set steps \<Longrightarrow> step_ready env token r u s"
    and "fl_io w = []" and "working (fl_db w) = committed (fl_db w)" and "agent_run_of (db_id env r) w \<noteq> None"
    and "is_testing (fe_rm (ae_flow env))" and "agents_served env" and "quiet_hooks env" and "log_kept env"
  shows "\<exists>w1. execute_agent_flow_orchestration env r plan u corr token legacy w = Some (Orchestrated ''SUCCESS'', w1) \<and>
    calls w1 = calls w @ map (call_of env u) steps \<and> fl_io w1 = [] \<and>
    both_fl (\<lambda>d. progressed env (db_id env r) steps (at_steps (tables w)) (length steps)
      (\<lambda>row. ar_status row = ''completed'' \<and> ar_flow_run_id row = Some (fe_fresh_run_id (ae_flow env))) (fd_app d)) w1"
proof -
  let ?env = "agent_nodes_env env" let ?q = "fe_fresh_run_id (ae_flow env)" let ?rn = "started_runner ?env (agent_runner u)"
  let ?R = "progressed env (db_id env r) steps (at_steps (tables w))" let ?Q = "called env u steps (calls w)"
  have R: "both_fl (\<lambda>d. ?R 0 (\<lambda>_. True) (fd_app d)) w"
    using assms(8,9) by (auto simp: both_fl_def progressed_def plan_summary_def agent_run_of_def tables_def)
  have Q: "?Q 0 (fl_ext w)" by (simp add: called_def)
  obtain memory w1 where run: "execute_agent_flow_orchestration env r plan u corr token legacy w =
      run_agent_flow env r u (agent_initial_state r u (PList steps) memory corr token) w1"
    and w1: "fl_io w1 = []" "both_fl (\<lambda>d. ?R 0 (\<lambda>_. True) (fd_app d)) w1" "?Q 0 (fl_ext w1)"
    using orchestration_enters [where R = "?R 0 (\<lambda>_. True)" and Q = "?Q 0", OF assms(1,3,5,7) R Q] by blast
  have units: "fe_units_ok ?env" and free: "''agent_validate_steps'' \<notin> set (fe_blocked_nodes (ae_flow env))"
    using assms(11) by (auto simp: agents_served_def agent_node_names_def)
  obtain st2 w2 where start: "start_flow ?env (agent_runner u) ''agent_execution'' (agent_initial_state r u (PList steps) memory corr token) w1 =
      flow_loop ?env ?rn ?q st2 [] (fg_start (rn_flow (agent_runner u))) w2"
    and st2: "at_step r u token steps 0 st2" and w2: "steady ?q (?R 0 (\<lambda>_. True)) (?Q 0) w2"
    using settled_start [where R = "?R 0 (\<lambda>_. True)" and Q = "?Q 0", OF w1(1) units w1(2,3) at_step_blind initial_at_step,
        of "agent_runner u" "''agent_execution''" r u steps memory corr token] by auto
  have flow: "rn_flow ?rn = AGENT_FLOW" "rn_workflow_type ?rn = Some ''agent_execution''" "fg_start (rn_flow (agent_runner u)) = ''agent_validate_steps''"
    by (simp_all add: started_runner_def agent_runner_def new_runner_def)
  have "\<exists>st3 at3 w3. flow_loop ?env ?rn ?q st2 [] ''agent_validate_steps'' w2 = flow_loop ?env ?rn ?q st3 at3 ''agent_execute_step'' w3 \<and>
      at_step r u token steps 0 st3 \<and> steady ?q (?R 0 (\<lambda>_. True)) (?Q 0) w3"
    by (rule settled_step [OF _ w2 validate_settles [OF st2 assms(2) free]]) (simp_all add: assms(10) flow(1))
  then obtain st3 at3 w3 where it: "flow_loop ?env ?rn ?q st2 [] ''agent_validate_steps'' w2 = flow_loop ?env ?rn ?q st3 at3 ''agent_execute_step'' w3"
    and st3: "at_step r u token steps 0 st3" and w3: "steady ?q (?R 0 (\<lambda>_. True)) (?Q 0) w3" by blast
  have "0 < length steps" using assms(2) by simp
  from steps_loop [OF st3 this assms(3,4,6,10-13) flow(1,2) w3] obtain rsp w4 where
    loop: "flow_loop ?env ?rn ?q st3 at3 ''agent_execute_step'' w3 = Some (Inr rsp, w4)" "rsp_status rsp = ''SUCCESS''"
    and w4: "steady ?q (?R (length steps) (\<lambda>row. ar_status row = ''completed'')) (?Q (length steps)) w4" by blast
  have "\<exists>w5. link_agent_flow env (db_id env r) w4 = (True, w5) \<and>
      steady ?q (?R (length steps) (\<lambda>row. ar_status row = ''completed'' \<and> ar_flow_run_id row = Some ?q)) (?Q (length steps)) w5"
    by (rule settled_link [OF w4]) (auto simp: progressed_def update_conv')
  then obtain w5 where link: "link_agent_flow env (db_id env r) w4 = (True, w5)"
    and w5: "steady ?q (?R (length steps) (\<lambda>row. ar_status row = ''completed'' \<and> ar_flow_run_id row = Some ?q)) (?Q (length steps)) w5" by blast
  have "execute_agent_flow_orchestration env r plan u corr token legacy w = Some (Orchestrated ''SUCCESS'', w5)"
    using run start it loop link by (simp add: run_agent_flow_def flow(3) close_orchestration_def)
  moreover have "calls w5 = calls w @ map (call_of env u) steps" using w5 by (simp add: steady_def called_def)
  ultimately show ?thesis using w5 by (auto simp: steady_def calm_def)
qed

lemma sample_grants:
  "flow_refusal sample_agent_env ''r1'' ''u1'' (sample_minted ''auto'') = None"
  "py_truthy (sample_minted ''auto'')"
  by code_simp+

definition sample_steps :: "pyval list" where
  "sample_steps = [PDict [(''tool'', PStr ''memory.recall''), (''risk_level'', PStr ''low'')],
                   PDict [(''tool'', PStr ''memory.write''), (''risk_level'', PStr ''low'')]]"

lemma sample_steps: "plan_get ''steps'' (PList []) sample_plan = Some (PList sample_steps)"
  by code_simp

lemma sample_surroundings:
  "is_testing (fe_rm (ae_flow sample_agent_env))" "agents_served sample_agent_env" "quiet_hooks sample_agent_env"
  by (simp_all add: sample_agent_env_def agents_served_def quiet_hooks_def)

section \<open>A parked flow\<close>

lemma check_waits:
  assumes "check_resources env rn q st n w = (Some (Inr rsp), w1)" and "rsp_status rsp = ''WAITING''" and "steady q R Q w"
  shows "steady q R Q w1 \<and> both_fl (run_is q (\<lambda>row. fw_status row = ''waiting'')) w1"
proof -
  obtain row0 where "run_of q w = Some row0" using assms(3) by (auto simp: steady_def calm_def)
  obtain reason rm where "can_execute (fe_rm env) (runner_tenant rn) (fl_rm w) = (Some reason, rm)"
    using assms(1,2) by (auto simp: check_resources_def split: prod.splits option.splits dest: fail_status)
  then have park: "park_run env rn q st n ''resource_available'' (runner_tenant rn) (w\<lparr>fl_rm := rm\<rparr>) = (True, w1)"
    using assms(1) by (auto simp: check_resources_def split: prod.splits bool.splits)
  have w: "steady q R Q (w\<lparr>fl_rm := rm\<rparr>)" using settled_keeps(3) [OF assms(3)] .
  obtain w2 where w2: "fl_commit (edit_run q (\<lambda>row. row\<lparr>fw_status := ''waiting'', fw_waiting_for := Some ''resource_available'',
      fw_wait_deadline := Some (default_wait_deadline env (get_flow_wait_timeout (w\<lparr>fl_rm := rm\<rparr>) (fw_flow_name row))),
      fw_state := st, fw_current_node := n\<rparr>) (w\<lparr>fl_rm := rm\<rparr>)) = (True, w2)" "steady q R Q w2"
    using settled_edit_commit [OF w] by blast
  have db: "fl_db w1 = fl_db w2" "fl_io w1 = fl_io w2" "fl_ext w1 = fl_ext w2"
    using park by (auto simp: park_run_def w2(1) split: sum.splits)
  have "working (fl_db w2) = committed (fl_db w2)" and "run_of q w2 = map_option (\<lambda>row. row\<lparr>fw_status := ''waiting'',
      fw_waiting_for := Some ''resource_available'',
      fw_wait_deadline := Some (default_wait_deadline env (get_flow_wait_timeout (w\<lparr>fl_rm := rm\<rparr>) (fw_flow_name row))),
      fw_state := st, fw_current_node := n\<rparr>) (run_of q w)"
    by (auto simp: commit_cases(1) [OF w2(1)] commit_session_def run_of_def edit_run_def flush_with_def update_conv' split: option.splits)
  then have "both_fl (run_is q (\<lambda>row. fw_status row = ''waiting'')) w2"
    using \<open>run_of q w = Some row0\<close> by (simp add: both_fl_def run_is_def run_of_def split: option.splits)
  then show ?thesis using w2(2) db by (simp add: steady_def calm_def both_fl_def run_of_def)
qed

lemma keeps_flow_row:
  assumes "fl_commit (edit_tables f w) = (b, w1)" and "both_fl (run_is q P) w"
  shows "both_fl (run_is q P) w1"
proof -
  have "both_fl (run_is q P) (edit_tables f w)" using assms(2) by (simp add: both_fl_def edit_tables_def flush_with_def run_is_def)
  then show ?thesis by (rule ri.keeps_commit [OF assms(1)])
qed

text \<open>Closing a run that executes, whose flow did not succeed: it is linked and marked failed, and the flow's row stays as it is.\<close>

definition run_executing :: "string \<Rightarrow> agent_tables \<Rightarrow> bool" where
  "run_executing i t = (\<exists>row. map_of (at_runs t) i = Some row \<and> ar_status row = ''executing'')"

definition run_failed :: "string \<Rightarrow> string \<Rightarrow> agent_tables \<Rightarrow> bool" where
  "run_failed i q t = (\<exists>row. map_of (at_runs t) i = Some row \<and> ar_status row = ''failed'' \<and> ar_flow_run_id row = Some q)"

lemma close_fails:
  assumes "steady q (run_executing (db_id env r)) Q w" and "both_fl (run_is q P) w" and "status \<noteq> ''SUCCESS''"
    and "q = fe_fresh_run_id (ae_flow env)"
  shows "\<exists>w1. close_orchestration env r status w = (Orchestrated status, w1) \<and> steady q (run_failed (db_id env r) q) Q w1 \<and>
    both_fl (run_is q P) w1"
proof -
  let ?i = "db_id env r"
  let ?L = "\<lambda>t. \<exists>row. map_of (at_runs t) ?i = Some row \<and> ar_status row = ''executing'' \<and> ar_flow_run_id row = Some q"
  have "\<exists>w1. link_agent_flow env ?i w = (True, w1) \<and> steady q ?L Q w1"
    by (rule settled_link [OF assms(1)]) (auto simp: run_executing_def update_conv' assms(4))
  then obtain w1 where w1: "link_agent_flow env ?i w = (True, w1)" "steady q ?L Q w1" by blast
  have P1: "both_fl (run_is q P) w1"
    using w1(1) assms(2) by (auto simp: link_agent_flow_def edit_agent_run_def split: if_splits dest: keeps_flow_row)
  obtain row where row: "agent_run_of ?i w1 = Some row" "ar_status row = ''executing''"
    using w1(2) by (auto simp: steady_def both_fl_def agent_run_of_def tables_def)
  let ?f = "fail_executing env (PStr ''Flow execution failed'') (stored_step_results ?i w1)"
  have "\<exists>w2. fl_commit (edit_agent_run ?i ?f w1) = (True, w2) \<and> steady q (run_failed ?i q) Q w2"
    unfolding edit_agent_run_def
    by (rule settled_edit_tables [OF w1(2)]) (auto simp: run_failed_def fail_executing_def update_conv')
  then obtain w2 where w2: "fl_commit (edit_agent_run ?i ?f w1) = (True, w2)" "steady q (run_failed ?i q) Q w2" by blast
  have "both_fl (run_is q P) w2" by (rule keeps_flow_row [OF w2(1) [unfolded edit_agent_run_def] P1])
  moreover have "close_orchestration env r status w = (Orchestrated status, w2)"
    using w1(1) w2(1) row assms(3) by (simp add: close_orchestration_def fail_agent_run_def)
  ultimately show ?thesis using w2(2) by blast
qed

text \<open>
  C40. A run that only has to wait is reported as failed: when the flow of an agent run is parked because it
  took its tenant's last slot, the orchestration answers \<open>WAITING\<close> and stores the agent run as failed, while
  the flow it links to stays stored as waiting, to execute the plan once a slot is free. No tool was
  called.
\<close>

theorem parked_agent_run_fails:
  assumes "plan_get ''steps'' (PList []) plan = Some (PList steps)" and "py_truthy token" and "flow_refusal env r u token = None"
    and "fl_io w = []" and "working (fl_db w) = committed (fl_db w)" and "run_executing (db_id env r) (tables w)"
    and "fe_units_ok (ae_flow env)" and "\<not> redis_url (fe_rm (ae_flow env))" and "\<not> is_testing (fe_rm (ae_flow env))"
    and "\<not> redis_client (fl_rm w)" and "max_concurrent (fl_rm w) \<le> local_active (fl_rm w) u + 1"
  shows "\<exists>w1 flow. execute_agent_flow_orchestration env r plan u corr token legacy w = Some (Orchestrated ''WAITING'', w1) \<and>
    calls w1 = calls w \<and> run_failed (db_id env r) (fe_fresh_run_id (ae_flow env)) (fd_app (committed (fl_db w1))) \<and>
    map_of (fd_runs (committed (fl_db w1))) (fe_fresh_run_id (ae_flow env)) = Some flow \<and> fw_status flow = ''waiting''"
proof -
  let ?env = "agent_nodes_env env" let ?q = "fe_fresh_run_id (ae_flow env)" let ?rn = "started_runner ?env (agent_runner u)"
  let ?R = "run_executing (db_id env r)" let ?Q = "\<lambda>e. ax_calls e = calls w"
  have R: "both_fl (\<lambda>d. ?R (fd_app d)) w" using assms(5,6) by (simp add: both_fl_def tables_def)
  obtain memory w1 where run: "execute_agent_flow_orchestration env r plan u corr token legacy w =
      run_agent_flow env r u (agent_initial_state r u (PList steps) memory corr token) w1"
    and w1: "fl_io w1 = []" "both_fl (\<lambda>d. ?R (fd_app d)) w1" "?Q (fl_ext w1)" "fl_rm w1 = fl_rm w"
    using orchestration_enters [where R = ?R and Q = ?Q, OF assms(1-4) R] by blast
  have units: "fe_units_ok ?env" using assms(7) by simp
  have tenant: "or_str (rn_user_id (agent_runner u)) [] = u" "runner_tenant ?rn = u"
    by (simp_all add: agent_runner_def new_runner_def or_str_def runner_tenant_def started_runner_def)
  obtain st2 w2 where start: "start_flow ?env (agent_runner u) ''agent_execution'' (agent_initial_state r u (PList steps) memory corr token) w1 =
      flow_loop ?env ?rn ?q st2 [] (fg_start (rn_flow (agent_runner u))) w2"
    and w2: "steady ?q ?R ?Q w2" and rm: "fl_rm w2 = mark_started (fe_rm ?env) u (Some (fe_fresh_unit_id ?env)) (fl_rm w1)"
    using settled_start [where R = ?R and Q = ?Q, OF w1(1) units w1(2,3) at_step_blind initial_at_step,
        of "agent_runner u" "''agent_execution''" r u steps memory corr token] by (auto simp: tenant)
  obtain w3 where w3: "flow_event ?env ''flow.node.started'' (Some (run_trace ?q w2)) w2 = (Inr True, w3)" "steady ?q ?R ?Q w3"
    using settled_event [OF w2] by blast
  have "\<not> redis_client (fl_rm w3)" "max_concurrent (fl_rm w3) \<le> local_active (fl_rm w3) (runner_tenant ?rn)"
    using assms(8,10,11)
    by (simp_all add: event_rm [OF w3(1)] rm w1(4) tenant local_active_def count_start_local local_increment_def mark_started_limit)
  then obtain rsp w4 where w4: "check_resources ?env ?rn ?q st2 ''agent_validate_steps'' w3 = (Some (Inr rsp), w4)" "rsp_status rsp = ''WAITING''"
    using full_check [of ?q w3 ?env ?rn st2 "''agent_validate_steps''"] w3(2) assms(8,9) by (auto simp: steady_def)
  have parked: "steady ?q ?R ?Q w4" "both_fl (run_is ?q (\<lambda>row. fw_status row = ''waiting'')) w4"
    using check_waits [OF w4 w3(2)] by blast+
  obtain w5 where w5: "close_orchestration env r ''WAITING'' w4 = (Orchestrated ''WAITING'', w5)"
    "steady ?q (run_failed (db_id env r) ?q) ?Q w5" "both_fl (run_is ?q (\<lambda>row. fw_status row = ''waiting'')) w5"
    using close_fails [OF parked, of "''WAITING''"] by auto
  have "flow_loop ?env ?rn ?q st2 [] ''agent_validate_steps'' w2 = Some (Inr rsp, w4)"
    using w2 by (auto simp: flow_loop.simps flow_iteration_def steady_def calm_def execute_current_node_def w3(1) w4(1))
  then have "execute_agent_flow_orchestration env r plan u corr token legacy w = Some (Orchestrated ''WAITING'', w5)"
    using run start w4(2) w5(1) by (simp add: run_agent_flow_def agent_runner_def new_runner_def)
  then show ?thesis using w5(2,3) by (auto simp: steady_def both_fl_def run_is_def split: option.splits)
qed

definition busy_agent_env :: agent_env where
  "busy_agent_env =
     sample_agent_env\<lparr>ae_flow := (ae_flow sample_agent_env)\<lparr>fe_rm := (fe_rm (ae_flow sample_agent_env))\<lparr>is_testing := False\<rparr>\<rparr>\<rparr>"

definition busy_agent_world :: agent_world where
  "busy_agent_world = (sample_agent_world [])
     \<lparr>fl_db := open_session \<lparr>fd_runs = [], fd_history = [], fd_outcomes = [], fd_units = [], fd_events = [],
        fd_app = sample_tables\<lparr>at_runs := [(''r1'', sample_agent_run\<lparr>ar_status := ''executing''\<rparr>)]\<rparr>\<rparr>,
      fl_rm := (new_resource_manager None)\<lparr>active_counts := [(''u1'', 4)]\<rparr>\<rparr>"

theorem parked_agent_run_fails_witness:
  "\<exists>w1 flow. execute_agent_flow_orchestration busy_agent_env ''r1'' sample_plan ''u1'' None (sample_minted ''auto'') PNone busy_agent_world =
      Some (Orchestrated ''WAITING'', w1) \<and>
    calls w1 = [] \<and> run_failed ''r1'' ''f1'' (fd_app (committed (fl_db w1))) \<and>
    map_of (fd_runs (committed (fl_db w1))) ''f1'' = Some flow \<and> fw_status flow = ''waiting''"
proof -
  have env: "flow_refusal busy_agent_env ''r1'' ''u1'' (sample_minted ''auto'') = None" "db_id busy_agent_env ''r1'' = ''r1''"
    "fe_fresh_run_id (ae_flow busy_agent_env) = ''f1''" "fe_units_ok (ae_flow busy_agent_env)"
    "\<not> redis_url (fe_rm (ae_flow busy_agent_env))" "\<not> is_testing (fe_rm (ae_flow busy_agent_env))"
    by code_simp+
  have w: "fl_io busy_agent_world = []" "working (fl_db busy_agent_world) = committed (fl_db busy_agent_world)"
    "run_executing (db_id busy_agent_env ''r1'') (tables busy_agent_world)" "calls busy_agent_world = []"
    "\<not> redis_client (fl_rm busy_agent_world)" "max_concurrent (fl_rm busy_agent_world) \<le> local_active (fl_rm busy_agent_world) ''u1'' + 1"
    by (simp_all add: busy_agent_world_def sample_agent_world_def open_session_def run_executing_def tables_def env(2)
        new_resource_manager_def local_active_def counter_def)
  show ?thesis
    using parked_agent_run_fails [OF sample_steps sample_grants(2) env(1) w(1-3) env(4-6) w(5,6), of None PNone]
    by (simp add: env(2,3) w(4))
qed

end
