(* ===== verification/Agent_Runtime.thy ===== *)
theory Agent_Runtime
  imports Agent_Flow
begin

text \<open>
  The life of an agent run (\<^verbatim>\<open>AINDY/agents/agent_runtime/\<close>): planning, creation, approval, rejection, execution
  and replay, and the dispatch of a delegated run (\<^verbatim>\<open>agents/agent_coordinator.py\<close>).

  \<open>runtime_env\<close> adds to the surroundings of agents what applications and services supply: the planner (the
  JSON value it answers, \<open>None\<close> when the call raises or no planner is registered), the choice between the
  agents (\<open>None\<close> when it raises), the memories recalled for an execution, and the handlers of a completed
  run. The ranking behind the choice computes with floating-point scores; of the agents' own table,
  which only the ranking reads, the commit of its update is kept.

  A write that raises leaves a session that has to be rolled back: what it had pending is lost. The
  statement after it may raise too, so a refresh of a row draws its outcome like a write.
\<close>

record coordination =
  co_mode :: string
  co_agent_id :: string
  co_candidates :: pyval
  co_reassigned :: bool

record runtime_env =
  re_agent :: agent_env
  re_planner :: "string \<Rightarrow> string \<Rightarrow> agent_world \<Rightarrow> pyval option \<times> agent_world"
  re_coordination :: "agent_run \<Rightarrow> agent_world \<Rightarrow> coordination option"
  re_memory :: "agent_run \<Rightarrow> agent_world \<Rightarrow> pyval"
  re_run_hooks :: "string \<Rightarrow> agent_world \<Rightarrow> unit outcome \<times> agent_world"
  re_fresh_run :: string
  re_fresh_correlation :: string
  re_fresh_unit :: string
  re_child_run :: string
  re_child_correlation :: string

definition LOCAL_AGENT_ID :: string where
  "LOCAL_AGENT_ID = ''00000000-0000-0000-0000-000000000001''"

section \<open>Helpers\<close>

text \<open>What an operation of the runtime gives its caller: the dictionary of a run, \<open>None\<close>, an exception, or a \<open>BaseException\<close>.\<close>

datatype run_reply = Run_reply string | No_run | Reply_raised | Reply_cut

definition resolve_objective :: "agent_env \<Rightarrow> string option \<Rightarrow> (string, pyval) dict \<Rightarrow> string" where
  "resolve_objective env objective values =
     (case objective of
        Some t \<Rightarrow> t
      | None \<Rightarrow>
          (let v = state_get ''objective'' PNone values;
               v1 = (if v = PNone then state_get ''goal'' PNone values else v)
           in if v1 = PNone then [] else str_of env v1))"

definition fl_save :: "agent_world \<Rightarrow> bool \<times> agent_world" where
  "fl_save w = (case fl_commit w of (False, w1) \<Rightarrow> (False, fl_rollback w1) | (True, w1) \<Rightarrow> (True, w1))"

definition save_run :: "string \<Rightarrow> (agent_run \<Rightarrow> agent_run) \<Rightarrow> agent_world \<Rightarrow> bool \<times> agent_world" where
  "save_run i f w = fl_save (edit_agent_run i f w)"

definition tell_agents :: "agent_env \<Rightarrow> string \<Rightarrow> string \<Rightarrow> string option \<Rightarrow> agent_world \<Rightarrow> bool \<times> agent_world" where
  "tell_agents env r ty corr w =
     (case record_agent_event env r ty (agent_event_trace (fe_ctx_trace_id (ae_flow env)) corr r) w of
        (False, w1) \<Rightarrow> (False, fl_rollback w1)
      | (True, w1) \<Rightarrow> (True, w1))"

text \<open>The handler of an operation: a required error event, whose own exception leaves the operation.\<close>

definition report_error :: "agent_env \<Rightarrow> string \<Rightarrow> agent_world \<Rightarrow> run_reply \<times> agent_world" where
  "report_error env ty w =
     (case flow_event (ae_flow env) (''error.'' @ ty) (fe_ctx_trace_id (ae_flow env)) w of
        (Inl _, w1) \<Rightarrow> (Reply_raised, w1)
      | (Inr _, w1) \<Rightarrow> (No_run, w1))"

section \<open>Planning\<close>

definition requires_approval :: "agent_env \<Rightarrow> pyval \<Rightarrow> string \<Rightarrow> agent_world \<Rightarrow> bool" where
  "requires_approval env overall_risk user_id w =
     (if overall_risk = PStr ''high'' then True
      else
        case map_of (at_trust (tables w)) (db_id env user_id) of
          None \<Rightarrow> True
        | Some trust \<Rightarrow>
            if overall_risk = PStr ''medium'' then \<not> tr_auto_execute_medium trust
            else if overall_risk = PStr ''low'' then \<not> tr_auto_execute_low trust
            else True)"

text \<open>\<^verbatim>\<open>risk_order.get(risk, default)\<close>; \<open>None\<close> when the risk is no key at all.\<close>

definition risk_order :: "(string, int) dict" where
  "risk_order = [(''low'', 0), (''medium'', 1), (''high'', 2)]"

definition risk_rank :: "int \<Rightarrow> pyval \<Rightarrow> int option" where
  "risk_rank dflt v =
     (case v of
        PStr t \<Rightarrow> Some (case map_of risk_order t of None \<Rightarrow> dflt | Some n \<Rightarrow> n)
      | PList _ \<Rightarrow> None
      | PDict _ \<Rightarrow> None
      | _ \<Rightarrow> Some dflt)"

definition step_risk :: "pyval \<Rightarrow> pyval option" where
  "step_risk step = (case step of PDict d \<Rightarrow> Some (state_get ''risk_level'' (PStr ''high'') d) | _ \<Rightarrow> None)"

fun all_some :: "'a option list \<Rightarrow> 'a list option" where
  "all_some [] = Some []"
| "all_some (x # xs) = (case (x, all_some xs) of (Some y, Some ys) \<Rightarrow> Some (y # ys) | _ \<Rightarrow> None)"

text \<open>\<^verbatim>\<open>max(..., key=...)\<close>: the first of the greatest.\<close>

fun first_max :: "pyval \<Rightarrow> int \<Rightarrow> (pyval \<times> int) list \<Rightarrow> pyval" where
  "first_max best n [] = best"
| "first_max best n ((v, m) # rest) = (if n < m then first_max v m rest else first_max best n rest)"

definition max_step_risk :: "pyval list \<Rightarrow> pyval option" where
  "max_step_risk risks =
     (case all_some (map (risk_rank 2) risks) of
        None \<Rightarrow> None
      | Some ranks \<Rightarrow>
          (case zip risks ranks of [] \<Rightarrow> Some (PStr ''high'') | (v, n) # rest \<Rightarrow> Some (first_max v n rest)))"

text \<open>The answer of the planner made a plan; \<open>None\<close> is a refusal or an exception.\<close>

definition normalize_plan :: "pyval \<Rightarrow> pyval option" where
  "normalize_plan answer =
     (case answer of
        PDict d \<Rightarrow>
          (case (map_of d ''steps'', map_of d ''overall_risk'') of
             (Some steps, Some overall) \<Rightarrow>
               (case Option.bind (elements steps) (\<lambda>xs. all_some (map step_risk xs)) of
                  None \<Rightarrow> None
                | Some risks \<Rightarrow>
                    (case max_step_risk risks of
                       None \<Rightarrow> None
                     | Some max_risk \<Rightarrow>
                         (case (risk_rank 0 overall, risk_rank 0 max_risk) of
                            (Some a, Some b) \<Rightarrow> Some (PDict (if a < b then AList.update ''overall_risk'' max_risk d else d))
                          | _ \<Rightarrow> None)))
           | _ \<Rightarrow> None)
      | _ \<Rightarrow> None)"

definition generate_plan :: "runtime_env \<Rightarrow> string \<Rightarrow> string \<Rightarrow> agent_world \<Rightarrow> pyval option \<times> agent_world" where
  "generate_plan env objective user_id w =
     (case re_planner env objective user_id w of (answer, w1) \<Rightarrow> (Option.bind answer normalize_plan, w1))"

section \<open>Creation\<close>

text \<open>The row of a new run; \<open>None\<close> when the plan has no \<open>get\<close> or its steps no \<open>len\<close>.\<close>

definition new_agent_run ::
    "runtime_env \<Rightarrow> string \<Rightarrow> pyval \<Rightarrow> string \<Rightarrow> string option \<Rightarrow> agent_world \<Rightarrow> agent_run option" where
  "new_agent_run env objective plan user_id replayed w =
     (case plan of
        PDict d \<Rightarrow>
          (case elements (state_get ''steps'' (PList []) d) of
             None \<Rightarrow> None
           | Some steps \<Rightarrow>
               (let risk = state_get ''overall_risk'' (PStr ''high'') d in
                Some \<lparr>ar_user_id = db_id (re_agent env) user_id, ar_agent_type = ''default'', ar_flow_run_id = None, ar_replayed_from_run_id = replayed,
                      ar_correlation_id = Some (re_fresh_correlation env), ar_trace_id = fe_ctx_trace_id (ae_flow (re_agent env)),
                      ar_goal = objective, ar_plan = plan, ar_executive_summary = state_get ''executive_summary'' (PStr []) d,
                      ar_overall_risk = risk,
                      ar_status = (if requires_approval (re_agent env) risk user_id w then ''pending_approval'' else ''approved''),
                      ar_steps_total = int (length steps), ar_steps_completed = 0, ar_current_step = 0, ar_result = PNone,
                      ar_error_message = PNone, ar_execution_token = PNone, ar_capability_token = PNone, ar_approved_at = None,
                      ar_started_at = None, ar_completed_at = None, ar_parent_run_id = None, ar_spawned_by_agent_id = None,
                      ar_coordination_role = None\<rparr>))
      | _ \<Rightarrow> None)"

definition add_run :: "string \<Rightarrow> agent_run \<Rightarrow> agent_world \<Rightarrow> agent_world" where
  "add_run i row = edit_tables (\<lambda>t. t\<lparr>at_runs := AList.update i row (at_runs t)\<rparr>)"

definition with_token :: "pyval \<Rightarrow> agent_run \<Rightarrow> agent_run" where
  "with_token token row = row\<lparr>ar_execution_token := dict_get ''execution_token'' token, ar_capability_token := token\<rparr>"

definition demoted :: "agent_run \<Rightarrow> agent_run" where
  "demoted row =
     row\<lparr>ar_status := ''pending_approval'',
         ar_error_message := PStr ''Capability preflight failed for auto-approval; manual approval required.''\<rparr>"

text \<open>The token of a run that needs no approval, or its demotion; then the refresh. \<open>False\<close> is an exception.\<close>

definition grant_new_run :: "agent_env \<Rightarrow> string \<Rightarrow> string \<Rightarrow> agent_run \<Rightarrow> agent_world \<Rightarrow> bool \<times> agent_world" where
  "grant_new_run env i user_id row w =
     (if ar_status row \<noteq> ''approved'' then (True, w)
      else
        case mint_token env i user_id (ar_plan row) ''auto'' (ar_agent_type row) w of
          (token, w1) \<Rightarrow>
            (case save_run i (case token of Some t \<Rightarrow> with_token t | None \<Rightarrow> demoted) w1 of
               (False, w2) \<Rightarrow> (False, w2)
             | (True, w2) \<Rightarrow> fl_draw w2))"

definition agent_unit :: "runtime_env \<Rightarrow> string \<Rightarrow> agent_run \<Rightarrow> eu_new" where
  "agent_unit env i row =
     \<lparr>new_type = ''agent'', new_user_id = Uuid (ar_user_id row), new_source_type = Some ''agent_run'', new_source_id = Some i,
      new_parent_id = No_ref, new_flow_run_id = None, new_correlation_id = ar_correlation_id row,
      new_extra = Some (PDict [(''objective_preview'', PStr (take 120 (ar_goal row))), (''overall_risk'', ar_overall_risk row)]),
      new_status = ''pending''\<rparr>"

definition add_agent_unit :: "runtime_env \<Rightarrow> string \<Rightarrow> agent_run \<Rightarrow> agent_world \<Rightarrow> agent_world" where
  "add_agent_unit env i row =
     (let fe = ae_flow (re_agent env) in
      fl_work (\<lambda>d. d\<lparr>fd_units := snd (eu_create (fe_units_ok fe) (fe_now fe) (re_fresh_unit env) (agent_unit env i row) (fd_units d))\<rparr>))"

definition insert_run :: "string \<Rightarrow> agent_run \<Rightarrow> agent_world \<Rightarrow> bool \<times> agent_world" where
  "insert_run i row w =
     (case fl_save (add_run i row w) of (False, w1) \<Rightarrow> (False, w1) | (True, w1) \<Rightarrow> fl_draw w1)"

definition create_run :: "runtime_env \<Rightarrow> string option \<Rightarrow> (string, pyval) dict \<Rightarrow> string \<Rightarrow> agent_world \<Rightarrow> run_reply \<times> agent_world" where
  "create_run env objective values user_id w =
     (let ae = re_agent env;
          text = resolve_objective ae objective values;
          u = db_id ae user_id;
          i = re_fresh_run env;
          error = report_error ae ''agent_create_run''
      in case generate_plan env text u w of
           (None, w1) \<Rightarrow>
             (case report_error ae ''agent_plan_generation'' w1 of
                (Reply_raised, w2) \<Rightarrow> error w2
              | r \<Rightarrow> r)
         | (Some plan, w1) \<Rightarrow>
             (case new_agent_run env text plan u None w1 of
                None \<Rightarrow> error w1
              | Some row \<Rightarrow>
                  (case insert_run i row w1 of
                     (False, w2) \<Rightarrow> error w2
                   | (True, w2) \<Rightarrow>
                       (case grant_new_run ae i u row (add_agent_unit env i row w2) of
                          (False, w3) \<Rightarrow> error w3
                        | (True, w3) \<Rightarrow>
                            (case tell_agents ae i ''PLAN_CREATED'' (ar_correlation_id row) w3 of
                               (False, w4) \<Rightarrow> error w4
                             | (True, w4) \<Rightarrow> (Run_reply i, w4))))))"

text \<open>A run made from a plan at hand: no unit, no event, and every exception is \<open>None\<close>.\<close>

definition create_run_from_plan ::
    "runtime_env \<Rightarrow> string \<Rightarrow> pyval \<Rightarrow> string \<Rightarrow> string option \<Rightarrow> agent_world \<Rightarrow> run_reply \<times> agent_world" where
  "create_run_from_plan env objective plan user_id replayed w =
     (let i = re_fresh_run env;
          plan = (if py_truthy plan then plan else PDict [])
      in case new_agent_run env objective plan user_id replayed w of
           None \<Rightarrow> (No_run, w)
         | Some row \<Rightarrow>
             (case insert_run i row w of
                (False, w1) \<Rightarrow> (No_run, w1)
              | (True, w1) \<Rightarrow>
                  (case grant_new_run (re_agent env) i user_id row w1 of
                     (False, w2) \<Rightarrow> (No_run, w2)
                   | (True, w2) \<Rightarrow> (Run_reply i, w2))))"

section \<open>Delegation\<close>

definition delegated_run :: "runtime_env \<Rightarrow> string \<Rightarrow> agent_run \<Rightarrow> coordination \<Rightarrow> agent_run" where
  "delegated_run env i parent co =
     parent\<lparr>ar_agent_type := take 64 (co_agent_id co), ar_flow_run_id := None, ar_replayed_from_run_id := None,
            ar_correlation_id := Some (re_child_correlation env),
            ar_trace_id := or_none (Some (or_str (ar_trace_id parent) (or_str (fe_ctx_trace_id (ae_flow (re_agent env))) []))),
            ar_overall_risk := (if py_truthy (ar_overall_risk parent) then ar_overall_risk parent else PStr ''high''),
            ar_status := ''approved'', ar_steps_completed := 0, ar_current_step := 0, ar_result := PNone, ar_error_message := PNone,
            ar_execution_token := PNone, ar_capability_token := PNone, ar_approved_at := None, ar_started_at := None,
            ar_completed_at := None, ar_parent_run_id := Some i, ar_spawned_by_agent_id := Some (co_agent_id co),
            ar_coordination_role := Some (co_mode co)\<rparr>"

definition delegated :: "agent_run \<Rightarrow> agent_run" where
  "delegated row = row\<lparr>ar_status := ''delegated'', ar_completed_at := None\<rparr>"

text \<open>\<open>None\<close>: there is nothing to delegate, or the request to the chosen agent raised.\<close>

definition dispatch_delegated_run ::
    "runtime_env \<Rightarrow> string \<Rightarrow> agent_run \<Rightarrow> coordination \<Rightarrow> agent_world \<Rightarrow> string option \<times> agent_world" where
  "dispatch_delegated_run env i parent co w =
     (let ae = re_agent env;
          c = re_child_run env;
          child = delegated_run env i parent co
      in if ar_goal parent = [] then (None, w)
         else
           case mint_token ae c (ar_user_id parent) (ar_plan child) ''manual''
                  (or_str (Some (ar_agent_type parent)) ''default'') (add_run c child w) of
             (token, w1) \<Rightarrow>
               let w2 = edit_agent_run i delegated
                          (case token of None \<Rightarrow> w1 | Some t \<Rightarrow> if py_truthy t then edit_agent_run c (with_token t) w1 else w1)
               in if \<not> co_reassigned co then (Some c, w2)
                  else (case flow_event (ae_flow ae) ''agent.message.operation_request'' (ar_trace_id child) w2 of
                          (Inl _, w3) \<Rightarrow> (None, w3)
                        | (Inr _, w3) \<Rightarrow> (Some c, w3)))"

definition delegation_result :: "coordination \<Rightarrow> string option \<Rightarrow> pyval" where
  "delegation_result co child =
     (let c = (case child of None \<Rightarrow> PNone | Some t \<Rightarrow> PStr t) in
      PDict [(''coordination_mode'', PStr (co_mode co)), (''selected_agent'', PStr (co_agent_id co)), (''candidates'', co_candidates co),
             (''child_run_id'', c), (''child_dispatched'', PBool (child \<noteq> None)),
             (''next_action'', PDict [(''type'', PStr (co_mode co)), (''selected_agent'', PStr (co_agent_id co)), (''child_run_id'', c)])])"

section \<open>Execution\<close>

definition set_agent_unit :: "agent_env \<Rightarrow> string \<Rightarrow> string \<Rightarrow> agent_world \<Rightarrow> agent_world" where
  "set_agent_unit env i status =
     (let fe = ae_flow env in
      fl_work (\<lambda>d.
        case get_by_source (fe_units_ok fe) ''agent_run'' i (fd_units d) of
          None \<Rightarrow> d
        | Some (n, _) \<Rightarrow> d\<lparr>fd_units := snd (update_status (fe_units_ok fe) (fe_now fe) (Uuid n) status (fd_units d))\<rparr>))"

text \<open>The handler of \<^verbatim>\<open>execute_run\<close> swallows what its error event raises.\<close>

definition execution_error :: "agent_env \<Rightarrow> agent_world \<Rightarrow> run_reply \<times> agent_world" where
  "execution_error env w = (No_run, snd (report_error env ''agent_execution'' w))"

definition refuse_untokened :: "agent_env \<Rightarrow> string \<Rightarrow> agent_run \<Rightarrow> agent_world \<Rightarrow> run_reply \<times> agent_world" where
  "refuse_untokened env i row w =
     (case save_run i (\<lambda>x. x\<lparr>ar_status := ''failed'', ar_completed_at := Some (ae_now env),
                            ar_error_message := PStr ''Missing scoped capability token.''\<rparr>) w of
        (False, w1) \<Rightarrow> execution_error env w1
      | (True, w1) \<Rightarrow>
          (case tell_agents env i ''CAPABILITY_DENIED'' (ar_correlation_id row) w1 of
             (False, w2) \<Rightarrow> execution_error env w2
           | (True, w2) \<Rightarrow> (Run_reply i, w2)))"

definition delegate_run ::
    "runtime_env \<Rightarrow> string \<Rightarrow> agent_run \<Rightarrow> coordination \<Rightarrow> agent_world \<Rightarrow> run_reply \<times> agent_world" where
  "delegate_run env i row co w =
     (let ae = re_agent env in
      case dispatch_delegated_run env i row co w of
        (child, w1) \<Rightarrow>
          (case save_run i (\<lambda>x. (delegated x)\<lparr>ar_result := delegation_result co child\<rparr>) w1 of
             (False, w2) \<Rightarrow> execution_error ae w2
           | (True, w2) \<Rightarrow>
               (case tell_agents ae i (if co_mode co = ''delegate'' then ''DELEGATION_DISPATCHED'' else ''COLLABORATION_STARTED'')
                       (ar_correlation_id row) w2 of
                  (False, w3) \<Rightarrow> execution_error ae w3
                | (True, w3) \<Rightarrow> (Run_reply i, w3))))"

text \<open>\<^verbatim>\<open>dict(run.plan or {})\<close> with the recalled memories.\<close>

definition execution_plan :: "pyval \<Rightarrow> pyval \<Rightarrow> pyval option" where
  "execution_plan plan memory =
     (if \<not> py_truthy plan then Some (PDict [(''memory_context'', memory)])
      else case plan of PDict d \<Rightarrow> Some (PDict (AList.update ''memory_context'' memory d)) | _ \<Rightarrow> None)"

definition started :: "agent_env \<Rightarrow> pyval \<Rightarrow> agent_run \<Rightarrow> agent_run" where
  "started env plan row =
     row\<lparr>ar_trace_id := (if truthy_str (ar_trace_id row) \<or> \<not> truthy_str (fe_ctx_trace_id (ae_flow env)) then ar_trace_id row
                        else fe_ctx_trace_id (ae_flow env)),
         ar_status := ''executing'', ar_started_at := Some (ae_now env), ar_plan := plan\<rparr>"

text \<open>After the orchestration: the row is read again, the handlers of a completed run are called, the unit ends.\<close>

definition settle_run :: "runtime_env \<Rightarrow> string \<Rightarrow> agent_world \<Rightarrow> run_reply \<times> agent_world" where
  "settle_run env i w =
     (let ae = re_agent env;
          finish = (\<lambda>w. case agent_run_of i w of
                          None \<Rightarrow> execution_error ae w
                        | Some row \<Rightarrow>
                            (Run_reply i, if ar_status row \<in> {''completed'', ''failed''} then set_agent_unit ae i (ar_status row) w else w))
      in case (agent_run_of i w, fl_draw w) of
           (Some row, (True, w1)) \<Rightarrow>
             if ar_status row \<noteq> ''completed'' then finish w1
             else (case re_run_hooks env (ar_agent_type row) w1 of
                     (Raises _, w2) \<Rightarrow> execution_error ae (fl_rollback w2)
                   | (Interrupts, w2) \<Rightarrow> (Reply_cut, w2)
                   | (Returns _, w2) \<Rightarrow>
                       (case fl_draw w2 of
                          (False, w3) \<Rightarrow> execution_error ae (fl_rollback w3)
                        | (True, w3) \<Rightarrow> finish w3))
         | (_, (_, w1)) \<Rightarrow> execution_error ae (fl_rollback w1))"

definition run_locally ::
    "runtime_env \<Rightarrow> string \<Rightarrow> string \<Rightarrow> agent_run \<Rightarrow> agent_world \<Rightarrow> (run_reply \<times> agent_world) option" where
  "run_locally env i user_id row w =
     (let ae = re_agent env in
      case execution_plan (ar_plan row) (re_memory env row w) of
        None \<Rightarrow> Some (execution_error ae w)
      | Some plan \<Rightarrow>
          (case save_run i (started ae plan) w of
             (False, w1) \<Rightarrow> Some (execution_error ae w1)
           | (True, w1) \<Rightarrow>
               (case tell_agents ae i ''EXECUTION_STARTED'' (ar_correlation_id row) (set_agent_unit ae i ''executing'' w1) of
                  (False, w2) \<Rightarrow> Some (execution_error ae w2)
                | (True, w2) \<Rightarrow>
                    (case execute_agent_run_via_nodus ae i plan user_id (ar_correlation_id row) (ar_capability_token row) PNone w2 of
                       None \<Rightarrow> None
                     | Some (Orchestration_cut, w3) \<Rightarrow> Some (Reply_cut, w3)
                     | Some (Orchestrated _, w3) \<Rightarrow> Some (settle_run env i w3)))))"

definition execute_run :: "runtime_env \<Rightarrow> string \<Rightarrow> string \<Rightarrow> agent_world \<Rightarrow> (run_reply \<times> agent_world) option" where
  "execute_run env run_id user_id w =
     (let ae = re_agent env;
          u = db_id ae user_id;
          i = db_id ae run_id
      in case agent_run_of i w of
           None \<Rightarrow> Some (No_run, w)
         | Some row \<Rightarrow>
             if ar_status row \<noteq> ''approved'' then Some (Run_reply i, w)
             else if \<not> user_matches ae (ar_user_id row) u then Some (No_run, w)
             else if \<not> is_dict (ar_capability_token row) then Some (refuse_untokened ae i row w)
             else
               (case fl_save w of
                  (False, w1) \<Rightarrow> Some (execution_error ae w1)
                | (True, w1) \<Rightarrow>
                    (case re_coordination env row w1 of
                       None \<Rightarrow> Some (execution_error ae w1)
                     | Some co \<Rightarrow>
                         if co_mode co \<in> {''delegate'', ''collaborate''} then Some (delegate_run env i row co w1)
                         else run_locally env i user_id row w1)))"

section \<open>Approval\<close>

definition approve_run :: "runtime_env \<Rightarrow> string \<Rightarrow> string \<Rightarrow> agent_world \<Rightarrow> (run_reply \<times> agent_world) option" where
  "approve_run env run_id user_id w =
     (let ae = re_agent env;
          u = db_id ae user_id;
          i = db_id ae run_id;
          error = (\<lambda>w. Some (report_error ae ''agent_approve_run'' w))
      in case agent_run_of i w of
           None \<Rightarrow> Some (No_run, w)
         | Some row \<Rightarrow>
             if \<not> user_matches ae (ar_user_id row) u then Some (No_run, w)
             else if ar_status row \<noteq> ''pending_approval'' then Some (Run_reply i, w)
             else
               (case mint_token ae i u (ar_plan row) ''manual'' (ar_agent_type row)
                       (edit_agent_run i (\<lambda>x. x\<lparr>ar_status := ''approved'', ar_approved_at := Some (ae_now ae)\<rparr>) w) of
                  (None, w1) \<Rightarrow>
                    let w2 = fl_rollback w1 in
                    (case agent_run_of run_id w2 of
                       None \<Rightarrow> Some (No_run, w2)
                     | Some _ \<Rightarrow>
                         (case save_run run_id (\<lambda>x. x\<lparr>ar_error_message := PStr ''Capability preflight failed; run not approved.''\<rparr>) w2 of
                            (False, w3) \<Rightarrow> error w3
                          | (True, w3) \<Rightarrow>
                              (case fl_draw w3 of (False, w4) \<Rightarrow> error (fl_rollback w4) | (True, w4) \<Rightarrow> Some (Run_reply run_id, w4))))
                | (Some token, w1) \<Rightarrow>
                    (case save_run i (\<lambda>x. (with_token token x)\<lparr>ar_error_message := PNone\<rparr>) w1 of
                       (False, w2) \<Rightarrow> error w2
                     | (True, w2) \<Rightarrow>
                         (case tell_agents ae i ''APPROVED'' (ar_correlation_id row) w2 of
                            (False, w3) \<Rightarrow> error w3
                          | (True, w3) \<Rightarrow> execute_run env i u w3))))"

definition reject_run :: "runtime_env \<Rightarrow> string \<Rightarrow> string \<Rightarrow> agent_world \<Rightarrow> run_reply \<times> agent_world" where
  "reject_run env run_id user_id w =
     (let ae = re_agent env;
          i = db_id ae run_id
      in case agent_run_of i w of
           None \<Rightarrow> (No_run, w)
         | Some row \<Rightarrow>
             if \<not> user_matches ae (ar_user_id row) (db_id ae user_id) then (No_run, w)
             else if ar_status row \<noteq> ''pending_approval'' then (Run_reply i, w)
             else
               (case save_run i (\<lambda>x. x\<lparr>ar_status := ''rejected'', ar_completed_at := Some (ae_now ae)\<rparr>) w of
                  (False, w1) \<Rightarrow> report_error ae ''agent_reject_run'' w1
                | (True, w1) \<Rightarrow>
                    (case tell_agents ae i ''REJECTED'' (ar_correlation_id row) w1 of
                       (False, w2) \<Rightarrow> report_error ae ''agent_reject_run'' w2
                     | (True, w2) \<Rightarrow> (Run_reply i, w2))))"

section \<open>Replay\<close>

definition replay_run :: "runtime_env \<Rightarrow> string \<Rightarrow> string \<Rightarrow> string \<Rightarrow> agent_world \<Rightarrow> run_reply \<times> agent_world" where
  "replay_run env run_id user_id mode w =
     (let ae = re_agent env;
          i = db_id ae run_id
      in case agent_run_of i w of
           None \<Rightarrow> (No_run, w)
         | Some original \<Rightarrow>
             if \<not> user_matches ae (ar_user_id original) user_id then (No_run, w)
             else
               (case (if mode = ''new_plan'' then generate_plan env (ar_goal original) user_id w else (Some (ar_plan original), w)) of
                  (None, w1) \<Rightarrow> (No_run, w1)
                | (Some plan, w1) \<Rightarrow>
                    (case create_run_from_plan env (ar_goal original) plan user_id (Some i) w1 of
                       (Run_reply n, w2) \<Rightarrow>
                         (case tell_agents ae n ''REPLAY_CREATED'' (Some (re_fresh_correlation env)) w2 of
                            (False, w3) \<Rightarrow> report_error ae ''agent_replay_run'' w3
                          | (True, w3) \<Rightarrow> (Run_reply n, w3))
                     | r \<Rightarrow> r)))"

end
