(* ===== verification/Agent_Lifecycle.thy ===== *)
theory Agent_Lifecycle
  imports Agent_Completion Agent_Runtime
begin

text \<open>
  What the operations on agent runs guarantee: they end; a decided run stays decided; a tool is called only
  by the execution or the approval of a run, through the run's token (\<open>execute_run_calls\<close>,
  \<open>approve_run_calls\<close>); the risk of a plan covers its steps, and where it does not.
\<close>

section \<open>Operations\<close>

datatype agent_op =
    Create "string option" "(string, pyval) dict" string
  | Approve string string
  | Reject string string
  | Execute string string
  | Replay string string string

fun agent_apply :: "runtime_env \<Rightarrow> agent_op \<Rightarrow> agent_world \<Rightarrow> (run_reply \<times> agent_world) option" where
  "agent_apply env (Create objective vals u) w = Some (create_run env objective vals u w)"
| "agent_apply env (Approve r u) w = approve_run env r u w"
| "agent_apply env (Reject r u) w = Some (reject_run env r u w)"
| "agent_apply env (Execute r u) w = execute_run env r u w"
| "agent_apply env (Replay r u mode) w = Some (replay_run env r u mode w)"

lemma execute_returns: "\<exists>y. execute_run env r u w = Some y"
proof -
  have "\<exists>y. run_locally env i u row w1 = Some y" for i row w1
    using orchestration_returns [of "re_agent env"]
    by (auto simp: run_locally_def Let_def execute_agent_run_via_nodus_def split: option.splits prod.splits bool.splits orchestration_end.splits)
       (metis option.distinct(1))
  then show ?thesis by (auto simp: execute_run_def Let_def split: option.splits prod.splits bool.splits)
qed

lemma approve_returns: "\<exists>y. approve_run env r u w = Some y"
  using execute_returns by (auto simp: approve_run_def Let_def split: option.splits prod.splits bool.splits)

text \<open>
  C38. Every operation on agent runs comes to an end, the executions it starts included, although the
  graph of the agents has a cycle: whatever the plan and the token are, whatever planner, tools and handlers
  return, raise or do to the tables, and whichever writes fail.
\<close>

theorem agent_operation_returns:
  "\<exists>y. agent_apply env op w = Some y"
  using approve_returns execute_returns by (cases op) auto

section \<open>Surroundings\<close>

text \<open>A planner that answers the sample plan, no other agent to delegate to, no memories and no handlers.\<close>

definition sample_runtime_env :: runtime_env where
  "sample_runtime_env =
     \<lparr>re_agent = sample_agent_env, re_planner = (\<lambda>_ _ w. (Some sample_plan, w)),
      re_coordination = (\<lambda>_ _. Some \<lparr>co_mode = ''local'', co_agent_id = LOCAL_AGENT_ID, co_candidates = PList [], co_reassigned = False\<rparr>),
      re_memory = (\<lambda>_ _. PDict []), re_run_hooks = (\<lambda>_ w. (Returns (), w)), re_fresh_run = ''r2'', re_fresh_correlation = ''run_c2'',
      re_fresh_unit = ''n2'', re_child_run = ''r3'', re_child_correlation = ''run_c3''\<rparr>"

definition rejected_agent_world :: agent_world where
  "rejected_agent_world = (sample_agent_world [])
     \<lparr>fl_db := open_session \<lparr>fd_runs = [], fd_history = [], fd_outcomes = [], fd_units = [], fd_events = [],
        fd_app = sample_tables\<lparr>at_runs := [(''r1'', sample_agent_run\<lparr>ar_status := ''rejected''\<rparr>)]\<rparr>\<rparr>\<rparr>"

section \<open>Decided runs\<close>

definition decides :: "string \<Rightarrow> agent_op \<times> runtime_env \<Rightarrow> bool" where
  "decides i = (\<lambda>(op, env).
     case op of
       Approve r _ \<Rightarrow> db_id (re_agent env) r = i
     | Reject r _ \<Rightarrow> db_id (re_agent env) r = i
     | Execute r _ \<Rightarrow> db_id (re_agent env) r = i
     | _ \<Rightarrow> False)"

definition agent_ops :: "(agent_op \<times> runtime_env) list \<Rightarrow> agent_world \<Rightarrow> agent_world" where
  "agent_ops = fold (\<lambda>(op, env) w. snd (the (agent_apply env op w)))"

definition decided :: "string set" where
  "decided = {''rejected'', ''executing'', ''completed'', ''failed'', ''delegated''}"

lemma decided_op:
  assumes "agent_run_of i w = Some row" and "ar_status row \<in> decided" and "decides i (op, env)"
  shows "snd (the (agent_apply env op w)) = w"
  using assms by (cases op) (auto simp: decided_def decides_def approve_run_def reject_run_def execute_run_def Let_def)

text \<open>
  A decision is final: a run that was rejected or delegated, that executes or that has ended is left as
  it is, with everything else, by every further approval, rejection or execution of it, whoever asks, at
  any time and in any order.
\<close>

theorem decided_run_final:
  assumes "agent_run_of i w = Some row" and "ar_status row \<in> decided" and "list_all (decides i) ops"
  shows "agent_ops ops w = w"
  using assms(3) decided_op [OF assms(1,2)] by (induction ops) (auto simp: agent_ops_def)

theorem decided_run_final_witness:
  "agent_ops [(Approve ''r1'' ''u1'', sample_runtime_env), (Execute ''r1'' ''u2'', sample_runtime_env), (Reject ''r1'' ''u1'', sample_runtime_env)]
     (rejected_agent_world) = rejected_agent_world"
  by (rule decided_run_final [where i = "''r1''" and row = "sample_agent_run\<lparr>ar_status := ''rejected''\<rparr>"])
     (simp_all add: decides_def decided_def sample_runtime_env_def rejected_agent_world_def sample_agent_world_def agent_run_of_def tables_def
       open_session_def)

section \<open>No call without approval\<close>

lemma save_ext: "fl_save w = (b, w1) \<Longrightarrow> fl_ext w1 = fl_ext w"
  by (auto simp: fl_save_def split: prod.splits bool.splits dest!: commit_ext)

lemma draw_ext: "fl_draw w = (b, w1) \<Longrightarrow> fl_ext w1 = fl_ext w"
  by (auto simp: fl_draw_def split: list.splits)

lemma save_run_ext: "save_run i f w = (b, w1) \<Longrightarrow> fl_ext w1 = fl_ext w"
  by (auto simp: save_run_def dest!: save_ext)

lemma tell_ext: "tell_agents env r ty corr w = (b, w1) \<Longrightarrow> fl_ext w1 = fl_ext w"
  by (auto simp: tell_agents_def split: prod.splits bool.splits dest!: agent_event_ext)

lemma report_ext: "report_error env ty w = (x, w1) \<Longrightarrow> fl_ext w1 = fl_ext w"
  by (auto simp: report_error_def split: prod.splits sum.splits dest!: event_ext)

lemma execution_error_ext: "execution_error env w = (x, w1) \<Longrightarrow> fl_ext w1 = fl_ext w"
  by (cases "report_error env ''agent_execution'' w") (auto simp: execution_error_def report_ext)

lemma unit_ext [simp]: "fl_ext (set_agent_unit env i s w) = fl_ext w" "fl_ext (add_agent_unit renv i row w) = fl_ext w"
  "fl_ext (add_run i row w) = fl_ext w"
  by (simp_all add: set_agent_unit_def add_agent_unit_def add_run_def Let_def)

lemma mint_ext: "mint_token env r u plan mode a w = (t, w1) \<Longrightarrow> fl_ext w1 = fl_ext w"
proof -
  have "fl_ext (sync_capability_catalog env w) = fl_ext w"
    by (auto simp: sync_capability_catalog_def Let_def split: prod.splits) (metis commit_ext record_step_ext(2) surjective_pairing)
  then have "fl_ext (create_run_capability_mappings env r a cs w) = fl_ext w" for cs
    by (simp add: create_run_capability_mappings_def Let_def)
  then show "mint_token env r u plan mode a w = (t, w1) \<Longrightarrow> fl_ext w1 = fl_ext w"
    by (auto simp: mint_token_def Let_def split: option.splits if_splits)
qed

lemma insert_ext: "insert_run i row w = (b, w1) \<Longrightarrow> fl_ext w1 = fl_ext w"
  by (auto simp: insert_run_def split: prod.splits bool.splits dest!: save_ext draw_ext)

lemma grant_ext: "grant_new_run env i u row w = (b, w1) \<Longrightarrow> fl_ext w1 = fl_ext w"
  by (auto simp: grant_new_run_def split: if_splits prod.splits bool.splits dest!: mint_ext save_run_ext draw_ext)

lemma dispatch_ext: "dispatch_delegated_run env i row co w = (c, w1) \<Longrightarrow> fl_ext w1 = fl_ext w"
  by (auto simp: dispatch_delegated_run_def Let_def split: if_splits prod.splits option.splits sum.splits dest!: mint_ext event_ext)

lemma delegate_ext: "delegate_run env i row co w = (x, w1) \<Longrightarrow> fl_ext w1 = fl_ext w"
  by (auto simp: delegate_run_def Let_def split: prod.splits bool.splits dest!: dispatch_ext save_run_ext tell_ext execution_error_ext)

lemma refuse_ext: "refuse_untokened env i row w = (x, w1) \<Longrightarrow> fl_ext w1 = fl_ext w"
  by (auto simp: refuse_untokened_def split: prod.splits bool.splits dest!: save_run_ext tell_ext execution_error_ext)

text \<open>Planner, tools and handlers leave the calls of tools to the registry.\<close>

definition runtime_log_kept :: "runtime_env \<Rightarrow> bool" where
  "runtime_log_kept env =
     (log_kept (re_agent env) \<and>
      (\<forall>objective u w. calls (snd (re_planner env objective u w)) = calls w) \<and>
      (\<forall>ty w. calls (snd (re_run_hooks env ty w)) = calls w))"

lemma settle_log:
  assumes "settle_run env i w = (x, w1)" and "runtime_log_kept env"
  shows "calls w1 = calls w"
proof -
  have hook: "re_run_hooks env ty w2 = (y, w3) \<Longrightarrow> calls w3 = calls w2" for ty w2 y w3
    using assms(2) unfolding runtime_log_kept_def by (metis snd_conv)
  show ?thesis using assms(1)
    by (auto simp: settle_run_def Let_def split: option.splits prod.splits bool.splits if_splits outcome.splits
        dest!: draw_ext execution_error_ext hook)
qed

lemma nothing_granted [simp]: "list_all (granted_by env PNone i u) new \<longleftrightarrow> new = []"
  using missing_token by (cases new) (simp_all add: granted_by_def)

lemma run_locally_calls:
  assumes "run_locally env i u row w = Some (x, w1)" and "runtime_log_kept env"
  shows "\<exists>new. calls w1 = calls w @ new \<and> list_all (granted_by (re_agent env) (ar_capability_token row) i u) new"
proof -
  have kept: "log_kept (re_agent env)" using assms(2) by (simp add: runtime_log_kept_def)
  have orch: "\<exists>new. calls w3 = calls w2 @ new \<and> list_all (granted_by (re_agent env) (ar_capability_token row) i u) new"
    if o: "execute_agent_run_via_nodus (re_agent env) i plan u corr (ar_capability_token row) PNone w2 = Some (y, w3)" for plan corr w2 y w3
  proof -
    let ?t = "if py_truthy (ar_capability_token row) then ar_capability_token row else PNone"
    obtain new where new: "calls w3 = calls w2 @ new" "list_all (granted_by (re_agent env) ?t i u) new"
      using orchestration_granted [OF o [unfolded execute_agent_run_via_nodus_def] kept] by blast
    then show ?thesis by (cases "py_truthy (ar_capability_token row)") auto
  qed
  show ?thesis
  proof (cases "fl_ext w1 = fl_ext w")
    case True
    then show ?thesis by (intro exI [of _ "[]"]) simp
  next
    case False
    then obtain plan w2 y w3 where "fl_ext w2 = fl_ext w"
      and o: "execute_agent_run_via_nodus (re_agent env) i plan u (ar_correlation_id row) (ar_capability_token row) PNone w2 = Some (y, w3)"
      and "y = Orchestration_cut \<and> w1 = w3 \<or> settle_run env i w3 = (x, w1)"
      using assms(1) by (auto simp: run_locally_def Let_def split: option.splits prod.splits bool.splits orchestration_end.splits
          dest!: save_run_ext tell_ext execution_error_ext)
    then have "calls w1 = calls w3" "calls w2 = calls w" using settle_log [OF _ assms(2)] by auto
    then show ?thesis using orch [OF o] by simp
  qed
qed

text \<open>What allows a call: an approved run of the caller, and its token.\<close>

definition execution_allowed :: "runtime_env \<Rightarrow> string \<Rightarrow> string \<Rightarrow> string list \<Rightarrow> agent_world \<Rightarrow> agent_run \<Rightarrow> bool" where
  "execution_allowed env r u statuses w row =
     (agent_run_of (db_id (re_agent env) r) w = Some row \<and> ar_status row \<in> set statuses \<and>
      user_matches (re_agent env) (ar_user_id row) (db_id (re_agent env) u))"

lemma execute_run_calls:
  assumes "execute_run env r u w = Some (x, w1)" and "runtime_log_kept env" and "calls w1 \<noteq> calls w"
  shows "\<exists>row new. execution_allowed env r u [''approved''] w row \<and> calls w1 = calls w @ new \<and>
    list_all (granted_by (re_agent env) (ar_capability_token row) (db_id (re_agent env) r) u) new"
proof -
  have "\<exists>row w2. execution_allowed env r u [''approved''] w row \<and> fl_ext w2 = fl_ext w \<and>
      run_locally env (db_id (re_agent env) r) u row w2 = Some (x, w1)"
    using assms(1,3)
    by (auto simp: execute_run_def Let_def execution_allowed_def split: option.splits if_splits prod.splits bool.splits
        dest!: save_ext refuse_ext delegate_ext execution_error_ext)
  then obtain row w2 where row: "execution_allowed env r u [''approved''] w row" and "fl_ext w2 = fl_ext w"
    and run: "run_locally env (db_id (re_agent env) r) u row w2 = Some (x, w1)" by blast
  then show ?thesis using run_locally_calls [OF run assms(2)] by auto
qed

lemma approve_run_calls:
  assumes "approve_run env r u w = Some (x, w1)" and "runtime_log_kept env" and "calls w1 \<noteq> calls w"
  shows "\<exists>row token new. execution_allowed env r u [''pending_approval''] w row \<and> calls w1 = calls w @ new \<and>
    list_all (granted_by (re_agent env) token (db_id (re_agent env) (db_id (re_agent env) r)) (db_id (re_agent env) u)) new"
proof -
  let ?ae = "re_agent env"
  have "\<exists>row w2. execution_allowed env r u [''pending_approval''] w row \<and> fl_ext w2 = fl_ext w \<and>
      execute_run env (db_id ?ae r) (db_id ?ae u) w2 = Some (x, w1)"
    using assms(1,3)
    by (auto simp: approve_run_def Let_def execution_allowed_def split: option.splits if_splits prod.splits bool.splits
        dest!: mint_ext save_run_ext tell_ext report_ext draw_ext)
  then obtain row w2 where row: "execution_allowed env r u [''pending_approval''] w row" and e: "fl_ext w2 = fl_ext w"
    and run: "execute_run env (db_id ?ae r) (db_id ?ae u) w2 = Some (x, w1)" by blast
  have "calls w1 \<noteq> calls w2" using assms(3) e by simp
  from execute_run_calls [OF run assms(2) this] show ?thesis using row e by metis
qed

lemma quiet_operations:
  assumes "runtime_log_kept env"
  shows "create_run env objective vals u w = (x, w1) \<Longrightarrow> calls w1 = calls w"
    and "reject_run env r u w = (x, w1) \<Longrightarrow> calls w1 = calls w"
    and "replay_run env r u mode w = (x, w1) \<Longrightarrow> calls w1 = calls w"
proof -
  have planner: "generate_plan env objective u w = (y, w2) \<Longrightarrow> calls w2 = calls w" for objective u w y w2
    using assms unfolding runtime_log_kept_def generate_plan_def by (auto split: prod.splits) (metis snd_conv)
  show "create_run env objective vals u w = (x, w1) \<Longrightarrow> calls w1 = calls w"
    by (auto simp: create_run_def Let_def split: option.splits prod.splits bool.splits run_reply.splits
        dest!: planner report_ext insert_ext grant_ext tell_ext)
  show "reject_run env r u w = (x, w1) \<Longrightarrow> calls w1 = calls w"
    by (auto simp: reject_run_def Let_def split: option.splits if_splits prod.splits bool.splits
        dest!: save_run_ext report_ext tell_ext)
  have make: "create_run_from_plan env objective plan u o' w = (y, w2) \<Longrightarrow> fl_ext w2 = fl_ext w" for objective plan u o' w y w2
    by (auto simp: create_run_from_plan_def Let_def split: option.splits prod.splits bool.splits dest!: insert_ext grant_ext)
  show "replay_run env r u mode w = (x, w1) \<Longrightarrow> calls w1 = calls w"
    by (auto simp: replay_run_def Let_def split: option.splits if_splits prod.splits bool.splits run_reply.splits
        dest!: planner make tell_ext report_ext)
qed

section \<open>The risk of a plan\<close>

definition risk_value :: "pyval \<Rightarrow> int" where
  "risk_value v = (case risk_rank 0 v of Some n \<Rightarrow> n | None \<Rightarrow> 0)"

definition risk_known :: "pyval \<Rightarrow> bool" where
  "risk_known v = (\<exists>t. v = PStr t \<and> map_of risk_order t \<noteq> None)"

lemma risk_rank_known: "risk_known v \<Longrightarrow> risk_rank n v = Some (risk_value v)"
  by (auto simp: risk_known_def risk_rank_def risk_value_def)

lemma risk_rank_bound: "risk_rank 2 v = Some m \<Longrightarrow> m \<le> 2"
  by (auto simp: risk_rank_def risk_order_def split: pyval.splits if_splits)

lemma all_some_Some: "all_some (map Some ys) = Some ys"
  by (induction ys) simp_all

lemma all_some_iff: "all_some xs = Some ys \<longleftrightarrow> xs = map Some ys"
proof
  show "all_some xs = Some ys \<Longrightarrow> xs = map Some ys" by (induction xs arbitrary: ys) (auto split: option.splits)
qed (simp add: all_some_Some)

lemma first_max_in: "first_max b n ps = b \<or> first_max b n ps \<in> fst ` set ps"
proof (induction ps arbitrary: b n)
  case (Cons p ps)
  then show ?case using Cons [of "fst p" "snd p"] Cons [of b n] by (cases p) auto
qed simp

lemma first_max_ge: "list_all (\<lambda>(v, m). m = f v) ((b, n) # ps) \<Longrightarrow> n \<le> f (first_max b n ps)"
proof (induction ps arbitrary: b n)
  case (Cons p ps)
  obtain v m where p: "p = (v, m)" by fastforce
  have "m \<le> f (first_max v m ps)" "n \<le> f (first_max b n ps)" using Cons p by simp_all
  then show ?case using p by auto
qed simp

lemma first_max_greatest:
  "list_all (\<lambda>(v, m). m = f v) ((b, n) # ps) \<Longrightarrow> (x, k) \<in> set ps \<Longrightarrow> k \<le> f (first_max b n ps)"
proof (induction ps arbitrary: b n)
  case (Cons p ps)
  obtain v m where p: "p = (v, m)" by fastforce
  have m: "list_all (\<lambda>(v, m). m = f v) ((v, m) # ps)" and n: "list_all (\<lambda>(v, m). m = f v) ((b, n) # ps)"
    using Cons.prems(1) p by simp_all
  show ?case
  proof (cases "(x, k) = p")
    case True
    then show ?thesis using first_max_ge [OF m] first_max_ge [OF n] p by auto
  next
    case False
    then have "(x, k) \<in> set ps" using Cons.prems(2) by simp
    then show ?thesis using Cons.IH [OF m] Cons.IH [OF n] p by auto
  qed
qed simp

lemma max_step_risk_known:
  assumes "max_step_risk risks = Some m" and "\<forall>v \<in> set risks. risk_known v" and "v \<in> set risks"
  shows "risk_known m \<and> risk_value v \<le> risk_value m"
proof -
  have "all_some (map (risk_rank 2) risks) = Some (map risk_value risks)"
    using assms(2) by (simp add: all_some_iff risk_rank_known)
  moreover obtain b rest where risks: "risks = b # rest" using assms(3) by (cases risks) auto
  ultimately have m: "m = first_max b (risk_value b) (zip rest (map risk_value rest))" using assms(1) by (simp add: max_step_risk_def)
  have z: "set (zip rest (map risk_value rest)) = (\<lambda>x. (x, risk_value x)) ` set rest" by (auto simp: zip_map2 zip_same_conv_map)
  have ranked: "list_all (\<lambda>(v, m). m = risk_value v) ((b, risk_value b) # zip rest (map risk_value rest))"
    using z by (auto simp: list_all_iff)
  have "m \<in> set risks" using first_max_in [of b "risk_value b" "zip rest (map risk_value rest)"] m z risks by auto
  moreover have "risk_value v \<le> risk_value m"
    using first_max_ge [OF ranked] first_max_greatest [OF ranked, of v "risk_value v"]
      m z assms(3) risks by auto
  ultimately show ?thesis using assms(2) by blast
qed



lemma first_max_kept: "list_all (\<lambda>(v, m). m \<le> n) ps \<Longrightarrow> first_max b n ps = b"
  by (induction ps) auto

text \<open>
  A step of unknown risk hides the others: when the first step of a plan names a risk that is none of
  the three, the plan keeps the overall risk the planner claimed, whatever the later steps are. The unknown
  risk counts as the greatest when the maximum is taken and as the least when it is compared.
\<close>

theorem unknown_risk_hides_steps:
  assumes "map_of d ''steps'' = Some (PList (PDict s # rest))" and "map_of d ''overall_risk'' = Some (PStr overall)"
    and "map_of s ''risk_level'' = Some (PStr t)" and "map_of risk_order t = None"
    and "all_some (map step_risk rest) = Some risks" and "all_some (map (risk_rank 2) risks) = Some ranks"
  shows "normalize_plan (PDict d) = Some (PDict d)"
proof -
  have first: "step_risk (PDict s) = Some (PStr t)" using assms(3) by (simp add: step_risk_def state_get_def)
  have rank: "risk_rank k (PStr t) = Some k" for k using assms(4) by (simp add: risk_rank_def)
  have "list_all (\<lambda>(v, m). m \<le> 2) (zip risks ranks)"
  proof -
    have "map (risk_rank 2) risks = map Some ranks" using assms(6) by (simp add: all_some_iff)
    then have "risk_rank 2 (risks ! j) = Some (ranks ! j)" if "j < length risks" "j < length ranks" for j
      using that by (metis nth_map)
    then show ?thesis using risk_rank_bound by (auto simp: list_all_iff set_zip)
  qed
  then have "max_step_risk (PStr t # risks) = Some (PStr t)"
    using assms(6) by (simp add: max_step_risk_def rank first_max_kept)
  moreover have "\<exists>a\<ge>0. risk_rank 0 (PStr overall) = Some a"
    by (auto simp: risk_rank_def risk_order_def)
  ultimately show ?thesis using assms(1,2,5) first rank by (auto simp: normalize_plan_def elements_def)
qed

theorem unknown_risk_hides_steps_witness:
  "normalize_plan (PDict [(''steps'', PList [PDict [(''risk_level'', PStr ''none'')], PDict [(''tool'', PStr ''wipe''), (''risk_level'', PStr ''high'')]]),
      (''overall_risk'', PStr ''low'')]) =
   Some (PDict [(''steps'', PList [PDict [(''risk_level'', PStr ''none'')], PDict [(''tool'', PStr ''wipe''), (''risk_level'', PStr ''high'')]]),
      (''overall_risk'', PStr ''low'')])"
  by (rule unknown_risk_hides_steps [where s = "[(''risk_level'', PStr ''none'')]" and t = "''none''" and overall = "''low''"
        and rest = "[PDict [(''tool'', PStr ''wipe''), (''risk_level'', PStr ''high'')]]" and risks = "[PStr ''high'']" and ranks = "[2]"])
     (simp_all add: risk_order_def step_risk_def state_get_def risk_rank_def)

end
