(* ===== verification/Agent_Approval.thy ===== *)
theory Agent_Approval
  imports Agent_Lifecycle
begin

text \<open>
  Approval, from end to end: what a user's approval of a waiting run brings about on a database that accepts
  every write, through the token, the coordination, the flow and its nodes; and that nothing else calls
  tools.
\<close>

section \<open>Writes that succeed\<close>

text \<open>The pending tables have a property, no write will fail, and the state outside the database is \<open>e\<close>.\<close>

definition ready :: "(agent_tables \<Rightarrow> bool) \<Rightarrow> agent_ext \<Rightarrow> agent_world \<Rightarrow> bool" where
  "ready R e w = (fl_io w = [] \<and> R (tables w) \<and> fl_ext w = e)"

lemma ready_commit: "ready R e w \<Longrightarrow> \<exists>w1. fl_commit w = (True, w1) \<and> ready R e w1 \<and> stored w1"
  by (simp add: ready_def calm_commit tables_def commit_session_def)

lemma ready_save: "ready R e w \<Longrightarrow> \<exists>w1. fl_save w = (True, w1) \<and> ready R e w1 \<and> stored w1"
  using ready_commit by (fastforce simp: fl_save_def)

lemma ready_edit: "ready R e w \<Longrightarrow> (\<And>t. R t \<Longrightarrow> R' (f t)) \<Longrightarrow> ready R' e (edit_tables f w)"
  by (simp add: ready_def edit_tables_def fl_work_def flush_with_def tables_def)

lemma ready_unit: "ready R e w \<Longrightarrow> ready R e (set_agent_unit env i s w)"
  by (simp add: ready_def set_agent_unit_def fl_work_def flush_with_def tables_def Let_def split: option.split)

lemma ready_event:
  assumes "ready R e w"
  shows "\<exists>w1. flow_event env ty trace w = (Inr True, w1) \<and> ready R e w1"
  using assms by (simp add: ready_def flow_event_def store_event_def calm_commit fl_work_def flush_with_def tables_def commit_session_def)

text \<open>The row of a run and the step rows.\<close>

definition holds :: "string \<Rightarrow> agent_run \<Rightarrow> agent_step list \<Rightarrow> agent_tables \<Rightarrow> bool" where
  "holds i row steps t = (map_of (at_runs t) i = Some row \<and> at_steps t = steps)"

lemma holds_tables [simp]:
  "holds i row steps (t\<lparr>at_events := es\<rparr>) = holds i row steps t"
  "holds i row steps (t\<lparr>at_capabilities := cs\<rparr>) = holds i row steps t"
  "holds i row steps (t\<lparr>at_mappings := ms\<rparr>) = holds i row steps t"
  by (simp_all add: holds_def)

lemma ready_row: "ready (holds i row steps) e w \<Longrightarrow> agent_run_of i w = Some row"
  by (simp add: ready_def holds_def agent_run_of_def)

lemma ready_edit_run: "ready (holds i row steps) e w \<Longrightarrow> ready (holds i (f row) steps) e (edit_agent_run i f w)"
  unfolding edit_agent_run_def by (erule ready_edit) (auto simp: holds_def update_conv')

lemma ready_save_run:
  "ready (holds i row steps) e w \<Longrightarrow> \<exists>w1. save_run i f w = (True, w1) \<and> ready (holds i (f row) steps) e w1 \<and> stored w1"
  unfolding save_run_def by (rule ready_save) (rule ready_edit_run)

lemma ready_tell:
  assumes "ready (holds i row steps) e w"
  shows "\<exists>w1. tell_agents env r ty corr w = (True, w1) \<and> ready (holds i row steps) e w1 \<and> stored w1"
proof -
  let ?tr = "agent_event_trace (fe_ctx_trace_id (ae_flow env)) corr r"
  obtain w1 where w1: "flow_event (ae_flow env) (''agent.'' @ py_lower ty) ?tr w = (Inr True, w1)" "ready (holds i row steps) e w1"
    using ready_event [OF assms] by blast
  define w2 where "w2 = edit_tables (\<lambda>t. t\<lparr>at_events := at_events t @ [(r, ty)]\<rparr>) w1"
  have "ready (holds i row steps) e w2" unfolding w2_def by (rule ready_edit [OF w1(2)]) simp
  from ready_commit [OF this] show ?thesis using w1(1) by (auto simp: tell_agents_def record_agent_event_def w2_def)
qed

lemma ready_mint:
  assumes "mint_token env r u plan mode a w = (token, w1)" and "ready (holds i row steps) e w"
  shows "ready (holds i row steps) e w1"
proof -
  have edit: "ready (holds i row steps) e (edit_tables (\<lambda>t. t\<lparr>at_capabilities := tbl\<rparr>) w)" for tbl
    by (rule ready_edit [OF assms(2)]) simp
  have "ready (holds i row steps) e (snd (fl_commit (edit_tables (\<lambda>t. t\<lparr>at_capabilities := tbl\<rparr>) w)))" for tbl
    using ready_commit [OF edit [of tbl]] by auto
  with edit have "ready (holds i row steps) e (sync_capability_catalog env w)"
    by (simp add: sync_capability_catalog_def Let_def split: prod.split)
  then have "ready (holds i row steps) e (create_run_capability_mappings env r a names w)" for names
    by (auto simp: create_run_capability_mappings_def Let_def intro!: ready_edit)
  then show ?thesis using assms by (auto simp: mint_token_def Let_def split: option.splits if_splits)
qed

section \<open>The token of an approval\<close>

definition tools_succeed :: "agent_env \<Rightarrow> string \<Rightarrow> string list \<Rightarrow> bool" where
  "tools_succeed env u tools =
     list_all (\<lambda>t. \<exists>entry. map_of (ae_tools env) t = Some entry \<and> (\<forall>args w. \<exists>v. te_fn entry args u w = (Returns v, w))) tools"

text \<open>A plan whose steps all name known tools that succeed, for an agent that may run flows.\<close>

definition plan_ready :: "agent_env \<Rightarrow> string \<Rightarrow> string \<Rightarrow> pyval \<Rightarrow> pyval list \<Rightarrow> bool" where
  "plan_ready env u a plan steps =
     (plan_steps plan = Some steps \<and> steps \<noteq> [] \<and>
      (\<exists>tools. plan_tools env steps = Some tools \<and> tools_succeed env u tools) \<and>
      (\<exists>allowed. get_plan_required_capabilities env plan a = Some allowed \<and> ''execute_flow'' \<in> set allowed))"

lemma plan_step_tools: "plan_tools env steps = Some tools \<Longrightarrow> s \<in> set steps \<Longrightarrow> is_dict s \<and> step_tool env s \<in> set tools"
  by (induction steps arbitrary: tools)
     (auto simp: dict_get_def is_dict_def step_field_def str_of_def split: pyval.splits if_splits option.splits)

lemma at_time_now: "at_time (ae_now env) env = env"
  by (simp add: at_time_def ae_now_def)

lemma manual_mint:
  assumes "plan_ready env u a plan steps" and "iso_times env" and "ae_fresh_token env \<noteq> []" and "a \<noteq> []"
  shows "\<exists>token w1. mint_token env r u plan ''manual'' a w = (Some token, w1) \<and> is_dict token \<and> py_truthy token \<and>
    flow_refusal env r u token = None \<and> (\<forall>s \<in> set steps. step_ready env token r u s)"
proof -
  obtain tools allowed where p: "plan_steps plan = Some steps" "steps \<noteq> []" "plan_tools env steps = Some tools"
    "tools_succeed env u tools" "get_plan_required_capabilities env plan a = Some allowed" "''execute_flow'' \<in> set allowed"
    using assms(1) unfolding plan_ready_def by blast
  define token where "token = build_token env r u a ''manual'' (sorted_set tools) allowed"
  have "tools \<noteq> []" using p(2,3) by (cases steps) (auto split: pyval.splits if_splits)
  then have granted: "get_grantable_tools env plan u ''manual'' w = sorted_set tools" "sorted_set tools \<noteq> []"
    using p by (simp_all add: get_grantable_tools_def sorted_set_empty)
  then have mint: "mint_token env r u plan ''manual'' a w = (Some token, create_run_capability_mappings env r a allowed w)"
    using p by (auto simp: mint_token_def Let_def token_def)
  have req: "steps_required_capabilities env steps (get_capabilities_for_agent env a) = Some allowed" "allowed \<noteq> []"
    using p(1,5,6) by (auto simp: get_plan_required_capabilities_def)
  have "normalize_tool_list env (PList (map PStr (sorted_set tools))) = sorted_set tools"
    "normalize_capability_list env (PList (map PStr allowed)) = allowed"
    using plan_tools_known [OF p(3)] steps_required_known [OF req(1)] steps_required_cover [OF p(3) req]
    by (simp_all add: normalize_tools_stable normalize_capabilities_stable)
  from validate_built_token [OF assms(2,3) _ assms(4) this, of "''manual''" "ae_now env" r u r u]
  have "check_execution_capability env token r u ''execute_flow'' = verdict_of None
      \<lparr>vl_granted_tools = sorted_set tools, vl_allowed_capabilities = allowed, vl_execution_token = ae_fresh_token env, vl_agent_type = a\<rparr>"
    using p(6) by (simp add: check_execution_capability_def at_time_now TOKEN_TTL_US_def token_def)
  then have "flow_refusal env r u token = None" "is_dict token" "py_truthy token"
    by (simp_all add: flow_refusal_def verdict_of_def token_def build_token_def Let_def is_dict_def py_truthy_def)
  moreover have "step_ready env token r u s" if "s \<in> set steps" for s
  proof -
    note tool = plan_step_tools [OF p(3) that]
    have "vd_error (check_tool_capability env token r u (step_tool env s)) = None"
      using minted_verdict [OF mint p(1,3) assms(2,3) _ assms(4), of "ae_now env" r u "step_tool env s"] tool
      by (simp add: at_time_now TOKEN_TTL_US_def)
    then show ?thesis using tool p(4) by (auto simp: step_ready_def tools_succeed_def list_all_iff)
  qed
  ultimately show ?thesis using mint by blast
qed

section \<open>Approval\<close>

text \<open>What the surroundings must offer besides: times that can be read back, nothing delegated, handlers that write nothing.\<close>

definition runtime_served :: "runtime_env \<Rightarrow> bool" where
  "runtime_served env =
     (let ae = re_agent env in
      iso_times ae \<and> ae_fresh_token ae \<noteq> [] \<and> is_testing (fe_rm (ae_flow ae)) \<and> agents_served ae \<and> quiet_hooks ae \<and> log_kept ae \<and>
      (\<forall>row w. \<exists>co. re_coordination env row w = Some co \<and> co_mode co \<notin> {''delegate'', ''collaborate''}) \<and>
      (\<forall>ty w. re_run_hooks env ty w = (Returns (), w)))"

lemma settle_completed:
  assumes "fl_io w = []" and "both_fl (\<lambda>d. progressed ae i steps before n A (fd_app d)) w" and "\<And>row. A row \<Longrightarrow> ar_status row = ''completed''"
    and "\<And>ty w. re_run_hooks env ty w = (Returns (), w)"
  shows "\<exists>w1. settle_run env i w = (Run_reply i, w1) \<and> fl_ext w1 = fl_ext w \<and>
    both_fl (\<lambda>d. progressed ae i steps before n A (fd_app d)) w1"
proof -
  obtain row where "agent_run_of i w = Some row" "ar_status row = ''completed''"
    using assms(2,3) by (auto simp: both_fl_def progressed_def agent_run_of_def tables_def)
  then have "settle_run env i w = (Run_reply i, set_agent_unit (re_agent env) i ''completed'' w)"
    using assms(1,4) by (simp add: settle_run_def fl_draw_def)
  moreover have "both_fl (\<lambda>d. progressed ae i steps before n A (fd_app d)) (set_agent_unit (re_agent env) i ''completed'' w)"
    unfolding set_agent_unit_def Let_def by (rule apt.keeps_work [OF assms(2)]) (simp split: option.split)
  ultimately show ?thesis by simp
qed

lemma local_run_completes:
  assumes "runtime_served env" and "ready (holds i row before) e w" and "db_id (re_agent env) i = i" and "i \<noteq> []"
    and "plan_steps (ar_plan row) = Some steps" and "steps \<noteq> []" and "py_truthy (ar_capability_token row)"
    and "flow_refusal (re_agent env) i u (ar_capability_token row) = None"
    and "\<forall>s \<in> set steps. step_ready (re_agent env) (ar_capability_token row) i u s"
  shows "\<exists>w1. run_locally env i u row w = Some (Run_reply i, w1) \<and> calls w1 = ax_calls e @ map (call_of (re_agent env) u) steps \<and>
    both_fl (\<lambda>d. progressed (re_agent env) i steps before (length steps)
      (\<lambda>row. ar_status row = ''completed'' \<and> ar_flow_run_id row = Some (fe_fresh_run_id (ae_flow (re_agent env)))) (fd_app d)) w1"
proof -
  let ?ae = "re_agent env"
  obtain d where d: "ar_plan row = PDict d" "map_of d ''steps'' = Some (PList steps)"
    using assms(5,6) by (auto simp: plan_steps_def split: if_splits pyval.splits option.splits)
  define plan where "plan = PDict (AList.update ''memory_context'' (re_memory env row w) d)"
  have plan: "execution_plan (ar_plan row) (re_memory env row w) = Some plan" "plan_get ''steps'' (PList []) plan = Some (PList steps)"
    using d by (auto simp: execution_plan_def plan_def plan_get_def py_truthy_def update_conv' state_get_def)
  obtain w1 where w1: "save_run i (started ?ae plan) w = (True, w1)" "ready (holds i (started ?ae plan row) before) e w1"
    using ready_save_run [OF assms(2)] by blast
  obtain w2 where w2: "tell_agents ?ae i ''EXECUTION_STARTED'' (ar_correlation_id row) (set_agent_unit ?ae i ''executing'' w1) = (True, w2)"
    "ready (holds i (started ?ae plan row) before) e w2" "stored w2"
    using ready_tell [OF ready_unit [OF w1(2)]] by blast
  have here: "fl_io w2 = []" "agent_run_of (db_id ?ae i) w2 \<noteq> None" "at_steps (tables w2) = before" "calls w2 = ax_calls e"
    using w2(2) assms(3) ready_row [OF w2(2)] by (simp_all add: ready_def holds_def)
  have env: "is_testing (fe_rm (ae_flow ?ae))" "agents_served ?ae" "quiet_hooks ?ae" "log_kept ?ae"
    "\<And>ty w. re_run_hooks env ty w = (Returns (), w)"
    using assms(1) by (simp_all add: runtime_served_def Let_def)
  obtain w3 where w3: "execute_agent_flow_orchestration ?ae i plan u (ar_correlation_id row) (ar_capability_token row) PNone w2 =
      Some (Orchestrated ''SUCCESS'', w3)" "calls w3 = ax_calls e @ map (call_of ?ae u) steps" "fl_io w3 = []"
    "both_fl (\<lambda>d. progressed ?ae i steps before (length steps)
      (\<lambda>row. ar_status row = ''completed'' \<and> ar_flow_run_id row = Some (fe_fresh_run_id (ae_flow ?ae))) (fd_app d)) w3"
    using plan_completes [OF plan(2) assms(6,7,4,8) _ here(1) w2(3) here(2) env(1-4), of "ar_correlation_id row" PNone]
      assms(3,9) here(3,4) by auto
  from settle_completed [OF w3(3,4) _ env(5)] obtain w4 where "settle_run env i w3 = (Run_reply i, w4)" "fl_ext w4 = fl_ext w3"
    "both_fl (\<lambda>d. progressed ?ae i steps before (length steps)
      (\<lambda>row. ar_status row = ''completed'' \<and> ar_flow_run_id row = Some (fe_fresh_run_id (ae_flow ?ae))) (fd_app d)) w4" by blast
  then show ?thesis using plan(1) w1(1) w2(1) w3(1,2) by (simp add: run_locally_def Let_def execute_agent_run_via_nodus_def)
qed

lemma approval_completes:
  assumes "runtime_served env" and "fl_io w = []" and "agent_run_of i w = Some row" and "ar_status row = ''pending_approval''"
    and "db_id (re_agent env) r = i" and "db_id (re_agent env) i = i" and "i \<noteq> []"
    and "db_id (re_agent env) u' = u" and "db_id (re_agent env) u = u" and "user_matches (re_agent env) (ar_user_id row) u"
    and "ar_agent_type row \<noteq> []" and "plan_ready (re_agent env) u (ar_agent_type row) (ar_plan row) steps"
  shows "\<exists>w1. approve_run env r u' w = Some (Run_reply i, w1) \<and> calls w1 = calls w @ map (call_of (re_agent env) u) steps \<and>
    both_fl (\<lambda>d. progressed (re_agent env) i steps (at_steps (tables w)) (length steps)
      (\<lambda>row. ar_status row = ''completed'' \<and> ar_flow_run_id row = Some (fe_fresh_run_id (ae_flow (re_agent env)))) (fd_app d)) w1"
proof -
  let ?ae = "re_agent env" let ?before = "at_steps (tables w)" let ?e = "fl_ext w"
  let ?approve = "\<lambda>x :: agent_run. x\<lparr>ar_status := ''approved'', ar_approved_at := Some (ae_now ?ae)\<rparr>"
  have env: "iso_times ?ae" "ae_fresh_token ?ae \<noteq> []"
    "\<And>row w. \<exists>co. re_coordination env row w = Some co \<and> co_mode co \<notin> {''delegate'', ''collaborate''}"
    using assms(1) by (simp_all add: runtime_served_def Let_def)
  have w: "ready (holds i row ?before) ?e w" using assms(2,3) by (simp add: ready_def holds_def agent_run_of_def)
  obtain token w1 where mint: "mint_token ?ae i u (ar_plan row) ''manual'' (ar_agent_type row) (edit_agent_run i ?approve w) = (Some token, w1)"
    and token: "is_dict token" "py_truthy token" "flow_refusal ?ae i u token = None" "\<forall>s \<in> set steps. step_ready ?ae token i u s"
    using manual_mint [OF assms(12) env(1,2) assms(11)] by blast
  define row2 where "row2 = (with_token token (?approve row))\<lparr>ar_error_message := PNone\<rparr>"
  have "ready (holds i (?approve row) ?before) ?e w1" by (rule ready_mint [OF mint ready_edit_run [OF w]])
  from ready_save_run [OF this] obtain w2 where
    w2: "save_run i (\<lambda>x. (with_token token x)\<lparr>ar_error_message := PNone\<rparr>) w1 = (True, w2)" "ready (holds i row2 ?before) ?e w2"
    unfolding row2_def by blast
  obtain w3 where w3: "tell_agents ?ae i ''APPROVED'' (ar_correlation_id row) w2 = (True, w3)" "ready (holds i row2 ?before) ?e w3"
    using ready_tell [OF w2(2)] by blast
  obtain w4 where w4: "fl_save w3 = (True, w4)" "ready (holds i row2 ?before) ?e w4" using ready_save [OF w3(2)] by blast
  obtain co where co: "re_coordination env row2 w4 = Some co" "co_mode co \<notin> {''delegate'', ''collaborate''}" using env(3) by blast
  have row2: "ar_status row2 = ''approved''" "ar_user_id row2 = ar_user_id row" "ar_plan row2 = ar_plan row" "ar_capability_token row2 = token"
    by (simp_all add: row2_def with_token_def)
  have "approve_run env r u' w = execute_run env i u w3"
    using assms(3-5,8,10) mint w2(1) w3(1) by (simp add: approve_run_def Let_def)
  also have "\<dots> = run_locally env i u row2 w4"
    using assms(6,9,10) ready_row [OF w3(2)] w4(1) co token(1) by (simp add: execute_run_def Let_def row2)
  finally have run: "approve_run env r u' w = run_locally env i u row2 w4" .
  have "plan_steps (ar_plan row2) = Some steps" "steps \<noteq> []" using assms(12) by (simp_all add: plan_ready_def row2)
  from local_run_completes [OF assms(1) w4(2) assms(6,7) this] show ?thesis using run token by (simp add: row2)
qed


lemma sample_served: "runtime_served sample_runtime_env"
  using sample_surroundings sample_log_kept sample_iso_times
  by (simp add: runtime_served_def sample_runtime_env_def Let_def)

lemma sample_plan_ready: "plan_ready sample_agent_env ''u1'' ''default'' sample_plan sample_steps"
proof -
  have "plan_steps sample_plan = Some sample_steps" "plan_tools sample_agent_env sample_steps = Some [''memory.recall'', ''memory.write'']"
    "get_plan_required_capabilities sample_agent_env sample_plan ''default'' = Some [''execute_flow'', ''read_memory'', ''write_memory'']"
    by code_simp+
  moreover have "tools_succeed sample_agent_env ''u1'' [''memory.recall'', ''memory.write'']"
    by (simp add: tools_succeed_def sample_agent_env_def sample_tools_def register_tool_def sample_tool_def)
  ultimately show ?thesis by (simp add: plan_ready_def sample_steps_def)
qed

lemma sample_approval:
  "re_agent sample_runtime_env = sample_agent_env" "fl_io (sample_agent_world []) = []"
  "agent_run_of ''r1'' (sample_agent_world []) = Some sample_agent_run" "calls (sample_agent_world []) = []"
  "at_steps (tables (sample_agent_world [])) = []" "user_matches sample_agent_env ''u1'' ''u1''"
  "ar_status sample_agent_run = ''pending_approval''" "ar_user_id sample_agent_run = ''u1''" "ar_agent_type sample_agent_run = ''default''"
  "ar_plan sample_agent_run = sample_plan"
  by (simp_all add: sample_runtime_env_def sample_agent_world_def open_session_def agent_run_of_def tables_def sample_tables_def user_matches_def
      sample_agent_run_def split: option.split)

lemma sample_calls:
  "map (call_of sample_agent_env ''u1'') sample_steps = [(''memory.recall'', PDict [], ''u1''), (''memory.write'', PDict [], ''u1'')]"
  by (simp add: sample_steps_def call_of_def step_field_def step_args_def)


section \<open>No call without approval\<close>



section \<open>Automatic approval\<close>

definition row_of :: "(string, trust_row) dict \<Rightarrow> string \<Rightarrow> agent_run \<Rightarrow> agent_tables \<Rightarrow> bool" where
  "row_of trust i row t = (at_trust t = trust \<and> map_of (at_runs t) i = Some row)"

abbreviation both_tables :: "(agent_tables \<Rightarrow> bool) \<Rightarrow> agent_world \<Rightarrow> bool" where
  "both_tables R \<equiv> both_fl (\<lambda>d. R (fd_app d))"

lemma both_edit: "both_tables R w \<Longrightarrow> (\<And>t. R t \<Longrightarrow> R (f t)) \<Longrightarrow> both_tables R (edit_tables f w)"
  unfolding edit_tables_def by (erule apt.keeps_work) simp

lemma both_draw: "fl_draw w = (b, w1) \<Longrightarrow> both_fl P w1 = both_fl P w"
  by (auto simp: fl_draw_def both_fl_def split: list.splits)

lemma saved_tables: "fl_save w = (True, w1) \<Longrightarrow> R (tables w) \<Longrightarrow> both_tables R w1"
  by (auto simp: fl_save_def fl_commit_def fl_draw_def both_fl_def commit_session_def tables_def split: prod.splits bool.splits list.splits if_splits)

lemma insert_row:
  assumes "insert_run i row w = (True, w1)"
  shows "both_tables (row_of (at_trust (tables w)) i row) w1"
proof -
  obtain w2 where w2: "fl_save (add_run i row w) = (True, w2)" "fl_draw w2 = (True, w1)"
    using assms by (auto simp: insert_run_def split: prod.splits bool.splits)
  have "row_of (at_trust (tables w)) i row (tables (add_run i row w))"
    by (simp add: row_of_def add_run_def edit_tables_def fl_work_def flush_with_def tables_def update_conv')
  from saved_tables [where R = "row_of (at_trust (tables w)) i row", OF w2(1) this] show ?thesis using both_draw [OF w2(2)] by blast
qed

lemma mint_row:
  assumes "mint_token env r u plan mode a w = (token, w1)" and "both_tables (row_of trust i row) w"
  shows "both_tables (row_of trust i row) w1"
proof -
  have edit: "both_tables (row_of trust i row) (edit_tables (\<lambda>t. t\<lparr>at_capabilities := tbl\<rparr>) w)" for tbl
    by (rule both_edit [OF assms(2)]) (simp add: row_of_def)
  have "both_tables (row_of trust i row) (snd (fl_commit (edit_tables (\<lambda>t. t\<lparr>at_capabilities := tbl\<rparr>) w)))" for tbl
    using apt.keeps_commit [OF surjective_pairing edit] .
  with edit have "both_tables (row_of trust i row) (sync_capability_catalog env w)"
    by (simp add: sync_capability_catalog_def Let_def split: prod.split)
  then have "both_tables (row_of trust i row) (create_run_capability_mappings env r a names w)" for names
    by (auto simp: create_run_capability_mappings_def Let_def row_of_def intro!: both_edit)
  then show ?thesis using assms by (auto simp: mint_token_def Let_def split: option.splits if_splits)
qed

lemma tell_row:
  assumes "tell_agents env r ty corr w = (b, w1)" and "both_tables (row_of trust i row) w"
  shows "both_tables (row_of trust i row) w1"
proof -
  have "both_tables (row_of trust i row) (edit_tables (\<lambda>t. t\<lparr>at_events := f t\<rparr>) w2)" if "both_tables (row_of trust i row) w2" for f w2
    by (rule both_edit [OF that]) (simp add: row_of_def)
  then show ?thesis using assms
    by (auto simp: tell_agents_def record_agent_event_def split: prod.splits bool.splits sum.splits
        intro!: apt.keeps_rollback dest!: apt.keeps_event apt.keeps_commit)
qed

definition trusted :: "(string, trust_row) dict \<Rightarrow> agent_run \<Rightarrow> bool" where
  "trusted table row =
     (case map_of table (ar_user_id row) of
        None \<Rightarrow> False
      | Some trust \<Rightarrow>
          ar_overall_risk row = PStr ''low'' \<and> tr_auto_execute_low trust \<or>
          ar_overall_risk row = PStr ''medium'' \<and> tr_auto_execute_medium trust)"

definition automatic_plan :: "agent_env \<Rightarrow> agent_run \<Rightarrow> bool" where
  "automatic_plan env row =
     (case Option.bind (plan_steps (ar_plan row)) (plan_tools env) of
        None \<Rightarrow> False
      | Some tools \<Rightarrow> list_all (\<lambda>t. tool_policy env t = ''auto_allowed'') tools)"

lemma new_run_trusted:
  assumes "new_agent_run env objective plan u replayed w = Some row" and "ar_status row = ''approved''"
  shows "trusted (at_trust (tables w)) row"
  using assms
  by (auto simp: new_agent_run_def requires_approval_def trusted_def Let_def split: pyval.splits option.splits if_splits)

lemma auto_mint_plan:
  assumes "mint_token env r u plan ''auto'' a w = (Some token, w1)" and "ar_plan row = plan"
  shows "automatic_plan env row"
proof -
  obtain steps tools where "plan_steps plan = Some steps" "plan_tools env steps = Some tools"
    and granted: "get_grantable_tools env plan u ''auto'' w = sorted_set tools"
    by (rule mint_token_cases [OF assms(1)]) blast
  moreover have "list_all (\<lambda>t. tool_policy env t = ''auto_allowed'') (sorted_set tools)"
    using assms(1) by (auto simp: mint_token_def Let_def granted list_all_iff list_ex_iff split: option.splits if_splits)
  ultimately show ?thesis using assms(2) by (simp add: automatic_plan_def list_all_iff)
qed

text \<open>The row of a new run, once it has its token.\<close>

definition well_approved :: "agent_env \<Rightarrow> (string, trust_row) dict \<Rightarrow> agent_run \<Rightarrow> bool" where
  "well_approved env table row =
     (ar_status row = ''approved'' \<longrightarrow> trusted table row \<and> automatic_plan env row \<and> is_dict (ar_capability_token row))"

lemma grant_row:
  assumes "grant_new_run env i u row w = (True, w1)" and "both_tables (row_of table i row) w"
    and "ar_status row = ''approved'' \<Longrightarrow> trusted table row"
  shows "\<exists>row1. both_tables (row_of table i row1) w1 \<and> well_approved env table row1"
proof (cases "ar_status row = ''approved''")
  case True
  then obtain token w2 w3 where mint: "mint_token env i u (ar_plan row) ''auto'' (ar_agent_type row) w = (token, w2)"
    and save: "save_run i (case token of Some t \<Rightarrow> with_token t | None \<Rightarrow> demoted) w2 = (True, w3)" and draw: "fl_draw w3 = (True, w1)"
    using assms(1) by (auto simp: grant_new_run_def split: prod.splits bool.splits)
  define row1 where "row1 = (case token of Some t \<Rightarrow> with_token t | None \<Rightarrow> demoted) row"
  have "row_of table i row (tables w2)" using mint_row [OF mint assms(2)] by (simp add: both_fl_def tables_def)
  then have "row_of table i row1 (tables (edit_agent_run i (case token of Some t \<Rightarrow> with_token t | None \<Rightarrow> demoted) w2))"
    by (simp add: row_of_def row1_def edit_agent_run_def edit_tables_def fl_work_def flush_with_def tables_def update_conv')
  from saved_tables [where R = "row_of table i row1", OF save [unfolded save_run_def] this] have "both_tables (row_of table i row1) w1"
    using both_draw [OF draw] by blast
  moreover have "well_approved env table row1"
  proof (cases token)
    case (Some t)
    then have "automatic_plan env row" "is_dict t" using mint auto_mint_plan
      by (auto simp: mint_token_def Let_def build_token_def is_dict_def split: option.splits if_splits)
    then show ?thesis using Some assms(3) True
      by (simp add: row1_def well_approved_def with_token_def trusted_def automatic_plan_def split: option.splits)
  qed (simp add: row1_def well_approved_def demoted_def)
  ultimately show ?thesis by blast
next
  case False
  then show ?thesis using assms(1,2) by (intro exI [of _ row]) (simp add: grant_new_run_def well_approved_def)
qed

definition makes_run :: "agent_op \<Rightarrow> bool" where
  "makes_run op = (case op of Create _ _ _ \<Rightarrow> True | Replay _ _ _ \<Rightarrow> True | _ \<Rightarrow> False)"

lemma unit_row: "both_tables R w \<Longrightarrow> both_tables R (add_agent_unit env i row w)"
  unfolding add_agent_unit_def Let_def by (erule apt.keeps_work) simp

lemma report_reply: "report_error env ty w \<noteq> (Run_reply i, w1)"
  by (simp add: report_error_def split: prod.split sum.split)

lemma planned_row:
  assumes "new_agent_run env objective plan u replayed w = Some row" and "both_tables (row_of (at_trust (tables w)) i row) w2"
    and "grant_new_run (re_agent env) i u' row w2 = (True, w3)"
  shows "\<exists>table row. both_tables (row_of table i row) w3 \<and> well_approved (re_agent env) table row"
  using grant_row [OF assms(3,2)] new_run_trusted [OF assms(1)] by blast

lemma create_run_row:
  assumes "create_run env objective vals u w = (Run_reply i, w1)"
  shows "\<exists>table row. both_tables (row_of table i row) w1 \<and> well_approved (re_agent env) table row"
proof -
  obtain plan row w2 w3 w4 goal v where new: "new_agent_run env goal plan v None w2 = Some row" and ins: "insert_run i row w2 = (True, w3)"
    and grant: "grant_new_run (re_agent env) i v row (add_agent_unit env i row w3) = (True, w4)"
    and tell: "tell_agents (re_agent env) i ''PLAN_CREATED'' (ar_correlation_id row) w4 = (True, w1)"
    using assms by (auto simp: create_run_def Let_def report_reply split: prod.splits option.splits bool.splits run_reply.splits)
  from planned_row [OF new unit_row [OF insert_row [OF ins]] grant] show ?thesis using tell_row [OF tell] by blast
qed

lemma replay_run_row:
  assumes "replay_run env r u mode w = (Run_reply i, w1)"
  shows "\<exists>table row. both_tables (row_of table i row) w1 \<and> well_approved (re_agent env) table row"
proof -
  obtain goal plan replayed w2 w3 where made: "create_run_from_plan env goal plan u replayed w2 = (Run_reply i, w3)"
    and tell: "tell_agents (re_agent env) i ''REPLAY_CREATED'' (Some (re_fresh_correlation env)) w3 = (True, w1)"
    using assms by (auto simp: replay_run_def Let_def report_reply split: prod.splits option.splits bool.splits run_reply.splits if_splits)
  then obtain row w4 plan where new: "new_agent_run env goal plan u replayed w2 = Some row" and ins: "insert_run i row w2 = (True, w4)"
    and grant: "grant_new_run (re_agent env) i u row w4 = (True, w3)"
    by (auto simp: create_run_from_plan_def Let_def split: prod.splits option.splits bool.splits)
  from planned_row [OF new insert_row [OF ins] grant] show ?thesis using tell_row [OF tell] by blast
qed



end
