(* ===== verification/Stuck_Runs.thy ===== *)
theory Stuck_Runs
  imports Agent_Runtime Agent_Samples
begin

text \<open>
  The recovery of runs a crashed process left behind (\<^verbatim>\<open>AINDY/agents/stuck_run_service.py\<close> and
  \<^verbatim>\<open>dead_letter_service.py\<close>): the scan at start-up and of the watchdog, and the recovery of one agent run by
  its user. The column \<^verbatim>\<open>updated_at\<close>, which the database sets at every write, is given by \<open>rc_updated_at\<close>.

  Shown: whichever commits fail, a run is recovered together with its agent's run or not at all, and the
  scan counts what it recovered; nothing else is touched, and a second scan finds nothing.
\<close>

record recovery_env =
  rc_agent :: agent_env
  rc_updated_at :: "string \<Rightarrow> time_us"
  rc_threshold_minutes :: int

abbreviation rc_now :: "recovery_env \<Rightarrow> time_us" where
  "rc_now env \<equiv> ae_now (rc_agent env)"

definition minutes_us :: "int \<Rightarrow> time_us" where
  "minutes_us n = n * 60000000"

definition RECOVERY_ERROR_MSG :: string where
  "RECOVERY_ERROR_MSG = ''Stuck run recovery: process terminated before completion''"

section \<open>One run\<close>

definition recovered_row :: "recovery_env \<Rightarrow> flow_row \<Rightarrow> flow_row" where
  "recovered_row env row =
     row\<lparr>fw_status := ''failed'', fw_waiting_for := None, fw_wait_deadline := None, fw_error_message := Some Stuck_run_recovered,
         fw_error_detail := Some (rc_now env), fw_completed_at := Some (rc_now env)\<rparr>"

definition recover_generic_run :: "recovery_env \<Rightarrow> string \<Rightarrow> agent_world \<Rightarrow> agent_world" where
  "recover_generic_run env q = edit_run q (recovered_row env)"

text \<open>The first agent run that names the flow run.\<close>

definition linked_agent_run :: "string \<Rightarrow> agent_world \<Rightarrow> string option" where
  "linked_agent_run q w = map_option fst (find (\<lambda>(i, row). ar_flow_run_id row = Some q) (at_runs (tables w)))"

definition recover_agent_run :: "recovery_env \<Rightarrow> string \<Rightarrow> agent_world \<Rightarrow> agent_world" where
  "recover_agent_run env q w =
     (let w1 = edit_run q (recovered_row env) w in
      case linked_agent_run q w1 of
        None \<Rightarrow> w1
      | Some i \<Rightarrow> edit_agent_run i (fail_executing (rc_agent env) (PStr RECOVERY_ERROR_MSG) (stored_step_results i w1)) w1)"

datatype recovery_reply = Recovered string | Not_found | Forbidden | Wrong_status | Too_recent | Internal_error

text \<open>
  The event of a manual recovery is not required: its exceptions are swallowed. Where its commit failed, the
  session may refuse to read the run for the answer.
\<close>

definition recover_stuck_agent_run ::
    "recovery_env \<Rightarrow> string \<Rightarrow> string \<Rightarrow> bool \<Rightarrow> agent_world \<Rightarrow> recovery_reply \<times> agent_world" where
  "recover_stuck_agent_run env run_id user_id force w =
     (let ae = rc_agent env in
      case agent_run_of run_id w of
        None \<Rightarrow> (Not_found, w)
      | Some row \<Rightarrow>
          if ar_user_id row \<noteq> user_id then (Forbidden, w)
          else if ar_status row \<noteq> ''executing'' then (Wrong_status, w)
          else if \<not> force \<and> (case ar_started_at row of None \<Rightarrow> False | Some t \<Rightarrow> rc_now env - t < minutes_us (rc_threshold_minutes env))
          then (Too_recent, w)
          else
            let w1 = (case ar_flow_run_id row of
                        None \<Rightarrow> w
                      | Some q \<Rightarrow>
                          if q = [] then w
                          else edit_run q (\<lambda>x. if fw_status x = ''running'' then recovered_row env x else x) w);
                w2 = edit_agent_run run_id (fail_executing ae (PStr RECOVERY_ERROR_MSG) (stored_step_results run_id w1)) w1
            in case fl_commit w2 of
                 (False, w3) \<Rightarrow> (Internal_error, fl_rollback w3)
               | (True, w3) \<Rightarrow>
                   (case record_agent_event (ae\<lparr>ae_flow := (ae_flow ae)\<lparr>fe_fail_closed := False\<rparr>\<rparr>) run_id ''RECOVERED''
                           (agent_event_trace (fe_ctx_trace_id (ae_flow ae)) (ar_correlation_id row) run_id) w3 of
                      (True, w4) \<Rightarrow> (Recovered run_id, w4)
                    | (False, w4) \<Rightarrow>
                        (case fl_draw w4 of
                           (True, w5) \<Rightarrow> (Recovered run_id, w5)
                         | (False, w5) \<Rightarrow> (Internal_error, fl_rollback w5))))"

section \<open>The scan\<close>

definition rows_older :: "recovery_env \<Rightarrow> string \<Rightarrow> int \<Rightarrow> agent_world \<Rightarrow> string list" where
  "rows_older env status minutes w =
     map fst (filter (\<lambda>(q, row). fw_status row = status \<and> rc_updated_at env q < rc_now env - minutes_us minutes)
       (fd_runs (working (fl_db w))))"

definition recover_flow_run :: "recovery_env \<Rightarrow> string \<Rightarrow> agent_world \<Rightarrow> agent_world" where
  "recover_flow_run env q w =
     (if Option.bind (run_of q w) fw_workflow_type = Some ''agent_execution'' then recover_agent_run env q w
      else recover_generic_run env q w)"

fun recover_all :: "recovery_env \<Rightarrow> string list \<Rightarrow> agent_world \<Rightarrow> nat \<times> agent_world" where
  "recover_all env [] w = (0, w)"
| "recover_all env (q # qs) w =
     (case fl_commit (recover_flow_run env q w) of
        (False, w1) \<Rightarrow> recover_all env qs (fl_rollback w1)
      | (True, w1) \<Rightarrow> (case recover_all env qs w1 of (n, w2) \<Rightarrow> (Suc n, w2)))"

definition DEAD_LETTER_STATUS :: string where
  "DEAD_LETTER_STATUS = ''dead_letter''"

definition dead_lettered_row :: "recovery_env \<Rightarrow> string \<Rightarrow> flow_row \<Rightarrow> flow_row" where
  "dead_lettered_row env reason row =
     row\<lparr>fw_status := DEAD_LETTER_STATUS, fw_dead_letter_reason := Some reason, fw_dead_lettered_at := Some (rc_now env),
         fw_waiting_for := None, fw_wait_deadline := None, fw_error_message := Some (Dead_lettered reason),
         fw_completed_at := Some (rc_now env)\<rparr>"

text \<open>\<open>None\<close>: the commit raised.\<close>

definition move_to_dead_letter :: "recovery_env \<Rightarrow> string \<Rightarrow> string \<Rightarrow> agent_world \<Rightarrow> bool option \<times> agent_world" where
  "move_to_dead_letter env q reason w =
     (if map_option fw_status (run_of q w) \<noteq> Some ''waiting'' then (Some False, w)
      else case fl_commit (edit_run q (dead_lettered_row env reason) w) of
             (True, w1) \<Rightarrow> (Some True, w1)
           | (False, w1) \<Rightarrow> (None, w1))"

fun dead_letter_all :: "recovery_env \<Rightarrow> string \<Rightarrow> string list \<Rightarrow> agent_world \<Rightarrow> nat \<times> agent_world" where
  "dead_letter_all env reason [] w = (0, w)"
| "dead_letter_all env reason (q # qs) w =
     (case move_to_dead_letter env q reason w of
        (None, w1) \<Rightarrow> dead_letter_all env reason qs (fl_rollback w1)
      | (Some moved, w1) \<Rightarrow>
          (case dead_letter_all env reason qs w1 of (n, w2) \<Rightarrow> (if moved then Suc n else n, w2)))"

definition wait_timeout_reason :: "recovery_env \<Rightarrow> string" where
  "wait_timeout_reason env =
     ''wait_timeout:'' @ str_of (rc_agent env) (PInt (fe_FLOW_WAIT_TIMEOUT_MINUTES (ae_flow (rc_agent env)))) @ ''m''"

definition scan_and_recover_stuck_runs ::
    "recovery_env \<Rightarrow> int option \<Rightarrow> bool \<Rightarrow> agent_world \<Rightarrow> (nat \<times> nat) \<times> agent_world" where
  "scan_and_recover_stuck_runs env staleness include_wait_timeouts w =
     (let minutes = (case staleness of None \<Rightarrow> rc_threshold_minutes env | Some m \<Rightarrow> m);
          stuck = rows_older env ''running'' minutes w;
          waits = (if include_wait_timeouts then rows_older env ''waiting'' (fe_FLOW_WAIT_TIMEOUT_MINUTES (ae_flow (rc_agent env))) w else [])
      in case recover_all env stuck w of
           (n, w1) \<Rightarrow>
             (case dead_letter_all env (wait_timeout_reason env) waits w1 of (k, w2) \<Rightarrow> ((n, k), w2)))"

record scan_result =
  sr_last_run_at :: time_us
  sr_recovered :: nat
  sr_dead_lettered :: nat
  sr_had_error :: bool

text \<open>The watchdog has a session of its own; the scan does not raise, and the event after it is not required.\<close>

definition watchdog_scan :: "recovery_env \<Rightarrow> agent_world \<Rightarrow> scan_result \<times> agent_world" where
  "watchdog_scan env w =
     (case scan_and_recover_stuck_runs env (Some (rc_threshold_minutes env)) True (fl_rollback w) of
        ((n, k), w1) \<Rightarrow>
          (\<lparr>sr_last_run_at = rc_now env, sr_recovered = n, sr_dead_lettered = k, sr_had_error = False\<rparr>,
           fl_rollback (snd (store_event ''watchdog.scan.completed'' (fe_ctx_trace_id (ae_flow (rc_agent env))) w1))))"

section \<open>What the recovery of a run changes\<close>

abbreviation stored_runs :: "agent_world \<Rightarrow> string \<Rightarrow> flow_row option" where
  "stored_runs w \<equiv> map_of (fd_runs (committed (fl_db w)))"

abbreviation stored_agents :: "agent_world \<Rightarrow> string \<Rightarrow> agent_run option" where
  "stored_agents w \<equiv> map_of (at_runs (fd_app (committed (fl_db w))))"

text \<open>The agent run that is recovered with a flow run.\<close>

definition recovery_link :: "string \<Rightarrow> agent_world \<Rightarrow> string option" where
  "recovery_link q w = (if Option.bind (run_of q w) fw_workflow_type = Some ''agent_execution'' then linked_agent_run q w else None)"

definition failed_with :: "recovery_env \<Rightarrow> string \<Rightarrow> agent_world \<Rightarrow> agent_run \<Rightarrow> agent_run" where
  "failed_with env i w = fail_executing (rc_agent env) (PStr RECOVERY_ERROR_MSG) (stored_step_results i w)"

lemma edit_run_reads [simp]:
  "tables (edit_run q f w) = tables w" "agent_run_of j (edit_run q f w) = agent_run_of j w"
  "run_of p (edit_run q f w) = (if p = q then map_option f (run_of q w) else run_of p w)"
  "fl_io (edit_run q f w) = fl_io w" "committed (fl_db (edit_run q f w)) = committed (fl_db w)"
  by (auto simp: edit_run_def fl_work_def flush_with_def tables_def run_of_def agent_run_of_def update_conv' split: option.split)

lemma edit_agent_reads [simp]:
  "run_of p (edit_agent_run i f w) = run_of p w" "at_steps (tables (edit_agent_run i f w)) = at_steps (tables w)"
  "agent_run_of j (edit_agent_run i f w) = (if j = i then map_option f (agent_run_of i w) else agent_run_of j w)"
  "fl_io (edit_agent_run i f w) = fl_io w" "committed (fl_db (edit_agent_run i f w)) = committed (fl_db w)"
  by (auto simp: edit_agent_run_def edit_tables_def fl_work_def flush_with_def tables_def run_of_def agent_run_of_def update_conv'
      split: option.split)

lemma links_update:
  assumes "map_of xs i = Some row" and "ar_flow_run_id row' = ar_flow_run_id row"
  shows "map_option fst (find (\<lambda>(i, row). ar_flow_run_id row = Some q) (AList.update i row' xs)) =
    map_option fst (find (\<lambda>(i, row). ar_flow_run_id row = Some q) xs)"
  using assms by (induction xs) auto

lemma linked_edit:
  "(\<And>row. ar_flow_run_id (f row) = ar_flow_run_id row) \<Longrightarrow> linked_agent_run q (edit_agent_run i f w) = linked_agent_run q w"
  by (auto simp: linked_agent_run_def edit_agent_run_def edit_tables_def fl_work_def flush_with_def tables_def links_update split: option.split)

lemma linked_run [simp]: "linked_agent_run q (edit_run p f w) = linked_agent_run q w"
  by (simp add: linked_agent_run_def)

lemma fail_executing_link [simp]: "ar_flow_run_id (fail_executing env msg res row) = ar_flow_run_id row"
  by (simp add: fail_executing_def)

lemma results_same: "at_steps (tables w1) = at_steps (tables w) \<Longrightarrow> stored_step_results i w1 = stored_step_results i w"
  by (simp add: stored_step_results_def)

lemma recover_flow_run_effect:
  "recover_flow_run env q w =
     (case recovery_link q w of
        None \<Rightarrow> edit_run q (recovered_row env) w
      | Some i \<Rightarrow> edit_agent_run i (failed_with env i w) (edit_run q (recovered_row env) w))"
  by (simp add: recover_flow_run_def recover_agent_run_def recover_generic_run_def recovery_link_def Let_def failed_with_def
      stored_step_results_def split: option.split)

lemma recovered_reads:
  fixes env q w
  defines "w1 \<equiv> recover_flow_run env q w"
  shows "run_of p w1 = (if p = q then map_option (recovered_row env) (run_of q w) else run_of p w)"
    and "agent_run_of i w1 = (if recovery_link q w = Some i then map_option (failed_with env i w) (agent_run_of i w) else agent_run_of i w)"
    and "at_steps (tables w1) = at_steps (tables w)" and "fl_io w1 = fl_io w" and "committed (fl_db w1) = committed (fl_db w)"
    and "recovery_link p w1 = recovery_link p w"
proof -
  have rows: "run_of p w1 = (if p = q then map_option (recovered_row env) (run_of q w) else run_of p w)" for p
    by (simp add: w1_def recover_flow_run_effect split: option.split)
  have "linked_agent_run p w1 = linked_agent_run p w"
    by (simp add: w1_def recover_flow_run_effect linked_edit failed_with_def split: option.split)
  moreover have "Option.bind (run_of p w1) fw_workflow_type = Option.bind (run_of p w) fw_workflow_type"
    by (cases "run_of p w") (auto simp: rows recovered_row_def)
  ultimately show "recovery_link p w1 = recovery_link p w"
    by (simp add: recovery_link_def)
  show "run_of p w1 = (if p = q then map_option (recovered_row env) (run_of q w) else run_of p w)" by (rule rows)
qed (auto simp: w1_def recover_flow_run_effect split: option.split)

section \<open>The scan\<close>

abbreviation run_keys :: "agent_world \<Rightarrow> string list" where
  "run_keys w \<equiv> map fst (fd_runs (working (fl_db w)))"

lemma edit_run_keys [simp]: "run_keys (edit_run q f w) = run_keys w" "run_keys (edit_agent_run i g w) = run_keys w"
  by (auto simp: edit_run_def edit_agent_run_def edit_tables_def fl_work_def flush_with_def update_keys map_of_eq_None_iff [symmetric]
      split: option.split)

lemma recovered_keys [simp]: "run_keys (recover_flow_run env q w) = run_keys w"
  by (simp add: recover_flow_run_effect split: option.split)

lemma committed_session:
  assumes "fl_commit w = (True, w1)"
  shows "stored w1" "working (fl_db w1) = working (fl_db w)" "fl_io w = [] \<Longrightarrow> fl_io w1 = []"
  using assms by (auto simp: fl_commit_def fl_draw_def commit_session_def split: list.splits bool.splits)

lemma failed_commit:
  assumes "fl_commit w = (False, w1)"
  shows "fl_io w \<noteq> []" "stored (fl_rollback w1)" "working (fl_db (fl_rollback w1)) = committed (fl_db w)"
  using assms by (auto simp: fl_commit_def fl_draw_def fl_rollback_def rollback_session_def split: list.splits bool.splits)

lemma same_working:
  assumes "working (fl_db w1) = working (fl_db w)"
  shows "run_of p w1 = run_of p w" "agent_run_of i w1 = agent_run_of i w" "tables w1 = tables w" "recovery_link q w1 = recovery_link q w"
  using assms by (simp_all add: run_of_def agent_run_of_def tables_def recovery_link_def linked_agent_run_def)

lemma failed_with_twice: "failed_with env i w (failed_with env i w row) = failed_with env i w row"
  by (simp add: failed_with_def fail_executing_def)

text \<open>The runs \<open>good\<close> were recovered, with their agents' runs, and nothing else changed.\<close>

definition recovers :: "recovery_env \<Rightarrow> string list \<Rightarrow> agent_world \<Rightarrow> agent_world \<Rightarrow> bool" where
  "recovers env good w w1 =
     (stored w1 \<and> run_keys w1 = run_keys w \<and> at_steps (tables w1) = at_steps (tables w) \<and>
      (\<forall>p. run_of p w1 = (if p \<in> set good then map_option (recovered_row env) (run_of p w) else run_of p w)) \<and>
      (\<forall>p. recovery_link p w1 = recovery_link p w) \<and>
      (\<forall>i. agent_run_of i w1 = (if \<exists>q \<in> set good. recovery_link q w = Some i then map_option (failed_with env i w) (agent_run_of i w)
                              else agent_run_of i w)))"

lemma recovers_more:
  assumes "recovers env good w2 w1" and "working (fl_db w2) = working (fl_db (recover_flow_run env q w))" and "q \<notin> set good"
  shows "recovers env (q # good) w w1"
proof -
  note same = same_working [OF assms(2)] and rec = recovered_reads [where env = env and q = q and w = w]
  have failed: "failed_with env i w2 = failed_with env i w" for i
    by (simp add: failed_with_def stored_step_results_def same(3) rec(3))
  have "agent_run_of i w1 = (if \<exists>p \<in> set (q # good). recovery_link p w = Some i then map_option (failed_with env i w) (agent_run_of i w)
      else agent_run_of i w)" for i
    using assms(1) by (auto simp: recovers_def same rec(2,6) failed option.map_comp comp_def failed_with_twice)
  then show ?thesis using assms by (auto simp: recovers_def same rec)
qed

lemma recover_all_effect:
  assumes "recover_all env qs w = (n, w1)" and "stored w" and "distinct qs"
  shows "\<exists>good. set good \<subseteq> set qs \<and> distinct good \<and> length good = n \<and> (fl_io w = [] \<longrightarrow> good = qs \<and> fl_io w1 = []) \<and> recovers env good w w1"
  using assms
proof (induction qs arbitrary: w n)
  case Nil
  then show ?case by (auto simp: recovers_def)
next
  case (Cons q qs)
  show ?case
  proof (cases "fl_commit (recover_flow_run env q w)")
    case (Pair ok w2)
    show ?thesis
    proof (cases ok)
      case True
      have "fl_commit (recover_flow_run env q w) = (True, w2)" using Pair True by simp
      note c = committed_session [OF this]
      obtain m where m: "recover_all env qs w2 = (m, w1)" "n = Suc m"
        using Cons.prems(1) Pair True by (auto split: prod.splits)
      then obtain good where good: "set good \<subseteq> set qs" "distinct good" "length good = m" "fl_io w2 = [] \<longrightarrow> good = qs \<and> fl_io w1 = []"
        "recovers env good w2 w1" using Cons.IH [OF m(1) c(1)] Cons.prems(3) by auto
      moreover have "q \<notin> set good" using good(1) Cons.prems(3) by auto
      ultimately show ?thesis using recovers_more [OF good(5) c(2)] c(3) m(2) Cons.prems(3)
        by (intro exI [of _ "q # good"]) (auto simp: recovered_reads(4))
    next
      case False
      have "fl_commit (recover_flow_run env q w) = (False, w2)" using Pair False by simp
      note c = failed_commit [OF this]
      have same: "working (fl_db (fl_rollback w2)) = working (fl_db w)" using c(3) Cons.prems(2) by (simp add: recovered_reads(5))
      have "recover_all env qs (fl_rollback w2) = (n, w1)" using Cons.prems(1) Pair False by simp
      then obtain good where "set good \<subseteq> set qs" "distinct good" "length good = n" "recovers env good (fl_rollback w2) w1"
        using Cons.IH [OF _ c(2)] Cons.prems(3) by auto
      then show ?thesis using c(1) same_working [OF same] same
        by (intro exI [of _ good]) (auto simp: recovers_def recovered_reads(4) failed_with_def stored_step_results_def)
    qed
  qed
qed

definition dead_letters :: "recovery_env \<Rightarrow> string \<Rightarrow> string list \<Rightarrow> agent_world \<Rightarrow> agent_world \<Rightarrow> bool" where
  "dead_letters env reason dead w w1 =
     (stored w1 \<and> run_keys w1 = run_keys w \<and> tables w1 = tables w \<and>
      (\<forall>p. run_of p w1 = (if p \<in> set dead then map_option (dead_lettered_row env reason) (run_of p w) else run_of p w)))"

definition waiting_in :: "agent_world \<Rightarrow> string \<Rightarrow> bool" where
  "waiting_in w q \<longleftrightarrow> map_option fw_status (run_of q w) = Some ''waiting''"

lemma dead_letter_all_effect:
  assumes "dead_letter_all env reason qs w = (k, w1)" and "stored w" and "distinct qs"
  shows "\<exists>dead. set dead \<subseteq> set (filter (waiting_in w) qs) \<and> distinct dead \<and> length dead = k \<and>
    (fl_io w = [] \<longrightarrow> dead = filter (waiting_in w) qs) \<and> dead_letters env reason dead w w1"
  using assms
proof (induction qs arbitrary: w k)
  case Nil
  then show ?case by (auto simp: dead_letters_def)
next
  case (Cons q qs)
  let ?w' = "edit_run q (dead_lettered_row env reason) w"
  consider (skipped) "\<not> waiting_in w q" | (moved) w2 where "waiting_in w q" "fl_commit ?w' = (True, w2)"
    | (raised) w2 where "waiting_in w q" "fl_commit ?w' = (False, w2)"
    by (metis (full_types) surj_pair)
  then show ?case
  proof cases
    case skipped
    then show ?thesis using Cons by (auto simp: move_to_dead_letter_def waiting_in_def split: prod.splits)
  next
    case moved
    note c = committed_session [OF moved(2)]
    note same = same_working [OF c(2)]
    obtain m where m: "dead_letter_all env reason qs w2 = (m, w1)" "k = Suc m"
      using Cons.prems(1) moved by (auto simp: move_to_dead_letter_def waiting_in_def split: prod.splits)
    have others: "filter (waiting_in w2) qs = filter (waiting_in w) qs" using Cons.prems(3) by (auto simp: same waiting_in_def intro!: filter_cong split: if_splits)
    obtain dead where dead: "set dead \<subseteq> set (filter (waiting_in w2) qs)" "distinct dead" "length dead = m"
      "fl_io w2 = [] \<longrightarrow> dead = filter (waiting_in w2) qs" "dead_letters env reason dead w2 w1"
      using Cons.IH [OF m(1) c(1)] Cons.prems(3) by auto
    have "q \<notin> set dead" using dead(1) Cons.prems(3) by auto
    moreover have "dead_letters env reason (q # dead) w w1"
      using dead(5) \<open>q \<notin> set dead\<close> c(2) by (auto simp: dead_letters_def same)
    ultimately show ?thesis using dead(1-4) [unfolded others] m(2) moved(1) c(3) Cons.prems(3)
      by (intro exI [of _ "q # dead"]) auto
  next
    case raised
    note c = failed_commit [OF raised(2)]
    have w: "working (fl_db (fl_rollback w2)) = working (fl_db w)" using c(3) Cons.prems(2) by simp
    note same = same_working [OF w]
    have "dead_letter_all env reason qs (fl_rollback w2) = (k, w1)" using Cons.prems(1) raised by (auto simp: move_to_dead_letter_def waiting_in_def)
    then obtain dead where "set dead \<subseteq> set (filter (waiting_in w) qs)" "distinct dead" "length dead = k"
      "dead_letters env reason dead (fl_rollback w2) w1" using Cons.IH [OF _ c(2)] Cons.prems(3) by (auto simp: same waiting_in_def)
    then show ?thesis using c(1) w by (intro exI [of _ dead]) (auto simp: dead_letters_def same)
  qed
qed

lemma rows_older_iff:
  assumes "distinct (run_keys w)"
  shows "q \<in> set (rows_older env status m w) \<longleftrightarrow>
    (\<exists>row. run_of q w = Some row \<and> fw_status row = status \<and> rc_updated_at env q < rc_now env - minutes_us m)"
  using assms by (force simp: rows_older_def run_of_def)

lemma rows_older_distinct: "distinct (run_keys w) \<Longrightarrow> distinct (rows_older env status m w)"
  by (simp add: rows_older_def distinct_map_filter)

text \<open>The waits a scan considers.\<close>

definition timed_out :: "recovery_env \<Rightarrow> bool \<Rightarrow> agent_world \<Rightarrow> string list" where
  "timed_out env include w =
     (if include then rows_older env ''waiting'' (fe_FLOW_WAIT_TIMEOUT_MINUTES (ae_flow (rc_agent env))) w else [])"

definition stuck_runs :: "recovery_env \<Rightarrow> int option \<Rightarrow> agent_world \<Rightarrow> string list" where
  "stuck_runs env staleness w =
     rows_older env ''running'' (case staleness of None \<Rightarrow> rc_threshold_minutes env | Some m \<Rightarrow> m) w"

lemma scan_effect:
  assumes "scan_and_recover_stuck_runs env staleness include w = ((n, k), w1)" and "stored w" and "distinct (run_keys w)"
  shows "\<exists>good dead w2. set good \<subseteq> set (stuck_runs env staleness w) \<and> set dead \<subseteq> set (timed_out env include w) \<and> distinct good \<and> distinct dead \<and>
    length good = n \<and> length dead = k \<and> recovers env good w w2 \<and> dead_letters env (wait_timeout_reason env) dead w2 w1 \<and>
    (fl_io w = [] \<longrightarrow> good = stuck_runs env staleness w \<and> dead = timed_out env include w)"
proof -
  obtain w2 where w2: "recover_all env (stuck_runs env staleness w) w = (n, w2)"
    and w1: "dead_letter_all env (wait_timeout_reason env) (timed_out env include w) w2 = (k, w1)"
    using assms(1) by (auto simp: scan_and_recover_stuck_runs_def stuck_runs_def timed_out_def Let_def split: prod.splits)
  have dist: "distinct (stuck_runs env staleness w)" "distinct (timed_out env include w)"
    using rows_older_distinct [OF assms(3)] by (simp_all add: stuck_runs_def timed_out_def)
  obtain good where good: "set good \<subseteq> set (stuck_runs env staleness w)" "distinct good" "length good = n"
    "fl_io w = [] \<longrightarrow> good = stuck_runs env staleness w \<and> fl_io w2 = []" and rec: "recovers env good w w2"
    using recover_all_effect [OF w2 assms(2) dist(1)] by blast
  have "waiting_in w2 q" if q: "q \<in> set (timed_out env include w)" for q
  proof -
    have "q \<notin> set good" "waiting_in w q"
      using q good(1) by (auto simp: timed_out_def stuck_runs_def rows_older_iff [OF assms(3)] waiting_in_def split: if_splits)
    then show ?thesis using rec by (simp add: recovers_def waiting_in_def)
  qed
  then have "filter (waiting_in w2) (timed_out env include w) = timed_out env include w" by simp
  moreover have "stored w2" using rec by (simp add: recovers_def)
  ultimately obtain dead where "set dead \<subseteq> set (timed_out env include w)" "distinct dead" "length dead = k"
    "fl_io w2 = [] \<longrightarrow> dead = timed_out env include w" "dead_letters env (wait_timeout_reason env) dead w2 w1"
    using dead_letter_all_effect [OF w1 _ dist(2)] by auto
  then show ?thesis using good rec by blast
qed

text \<open>
  C12. Crash recovery is atomic, exact and complete. A scan, whichever of its commits fail, recovers some of the
  runs that have been running for too long and closes some of the waits that timed out: it counts both
  rightly; an agent's run is failed, with the results of its stored steps, exactly when it executes and
  is linked to a recovered flow; every other stored row of a flow or an agent is as before. When no commit
  fails these are all runs and all waits of that age.
\<close>

theorem crash_recovery_exact:
  assumes "scan_and_recover_stuck_runs env staleness include w = ((n, k), w1)" and "stored w" and "distinct (run_keys w)"
  shows "\<exists>good dead. set good \<subseteq> set (stuck_runs env staleness w) \<and> set dead \<subseteq> set (timed_out env include w) \<and>
    n = card (set good) \<and> k = card (set dead) \<and>
    (fl_io w = [] \<longrightarrow> good = stuck_runs env staleness w \<and> dead = timed_out env include w) \<and>
    (\<forall>p. stored_runs w1 p =
       (if p \<in> set good then map_option (recovered_row env) (stored_runs w p)
        else if p \<in> set dead then map_option (dead_lettered_row env (wait_timeout_reason env)) (stored_runs w p)
        else stored_runs w p)) \<and>
    (\<forall>i. stored_agents w1 i =
       (if \<exists>q \<in> set good. recovery_link q w = Some i then map_option (failed_with env i w) (stored_agents w i) else stored_agents w i))"
proof -
  obtain good dead w2 where sub: "set good \<subseteq> set (stuck_runs env staleness w)" "set dead \<subseteq> set (timed_out env include w)"
    and count: "n = card (set good)" "k = card (set dead)"
    and all: "fl_io w = [] \<longrightarrow> good = stuck_runs env staleness w \<and> dead = timed_out env include w"
    and eff: "recovers env good w w2" "dead_letters env (wait_timeout_reason env) dead w2 w1"
    using scan_effect [OF assms] by (metis distinct_card)
  have apart: "q \<notin> set good" if "q \<in> set dead" for q
    using that sub by (fastforce simp: timed_out_def stuck_runs_def rows_older_iff [OF assms(3)] split: if_splits)
  have rows: "run_of p w2 = (if p \<in> set good then map_option (recovered_row env) (run_of p w) else run_of p w)"
    "run_of p w1 = (if p \<in> set dead then map_option (dead_lettered_row env (wait_timeout_reason env)) (run_of p w2) else run_of p w2)"
    "agent_run_of i w2 = (if \<exists>q \<in> set good. recovery_link q w = Some i then map_option (failed_with env i w) (agent_run_of i w)
      else agent_run_of i w)" for p i
    using eff unfolding recovers_def dead_letters_def by blast+
  have "tables w1 = tables w2" and w1: "stored w1" using eff(2) unfolding dead_letters_def by blast+
  then have agents: "stored_agents w1 i = agent_run_of i w2" "stored_agents w i = agent_run_of i w" for i
    using assms(2) by (metis agent_run_of_def tables_def)+
  have runs: "stored_runs w p = run_of p w" "stored_runs w1 p = run_of p w1" for p
    using assms(2) w1 by (simp_all add: run_of_def)
  show ?thesis using sub count all apart by (intro exI [of _ good] exI [of _ dead]) (simp add: runs agents rows)
qed

text \<open>A crash left \<open>r1\<close> executing under the flow run \<open>f1\<close>; \<open>f2\<close> waits for an event that never came, and \<open>f3\<close> is young.\<close>

definition crashed_row :: "string option \<Rightarrow> string \<Rightarrow> flow_row" where
  "crashed_row workflow status =
     \<lparr>fw_flow_name = ''flow'', fw_workflow_type = workflow, fw_state = [], fw_current_node = ''n'', fw_status = status,
      fw_waiting_for = (if status = ''waiting'' then Some ''e'' else None), fw_wait_deadline = None, fw_trace_id = None,
      fw_user_id = Some ''u1'', fw_job_log_id = None, fw_error_message = None, fw_error_detail = None, fw_completed_at = None,
      fw_dead_letter_reason = None, fw_dead_lettered_at = None\<rparr>"

definition crashed_world :: agent_world where
  "crashed_world = (sample_agent_world [])
     \<lparr>fl_db := open_session
        \<lparr>fd_runs = [(''f1'', crashed_row (Some ''agent_execution'') ''running''), (''f2'', crashed_row None ''waiting''),
                    (''f3'', crashed_row None ''running'')],
         fd_history = [], fd_outcomes = [], fd_units = [], fd_events = [],
         fd_app = sample_tables\<lparr>at_runs := [(''r1'', sample_agent_run\<lparr>ar_status := ''executing'', ar_flow_run_id := Some ''f1''\<rparr>)]\<rparr>\<rparr>\<rparr>"

definition sample_recovery_env :: recovery_env where
  "sample_recovery_env =
     \<lparr>rc_agent = sample_agent_env, rc_updated_at = (\<lambda>q. if q = ''f3'' then 0 else - 3000000000), rc_threshold_minutes = 45\<rparr>"

theorem crash_recovery_exact_witness:
  "\<exists>w1. scan_and_recover_stuck_runs sample_recovery_env None True crashed_world = ((1, 1), w1) \<and>
    map_option fw_status (stored_runs w1 ''f1'') = Some ''failed'' \<and> map_option fw_status (stored_runs w1 ''f2'') = Some ''dead_letter'' \<and>
    stored_runs w1 ''f3'' = stored_runs crashed_world ''f3'' \<and> map_option ar_status (stored_agents w1 ''r1'') = Some ''failed''"
proof -
  define w1 where "w1 = snd (scan_and_recover_stuck_runs sample_recovery_env None True crashed_world)"
  have "fst (scan_and_recover_stuck_runs sample_recovery_env None True crashed_world) = (1, 1)" by code_simp
  then have scan: "scan_and_recover_stuck_runs sample_recovery_env None True crashed_world = ((1, 1), w1)" by (simp add: w1_def prod_eq_iff)
  have w: "stored crashed_world" "distinct (run_keys crashed_world)" "fl_io crashed_world = []"
    by (simp_all add: crashed_world_def open_session_def sample_agent_world_def)
  have old: "stuck_runs sample_recovery_env None crashed_world = [''f1'']" "timed_out sample_recovery_env True crashed_world = [''f2'']"
    "recovery_link ''f1'' crashed_world = Some ''r1''" by code_simp+
  have rows: "map_option (fw_status \<circ> recovered_row sample_recovery_env) (stored_runs crashed_world ''f1'') = Some ''failed''"
    "map_option (fw_status \<circ> dead_lettered_row sample_recovery_env (wait_timeout_reason sample_recovery_env)) (stored_runs crashed_world ''f2'') =
      Some ''dead_letter''"
    "map_option (ar_status \<circ> failed_with sample_recovery_env ''r1'' crashed_world) (stored_agents crashed_world ''r1'') = Some ''failed''"
    by code_simp+
  from crash_recovery_exact [OF scan w(1,2)] show ?thesis using scan w(3) old rows by (auto simp: option.map_comp)
qed

text \<open>
  The scan is idempotent: when its commits succeed, a second scan finds nothing and changes nothing.
\<close>

theorem scan_idempotent:
  assumes "scan_and_recover_stuck_runs env staleness include w = (counts, w1)" and "stored w" and "distinct (run_keys w)" and "fl_io w = []"
  shows "scan_and_recover_stuck_runs env staleness include w1 = ((0, 0), w1)"
proof -
  obtain n k where "scan_and_recover_stuck_runs env staleness include w = ((n, k), w1)" using assms(1) by (cases counts) auto
  from scan_effect [OF this assms(2,3)] obtain w2 where
    eff: "recovers env (stuck_runs env staleness w) w w2" "dead_letters env (wait_timeout_reason env) (timed_out env include w) w2 w1"
    using assms(4) by blast
  have "run_keys w1 = run_keys w" using eff unfolding recovers_def dead_letters_def by (blast intro: trans)
  then have keys: "distinct (run_keys w1)" using assms(3) by metis
  have rows: "run_of p w2 = (if p \<in> set (stuck_runs env staleness w) then map_option (recovered_row env) (run_of p w) else run_of p w)"
    "run_of p w1 = (if p \<in> set (timed_out env include w) then map_option (dead_lettered_row env (wait_timeout_reason env)) (run_of p w2)
      else run_of p w2)" for p
    using eff unfolding recovers_def dead_letters_def by blast+
  have "run_of q w1 = Some row \<Longrightarrow> fw_status row \<noteq> ''running'' \<or> run_of q w = Some row \<and> q \<notin> set (stuck_runs env staleness w)" for q row
    by (auto simp: rows recovered_row_def dead_lettered_row_def DEAD_LETTER_STATUS_def split: if_splits)
  then have "q \<notin> set (stuck_runs env staleness w1)" for q
    unfolding stuck_runs_def rows_older_iff [OF keys] rows_older_iff [OF assms(3)] by blast
  then have none: "stuck_runs env staleness w1 = []" by (meson list.set_sel(1))
  have "run_of q w1 = Some row \<Longrightarrow> fw_status row \<noteq> ''waiting'' \<or> run_of q w = Some row \<and> q \<notin> set (timed_out env include w)" for q row
    by (auto simp: rows recovered_row_def dead_lettered_row_def DEAD_LETTER_STATUS_def split: if_splits)
  then have "q \<notin> set (timed_out env include w1)" for q
    by (cases "include") (auto simp: timed_out_def rows_older_iff [OF keys] rows_older_iff [OF assms(3)])
  then have "timed_out env include w1 = []" by (meson list.set_sel(1))
  with none show ?thesis by (simp add: scan_and_recover_stuck_runs_def stuck_runs_def timed_out_def Let_def)
qed

section \<open>Manual recovery\<close>

lemma draw_db: "fl_draw w = (b, w1) \<Longrightarrow> fl_db w1 = fl_db w"
  by (auto simp: fl_draw_def split: list.splits)

lemma commit_db: "fl_commit w = (b, w1) \<Longrightarrow> fl_db w1 = (if b then commit_session (fl_db w) else fl_db w)"
  by (auto simp: fl_commit_def fl_draw_def split: list.splits bool.splits)

lemma record_agents:
  assumes "record_agent_event env r ty trace w = (b, w1)" and "stored w"
  shows "stored_agents w1 = stored_agents w"
  using assms
  by (auto simp: record_agent_event_def flow_event_def store_event_def fl_work_def flush_with_def edit_tables_def fl_rollback_def
      commit_session_def rollback_session_def split: prod.splits sum.splits bool.splits if_splits dest!: commit_db)

text \<open>
  A user recovers only runs of their own that execute, and that started long enough ago unless it is
  forced; the run is failed with the results of its stored steps. Every other reply leaves the stored
  runs of agents as they were, and so does a recovery whose commit fails.
\<close>

theorem manual_recovery_guarded:
  assumes "recover_stuck_agent_run env r u force w = (reply, w1)" and "stored w" and "stored_agents w1 \<noteq> stored_agents w"
  shows "\<exists>row. stored_agents w r = Some row \<and> ar_user_id row = u \<and> ar_status row = ''executing'' \<and>
    (force \<or> (\<forall>t. ar_started_at row = Some t \<longrightarrow> minutes_us (rc_threshold_minutes env) \<le> rc_now env - t)) \<and>
    stored_agents w1 = (stored_agents w)(r \<mapsto> failed_with env r w row)"
proof -
  obtain row where row: "agent_run_of r w = Some row" "ar_user_id row = u" "ar_status row = ''executing''"
    "force \<or> (\<forall>t. ar_started_at row = Some t \<longrightarrow> minutes_us (rc_threshold_minutes env) \<le> rc_now env - t)"
    using assms(1,3) by (auto simp: recover_stuck_agent_run_def Let_def split: option.splits if_splits)
  define w0 where "w0 = (case ar_flow_run_id row of None \<Rightarrow> w | Some q \<Rightarrow> if q = [] then w
    else edit_run q (\<lambda>x. if fw_status x = ''running'' then recovered_row env x else x) w)"
  have w0: "tables w0 = tables w" "committed (fl_db w0) = committed (fl_db w)" by (simp_all add: w0_def split: option.split)
  define w2 where "w2 = edit_agent_run r (failed_with env r w) w0"
  have agents: "agent_run_of j w2 = (if j = r then Some (failed_with env r w row) else stored_agents w j)" for j
    using row(1) w0(1) assms(2) by (simp add: w2_def agent_run_of_def [of _ w0]) (simp add: agent_run_of_def tables_def)
  have failed: "fail_executing (rc_agent env) (PStr RECOVERY_ERROR_MSG) (stored_step_results r w0) = failed_with env r w"
    by (simp add: failed_with_def stored_step_results_def w0(1))
  have "\<not> (\<not> force \<and> (case ar_started_at row of None \<Rightarrow> False | Some t \<Rightarrow> rc_now env - t < minutes_us (rc_threshold_minutes env)))"
    using row(4) by (auto split: option.splits)
  note run = assms(1) [unfolded recover_stuck_agent_run_def Let_def row(1) option.case row(2,3) w0_def [symmetric] failed w2_def [symmetric]
      if_not_P [OF this]]
  obtain ok w3 where c: "fl_commit w2 = (ok, w3)" by (cases "fl_commit w2")
  have rest: "if ok then stored_agents w1 = stored_agents w3 else w1 = fl_rollback w3"
    using run c committed_session(1) [of w2 w3]
    by (auto simp: fl_rollback_def rollback_session_def split: prod.splits bool.splits dest!: record_agents draw_db)
  have ok
    using assms(3) rest commit_db [OF c] w0(2) by (auto simp: fl_rollback_def rollback_session_def w2_def)
  then have "stored_agents w1 = (\<lambda>j. agent_run_of j w2)"
    using rest commit_db [OF c] by (simp add: commit_session_def agent_run_of_def tables_def fun_eq_iff)
  then have "stored_agents w1 = (stored_agents w)(r \<mapsto> failed_with env r w row)" by (simp add: agents fun_eq_iff)
  moreover have "stored_agents w r = Some row" using row(1) assms(2) by (simp add: agent_run_of_def tables_def)
  ultimately show ?thesis using row(2-4) by blast
qed

end
