(* ===== verification/Spec2Isabelle.thy ===== *)
theory Spec2Isabelle
  imports Circuit_Breaker Tenant_Context Syscall_Versioning Syscall_Registry Resource_Manager
    Syscall_Dispatcher Retry_Policy Wait_Condition Execution_Unit Scheduler_Queue Scheduler_Waits
    Scheduler_Recovery Scheduler_Dispatch Memory_Address Redis_Queue Worker_Safety
    Flow_Slots Agent_Approval Stuck_Runs
begin

text \<open>
  A verification library for the kernel of the A.I.N.D.Y. runtime (\<^verbatim>\<open>src/AINDY\<close>).

  The runtime executes work on behalf of tenants. Flows, agents and scripts reach the system only by
  \<^emph>\<open>syscalls\<close>: names such as \<^verbatim>\<open>sys.v1.memory.read\<close> that the dispatcher resolves in a versioned
  registry, guards by capability, tenant, quota and payload schema, and hands to a handler. A
  resource manager counts the running executions of each tenant and the usage of each execution; a
  circuit breaker protects the calls to model providers. A piece of work is an \<^emph>\<open>execution unit\<close>, a
  row whose status follows a state machine. Work that has to wait is registered with the scheduler
  under an event or a time; when that comes, the scheduler puts it into one of three priority
  queues, from which its cycle dispatches it, subject to the tenant's concurrency limit. Waits are
  backed up in a database table and in a registry shared by all instances, and a restarted process
  rebuilds them. Work that is not waited for is a \<^emph>\<open>job\<close>: a row that a thread pool, or a worker process
  behind a shared queue, executes and retries. A \<^emph>\<open>flow\<close> is a graph of nodes that a runner executes one
  by one, with a checkpoint after each. An \<^emph>\<open>agent\<close> run is a plan of tool calls; once it is approved it gets
  a token that names its tools, and a flow executes it step by step. Memory is addressed by paths that
  start with the tenant.

  Theories and sources:
  \<^item> \<open>Prelude\<close>: Python values, strings and dictionaries; database sessions (flush, commit, close);
    the interfaces \<open>machine\<close> (a step function that keeps an invariant) and \<open>keyed_store\<close> (lookup after
    update and delete), the latter interpreted on association lists, which model \<open>dict\<close> with its
    insertion order.
  \<^item> \<open>Circuit_Breaker\<close>: \<^verbatim>\<open>kernel/circuit_breaker.py\<close>. One record per breaker; the time is an argument.
    A step relation interleaves the three critical sections of concurrent calls. Shown: a single
    probe when half open, tripping after consecutive failures, the contract of one call.
  \<^item> \<open>Tenant_Context\<close>: \<^verbatim>\<open>kernel/tenant_context.py\<close>. Shown: the namespaces of two tenants are disjoint.
  \<^item> \<open>Syscall_Versioning\<close>: \<^verbatim>\<open>kernel/syscall_versioning.py\<close>. Shown: name parsing is exact, payload
    validation is sound, complete and monotone.
  \<^item> \<open>Syscall_Registry\<close>: \<^verbatim>\<open>kernel/syscall_registry.py\<close>, the registry and not the built-in handlers.
    Shown: its two views agree after every history.
  \<^item> \<open>Resource_Manager\<close>: \<^verbatim>\<open>kernel/resource_manager.py\<close>; the contract of its concurrency counter is
    the locale \<open>tenant_counter\<close>, interpreted for the local and for the shared counter. Shown: the
    counter refines the multiset of running executions, the admission bound, when the capacity event
    is published, and how an outage leaks slots.
  \<^item> \<open>Syscall_Dispatcher\<close>: \<^verbatim>\<open>kernel/syscall_dispatcher.py\<close>. Shown: when a dispatch succeeds, that a
    refused one is inert, trace propagation, the syscall budget.
  \<^item> \<open>Retry_Policy\<close>: \<^verbatim>\<open>core/retry_policy.py\<close>. \<open>Wait_Condition\<close>: \<^verbatim>\<open>core/wait_condition.py\<close>.
  \<^item> \<open>Execution_Unit\<close>: \<^verbatim>\<open>core/execution_unit_service.py\<close> over the table of units. Shown: the status
    machine over every history, and what a resume does on every branch.
  \<^item> \<open>Scheduler_Queue\<close>: \<^verbatim>\<open>kernel/scheduler/core.py\<close> and \<^verbatim>\<open>common.py\<close>; the contract of the queue is the
    locale \<open>item_queue\<close>. Shown: fairness between tenants, and its failure within one.
  \<^item> \<open>Scheduler_Waits\<close>: \<^verbatim>\<open>kernel/scheduler/waits.py\<close>, \<^verbatim>\<open>cross_instance.py\<close>, \<^verbatim>\<open>persistence.py\<close>,
    \<^verbatim>\<open>kernel/resume_spec.py\<close>, \<^verbatim>\<open>redis_wait_registry.py\<close>, \<^verbatim>\<open>event_bus.py\<close>. Shown: which waits an event and
    a tick resume, exclusive claims across instances, the replay of early events.
  \<^item> \<open>Scheduler_Recovery\<close>: \<^verbatim>\<open>core/wait_rehydration.py\<close>, \<^verbatim>\<open>core/flow_run_rehydration.py\<close>,
    \<^verbatim>\<open>kernel/scheduler/recovery.py\<close>, and what the registered callbacks do to the database. Shown: no
    resumable run is lost in a restart, and a flow is claimed once.
  \<^item> \<open>Scheduler_Dispatch\<close>: \<^verbatim>\<open>kernel/scheduler/dispatch.py\<close>. Shown: a cycle ends and conserves items.
  \<^item> \<open>Memory_Address\<close>: \<^verbatim>\<open>memory/memory_address_space.py\<close>. Shown: building and parsing are inverse, and
    no write leaves its tenant.
  \<^item> \<open>Distributed_Queue\<close>: \<^verbatim>\<open>core/distributed_queue.py\<close>, the Redis and the in-process backend and the
    choice between them. Each attempt of a Redis command is drawn from a list of faults (done, lost,
    reply lost, broken connection). \<open>Queue_Contract\<close>: the abstract job queue as the locale \<open>job_queue\<close>,
    interpreted for the in-process backend there and for Redis in \<open>Redis_Queue\<close>. Shown: no history
    loses or doubles a job while no fault occurs, the capacity holds under every fault, and which
    faults lose and double jobs.
  \<^item> \<open>Job_Store\<close>: the job rows and the emission of system events (\<^verbatim>\<open>core/system_event_service.py\<close>), which
    commits or rolls back its caller's session. \<open>Execution_Dispatcher\<close>: \<^verbatim>\<open>core/execution_dispatcher.py\<close>.
    \<open>Async_Job\<close>: \<^verbatim>\<open>platform_layer/async_job_service.py\<close>, submission, execution, retry, deferral and clean-up.
    \<open>Worker_Loop\<close>: \<^verbatim>\<open>worker/worker_loop.py\<close>.
  \<^item> \<open>Job_Lifecycle\<close>: what one execution of a job does to its row. Shown: retries are bounded where they
    are counted, and where they are not. \<open>Job_Invariant\<close>: the locale \<open>log_invariant\<close>, a property of the
    job table that every operation keeps, interpreted for the domain of statuses and for the growth
    of the table. Shown: the status domain over every history, the admission cap. \<open>Worker_Safety\<close>:
    the claim of a job is exclusive, a worker does to a job what the pool does, and a crashed job is
    not run again.
  \<^item> \<open>Flow_Store\<close>, \<open>Flow_Engine\<close>: \<^verbatim>\<open>runtime/flow_engine\<close>, the rows and responses, the runner, the event
    router and the entry points; \<open>Flow_Samples\<close> has the small runs of the witnesses. \<open>Flow_Runs\<close>: the
    locales \<open>flow_records\<close>, \<open>flow_rows\<close> and \<open>flow_frame\<close>, properties of the database by what they survive,
    interpreted for the row of a run, its history and the other runs. Shown: a response agrees with the
    stored row, and runs are isolated. \<open>Flow_Progress\<close>: acyclic flows end, checkpoints are enough to
    resume, the history is a walk along the graph. \<open>Flow_Plans\<close>: a plan runs in order, a cycle does not
    end. \<open>Flow_Slots\<close>: how a run takes and gives back the slot of its tenant.
  \<^item> \<open>Capability_Registry\<close>: what applications register for agents in \<^verbatim>\<open>platform_layer/registry.py\<close>. Shown:
    applying the providers at every lookup changes nothing after the first. \<open>Agent_Store\<close>: the tables of
    agents inside the flow engine's database. \<open>Capability_Service\<close>: \<^verbatim>\<open>agents/capability_service.py\<close> and the
    tool boundary of \<^verbatim>\<open>agents/tool_registry.py\<close>; \<open>Agent_Samples\<close> has what the witnesses evaluate.
    \<open>Capability_Tokens\<close>: the verdict on a minted token, the privileges of an automatic approval, the
    fail-closed boundary, and the forgery that a hash without a key admits.
  \<^item> \<open>Agent_Flow\<close>: \<^verbatim>\<open>runtime/nodus_adapter.py\<close>, the nodes and the graph by which the flow engine executes the
    plan of an agent, and the orchestration of \<^verbatim>\<open>runtime/nodus_execution_service.py\<close> around it, as an
    instance of the model of the engine. \<open>Agent_Execution\<close>: what the engine keeps of the log of tool calls
    (\<open>fl_ext\<close>), that the agent flow ends although its graph has a cycle, and how often a step calls its
    tool. \<open>Agent_Completion\<close>: on a database that accepts every write a granted plan is carried out in order;
    a parked flow fails its run.
  \<^item> \<open>Agent_Runtime\<close>: \<^verbatim>\<open>agents/agent_runtime\<close> and the delegation of \<^verbatim>\<open>agents/agent_coordinator.py\<close>, creation,
    approval, rejection, execution and replay of runs. \<open>Agent_Lifecycle\<close>: every operation ends, decisions are
    final, the risk of a plan covers its steps. \<open>Agent_Approval\<close>: an approval is carried out, from the token
    to the last step row; nothing else calls tools; only trust approves automatically.
  \<^item> \<open>Stuck_Runs\<close>: \<^verbatim>\<open>agents/stuck_run_service.py\<close>, \<^verbatim>\<open>dead_letter_service.py\<close> and \<^verbatim>\<open>stuck_run_watchdog.py\<close>, the
    recovery of what a crash leaves behind. Shown: recovery is atomic, exact, complete when no commit
    fails, and idempotent; a manual recovery is limited to the owner's old executing runs.

  Conventions. A class is a record and a method a function of it; a raise is the left of a sum or
  \<open>Some\<close> of an error; the clock, random numbers, fresh identifiers, the reachability of Redis and of
  the database and every other input of a call are arguments or an environment record. Callbacks are
  a datatype of what they capture, so that they can be stored and compared; their effect is a
  function in \<open>Scheduler_Recovery\<close>. An operation that the code runs under its lock is one step; where
  the lock is released in between, as in the circuit breaker, the parts are separate steps. Stored
  times are represented by what \<^verbatim>\<open>datetime.fromisoformat\<close> reads in them.

  Termination. Loops are total functions but for two. The scheduling loop terminates by the number of items
  it may still process and then by the skips left before it has seen the whole queue; only the walk
  of a memory tree, which loops on a cyclic one, and the loop of the flow runner, which has no bound of
  its own, are \<open>partial_function\<close>s. The walk is shown to return on every tree that \<open>build_tree\<close> makes, the
  runner on every flow without a cycle, on the agent flow, whose cycle counts its steps, and on no flow
  that stays in a cycle. No fuel is used.

  Not modelled: log lines and metrics; expiry of Redis keys; the built-in syscall handlers, the nodes of
  flows, the handlers of jobs, tools, scripts and provider clients, which appear as function parameters
  where the modelled code calls them; the planner's model call, the recall of memories and the ranking of
  agents, whose scores are floating-point numbers (their answers are parameters); the scripting
  language, a package outside the sources; memory persistence and scoring, which are SQL queries and
  floating-point arithmetic; HTTP routes, start-up, the watcher, the client library and the
  applications.
\<close>

end
